(* ===== verification/Prelude.thy ===== *)
theory Prelude
  imports Main "HOL-Library.AList" "HOL-Library.Char_ord" "HOL-Library.List_Lexorder"
    "HOL-Library.Multiset"
begin

text \<open>
  The part of the JavaScript language and of its standard library that the modelled
  front-end code uses, with the lemmas the components share.

  \<^item> A JS string is a \<open>string\<close>: a list of UTF-16 code units below 256. Every operation
    below is exact on that subset (trimming, case mapping, searching, slicing,
    percent-encoding). Text that needs larger code units (the ellipsis, native digits,
    month names) is a \<open>ustring\<close>, a list of code units as numbers.
  \<^item> \<open>null\<close> and \<open>undefined\<close> are \<open>None\<close>; a JS \<open>Set\<close> is a distinct list in insertion
    order, a JS \<open>Map\<close> an association list in insertion order.
  \<^item> \<open>Array.prototype.sort\<close> is \<open>js_sort\<close>, the stable sort by a comparator; what it
    guarantees for a consistent comparator is proved once, in the locale
    \<open>js_comparator\<close>.
\<close>

named_theorems js_simps \<open>unfolding rules of the JS library operations\<close>
named_theorems qkey_simps \<open>unfolding rules of the query keys\<close>

type_synonym ustring = "nat list"

section \<open>Strings\<close>

definition ucode :: "char \<Rightarrow> nat" where
  "ucode c = of_char c"

definition codes :: "string \<Rightarrow> ustring" where
  "codes s = map ucode s"

text \<open>ECMAScript white space and line terminators, below 256.\<close>

definition is_js_space :: "char \<Rightarrow> bool" where
  "is_js_space c \<longleftrightarrow> (let n = ucode c in (9 \<le> n \<and> n \<le> 13) \<or> n = 32 \<or> n = 160)"

definition trim_start :: "string \<Rightarrow> string" where
  "trim_start s = dropWhile is_js_space s"

definition trim_end :: "string \<Rightarrow> string" where
  "trim_end s = rev (dropWhile is_js_space (rev s))"

definition trim :: "string \<Rightarrow> string" where
  "trim s = trim_end (trim_start s)"

definition lower_char :: "char \<Rightarrow> char" where
  "lower_char c =
     (let n = ucode c in
      if (65 \<le> n \<and> n \<le> 90) \<or> (192 \<le> n \<and> n \<le> 214) \<or> (216 \<le> n \<and> n \<le> 222)
      then char_of (n + 32) else c)"

definition to_lower :: "string \<Rightarrow> string" where
  "to_lower s = map lower_char s"

text \<open>
  \<open>toUpperCase\<close> of one code unit: the sharp s becomes two letters. The two code units
  whose upper case lies above 255 (micro sign, y with diaeresis) are left unchanged.
\<close>

definition upper_char :: "char \<Rightarrow> string" where
  "upper_char c =
     (let n = ucode c in
      if (97 \<le> n \<and> n \<le> 122) \<or> (224 \<le> n \<and> n \<le> 246) \<or> (248 \<le> n \<and> n \<le> 254)
      then [char_of (n - 32)]
      else if n = 223 then ''SS'' else [c])"

definition capitalize :: "string \<Rightarrow> string" where
  "capitalize s = (case s of [] \<Rightarrow> [] | c # cs \<Rightarrow> upper_char c @ cs)"

definition starts_with :: "'a list \<Rightarrow> 'a list \<Rightarrow> bool" where
  "starts_with s p \<longleftrightarrow> take (length p) s = p"

fun contains :: "'a list \<Rightarrow> 'a list \<Rightarrow> bool" where
  "contains [] q = (q = [])"
| "contains (x # xs) q = (starts_with (x # xs) q \<or> contains xs q)"

definition slice :: "nat \<Rightarrow> nat \<Rightarrow> 'a list \<Rightarrow> 'a list" where
  "slice a b xs = take (b - a) (drop a xs)"

fun split_on :: "'a \<Rightarrow> 'a list \<Rightarrow> 'a list list" where
  "split_on c [] = [[]]"
| "split_on c (x # xs) =
     (if x = c then [] # split_on c xs
      else case split_on c xs of [] \<Rightarrow> [[x]] | w # ws \<Rightarrow> (x # w) # ws)"

fun join :: "'a list \<Rightarrow> 'a list list \<Rightarrow> 'a list" where
  "join sep [] = []"
| "join sep [w] = w"
| "join sep (w # ws) = w @ sep @ join sep ws"

text \<open>\<open>replace(/[_-]+/g, " ")\<close>: a run of separators becomes one blank.\<close>

definition is_sep :: "char \<Rightarrow> bool" where
  "is_sep c \<longleftrightarrow> c = CHR ''_'' \<or> c = CHR ''-''"

fun blank_seps :: "string \<Rightarrow> string" where
  "blank_seps [] = []"
| "blank_seps (c # cs) =
     (if is_sep c
      then (case cs of [] \<Rightarrow> '' '' | d # _ \<Rightarrow> if is_sep d then blank_seps cs else CHR '' '' # blank_seps cs)
      else c # blank_seps cs)"

text \<open>\<open>split(/\s+/)\<close> of a string: white-space runs separate, the ends give empty pieces.\<close>

fun split_ws :: "string \<Rightarrow> string list" where
  "split_ws [] = [[]]"
| "split_ws (c # cs) =
     (if is_js_space c
      then (case cs of [] \<Rightarrow> [[], []] | d # _ \<Rightarrow> if is_js_space d then split_ws cs else [] # split_ws cs)
      else (case split_ws cs of [] \<Rightarrow> [[c]] | w # ws \<Rightarrow> (c # w) # ws))"

text \<open>\<open>a || b\<close> on optional strings, \<open>a ?? b\<close> on options, and truthiness.\<close>

definition truthy :: "string option \<Rightarrow> bool" where
  "truthy s \<longleftrightarrow> (case s of None \<Rightarrow> False | Some t \<Rightarrow> t \<noteq> [])"

definition or_else :: "string option \<Rightarrow> string \<Rightarrow> string" where
  "or_else s d = (case s of None \<Rightarrow> d | Some t \<Rightarrow> if t = [] then d else t)"

definition or_undefined :: "string \<Rightarrow> string option" where
  "or_undefined s = (if s = [] then None else Some s)"

definition nullish :: "'a option \<Rightarrow> 'a \<Rightarrow> 'a" where
  "nullish x d = (case x of None \<Rightarrow> d | Some v \<Rightarrow> v)"

subsection \<open>Decimal rendering of a natural number\<close>

definition digit_char :: "nat \<Rightarrow> char" where
  "digit_char d = char_of (48 + d)"

fun show_nat :: "nat \<Rightarrow> string" where
  "show_nat n = (if n < 10 then [digit_char n] else show_nat (n div 10) @ [digit_char (n mod 10)])"

declare show_nat.simps [simp del]

definition show_int :: "int \<Rightarrow> string" where
  "show_int i = (if i < 0 then ''-'' @ show_nat (nat (- i)) else show_nat (nat i))"

definition pad2 :: "nat \<Rightarrow> string" where
  "pad2 n = (let s = show_nat n in if length s < 2 then CHR ''0'' # s else s)"

subsection \<open>Percent-encoding\<close>

text \<open>
  \<open>encodeURIComponent\<close>: letters, digits and \<open>- _ . ! ~ * ' ( )\<close> are kept; any other code
  unit is written as the percent-encoded bytes of its UTF-8 form (one byte below 128, two
  from 128 to 255).
\<close>

definition unreserved :: "char \<Rightarrow> bool" where
  "unreserved c \<longleftrightarrow>
     (let n = ucode c in
      (65 \<le> n \<and> n \<le> 90) \<or> (97 \<le> n \<and> n \<le> 122) \<or> (48 \<le> n \<and> n \<le> 57)
      \<or> n \<in> {45, 95, 46, 33, 126, 42, 39, 40, 41})"

definition hex_digit :: "nat \<Rightarrow> char" where
  "hex_digit d = (if d < 10 then char_of (48 + d) else char_of (55 + d))"

definition percent :: "nat \<Rightarrow> string" where
  "percent b = [CHR ''%'', hex_digit (b div 16), hex_digit (b mod 16)]"

definition encode_char :: "char \<Rightarrow> string" where
  "encode_char c =
     (let n = ucode c in
      if unreserved c then [c]
      else if n < 128 then percent n
      else percent (192 + n div 64) @ percent (128 + n mod 64))"

definition encodeURIComponent :: "string \<Rightarrow> string" where
  "encodeURIComponent s = concat (map encode_char s)"

section \<open>Insertion-ordered sets\<close>

definition set_add :: "'a \<Rightarrow> 'a list \<Rightarrow> 'a list" where
  "set_add x xs = (if x \<in> set xs then xs else xs @ [x])"

definition set_delete :: "'a \<Rightarrow> 'a list \<Rightarrow> 'a list" where
  "set_delete x xs = filter (\<lambda>y. y \<noteq> x) xs"

definition add_all :: "'a list \<Rightarrow> 'a list \<Rightarrow> 'a list" where
  "add_all ys xs = foldl (\<lambda>acc y. set_add y acc) xs ys"

definition js_set :: "'a list \<Rightarrow> 'a list" where
  "js_set ys = add_all ys []"

lemma set_set_add [simp]: "set (set_add x xs) = insert x (set xs)"
  by (auto simp: set_add_def)

lemma distinct_set_add [simp]: "distinct (set_add x xs) = distinct xs"
  by (auto simp: set_add_def)

lemma set_set_delete [simp]: "set (set_delete x xs) = set xs - {x}"
  by (auto simp: set_delete_def)

lemma distinct_set_delete [simp]: "distinct xs \<Longrightarrow> distinct (set_delete x xs)"
  by (simp add: set_delete_def)

lemma add_all_Nil [simp]: "add_all [] xs = xs"
  by (simp add: add_all_def)

lemma add_all_Cons [simp]: "add_all (y # ys) xs = add_all ys (set_add y xs)"
  by (simp add: add_all_def)

lemma add_all_append [simp]: "add_all (ys @ zs) xs = add_all zs (add_all ys xs)"
  by (induction ys arbitrary: xs) simp_all

lemma set_add_all [simp]: "set (add_all ys xs) = set xs \<union> set ys"
  by (induction ys arbitrary: xs) auto

lemma distinct_add_all [simp]: "distinct (add_all ys xs) = distinct xs"
  by (induction ys arbitrary: xs) simp_all

lemma set_js_set [simp]: "set (js_set ys) = set ys"
  by (simp add: js_set_def)

lemma distinct_js_set [simp]: "distinct (js_set ys)"
  by (simp add: js_set_def)

lemma js_set_Nil [simp]: "js_set [] = []"
  by (simp add: js_set_def)

lemma js_set_snoc: "js_set (ys @ [y]) = set_add y (js_set ys)"
  by (simp add: js_set_def)

lemma add_all_id: "set ys \<subseteq> set xs \<Longrightarrow> add_all ys xs = xs"
  by (induction ys) (auto simp: set_add_def)

section \<open>URL parameters\<close>

text \<open>
  \<open>URLSearchParams\<close> as the list of its pairs: \<open>get\<close> is \<open>map_of\<close>, \<open>delete\<close> removes every pair of a
  key, \<open>set\<close> replaces the first one and removes the others, or appends.
\<close>

definition url_delete :: "string \<Rightarrow> (string \<times> string) list \<Rightarrow> (string \<times> string) list" where
  "url_delete k ps = filter (\<lambda>p. fst p \<noteq> k) ps"

fun url_set :: "string \<Rightarrow> string \<Rightarrow> (string \<times> string) list \<Rightarrow> (string \<times> string) list" where
  "url_set k v [] = [(k, v)]"
| "url_set k v (p # ps) = (if fst p = k then (k, v) # url_delete k ps else p # url_set k v ps)"

lemma map_of_url_delete: "map_of (url_delete k ps) j = (if j = k then None else map_of ps j)"
  by (induction ps) (auto simp: url_delete_def)

lemma map_of_url_set: "map_of (url_set k v ps) = (map_of ps)(k \<mapsto> v)"
  by (induction ps) (auto simp: fun_eq_iff map_of_url_delete)

section \<open>Membership toggles\<close>

text \<open>The code toggles membership of a key in a Set in many places; the law is one.\<close>

definition toggle_member :: "'a \<Rightarrow> 'a list \<Rightarrow> 'a list" where
  "toggle_member k xs = (if k \<in> set xs then set_delete k xs else set_add k xs)"

locale membership_toggle =
  fixes toggle :: "'k \<Rightarrow> 'k list \<Rightarrow> 'k list"
  assumes toggle_set: "set (toggle k xs) = (if k \<in> set xs then set xs - {k} else insert k (set xs))"
    and toggle_distinct: "distinct xs \<Longrightarrow> distinct (toggle k xs)"
begin

lemma toggle_flips: "k \<in> set (toggle k xs) \<longleftrightarrow> k \<notin> set xs"
  by (simp add: toggle_set)

lemma toggle_other: "j \<noteq> k \<Longrightarrow> j \<in> set (toggle k xs) \<longleftrightarrow> j \<in> set xs"
  by (simp add: toggle_set)

lemma toggle_twice: "set (toggle k (toggle k xs)) = set xs"
  by (auto simp: toggle_set)

lemma toggle_commute: "set (toggle j (toggle k xs)) = set (toggle k (toggle j xs))"
  by (auto simp: toggle_set)

lemma toggles_distinct: "distinct xs \<Longrightarrow> distinct (foldl (\<lambda>acc k. toggle k acc) xs ks)"
  by (induction ks arbitrary: xs) (simp_all add: toggle_distinct)

end

interpretation member_toggle: membership_toggle toggle_member
  by unfold_locales (auto simp: toggle_member_def)


section \<open>Facts about the string operations\<close>

lemma starts_with_iff: "starts_with s p \<longleftrightarrow> (\<exists>t. s = p @ t)"
  by (metis append_eq_conv_conj append_take_drop_id starts_with_def)

lemma starts_with_Nil [simp]: "starts_with s []"
  by (simp add: starts_with_def)

lemma contains_iff: "contains s q \<longleftrightarrow> (\<exists>a b. s = a @ q @ b)"
proof (induction s)
  case Nil
  then show ?case by simp
next
  case (Cons x xs)
  show ?case
  proof
    assume "contains (x # xs) q"
    then consider (here) t where "x # xs = q @ t" | (later) a b where "xs = a @ q @ b"
      using Cons by (auto simp: starts_with_iff)
    then show "\<exists>a b. x # xs = a @ q @ b"
    proof cases
      case here
      then show ?thesis by (metis append_Nil)
    next
      case later
      then show ?thesis by (metis append_Cons)
    qed
  next
    assume "\<exists>a b. x # xs = a @ q @ b"
    then obtain a b where ab: "x # xs = a @ q @ b" by blast
    show "contains (x # xs) q"
    proof (cases a)
      case Nil
      with ab have "starts_with (x # xs) q" by (auto simp: starts_with_iff)
      then show ?thesis by simp
    next
      case (Cons y ys)
      with ab have "xs = ys @ q @ b" by simp
      with Cons.IH show ?thesis by auto
    qed
  qed
qed

lemma contains_refl [simp]: "contains s s"
  by (metis append_Nil append_Nil2 contains_iff)

lemma contains_Nil_query [simp]: "contains s []"
  by (metis append_Nil contains_iff)

lemma contains_appendI1: "contains s q \<Longrightarrow> contains (s @ t) q"
  by (metis append.assoc contains_iff)

lemma contains_appendI2: "contains t q \<Longrightarrow> contains (s @ t) q"
  by (metis append.assoc contains_iff)

lemma contains_trans: "contains s t \<Longrightarrow> contains t q \<Longrightarrow> contains s q"
  by (metis append.assoc contains_iff)

lemma starts_with_contains: "starts_with s q \<Longrightarrow> contains s q"
  by (metis append_Nil contains_iff starts_with_iff)

lemma contains_join: "w \<in> set ws \<Longrightarrow> contains (join sep ws) w"
proof (induction sep ws rule: join.induct)
  case (1 sep)
  then show ?case by simp
next
  case (2 sep w)
  then show ?case by simp
next
  case (3 sep v w ws)
  then show ?case
    by (auto intro: contains_appendI1 contains_appendI2)
qed

lemma contains_map: "contains s q \<Longrightarrow> contains (map f s) (map f q)"
  by (metis contains_iff map_append)

lemma ucode_inject [simp]: "ucode a = ucode b \<longleftrightarrow> a = b"
  by (simp add: ucode_def)

lemma ucode_char_of: "n < 256 \<Longrightarrow> ucode (char_of n) = n"
  by (simp add: ucode_def of_char_of)

lemma ucode_less [simp]: "ucode c < 256"
  by (metis One_nat_def of_char_mod_256 ucode_def mod_less_divisor zero_less_numeral)

lemma lower_char_idem [simp]: "lower_char (lower_char c) = lower_char c"
  by (auto simp: lower_char_def Let_def ucode_char_of)

lemma to_lower_idem [simp]: "to_lower (to_lower s) = to_lower s"
  by (simp add: to_lower_def comp_def)

lemma length_to_lower [simp]: "length (to_lower s) = length s"
  by (simp add: to_lower_def)

lemma to_lower_append [simp]: "to_lower (s @ t) = to_lower s @ to_lower t"
  by (simp add: to_lower_def)

lemma to_lower_Nil [simp]: "to_lower s = [] \<longleftrightarrow> s = []"
  by (simp add: to_lower_def)

lemma length_trim_le: "length (trim s) \<le> length s"
  by (metis length_dropWhile_le le_trans length_rev trim_def trim_end_def trim_start_def)

lemma trim_end_last: "trim_end s \<noteq> [] \<Longrightarrow> \<not> is_js_space (last (trim_end s))"
  using hd_dropWhile [of is_js_space "rev s"] by (simp add: trim_end_def last_rev)

lemma trim_start_id: "s = [] \<or> \<not> is_js_space (hd s) \<Longrightarrow> trim_start s = s"
  by (cases s) (auto simp: trim_start_def)

lemma trim_end_id: "s = [] \<or> \<not> is_js_space (last s) \<Longrightarrow> trim_end s = s"
proof (induction s rule: rev_induct)
  case Nil
  then show ?case by (simp add: trim_end_def)
next
  case (snoc x xs)
  then show ?case by (simp add: trim_end_def)
qed

lemma trim_end_prefix: "\<exists>t. s = trim_end s @ t"
proof -
  have "rev s = takeWhile is_js_space (rev s) @ dropWhile is_js_space (rev s)" by simp
  then have "s = rev (dropWhile is_js_space (rev s)) @ rev (takeWhile is_js_space (rev s))"
    by (metis rev_append rev_rev_ident)
  then show ?thesis by (metis trim_end_def)
qed

lemma trim_idem [simp]: "trim (trim s) = trim s"
proof (cases "trim s = []")
  case True
  have "trim [] = []" by (simp add: trim_def trim_start_def trim_end_def)
  then show ?thesis by (simp only: True)
next
  case False
  obtain t where t: "trim_start s = trim s @ t"
    using trim_end_prefix [of "trim_start s"] by (auto simp: trim_def)
  with False have "trim_start s \<noteq> []" and "hd (trim s) = hd (trim_start s)" by auto
  moreover from \<open>trim_start s \<noteq> []\<close> have "\<not> is_js_space (hd (trim_start s))"
    by (simp add: trim_start_def hd_dropWhile)
  ultimately have "trim_start (trim s) = trim s"
    by (intro trim_start_id) simp
  moreover have "trim_end (trim s) = trim s"
    using False trim_end_last [of "trim_start s"] by (intro trim_end_id) (simp add: trim_def)
  ultimately show ?thesis by (simp add: trim_def [of "trim s"])
qed

lemma length_slice_le: "length (slice a b xs) \<le> b - a"
  by (simp add: slice_def)

lemma set_slice_subset: "set (slice a b xs) \<subseteq> set xs"
  by (metis order_trans set_drop_subset set_take_subset slice_def)

lemma split_on_nonempty [simp]: "split_on c s \<noteq> []"
  by (induction s) (auto split: list.splits)

lemma split_on_join: "join [c] (split_on c s) = s"
proof (induction s)
  case Nil
  then show ?case by simp
next
  case (Cons x xs)
  show ?case
  proof (cases "x = c")
    case True
    with Cons show ?thesis
      by (cases "split_on c xs") simp_all
  next
    case False
    with Cons show ?thesis
      by (cases "split_on c xs" rule: list.exhaust)
         (simp_all, metis (no_types, opaque_lifting) append_Cons join.elims join.simps(2) join.simps(3) list.discI list.inject)
  qed
qed

lemma split_on_pieces: "w \<in> set (split_on c s) \<Longrightarrow> c \<notin> set w"
proof (induction s arbitrary: w)
  case Nil
  then show ?case by simp
next
  case (Cons x xs)
  then show ?case
    by (cases "split_on c xs") (auto split: if_splits)
qed

lemma split_on_no_sep: "c \<notin> set s \<Longrightarrow> split_on c s = [s]"
  by (induction s) auto

lemma split_on_append_sep: "split_on c (a @ c # b) = split_on c a @ split_on c b"
proof (induction a)
  case Nil
  then show ?case by simp
next
  case (Cons x a)
  then show ?case
    by (cases "split_on c a") (auto split: list.splits)
qed

lemma show_nat_digits: "set (show_nat n) \<subseteq> digit_char ` {0..<10}"
proof (induction n rule: show_nat.induct)
  case (1 n)
  show ?case
  proof (cases "n < 10")
    case True
    then show ?thesis by (subst show_nat.simps) auto
  next
    case False
    with 1 show ?thesis by (subst show_nat.simps) auto
  qed
qed

lemma show_nat_nonempty [simp]: "show_nat n \<noteq> []"
  by (subst show_nat.simps) simp

lemma split_at_sep:
  assumes "c \<notin> set a" "c \<notin> set a'" "a @ c # b = a' @ c # b'"
  shows "a = a' \<and> b = b'"
  using assms
proof (induction a arbitrary: a')
  case Nil
  then show ?case by (cases a') auto
next
  case (Cons x a)
  then show ?case by (cases a') auto
qed

text \<open>Percent-encoded text never holds a path or query delimiter.\<close>

lemma hex_digit_safe: "d < 16 \<Longrightarrow> hex_digit d \<notin> {CHR ''/'', CHR ''?'', CHR ''#'', CHR ''%'', CHR ''&''}"
proof -
  assume d: "d < 16"
  have "ucode (hex_digit d) = (if d < 10 then 48 + d else 55 + d)"
    using d by (simp add: hex_digit_def ucode_char_of)
  moreover have "ucode (CHR ''/'') = 47" "ucode (CHR ''?'') = 63" "ucode (CHR ''#'') = 35"
    "ucode (CHR ''%'') = 37" "ucode (CHR ''&'') = 38"
    by (simp_all add: ucode_def)
  ultimately show ?thesis using d by (auto split: if_splits)
qed

lemma percent_safe:
  assumes "b < 256" shows "CHR ''/'' \<notin> set (percent b) \<and> CHR ''?'' \<notin> set (percent b) \<and> CHR ''#'' \<notin> set (percent b)"
proof -
  have "hex_digit (b div 16) \<notin> {CHR ''/'', CHR ''?'', CHR ''#'', CHR ''%'', CHR ''&''}"
    and "hex_digit (b mod 16) \<notin> {CHR ''/'', CHR ''?'', CHR ''#'', CHR ''%'', CHR ''&''}"
    using assms by (intro hex_digit_safe; simp)+
  then show ?thesis by (auto simp: percent_def eq_commute)
qed

lemma encode_char_safe: "CHR ''/'' \<notin> set (encode_char c) \<and> CHR ''?'' \<notin> set (encode_char c) \<and> CHR ''#'' \<notin> set (encode_char c)"
proof (cases "unreserved c")
  case True
  have "ucode (CHR ''/'') = 47" "ucode (CHR ''?'') = 63" "ucode (CHR ''#'') = 35"
    by (simp_all add: ucode_def)
  with True have "c \<noteq> CHR ''/''" "c \<noteq> CHR ''?''" "c \<noteq> CHR ''#''"
    by (auto simp: unreserved_def Let_def)
  with True show ?thesis by (auto simp: encode_char_def Let_def)
next
  case False
  have "ucode c div 64 < 4" by (rule less_mult_imp_div_less) (use ucode_less [of c] in simp)
  moreover have "ucode c mod 64 < 64" by simp
  ultimately have "192 + ucode c div 64 < 256" "128 + ucode c mod 64 < 256"
    by linarith+
  with False show ?thesis
    using percent_safe [of "ucode c"] percent_safe [of "192 + ucode c div 64"]
      percent_safe [of "128 + ucode c mod 64"]
    by (auto simp: encode_char_def Let_def)
qed

lemma encodeURIComponent_safe:
  "CHR ''/'' \<notin> set (encodeURIComponent s)"
  "CHR ''?'' \<notin> set (encodeURIComponent s)"
  "CHR ''#'' \<notin> set (encodeURIComponent s)"
  using encode_char_safe by (auto simp: encodeURIComponent_def)

text \<open>Percent-encoding is injective: the encoding of a code unit is a prefix code.\<close>

lemma split_on_join_segs:
  "segs \<noteq> [] \<Longrightarrow> \<forall>s\<in>set segs. c \<notin> set s \<Longrightarrow> split_on c (join [c] segs) = segs"
proof (induction "[c]" segs rule: join.induct)
  case (3 w v ws)
  then show ?case by (simp add: split_on_append_sep split_on_no_sep)
qed (simp_all add: split_on_no_sep)

lemma hex_digit_inj: "a < 16 \<Longrightarrow> b < 16 \<Longrightarrow> hex_digit a = hex_digit b \<Longrightarrow> a = b"
proof -
  assume "a < 16" "b < 16" "hex_digit a = hex_digit b"
  then have "ucode (hex_digit a) = ucode (hex_digit b)" by simp
  with \<open>a < 16\<close> \<open>b < 16\<close> show "a = b"
    by (auto simp: hex_digit_def ucode_char_of split: if_splits)
qed

lemma percent_inj: "a < 256 \<Longrightarrow> b < 256 \<Longrightarrow> percent a = percent b \<Longrightarrow> a = b"
proof -
  assume ab: "a < 256" "b < 256" and "percent a = percent b"
  then have "a div 16 = b div 16" "a mod 16 = b mod 16"
    using hex_digit_inj [of "a div 16" "b div 16"] hex_digit_inj [of "a mod 16" "b mod 16"]
    by (simp_all add: percent_def)
  then show "a = b" by (metis mult_div_mod_eq)
qed

lemma encode_char_hd: "\<not> unreserved c \<Longrightarrow> hd (encode_char c) = CHR ''%''"
  by (simp add: encode_char_def Let_def percent_def)

lemma encode_char_prefix:
  assumes "encode_char c @ x = encode_char d @ y"
  shows "c = d \<and> x = y"
proof -
  have pct: "\<not> unreserved (CHR ''%'')" by (simp add: unreserved_def ucode_def)
  have byte: "ucode c div 64 < 4" "ucode d div 64 < 4"
    using ucode_less [of c] ucode_less [of d] by (simp_all add: less_mult_imp_div_less)
  consider "unreserved c" "unreserved d" | "unreserved c" "\<not> unreserved d"
    | "\<not> unreserved c" "unreserved d" | "\<not> unreserved c" "\<not> unreserved d" by blast
  then show ?thesis
  proof cases
    case 4
    have len: "length (percent n) = 3" for n by (simp add: percent_def)
    let ?a = "ucode c" and ?b = "ucode d"
    have first: "take 3 (encode_char c @ x) = percent (if ?a < 128 then ?a else 192 + ?a div 64)"
      "take 3 (encode_char d @ y) = percent (if ?b < 128 then ?b else 192 + ?b div 64)"
      using 4 len by (simp_all add: encode_char_def Let_def)
    then have eq: "(if ?a < 128 then ?a else 192 + ?a div 64) = (if ?b < 128 then ?b else 192 + ?b div 64)"
      using assms byte by (intro percent_inj) (auto)
    show ?thesis
    proof (cases "?a < 128")
      case True
      with eq have "?a = ?b" by (auto split: if_splits)
      then show ?thesis using assms by simp
    next
      case False
      with eq have b: "\<not> ?b < 128" "?a div 64 = ?b div 64" by (auto split: if_splits)
      have "percent (128 + ?a mod 64) @ x = percent (128 + ?b mod 64) @ y"
        using assms 4 b False by (simp add: encode_char_def Let_def)
      then have "percent (128 + ?a mod 64) = percent (128 + ?b mod 64)" by (simp add: percent_def)
      moreover have "?a mod 64 < 64" "?b mod 64 < 64" by simp_all
      ultimately have "?a mod 64 = ?b mod 64" using percent_inj [of "128 + ?a mod 64" "128 + ?b mod 64"] by linarith
      with b have "?a = ?b" by (metis mult_div_mod_eq)
      then show ?thesis using assms by simp
    qed
  qed (use assms pct in \<open>auto simp: encode_char_def [of c] encode_char_def [of d] percent_def Let_def split: if_splits\<close>)
qed

lemma encode_char_nonempty [simp]: "encode_char c \<noteq> []"
  by (simp add: encode_char_def Let_def percent_def)

lemma encodeURIComponent_inj [simp]: "encodeURIComponent s = encodeURIComponent t \<longleftrightarrow> s = t"
proof
  show "encodeURIComponent s = encodeURIComponent t \<Longrightarrow> s = t"
  proof (induction s arbitrary: t)
    case Nil
    then show ?case by (cases t) (auto simp: encodeURIComponent_def)
  next
    case (Cons c s)
    then obtain d u where t: "t = d # u" by (cases t) (auto simp: encodeURIComponent_def)
    with Cons.prems have "encode_char c @ encodeURIComponent s = encode_char d @ encodeURIComponent u"
      by (simp add: encodeURIComponent_def)
    then have "c = d \<and> encodeURIComponent s = encodeURIComponent u" by (rule encode_char_prefix)
    with Cons.IH t show ?case by simp
  qed
qed simp

section \<open>Decimal numerals are read back\<close>

definition read_nat :: "string \<Rightarrow> nat" where
  "read_nat s = foldl (\<lambda>v c. 10 * v + (ucode c - 48)) 0 s"

lemma ucode_digit: "d < 10 \<Longrightarrow> ucode (digit_char d) = 48 + d"
  by (simp add: digit_char_def ucode_char_of)

lemma read_show_nat [simp]: "read_nat (show_nat n) = n"
proof (induction n rule: show_nat.induct)
  case (1 n)
  show ?case
  proof (cases "n < 10")
    case True
    then show ?thesis by (subst show_nat.simps) (simp add: read_nat_def ucode_digit)
  next
    case False
    with 1 have "read_nat (show_nat (n div 10)) = n div 10" by simp
    with False show ?thesis by (subst show_nat.simps) (simp add: read_nat_def ucode_digit)
  qed
qed

lemma show_nat_inject [simp]: "show_nat m = show_nat n \<longleftrightarrow> m = n"
  by (metis read_show_nat)

lemma show_nat_no_bar: "CHR ''|'' \<notin> set (show_nat n)"
proof
  assume "CHR ''|'' \<in> set (show_nat n)"
  then obtain d where d: "d < 10" "CHR ''|'' = digit_char d" using show_nat_digits [of n] by fastforce
  have "ucode (CHR ''|'') = 48 + d" by (simp only: d(2) ucode_digit [OF d(1)])
  then show False using d(1) by (simp add: ucode_def)
qed

lemma show_nat_no_minus: "CHR ''-'' \<notin> set (show_nat n)"
proof
  assume "CHR ''-'' \<in> set (show_nat n)"
  then obtain d where d: "d < 10" "CHR ''-'' = digit_char d" using show_nat_digits [of n] by fastforce
  have "ucode (CHR ''-'') = 48 + d" by (simp only: d(2) ucode_digit [OF d(1)])
  then show False using d(1) by (simp add: ucode_def)
qed

lemma show_int_inject: "show_int i = show_int j \<longleftrightarrow> i = j"
proof -
  have "show_nat m \<noteq> CHR ''-'' # xs" for m xs using show_nat_no_minus [of m] by auto
  then show ?thesis by (auto simp: show_int_def dest: sym)
qed

end
