(* ===== verification/Collections.thy ===== *)
theory Collections
  imports Prelude
begin

text \<open>
  Insertion-ordered maps, the grouping loop written over them in several modules, and
  \<open>Array.prototype.sort\<close>. The interfaces are the locales \<open>ordered_map\<close> (what the grouping
  and indexing loops need of a JS \<open>Map\<close>) and \<open>js_comparator\<close> (what a comparator has to
  satisfy for a sort to be meaningful).
\<close>

section \<open>Ordered maps\<close>

type_synonym ('k, 'v) omap = "('k \<times> 'v) list"

definition om_get :: "('k, 'v) omap \<Rightarrow> 'k \<Rightarrow> 'v option" where
  "om_get m k = map_of m k"

definition om_set :: "'k \<Rightarrow> 'v \<Rightarrow> ('k, 'v) omap \<Rightarrow> ('k, 'v) omap" where
  "om_set k v m = AList.update k v m"

definition om_delete :: "'k \<Rightarrow> ('k, 'v) omap \<Rightarrow> ('k, 'v) omap" where
  "om_delete k m = AList.delete k m"

definition om_keys :: "('k, 'v) omap \<Rightarrow> 'k list" where
  "om_keys m = map fst m"

definition om_values :: "('k, 'v) omap \<Rightarrow> 'v list" where
  "om_values m = map snd m"

locale ordered_map =
  fixes get :: "'m \<Rightarrow> 'k \<Rightarrow> 'v option"
    and put :: "'k \<Rightarrow> 'v \<Rightarrow> 'm \<Rightarrow> 'm"
    and keys :: "'m \<Rightarrow> 'k list"
    and empty :: 'm
  assumes get_put: "get (put k v m) j = (if j = k then Some v else get m j)"
    and keys_put: "keys (put k v m) = set_add k (keys m)"
    and get_keys: "k \<in> set (keys m) \<longleftrightarrow> get m k \<noteq> None"
    and keys_empty: "keys empty = []"
begin

lemma get_empty: "get empty k = None"
  using get_keys [of k empty] by (simp add: keys_empty)

lemma put_put: "get (put k w (put k v m)) = get (put k w m)"
  by (rule ext) (simp add: get_put)

text \<open>A loop that computes the new value of one key per element touches only that key.\<close>

lemma fold_get:
  "get (foldl (\<lambda>m x. put (f x) (g x (get m (f x))) m) m xs) k
     = foldl (\<lambda>v x. if f x = k then Some (g x v) else v) (get m k) xs"
proof (induction xs arbitrary: m)
  case Nil
  then show ?case by simp
next
  case (Cons x xs)
  then show ?case by (cases "f x = k") (auto simp: get_put)
qed

lemma fold_keys:
  "keys (foldl (\<lambda>m x. put (f x) (g x (get m (f x))) m) m xs) = add_all (map f xs) (keys m)"
  by (induction xs arbitrary: m) (simp_all add: keys_put)

lemma fold_keys_distinct:
  "distinct (keys (foldl (\<lambda>m x. put (f x) (g x (get m (f x))) m) empty xs))"
  by (simp add: fold_keys keys_empty)

end

lemma om_get_set [simp]: "om_get (om_set k v m) j = (if j = k then Some v else om_get m j)"
  by (simp add: om_get_def om_set_def update_conv)

lemma om_keys_set [simp]: "om_keys (om_set k v m) = set_add k (om_keys m)"
  by (simp add: om_keys_def om_set_def set_add_def update_keys)

lemma om_get_keys: "k \<in> set (om_keys m) \<longleftrightarrow> om_get m k \<noteq> None"
  by (simp add: om_keys_def om_get_def map_of_eq_None_iff)

lemma om_get_Nil [simp]: "om_get [] k = None"
  by (simp add: om_get_def)

lemma om_keys_Nil [simp]: "om_keys [] = []"
  by (simp add: om_keys_def)

lemma om_get_delete [simp]: "om_get (om_delete k m) j = (if j = k then None else om_get m j)"
  by (simp add: om_get_def om_delete_def delete_conv)

interpretation om: ordered_map om_get om_set om_keys "[]"
  by unfold_locales (auto simp: om_get_keys)

lemma om_values_get: "distinct (om_keys m) \<Longrightarrow> om_values m = map (\<lambda>k. the (om_get m k)) (om_keys m)"
proof (induction m)
  case Nil
  then show ?case by (simp add: om_values_def)
next
  case (Cons p m)
  then have "om_values m = map (\<lambda>k. the (om_get m k)) (om_keys m)"
    and "fst p \<notin> set (om_keys m)"
    by (simp_all add: om_keys_def)
  then show ?case
    by (cases p) (auto simp: om_values_def om_keys_def om_get_def)
qed

lemma om_get_in_set: "distinct (om_keys m) \<Longrightarrow> om_get m k = Some v \<longleftrightarrow> (k, v) \<in> set m"
  by (simp add: om_keys_def om_get_def)

section \<open>The grouping loop\<close>

text \<open>
  \<open>const g = groups.get(k); if (g) g.push(x) else groups.set(k, [x])\<close>, run over a list.
\<close>

definition push_group :: "'k \<Rightarrow> 'a \<Rightarrow> ('k, 'a list) omap \<Rightarrow> ('k, 'a list) omap" where
  "push_group k x m = om_set k (case om_get m k of None \<Rightarrow> [x] | Some g \<Rightarrow> g @ [x]) m"

definition group_list :: "('a \<Rightarrow> 'k) \<Rightarrow> 'a list \<Rightarrow> ('k, 'a list) omap" where
  "group_list f xs = foldl (\<lambda>m x. push_group (f x) x m) [] xs"

lemma group_list_keys [simp]: "om_keys (group_list f xs) = js_set (map f xs)"
  using om.fold_keys [of f "\<lambda>x v. case v of None \<Rightarrow> [x] | Some g \<Rightarrow> g @ [x]" "[]" xs]
  by (simp add: group_list_def push_group_def js_set_def)

lemma group_fold_value:
  "foldl (\<lambda>v x. if f x = k then Some (case v of None \<Rightarrow> [x] | Some g \<Rightarrow> g @ [x]) else v) v0 xs
     = (let ys = filter (\<lambda>x. f x = k) xs in
        case v0 of None \<Rightarrow> (if ys = [] then None else Some ys) | Some g \<Rightarrow> Some (g @ ys))"
  by (induction xs arbitrary: v0) (auto simp: Let_def split: option.splits)

lemma group_list_get:
  "om_get (group_list f xs) k =
     (if k \<in> f ` set xs then Some (filter (\<lambda>x. f x = k) xs) else None)"
proof -
  have "om_get (group_list f xs) k
      = (let ys = filter (\<lambda>x. f x = k) xs in if ys = [] then None else Some ys)"
    using om.fold_get [of f "\<lambda>x v. case v of None \<Rightarrow> [x] | Some g \<Rightarrow> g @ [x]" "[]" xs k]
    by (simp add: group_list_def push_group_def group_fold_value)
  then show ?thesis by (auto simp: Let_def filter_empty_conv)
qed

lemma group_list_distinct [simp]: "distinct (om_keys (group_list f xs))"
  by simp

lemma group_list_in_set:
  "(k, g) \<in> set (group_list f xs) \<longleftrightarrow> k \<in> f ` set xs \<and> g = filter (\<lambda>x. f x = k) xs"
  using om_get_in_set [of "group_list f xs" k g] by (auto simp: group_list_get split: if_splits)

lemma count_mset_filter_key: "count (mset (filter P xs)) a = (if P a then count (mset xs) a else 0)"
  by (induction xs) auto

lemma mset_filter_partition:
  assumes "distinct ks" "set ks = f ` set xs"
  shows "mset (concat (map (\<lambda>k. filter (\<lambda>x. f x = k) xs) ks)) = mset xs"
proof -
  have "count (mset (concat (map (\<lambda>k. filter (\<lambda>x. f x = k) xs) ks))) a
        = (if f a \<in> set ks then count (mset xs) a else 0)" for a
    using \<open>distinct ks\<close>
  proof (induction ks)
    case Nil
    then show ?case by simp
  next
    case (Cons k ks)
    then show ?case by (cases "k = f a") (auto simp: count_mset_filter_key)
  qed
  moreover have "f a \<notin> set ks \<Longrightarrow> count (mset xs) a = 0" for a
    using assms(2) by (auto simp: count_eq_zero_iff)
  ultimately show ?thesis by (intro multiset_eqI) auto
qed

lemma group_list_values: "om_values (group_list f xs)
     = map (\<lambda>k. filter (\<lambda>x. f x = k) xs) (js_set (map f xs))"
  by (simp add: om_values_get group_list_get)

text \<open>Grouping loses no element and duplicates none.\<close>

lemma group_list_mset: "mset (concat (om_values (group_list f xs))) = mset xs"
  unfolding group_list_values by (rule mset_filter_partition) simp_all

section \<open>Array.prototype.sort\<close>

type_synonym 'a comparator = "'a \<Rightarrow> 'a \<Rightarrow> int"

fun insert_cmp :: "'a comparator \<Rightarrow> 'a \<Rightarrow> 'a list \<Rightarrow> 'a list" where
  "insert_cmp cmp x [] = [x]"
| "insert_cmp cmp x (y # ys) = (if cmp x y \<le> 0 then x # y # ys else y # insert_cmp cmp x ys)"

definition js_sort :: "'a comparator \<Rightarrow> 'a list \<Rightarrow> 'a list" where
  "js_sort cmp xs = foldr (insert_cmp cmp) xs []"

lemma mset_insert_cmp [simp]: "mset (insert_cmp cmp x xs) = add_mset x (mset xs)"
  by (induction xs) auto

lemma mset_js_sort [simp]: "mset (js_sort cmp xs) = mset xs"
  unfolding js_sort_def by (induction xs) simp_all

lemma set_js_sort [simp]: "set (js_sort cmp xs) = set xs"
  by (metis mset_js_sort set_mset_mset)

lemma length_js_sort [simp]: "length (js_sort cmp xs) = length xs"
  by (metis mset_js_sort size_mset)

lemma distinct_js_sort [simp]: "distinct (js_sort cmp xs) = distinct xs"
  by (metis mset_eq_imp_distinct_iff mset_js_sort)

lemma js_sort_Nil [simp]: "js_sort cmp [] = []"
  by (simp add: js_sort_def)

locale js_comparator =
  fixes cmp :: "'a comparator"
  assumes cmp_sgn: "sgn (cmp b a) = - sgn (cmp a b)"
    and cmp_trans: "cmp a b \<le> 0 \<Longrightarrow> cmp b c \<le> 0 \<Longrightarrow> cmp a c \<le> 0"
begin

lemma cmp_refl: "cmp a a = 0"
  using cmp_sgn [of a a] by (simp add: sgn_if split: if_splits)

lemma cmp_total: "\<not> cmp a b \<le> 0 \<Longrightarrow> cmp b a \<le> 0"
  using cmp_sgn [of b a] by (auto simp: sgn_if split: if_splits)

lemma cmp_eq_sym: "cmp a b = 0 \<longleftrightarrow> cmp b a = 0"
  using cmp_sgn [of b a] by (auto simp: sgn_if split: if_splits)

lemma cmp_eqI: "cmp a b \<le> 0 \<Longrightarrow> cmp b a \<le> 0 \<Longrightarrow> cmp a b = 0"
  using cmp_sgn [of b a] by (auto simp: sgn_if split: if_splits)

lemma cmp_eq_trans: "cmp a b = 0 \<Longrightarrow> cmp b c = 0 \<Longrightarrow> cmp a c = 0"
  by (metis cmp_eq_sym cmp_eqI cmp_trans order_refl)

lemma insert_sorted:
  "sorted_wrt (\<lambda>a b. cmp a b \<le> 0) xs \<Longrightarrow> sorted_wrt (\<lambda>a b. cmp a b \<le> 0) (insert_cmp cmp x xs)"
proof (induction xs)
  case Nil
  then show ?case by simp
next
  case (Cons y ys)
  have "set (insert_cmp cmp x ys) = insert x (set ys)"
    by (metis mset_insert_cmp set_mset_add_mset_insert set_mset_mset)
  then show ?case using Cons by (auto intro: cmp_trans cmp_total)
qed

lemma sort_sorted: "sorted_wrt (\<lambda>a b. cmp a b \<le> 0) (js_sort cmp xs)"
  unfolding js_sort_def by (induction xs) (simp_all add: insert_sorted)

text \<open>Stability: elements that compare equal keep their order.\<close>

lemma insert_stable:
  "filter (\<lambda>y. cmp z y = 0) (insert_cmp cmp x xs)
     = (if cmp z x = 0 then x # filter (\<lambda>y. cmp z y = 0) xs else filter (\<lambda>y. cmp z y = 0) xs)"
proof (induction xs)
  case Nil
  then show ?case by simp
next
  case (Cons y ys)
  have "cmp z x = 0 \<Longrightarrow> cmp z y = 0 \<Longrightarrow> cmp x y \<le> 0"
    by (metis cmp_eq_sym cmp_eq_trans order_refl)
  with Cons show ?case by auto
qed

lemma sort_stable: "filter (\<lambda>y. cmp z y = 0) (js_sort cmp xs) = filter (\<lambda>y. cmp z y = 0) xs"
  unfolding js_sort_def by (induction xs) (simp_all add: insert_stable)

lemma sort_hd_least: "xs \<noteq> [] \<Longrightarrow> x \<in> set xs \<Longrightarrow> cmp (hd (js_sort cmp xs)) x \<le> 0"
proof -
  assume "xs \<noteq> []" and x: "x \<in> set xs"
  then have "js_sort cmp xs \<noteq> []" by (metis length_0_conv length_js_sort)
  then obtain y ys where ys: "js_sort cmp xs = y # ys" by (cases "js_sort cmp xs") auto
  with sort_sorted [of xs] have "\<forall>b\<in>set ys. cmp y b \<le> 0" by simp
  moreover from x ys have "x = y \<or> x \<in> set ys" by (metis set_ConsD set_js_sort)
  ultimately show ?thesis using ys by (auto simp: cmp_refl)
qed

lemma already_sorted: "sorted_wrt (\<lambda>a b. cmp a b \<le> 0) xs \<Longrightarrow> js_sort cmp xs = xs"
proof (induction xs)
  case Nil
  then show ?case by simp
next
  case (Cons x xs)
  then show ?case by (cases xs) (auto simp: js_sort_def)
qed

end

text \<open>A comparator by an integer key, the shape of every numeric sort in the code.\<close>

interpretation by_key: js_comparator "\<lambda>a b. f a - f b" for f :: "'a \<Rightarrow> int"
  by unfold_locales (auto simp: sgn_if)

text \<open>A comparator followed by a tie-break: \<open>c1(a, b) || c2(a, b)\<close>.\<close>

definition then_by :: "'a comparator \<Rightarrow> 'a comparator \<Rightarrow> 'a comparator" where
  "then_by c1 c2 a b = (if c1 a b \<noteq> 0 then c1 a b else c2 a b)"

lemma js_comparator_then_by:
  assumes "js_comparator c1" "js_comparator c2"
  shows "js_comparator (then_by c1 c2)"
proof
  fix a b
  show "sgn (then_by c1 c2 b a) = - sgn (then_by c1 c2 a b)"
    using js_comparator.cmp_sgn [OF assms(1), of b a] js_comparator.cmp_sgn [OF assms(2), of b a]
      js_comparator.cmp_eq_sym [OF assms(1), of a b]
    by (simp add: then_by_def)
next
  fix a b c
  assume ab: "then_by c1 c2 a b \<le> 0" and bc: "then_by c1 c2 b c \<le> 0"
  then have 1: "c1 a b \<le> 0" "c1 b c \<le> 0" by (auto simp: then_by_def split: if_splits)
  then have 2: "c1 a c \<le> 0" by (rule js_comparator.cmp_trans [OF assms(1)])
  show "then_by c1 c2 a c \<le> 0"
  proof (cases "c1 a c = 0")
    case False
    with 2 show ?thesis by (simp add: then_by_def)
  next
    case True
    then have "c1 c a \<le> 0" using js_comparator.cmp_eq_sym [OF assms(1), of a c] by simp
    then have "c1 b a \<le> 0" "c1 c b \<le> 0"
      using 1 js_comparator.cmp_trans [OF assms(1)] by blast+
    with 1 have "c1 a b = 0" "c1 b c = 0"
      using js_comparator.cmp_eqI [OF assms(1)] by blast+
    with ab bc True show ?thesis
      by (auto simp: then_by_def intro: js_comparator.cmp_trans [OF assms(2)])
  qed
qed

lemma js_comparator_on:
  assumes "js_comparator c" shows "js_comparator (\<lambda>a b. c (f a) (f b))"
  using assms unfolding js_comparator_def by blast

section \<open>Counting pages\<close>

text \<open>\<open>Math.max(1, Math.ceil(total / size))\<close> on counts, the page count of every table.\<close>

definition ceil_div :: "nat \<Rightarrow> nat \<Rightarrow> nat" where
  "ceil_div n k = (n + k - 1) div k"

lemma ceil_div_bounds:
  assumes "0 < k"
  shows "n \<le> ceil_div n k * k" and "0 < n \<Longrightarrow> (ceil_div n k - 1) * k < n"
proof -
  have "(n + k - 1) div k * k + (n + k - 1) mod k = n + k - 1" by simp
  moreover have "(n + k - 1) mod k \<le> k - 1" using mod_less_divisor [OF assms, of "n + k - 1"] by linarith
  ultimately show 1: "n \<le> ceil_div n k * k" using assms unfolding ceil_div_def by linarith
  assume "0 < n"
  have "(n + k - 1) div k * k \<le> n + k - 1" by simp
  moreover have "((n + k - 1) div k - 1) * k = (n + k - 1) div k * k - k" by (simp add: diff_mult_distrib)
  ultimately show "(ceil_div n k - 1) * k < n" using \<open>0 < n\<close> assms unfolding ceil_div_def by linarith
qed

locale page_counter =
  fixes pages :: "nat \<Rightarrow> nat" and size :: nat
  assumes size_pos: "0 < size"
    and pages_def: "pages n = max 1 (ceil_div n size)"
begin

lemma at_least_one: "1 \<le> pages n"
  by (simp add: pages_def)

text \<open>Every row index lies on exactly one page, and that page exists.\<close>

lemma row_on_page: "i < n \<Longrightarrow> i div size < pages n"
proof -
  assume "i < n"
  with ceil_div_bounds(1) [OF size_pos, of n] have "i < ceil_div n size * size" by linarith
  then have "i div size < ceil_div n size"
    by (simp add: less_mult_imp_div_less)
  then show ?thesis by (simp add: pages_def)
qed

lemma last_page_not_empty: "0 < n \<Longrightarrow> (pages n - 1) * size < n"
  using ceil_div_bounds(2) [OF size_pos, of n] by (auto simp: pages_def max_def)

lemma pages_mono: "m \<le> n \<Longrightarrow> pages m \<le> pages n"
proof -
  assume "m \<le> n"
  then have "ceil_div m size \<le> ceil_div n size" unfolding ceil_div_def by (intro div_le_mono) simp
  then show ?thesis unfolding pages_def by (rule max.mono [OF order_refl])
qed

end

end
