(* ===== verification/ApiTypes.thy ===== *)
theory ApiTypes
  imports Collections
begin

text \<open>
  The data the front end exchanges with the backend: the response and payload interfaces of
  \<open>api/*_api.ts\<close> as records, JSON values, and the HTTP request a client function issues.
  An optional property (\<open>x?: t\<close>) and a nullable one (\<open>t | null\<close>) are both options; an
  object literal sent as a body or as query parameters keeps its \<open>undefined\<close> members as
  \<open>JUndef\<close>, which \<open>send_fields\<close> drops, as \<open>JSON.stringify\<close> and the query serializer do.
\<close>

section \<open>JSON\<close>

datatype json = JUndef | JNull | JBool bool | JNum int | JStr string | JArr "json list"
  | JObj "(string \<times> json) list"

type_synonym fields = "(string \<times> json) list"

definition opt_str :: "string option \<Rightarrow> json" where
  "opt_str x = (case x of None \<Rightarrow> JUndef | Some s \<Rightarrow> JStr s)"

definition opt_num :: "int option \<Rightarrow> json" where
  "opt_num x = (case x of None \<Rightarrow> JUndef | Some n \<Rightarrow> JNum n)"

definition opt_bool :: "bool option \<Rightarrow> json" where
  "opt_bool x = (case x of None \<Rightarrow> JUndef | Some b \<Rightarrow> JBool b)"

definition opt_obj :: "fields option \<Rightarrow> json" where
  "opt_obj x = (case x of None \<Rightarrow> JUndef | Some o' \<Rightarrow> JObj o')"

definition str_list :: "string list \<Rightarrow> json" where
  "str_list xs = JArr (map JStr xs)"

definition send_fields :: "fields \<Rightarrow> fields" where
  "send_fields fs = filter (\<lambda>f. snd f \<noteq> JUndef) fs"

lemma send_fields_key: "k \<in> fst ` set (send_fields fs) \<longleftrightarrow> (\<exists>v. (k, v) \<in> set fs \<and> v \<noteq> JUndef)"
  by (force simp: send_fields_def)

lemma opt_str_undef [simp]: "opt_str x = JUndef \<longleftrightarrow> x = None"
  by (cases x) (simp_all add: opt_str_def)

lemma opt_num_undef [simp]: "opt_num x = JUndef \<longleftrightarrow> x = None"
  by (cases x) (simp_all add: opt_num_def)

lemma opt_bool_undef [simp]: "opt_bool x = JUndef \<longleftrightarrow> x = None"
  by (cases x) (simp_all add: opt_bool_def)

section \<open>Requests\<close>

datatype http_method = GET | POST | PUT | PATCH | DELETE

record request =
  r_method :: http_method
  r_path :: string
  r_params :: fields
  r_body :: "json option"

definition get_req :: "string \<Rightarrow> fields \<Rightarrow> request" where
  "get_req p ps = \<lparr>r_method = GET, r_path = p, r_params = ps, r_body = None\<rparr>"

definition post_req :: "string \<Rightarrow> json option \<Rightarrow> request" where
  "post_req p b = \<lparr>r_method = POST, r_path = p, r_params = [], r_body = b\<rparr>"

definition put_req :: "string \<Rightarrow> json \<Rightarrow> request" where
  "put_req p b = \<lparr>r_method = PUT, r_path = p, r_params = [], r_body = Some b\<rparr>"

definition patch_req :: "string \<Rightarrow> json option \<Rightarrow> request" where
  "patch_req p b = \<lparr>r_method = PATCH, r_path = p, r_params = [], r_body = b\<rparr>"

definition delete_req :: "string \<Rightarrow> fields \<Rightarrow> request" where
  "delete_req p ps = \<lparr>r_method = DELETE, r_path = p, r_params = ps, r_body = None\<rparr>"

section \<open>Policies and permissions\<close>

record policy =
  pol_id :: int
  pol_name :: string
  pol_description :: "string option"
  pol_actions :: "string list"
  pol_resource_type :: string
  pol_conditions :: "fields option"
  pol_is_active :: bool
  pol_created_at :: string
  pol_updated_at :: string
  pol_created_by :: "string option"
  pol_holder_count :: "nat option"

record policy_create =
  pc_name :: string
  pc_description :: "string option"
  pc_actions :: "string list"
  pc_resource_type :: string
  pc_conditions :: "fields option"

record policy_update =
  pu_name :: "string option"
  pu_description :: "string option"
  pu_actions :: "string list option"
  pu_resource_type :: "string option"
  pu_conditions :: "fields option"
  pu_is_active :: "bool option"
  pu_change_reason :: "string option"

record policy_history_entry =
  ph_id :: int
  ph_policy_id :: int
  ph_policy_name :: string
  ph_change_type :: string
  ph_previous_definition :: "fields option"
  ph_new_definition :: "fields option"
  ph_changed_fields :: "string list option"
  ph_changed_by :: "string option"
  ph_change_reason :: "string option"
  ph_created_at :: string

record policy_holder =
  hol_email :: string
  hol_name :: string
  hol_role :: "string option"
  hol_assigned_at :: string
  hol_assigned_by :: "string option"

text \<open>A direct grant, and the (action, resource type) pair every grant resolves to.\<close>

record user_permission =
  up_id :: int
  up_action :: string
  up_resource_type :: string
  up_conditions :: "fields option"
  up_is_active :: bool
  up_assigned_by :: "string option"

record catalog_entry =
  ce_action :: string
  ce_resource_type :: string
  ce_description :: string

record permission_usage =
  pg_action :: string
  pg_resource_type :: string
  pg_policies :: "(string \<times> nat) list"
  pg_policy_user_count :: nat
  pg_direct_grant_count :: nat
  pg_total_user_count :: nat

record permission_assignment =
  pa_action :: string
  pa_resource_type :: string
  pa_conditions :: "fields option"

section \<open>Users, sessions and passkeys\<close>

record managed_user =
  mu_id :: int
  mu_name :: string
  mu_email :: string
  mu_role :: "string option"
  mu_is_verified :: bool
  mu_is_active :: bool
  mu_created_at :: string
  mu_updated_at :: string
  mu_deleted_at :: "string option"
  mu_last_login_at :: "string option"
  mu_has_password :: bool
  mu_brand_color :: "string option"
  mu_sessions_revoked :: "bool option"

text \<open>\<open>brand_color?: string | null\<close> keeps three cases apart: absent, null, a colour.\<close>

record user_update =
  uu_name :: "string option"
  uu_password :: "string option"
  uu_current_password :: "string option"
  uu_brand_color :: "string option option"

record current_user =
  cu_name :: string
  cu_email :: string
  cu_role :: "string option"
  cu_permissions :: "string list option"
  cu_has_password :: bool
  cu_created_at :: string
  cu_active_sessions :: nat
  cu_brand_color :: "string option"

record session_read =
  se_id :: int
  se_ip_address :: "string option"
  se_city :: "string option"
  se_country :: "string option"
  se_user_agent :: "string option"
  se_created_at :: string
  se_last_used_at :: string
  se_is_current :: bool

record passkey =
  pk_id :: int
  pk_name :: string
  pk_created_at :: string
  pk_last_used_at :: "string option"

section \<open>Audit entries, bulk results, rate limits\<close>

record authz_log_entry =
  al_id :: int
  al_user_email :: string
  al_action :: string
  al_resource_type :: string
  al_resource_identifier :: "string option"
  al_allowed :: bool
  al_candidate_policy_names :: "string list"
  al_granting_policy_names :: "string list"
  al_failed_conditions :: "(string \<times> string list) list option"
  al_context :: "fields option"
  al_created_at :: string

record security_log_entry =
  sl_id :: int
  sl_user_email :: "string option"
  sl_event_type :: string
  sl_success :: bool
  sl_ip_address :: "string option"
  sl_user_agent :: "string option"
  sl_request_id :: "string option"
  sl_event_metadata :: "fields option"
  sl_created_at :: string

datatype bulk_status = BulkSuccess | BulkAlreadyHeld | BulkError

record bulk_item =
  bi_user_email :: string
  bi_identifier :: string
  bi_status :: bulk_status
  bi_error :: "string option"

record bulk_response =
  br_results :: "bulk_item list"
  br_success_count :: nat
  br_error_count :: nat

datatype rl_scope = ScopeIp | ScopeAccount | ScopeEmail | ScopeAccountIp

record rate_limit_entry =
  rl_key :: string
  rl_endpoint :: string
  rl_scope :: rl_scope
  rl_identifier :: string
  rl_identifier_label :: "string option"
  rl_count :: nat
  rl_limit :: nat
  rl_resets_in_seconds :: "int option"

section \<open>Errors\<close>

text \<open>
  A rejected request. \<open>HttpError\<close> is an axios error with its response, if one arrived:
  the status, and the body's \<open>code\<close>, \<open>params\<close> and \<open>detail\<close>. \<open>OtherError\<close> is any other
  exception (an aborted request, a programming error).
\<close>

record error_body =
  eb_code :: json
  eb_params :: fields
  eb_detail :: json

datatype api_error = HttpError "(nat \<times> error_body) option" | OtherError string

datatype 'a outcome = Fulfilled 'a | Rejected api_error

definition error_status :: "api_error \<Rightarrow> nat option" where
  "error_status e = (case e of HttpError (Some (s, _)) \<Rightarrow> Some s | _ \<Rightarrow> None)"

end
