(* ===== verification/Api.thy ===== *)
theory Api
  imports ApiTypes
begin

text \<open>
  The API client: one definition per function of \<open>api/*_api.ts\<close>, giving the HTTP request
  the function issues. Paths are assembled from literal segments and percent-encoded
  values, written with \<open>/\<close>-joined segments; the lemmas show that a value supplied by the
  user stays one path segment and that different values name different resources.
\<close>

definition url :: "string list \<Rightarrow> string" where
  "url segs = CHR ''/'' # join ''/'' segs"

section \<open>Policies (policies\_api.ts)\<close>

datatype sort_dir = Asc | Desc

definition opt_dir :: "sort_dir option \<Rightarrow> json" where
  "opt_dir d = (case d of None \<Rightarrow> JUndef | Some Asc \<Rightarrow> JStr ''asc'' | Some Desc \<Rightarrow> JStr ''desc'')"

record list_policies_params =
  lp_limit :: "nat option"
  lp_offset :: "nat option"
  lp_search :: "string option"
  lp_resource_type :: "string option"
  lp_is_active :: "bool option"
  lp_contains_action :: "string option"
  lp_destructive_only :: "bool option"
  lp_sort_by :: "string option"
  lp_sort_dir :: "sort_dir option"

definition no_list_policies_params :: list_policies_params where
  "no_list_policies_params = \<lparr>lp_limit = None, lp_offset = None, lp_search = None,
     lp_resource_type = None, lp_is_active = None, lp_contains_action = None,
     lp_destructive_only = None, lp_sort_by = None, lp_sort_dir = None\<rparr>"

definition num_default :: "nat option \<Rightarrow> nat \<Rightarrow> json" where
  "num_default n d = JNum (int (nullish n d))"

definition toListPoliciesApiParams :: "list_policies_params \<Rightarrow> fields" where
  "toListPoliciesApiParams p =
     [(''limit'', num_default (lp_limit p) 1000), (''offset'', num_default (lp_offset p) 0),
      (''search'', opt_str (lp_search p)), (''resource_type'', opt_str (lp_resource_type p)),
      (''is_active'', opt_bool (lp_is_active p)),
      (''contains_action'', opt_str (lp_contains_action p)),
      (''destructive_only'', opt_bool (lp_destructive_only p)),
      (''sort_by'', opt_str (lp_sort_by p)), (''sort_dir'', opt_dir (lp_sort_dir p))]"

definition listPoliciesApi :: "list_policies_params \<Rightarrow> request" where
  "listPoliciesApi p = get_req (url [''authorization'', ''policies'']) (toListPoliciesApiParams p)"

definition policy_url :: "string \<Rightarrow> string list \<Rightarrow> string" where
  "policy_url policyName rest =
     url ([''authorization'', ''policies'', encodeURIComponent policyName] @ rest)"

definition getPolicyApi :: "string \<Rightarrow> request" where
  "getPolicyApi policyName = get_req (policy_url policyName []) []"

definition createPolicyApi :: "policy_create \<Rightarrow> request" where
  "createPolicyApi p = post_req (url [''authorization'', ''policies''])
     (Some (JObj [(''name'', JStr (pc_name p)), (''description'', opt_str (pc_description p)),
        (''actions'', str_list (pc_actions p)), (''resource_type'', JStr (pc_resource_type p)),
        (''conditions'', opt_obj (pc_conditions p))]))"

definition policy_update_fields :: "policy_update \<Rightarrow> fields" where
  "policy_update_fields p =
     [(''name'', opt_str (pu_name p)), (''description'', opt_str (pu_description p)),
      (''actions'', (case pu_actions p of None \<Rightarrow> JUndef | Some a \<Rightarrow> str_list a)),
      (''resource_type'', opt_str (pu_resource_type p)),
      (''conditions'', opt_obj (pu_conditions p)), (''is_active'', opt_bool (pu_is_active p)),
      (''change_reason'', opt_str (pu_change_reason p))]"

definition updatePolicyApi :: "string \<Rightarrow> policy_update \<Rightarrow> request" where
  "updatePolicyApi policyName p = put_req (policy_url policyName []) (JObj (policy_update_fields p))"

definition deletePolicyApi :: "string \<Rightarrow> string option \<Rightarrow> request" where
  "deletePolicyApi policyName reason =
     delete_req (policy_url policyName []) [(''reason'', opt_str reason)]"

definition getPolicyHistoryApi :: "string \<Rightarrow> nat option \<Rightarrow> nat option \<Rightarrow> request" where
  "getPolicyHistoryApi policyName lim off =
     get_req (policy_url policyName [''history''])
       [(''limit'', num_default lim 50), (''offset'', num_default off 0)]"

definition rollbackPolicyApi :: "string \<Rightarrow> int \<Rightarrow> string option \<Rightarrow> request" where
  "rollbackPolicyApi policyName historyId reason =
     post_req (policy_url policyName [''history'', show_int historyId, ''rollback''])
       (Some (JObj (if truthy reason then [(''reason'', opt_str reason)] else [])))"

definition authz_user_url :: "string \<Rightarrow> string list \<Rightarrow> string" where
  "authz_user_url userEmail rest =
     url ([''authorization'', ''users'', encodeURIComponent userEmail] @ rest)"

definition assignPolicyApi :: "string \<Rightarrow> string \<Rightarrow> request" where
  "assignPolicyApi userEmail policyName =
     post_req (authz_user_url userEmail [''policies'']) (Some (JObj [(''policy_name'', JStr policyName)]))"

definition revokePolicyApi :: "string \<Rightarrow> string \<Rightarrow> request" where
  "revokePolicyApi userEmail policyName =
     delete_req (authz_user_url userEmail [''policies'', encodeURIComponent policyName]) []"

definition revokePolicyActionApi :: "string \<Rightarrow> string \<Rightarrow> string \<Rightarrow> request" where
  "revokePolicyActionApi userEmail policyName action =
     post_req (authz_user_url userEmail [''policies'', encodeURIComponent policyName, ''revoke-action''])
       (Some (JObj [(''action'', JStr action)]))"

definition getPolicyHoldersApi :: "string \<Rightarrow> request" where
  "getPolicyHoldersApi policyName = get_req (policy_url policyName [''holders'']) []"

definition getMyPoliciesApi :: request where
  "getMyPoliciesApi = get_req (url [''authorization'', ''users'', ''me'', ''policies'']) []"

definition getUserPoliciesApi :: "string \<Rightarrow> request" where
  "getUserPoliciesApi userEmail = get_req (authz_user_url userEmail [''policies'']) []"

section \<open>Direct permissions (permissions\_api.ts)\<close>

definition grantPermissionApi :: "string \<Rightarrow> permission_assignment \<Rightarrow> request" where
  "grantPermissionApi userEmail p =
     post_req (authz_user_url userEmail [''permissions''])
       (Some (JObj [(''action'', JStr (pa_action p)), (''resource_type'', JStr (pa_resource_type p)),
          (''conditions'', opt_obj (pa_conditions p))]))"

definition revokePermissionApi :: "string \<Rightarrow> string \<Rightarrow> string \<Rightarrow> request" where
  "revokePermissionApi userEmail action resourceType =
     delete_req (authz_user_url userEmail [''permissions'', encodeURIComponent action])
       [(''resource_type'', JStr resourceType)]"

definition getMyPermissionsApi :: request where
  "getMyPermissionsApi = get_req (url [''authorization'', ''users'', ''me'', ''permissions'']) []"

definition getUserPermissionsApi :: "string \<Rightarrow> request" where
  "getUserPermissionsApi userEmail = get_req (authz_user_url userEmail [''permissions'']) []"

definition getPermissionCatalogApi :: request where
  "getPermissionCatalogApi = get_req (url [''authorization'', ''permissions'', ''catalog'']) []"

definition getPermissionCatalogUsageApi :: request where
  "getPermissionCatalogUsageApi =
     get_req (url [''authorization'', ''permissions'', ''catalog'', ''usage'']) []"

section \<open>Users (users\_api.ts)\<close>

record list_users_params =
  lu_limit :: "nat option"
  lu_offset :: "nat option"
  lu_search :: "string option"
  lu_role :: "string option"
  lu_is_verified :: "bool option"
  lu_status :: "string option"
  lu_policy :: "string option"
  lu_permission :: "string option"
  lu_permission_source :: "string option"
  lu_sort_by :: "string option"
  lu_sort_dir :: "sort_dir option"
  lu_last_login :: "string option"
  lu_last_login_from :: "string option"
  lu_last_login_to :: "string option"

definition toApiParams :: "list_users_params \<Rightarrow> fields" where
  "toApiParams p =
     [(''limit'', num_default (lu_limit p) 1000), (''offset'', num_default (lu_offset p) 0),
      (''search'', opt_str (lu_search p)), (''role'', opt_str (lu_role p)),
      (''is_verified'', opt_bool (lu_is_verified p)), (''status'', opt_str (lu_status p)),
      (''policy'', opt_str (lu_policy p)), (''permission'', opt_str (lu_permission p)),
      (''permission_source'', opt_str (lu_permission_source p)),
      (''sort_by'', opt_str (lu_sort_by p)), (''sort_dir'', opt_dir (lu_sort_dir p)),
      (''last_login'', opt_str (lu_last_login p)),
      (''last_login_from'', opt_str (lu_last_login_from p)),
      (''last_login_to'', opt_str (lu_last_login_to p))]"

definition listUsersApi :: "list_users_params \<Rightarrow> request" where
  "listUsersApi p = get_req ''/users/'' (toApiParams p)"

definition exportUsersApi :: "list_users_params \<Rightarrow> request" where
  "exportUsersApi p = get_req ''/users/export'' (toApiParams p)"

definition getUserStatsApi :: request where
  "getUserStatsApi = get_req ''/users/stats'' []"

definition user_url :: "string \<Rightarrow> string list \<Rightarrow> string" where
  "user_url userEmail rest = url ([''users'', encodeURIComponent userEmail] @ rest)"

definition user_update_fields :: "user_update \<Rightarrow> fields" where
  "user_update_fields p =
     [(''name'', opt_str (uu_name p)), (''password'', opt_str (uu_password p)),
      (''current_password'', opt_str (uu_current_password p)),
      (''brand_color'', (case uu_brand_color p of None \<Rightarrow> JUndef | Some None \<Rightarrow> JNull
          | Some (Some c) \<Rightarrow> JStr c))]"

definition updateUserApi :: "string \<Rightarrow> user_update \<Rightarrow> request" where
  "updateUserApi userEmail p = put_req (user_url userEmail []) (JObj (user_update_fields p))"

definition deleteUserApi :: "string \<Rightarrow> request" where
  "deleteUserApi userEmail = delete_req (user_url userEmail []) []"

definition purgeUserApi :: "string \<Rightarrow> request" where
  "purgeUserApi userEmail = delete_req (user_url userEmail [''purge'']) []"

definition reactivateUserApi :: "string \<Rightarrow> request" where
  "reactivateUserApi userEmail = patch_req (user_url userEmail [''reactivate'']) None"

definition listUserPasskeysApi :: "string \<Rightarrow> request" where
  "listUserPasskeysApi userEmail = get_req (user_url userEmail [''passkeys'']) []"

definition revokeUserPasskeyApi :: "string \<Rightarrow> int \<Rightarrow> request" where
  "revokeUserPasskeyApi userEmail passkeyId =
     delete_req (user_url userEmail [''passkeys'', show_int passkeyId]) []"

definition revokeAllUserPasskeysApi :: "string \<Rightarrow> request" where
  "revokeAllUserPasskeysApi userEmail = delete_req (user_url userEmail [''passkeys'']) []"

definition updateUserRoleApi :: "string \<Rightarrow> string \<Rightarrow> request" where
  "updateUserRoleApi userEmail role =
     patch_req (user_url userEmail [''role'']) (Some (JObj [(''role'', JStr role)]))"

section \<open>Bulk assignment (bulk\_assignment\_api.ts)\<close>

definition bulk_req :: "string list \<Rightarrow> (string \<Rightarrow> fields) \<Rightarrow> string list \<Rightarrow> request" where
  "bulk_req segs item userEmails =
     post_req (url ([''authorization'', ''bulk''] @ segs))
       (Some (JObj [(''items'', JArr (map (\<lambda>e. JObj ((''user_email'', JStr e) # item e)) userEmails))]))"

definition bulkAssignPoliciesApi :: "string list \<Rightarrow> string \<Rightarrow> request" where
  "bulkAssignPoliciesApi userEmails policyName =
     bulk_req [''policies'', ''assign''] (\<lambda>_. [(''policy_name'', JStr policyName)]) userEmails"

definition bulkRemovePoliciesApi :: "string list \<Rightarrow> string \<Rightarrow> request" where
  "bulkRemovePoliciesApi userEmails policyName =
     bulk_req [''policies'', ''remove''] (\<lambda>_. [(''policy_name'', JStr policyName)]) userEmails"

definition bulkAssignPermissionsApi ::
  "string list \<Rightarrow> string \<Rightarrow> string \<Rightarrow> fields option \<Rightarrow> request" where
  "bulkAssignPermissionsApi userEmails action resourceType conditions =
     bulk_req [''permissions'', ''assign'']
       (\<lambda>_. [(''action'', JStr action), (''resource_type'', JStr resourceType),
             (''conditions'', opt_obj conditions)]) userEmails"

definition bulkRemovePermissionsApi :: "string list \<Rightarrow> string \<Rightarrow> string \<Rightarrow> request" where
  "bulkRemovePermissionsApi userEmails action resourceType =
     bulk_req [''permissions'', ''remove'']
       (\<lambda>_. [(''action'', JStr action), (''resource_type'', JStr resourceType)]) userEmails"

definition bulkUpdateRoleApi :: "string list \<Rightarrow> string \<Rightarrow> request" where
  "bulkUpdateRoleApi userEmails role =
     bulk_req [''users'', ''role''] (\<lambda>_. [(''role'', JStr role)]) userEmails"

section \<open>Audit logs (audit\_api.ts)\<close>

record base_list_params =
  bl_limit :: "nat option"
  bl_offset :: "nat option"
  bl_search :: "string option"
  bl_sort_by :: "string option"
  bl_sort_dir :: "sort_dir option"
  bl_from :: "string option"
  bl_to :: "string option"

record authz_list_params = base_list_params +
  bl_action :: "string option"
  bl_resource_type :: "string option"
  bl_allowed :: "bool option"

record security_list_params = base_list_params +
  bl_event_type :: "string option"
  bl_ip_address :: "string option"
  bl_success :: "bool option"

definition toAuthorizationParams :: "authz_list_params \<Rightarrow> fields" where
  "toAuthorizationParams p =
     [(''limit'', num_default (bl_limit p) 50), (''offset'', num_default (bl_offset p) 0),
      (''search'', opt_str (bl_search p)), (''action'', opt_str (bl_action p)),
      (''resource_type'', opt_str (bl_resource_type p)), (''allowed'', opt_bool (bl_allowed p)),
      (''sort_by'', opt_str (bl_sort_by p)), (''sort_dir'', opt_dir (bl_sort_dir p)),
      (''from'', opt_str (bl_from p)), (''to'', opt_str (bl_to p))]"

definition toSecurityParams :: "security_list_params \<Rightarrow> fields" where
  "toSecurityParams p =
     [(''limit'', num_default (bl_limit p) 50), (''offset'', num_default (bl_offset p) 0),
      (''search'', opt_str (bl_search p)), (''event_type'', opt_str (bl_event_type p)),
      (''ip_address'', opt_str (bl_ip_address p)), (''success'', opt_bool (bl_success p)),
      (''sort_by'', opt_str (bl_sort_by p)), (''sort_dir'', opt_dir (bl_sort_dir p)),
      (''from'', opt_str (bl_from p)), (''to'', opt_str (bl_to p))]"

definition getAuthorizationAuditLogApi :: "authz_list_params \<Rightarrow> request" where
  "getAuthorizationAuditLogApi p = get_req ''/authorization/audit-log'' (toAuthorizationParams p)"

definition getMyAuthorizationAuditLogApi :: "authz_list_params \<Rightarrow> request" where
  "getMyAuthorizationAuditLogApi p =
     get_req ''/authorization/audit-log/me'' (toAuthorizationParams p)"

definition getUserAuthorizationAuditLogApi :: "string \<Rightarrow> authz_list_params \<Rightarrow> request" where
  "getUserAuthorizationAuditLogApi userEmail p =
     get_req (url [''authorization'', ''audit-log'', ''users'', encodeURIComponent userEmail])
       (toAuthorizationParams p)"

definition getSecurityAuditLogApi :: "security_list_params \<Rightarrow> request" where
  "getSecurityAuditLogApi p = get_req ''/audit/security-log'' (toSecurityParams p)"

definition getMySecurityAuditLogApi :: "security_list_params \<Rightarrow> request" where
  "getMySecurityAuditLogApi p = get_req ''/audit/security-log/me'' (toSecurityParams p)"

definition getUserSecurityAuditLogApi :: "string \<Rightarrow> security_list_params \<Rightarrow> request" where
  "getUserSecurityAuditLogApi userEmail p =
     get_req (url [''audit'', ''security-log'', ''users'', encodeURIComponent userEmail])
       (toSecurityParams p)"

text \<open>The bounds of the trend are added only when they are non-empty.\<close>

definition trend_bounds :: "string option \<Rightarrow> string option \<Rightarrow> fields" where
  "trend_bounds from to =
     (if truthy from then [(''from'', opt_str from)] else []) @
     (if truthy to then [(''to'', opt_str to)] else [])"

definition getLoginTrendApi ::
  "nat option \<Rightarrow> string option \<Rightarrow> string option \<Rightarrow> string option \<Rightarrow> request" where
  "getLoginTrendApi days search from to =
     get_req ''/audit/security-log/login-trend''
       ([(''days'', num_default days 14), (''search'', opt_str search)] @ trend_bounds from to)"

definition getMyLoginTrendApi :: "nat option \<Rightarrow> string option \<Rightarrow> string option \<Rightarrow> request" where
  "getMyLoginTrendApi days from to =
     get_req ''/audit/security-log/me/login-trend''
       ([(''days'', num_default days 14)] @ trend_bounds from to)"

section \<open>Authentication and sessions (auth\_api.ts)\<close>

definition str_body :: "(string \<times> string) list \<Rightarrow> json option" where
  "str_body fs = Some (JObj (map (\<lambda>f. (fst f, JStr (snd f))) fs))"

definition signupApi :: "string \<Rightarrow> string \<Rightarrow> string \<Rightarrow> request" where
  "signupApi name email password = post_req ''/auth/signup''
     (str_body [(''name'', name), (''email'', email), (''password'', password)])"

definition loginApi :: "string \<Rightarrow> string \<Rightarrow> request" where
  "loginApi email password = post_req ''/auth/login''
     (str_body [(''email'', email), (''password'', password)])"

definition getCurrentUserApi :: "string option \<Rightarrow> request" where
  "getCurrentUserApi src = get_req ''/auth/me'' [(''src'', JStr (nullish src ''unknown''))]"

definition oauth2LoginGoogleApi :: request where
  "oauth2LoginGoogleApi = get_req ''/auth/oauth2/login/google'' []"

definition oauth2CallbackGoogleApi :: "string \<Rightarrow> request" where
  "oauth2CallbackGoogleApi auth_code = get_req ''/auth/oauth2/callback/google'' [(''code'', JStr auth_code)]"

definition refreshTokenApi :: request where
  "refreshTokenApi = post_req ''/auth/refresh/'' None"

definition logoutApi :: request where
  "logoutApi = post_req ''/auth/logout'' None"

definition logoutAllApi :: request where
  "logoutAllApi = post_req ''/auth/logout/all'' None"

definition getMySessionsApi :: request where
  "getMySessionsApi = get_req ''/auth/sessions'' []"

definition revokeSessionApi :: "int \<Rightarrow> request" where
  "revokeSessionApi sessionId = delete_req (url [''auth'', ''sessions'', show_int sessionId]) []"

definition passwordResetRequestApi :: "string \<Rightarrow> request" where
  "passwordResetRequestApi email = post_req ''/auth/password-reset/request'' (str_body [(''email'', email)])"

definition passwordResetConfirmApi :: "string \<Rightarrow> string \<Rightarrow> request" where
  "passwordResetConfirmApi token new_password = post_req ''/auth/password-reset/confirm''
     (str_body [(''token'', token), (''new_password'', new_password)])"

definition verificationEmailRequestApi :: "string \<Rightarrow> request" where
  "verificationEmailRequestApi email =
     post_req ''/auth/verify-account/request'' (str_body [(''email'', email)])"

definition verifyAccountApi :: "string \<Rightarrow> string \<Rightarrow> request" where
  "verifyAccountApi token email = post_req ''/auth/verify-account'' (str_body [(''token'', token)])"

section \<open>Passkeys (passkeys\_api.ts)\<close>

definition listPasskeysApi :: request where
  "listPasskeysApi = get_req ''/auth/passkeys'' []"

definition beginPasskeyRegistrationApi :: "string \<Rightarrow> request" where
  "beginPasskeyRegistrationApi name =
     post_req ''/auth/passkeys/registration/options'' (str_body [(''name'', name)])"

definition completePasskeyRegistrationApi :: "string \<Rightarrow> json \<Rightarrow> request" where
  "completePasskeyRegistrationApi name credential =
     post_req ''/auth/passkeys/registration/verify''
       (Some (JObj [(''name'', JStr name), (''credential'', credential)]))"

definition renamePasskeyApi :: "int \<Rightarrow> string \<Rightarrow> request" where
  "renamePasskeyApi i name =
     patch_req (url [''auth'', ''passkeys'', show_int i]) (str_body [(''name'', name)])"

datatype bulk_remove_payload = RemoveIds "int list" | RemoveAll

definition bulkRemovePasskeysApi :: "bulk_remove_payload \<Rightarrow> request" where
  "bulkRemovePasskeysApi p = post_req ''/auth/passkeys/bulk-remove''
     (Some (JObj (case p of RemoveIds ids \<Rightarrow> [(''ids'', JArr (map JNum ids))]
        | RemoveAll \<Rightarrow> [(''all'', JBool True)])))"

definition removePasskeyApi :: "int \<Rightarrow> request" where
  "removePasskeyApi i = delete_req (url [''auth'', ''passkeys'', show_int i]) []"

definition beginPasskeyAuthenticationApi :: request where
  "beginPasskeyAuthenticationApi = post_req ''/auth/passkeys/authentication/options'' None"

definition completePasskeyAuthenticationApi :: "json \<Rightarrow> request" where
  "completePasskeyAuthenticationApi credential =
     post_req ''/auth/passkeys/authentication/verify'' (Some credential)"

definition confirmWithPasswordApi :: "string \<Rightarrow> request" where
  "confirmWithPasswordApi password =
     post_req ''/auth/passkeys/step-up/password'' (str_body [(''password'', password)])"

definition confirmWithPasskeyApi :: "json \<Rightarrow> request" where
  "confirmWithPasskeyApi credential = post_req ''/auth/passkeys/step-up/passkey'' (Some credential)"

definition STEP_UP_REQUIRED_CODE :: string where
  "STEP_UP_REQUIRED_CODE = ''PASSKEY_STEP_UP_REQUIRED''"

section \<open>Rate limits and account settings (rate\_limits\_api.ts, account\_settings\_api.ts)\<close>

definition scope_name :: "rl_scope \<Rightarrow> string" where
  "scope_name s = (case s of ScopeIp \<Rightarrow> ''ip'' | ScopeAccount \<Rightarrow> ''account'' | ScopeEmail \<Rightarrow> ''email''
     | ScopeAccountIp \<Rightarrow> ''account_ip'')"

record list_rate_limits_params =
  lr_page :: "nat option"
  lr_scope :: "rl_scope option"
  lr_endpoint :: "string option"
  lr_identifier :: "string option"
  lr_page_size :: "nat option"
  lr_kind :: "string option"
  lr_sort_by :: "string option"
  lr_sort_dir :: "sort_dir option"

definition falsy_to_undef :: "string option \<Rightarrow> json" where
  "falsy_to_undef x = (if truthy x then opt_str x else JUndef)"

definition listRateLimitsApi :: "list_rate_limits_params \<Rightarrow> request" where
  "listRateLimitsApi p = get_req ''/rate-limits/''
     [(''page'', num_default (lr_page p) 1), (''scope'', opt_str (map_option scope_name (lr_scope p))),
      (''endpoint'', falsy_to_undef (lr_endpoint p)), (''identifier'', falsy_to_undef (lr_identifier p)),
      (''page_size'', opt_num (map_option int (lr_page_size p))), (''kind'', opt_str (lr_kind p)),
      (''sort_by'', opt_str (lr_sort_by p)), (''sort_dir'', opt_dir (lr_sort_dir p))]"

definition getRateLimitsSummaryApi :: request where
  "getRateLimitsSummaryApi = get_req ''/rate-limits/summary'' []"

definition resetRateLimitApi :: "string \<Rightarrow> request" where
  "resetRateLimitApi key = delete_req (url [''rate-limits'', encodeURIComponent key]) []"

definition updateMyAccountApi :: "user_update \<Rightarrow> request" where
  "updateMyAccountApi p = put_req ''/users/me'' (JObj (user_update_fields p))"

definition deleteMyAccountApi :: "string option \<Rightarrow> request" where
  "deleteMyAccountApi current_password =
     (delete_req ''/users/me'' []) \<lparr>r_body := Some (JObj [(''current_password'', opt_str current_password)])\<rparr>"

definition confirmDeleteMyAccountApi :: "string \<Rightarrow> request" where
  "confirmDeleteMyAccountApi token =
     post_req ''/users/me/confirm-delete'' (str_body [(''token'', token)])"

section \<open>Where a request goes\<close>

named_theorems request_simps \<open>unfolding rules of the request builders\<close>

lemmas url_simps [request_simps] =
  policy_url_def authz_user_url_def user_url_def get_req_def post_req_def put_req_def
  patch_req_def delete_req_def

lemma url_segments:
  assumes "segs \<noteq> []" "\<forall>s\<in>set segs. CHR ''/'' \<notin> set s"
  shows "split_on CHR ''/'' (url segs) = [] # segs"
  using split_on_join_segs [OF assms] by (simp add: url_def)

lemma url_inject:
  assumes "segs \<noteq> []" "\<forall>s\<in>set segs. CHR ''/'' \<notin> set s"
    and "segs' \<noteq> []" "\<forall>s\<in>set segs'. CHR ''/'' \<notin> set s"
  shows "url segs = url segs' \<longleftrightarrow> segs = segs'"
  using url_segments [OF assms(1,2)] url_segments [OF assms(3,4)] by (metis list.inject)

lemma show_int_no_slash: "CHR ''/'' \<notin> set (show_int i)"
proof -
  have "CHR ''/'' \<notin> digit_char ` {0..<10}"
  proof
    assume "CHR ''/'' \<in> digit_char ` {0..<10}"
    then obtain d where "d < 10" "CHR ''/'' = digit_char d" by auto
    then have "ucode (CHR ''/'') = 48 + d" by (simp add: digit_char_def ucode_char_of)
    then show False by (simp add: ucode_def)
  qed
  then show ?thesis using show_nat_digits by (auto simp: show_int_def)
qed

lemma revokeSessionApi_inject: "revokeSessionApi i = revokeSessionApi j \<longleftrightarrow> i = j"
proof -
  have "CHR ''/'' \<notin> set ''auth''" "CHR ''/'' \<notin> set ''sessions''" by simp_all
  then have "url [''auth'', ''sessions'', show_int i] = url [''auth'', ''sessions'', show_int j] \<longleftrightarrow> show_int i = show_int j"
    by (subst url_inject) (auto simp: show_int_no_slash)
  then show ?thesis by (simp add: revokeSessionApi_def delete_req_def show_int_inject)
qed

end
