(* ===== verification/AuthStore.thy ===== *)
theory AuthStore
  imports Api
begin

text \<open>
  Who is signed in and what they may do: the auth store (\<open>store/authStore.ts\<close>), the
  permission vocabulary and the checks built on it (\<open>authorization/permissions.ts\<close>,
  \<open>destructiveActions.ts\<close>, \<open>useAuthorization.ts\<close>, \<open>useCan.ts\<close>, \<open>grantability.ts\<close>), and the
  two gates that hide or redirect (\<open>Authorized.tsx\<close>, \<open>ProtectedRoute.tsx\<close>). The interface
  between the store and its clients is the locale \<open>auth_gate\<close>: a permission is held only
  while the session is known to be established.
\<close>

section \<open>The store\<close>

record auth_state =
  isAuthenticated :: "bool option"
  authenticatedAt :: "int option"
  a_name :: "string option"
  a_email :: "string option"
  a_role :: "string option"
  permissions :: "string list"
  permissionsPending :: bool
  hasPassword :: bool

definition clear_profile_fields :: "auth_state \<Rightarrow> auth_state" where
  "clear_profile_fields s = s\<lparr>a_name := None, a_email := None, a_role := None, permissions := [],
     hasPassword := False, permissionsPending := False\<rparr>"

definition initial_auth :: auth_state where
  "initial_auth = \<lparr>isAuthenticated = None, authenticatedAt = None, a_name = None, a_email = None,
     a_role = None, permissions = [], permissionsPending = False, hasPassword = False\<rparr>"

text \<open>\<open>now\<close> is \<open>Date.now()\<close>, in milliseconds.\<close>

definition setAuthenticated :: "int \<Rightarrow> bool \<Rightarrow> auth_state \<Rightarrow> auth_state" where
  "setAuthenticated now b s =
     (if b then s\<lparr>isAuthenticated := Some True, authenticatedAt := Some now\<rparr>
      else clear_profile_fields (s\<lparr>isAuthenticated := Some False, authenticatedAt := None\<rparr>))"

definition setProfile :: "current_user \<Rightarrow> auth_state \<Rightarrow> auth_state" where
  "setProfile p s = s\<lparr>a_name := Some (cu_name p), a_email := Some (cu_email p), a_role := cu_role p,
     permissions := nullish (cu_permissions p) [], hasPassword := cu_has_password p,
     permissionsPending := False\<rparr>"

definition clearProfile :: "auth_state \<Rightarrow> auth_state" where
  "clearProfile s = clear_profile_fields s"

definition dropPermissions :: "auth_state \<Rightarrow> auth_state" where
  "dropPermissions s = s\<lparr>permissions := [], permissionsPending := True\<rparr>"

definition reset_auth :: "auth_state \<Rightarrow> auth_state" where
  "reset_auth s = clear_profile_fields (s\<lparr>isAuthenticated := None, authenticatedAt := None\<rparr>)"

text \<open>The store changes only through its five operations.\<close>

datatype auth_op = SetAuthenticated int bool | SetProfile current_user | ClearProfile
  | DropPermissions | ResetAuth

fun auth_step :: "auth_op \<Rightarrow> auth_state \<Rightarrow> auth_state" where
  "auth_step (SetAuthenticated now b) s = setAuthenticated now b s"
| "auth_step (SetProfile p) s = setProfile p s"
| "auth_step ClearProfile s = clearProfile s"
| "auth_step DropPermissions s = dropPermissions s"
| "auth_step ResetAuth s = reset_auth s"

definition auth_run :: "auth_op list \<Rightarrow> auth_state" where
  "auth_run ops = foldl (\<lambda>s op. auth_step op s) initial_auth ops"

lemmas auth_store_defs =
  setAuthenticated_def setProfile_def clearProfile_def dropPermissions_def reset_auth_def
  clear_profile_fields_def

section \<open>Permissions\<close>

definition PERMISSIONS :: "(string \<times> string) list" where
  "PERMISSIONS =
     [(''USERS_READ_OWN'', ''users:read_own''), (''USERS_UPDATE_OWN'', ''users:update_own''),
      (''USERS_LIST_ALL'', ''users:list_all''), (''USERS_UPDATE_ANY'', ''users:update_any''),
      (''USERS_DEACTIVATE_ANY'', ''users:deactivate_any''), (''USERS_ASSIGN_ROLE'', ''users:assign_role''),
      (''USERS_ASSIGN_SYSTEM_ROLE'', ''users:assign_system_role''), (''USERS_DELETE_ANY'', ''users:delete_any''),
      (''USERS_REACTIVATE'', ''users:reactivate''), (''USERS_MANAGE_PASSKEYS'', ''users:manage_passkeys''),
      (''POLICIES_READ'', ''policies:read''), (''POLICIES_CREATE'', ''policies:create''),
      (''POLICIES_UPDATE'', ''policies:update''), (''POLICIES_DELETE'', ''policies:delete''),
      (''POLICIES_ASSIGN'', ''policies:assign''), (''POLICIES_REVOKE'', ''policies:revoke''),
      (''PERMISSIONS_GRANT'', ''permissions:grant''), (''PERMISSIONS_REVOKE'', ''permissions:revoke''),
      (''PERMISSIONS_READ'', ''permissions:read''), (''SECURITY_AUDIT_READ'', ''security_audit:read''),
      (''RATE_LIMITS_READ'', ''rate_limits:read''), (''RATE_LIMITS_RESET'', ''rate_limits:reset'')]"

definition DESTRUCTIVE_ACTIONS :: "string list" where
  "DESTRUCTIVE_ACTIONS =
     [''users:deactivate_any'', ''users:delete_any'', ''users:assign_system_role'', ''policies:delete'',
      ''policies:revoke'', ''permissions:revoke'', ''rate_limits:reset'']"

definition isDestructiveAction :: "string \<Rightarrow> bool" where
  "isDestructiveAction action \<longleftrightarrow> action \<in> set DESTRUCTIVE_ACTIONS"

lemma destructive_are_permissions: "set DESTRUCTIVE_ACTIONS \<subseteq> snd ` set PERMISSIONS"
  by (simp add: DESTRUCTIVE_ACTIONS_def PERMISSIONS_def)

text \<open>One action, or an array meaning any of them.\<close>

datatype action_spec = OneAction string | AnyOf "string list"

definition can :: "auth_state \<Rightarrow> action_spec \<Rightarrow> bool" where
  "can s action =
     (if isAuthenticated s \<noteq> Some True then False
      else case action of
        AnyOf as \<Rightarrow> list_ex (\<lambda>a. a \<in> set (permissions s)) as
      | OneAction a \<Rightarrow> a \<in> set (permissions s))"

text \<open>\<open>useCan\<close> and its alias \<open>useAuthorized\<close> pass the resource type through, where it is ignored.\<close>

definition useCan :: "auth_state \<Rightarrow> action_spec \<Rightarrow> string option \<Rightarrow> bool" where
  "useCan s action resourceType = can s action"

definition canGrantAction :: "string \<Rightarrow> (string \<Rightarrow> bool) \<Rightarrow> bool" where
  "canGrantAction action can_do = can_do action"

definition canGrantPolicy :: "string list \<Rightarrow> (string \<Rightarrow> bool) \<Rightarrow> bool" where
  "canGrantPolicy actions can_do = list_all (\<lambda>a. canGrantAction a can_do) actions"

section \<open>The gate interface\<close>

locale auth_gate =
  fixes status :: "'s \<Rightarrow> bool option"
    and holds :: "'s \<Rightarrow> string \<Rightarrow> bool"
    and sign_out :: "'s \<Rightarrow> 's"
    and forget :: "'s \<Rightarrow> 's"
  assumes fail_closed: "holds s a \<Longrightarrow> status s = Some True"
    and sign_out_status: "status (sign_out s) = Some False"
    and forget_status: "status (forget s) = status s"
    and forget_denies: "\<not> holds (forget s) a"
begin

definition allows_any :: "'s \<Rightarrow> string list \<Rightarrow> bool" where
  "allows_any s as = list_ex (holds s) as"

lemma sign_out_denies: "\<not> holds (sign_out s) a"
  using fail_closed [of "sign_out s" a] by (auto simp: sign_out_status)

lemma allows_any_established: "allows_any s as \<Longrightarrow> status s = Some True"
  by (auto simp: allows_any_def list_ex_iff dest: fail_closed)

lemma forget_allows_none: "\<not> allows_any (forget s) as"
  by (simp add: allows_any_def list_ex_iff forget_denies)

lemma allows_any_mono: "set as \<subseteq> set bs \<Longrightarrow> allows_any s as \<Longrightarrow> allows_any s bs"
  by (auto simp: allows_any_def list_ex_iff)

end

interpretation gate: auth_gate isAuthenticated "\<lambda>s a. can s (OneAction a)"
    "setAuthenticated now False" dropPermissions for now
  by unfold_locales (auto simp: can_def auth_store_defs split: if_splits)

lemma can_any: "can s (AnyOf as) \<longleftrightarrow> list_ex (\<lambda>a. can s (OneAction a)) as"
  by (auto simp: can_def list_ex_iff)

lemma can_established: "can s spec \<Longrightarrow> isAuthenticated s = Some True"
  by (simp add: can_def split: if_splits)

text \<open>
  A stale permission list never outlives its session, and a session that is not established
  has no establishment time. Both hold after any sequence of store operations.
\<close>

definition auth_inv :: "auth_state \<Rightarrow> bool" where
  "auth_inv s \<longleftrightarrow> (authenticatedAt s \<noteq> None \<longleftrightarrow> isAuthenticated s = Some True)
     \<and> (permissionsPending s \<longrightarrow> permissions s = [])"

lemma auth_inv_initial [simp]: "auth_inv initial_auth"
  by (simp add: auth_inv_def initial_auth_def)

lemma auth_inv_step: "auth_inv s \<Longrightarrow> auth_inv (auth_step op s)"
  by (cases op) (auto simp: auth_inv_def auth_store_defs)

lemma auth_inv_run: "auth_inv (auth_run ops)"
proof -
  have "auth_inv s \<Longrightarrow> auth_inv (foldl (\<lambda>s op. auth_step op s) s ops)" for s
    by (induction ops arbitrary: s) (simp_all add: auth_inv_step)
  then show ?thesis by (simp add: auth_run_def)
qed

section \<open>Gates\<close>

datatype gate_view = GateNothing | GateChildren | GateFallback

definition authorized_view :: "auth_state \<Rightarrow> action_spec \<Rightarrow> gate_view" where
  "authorized_view s permission =
     (let allowed = useCan s permission None in
      if isAuthenticated s = None then GateNothing
      else if allowed then GateChildren else GateFallback)"

definition ifcan_view :: "auth_state \<Rightarrow> action_spec \<Rightarrow> gate_view" where
  "ifcan_view s action = authorized_view s action"

record route_hooks =
  prevIsAllowed :: bool
  wasEverAllowed :: bool

datatype route_view = VerifyingLoader | ToLogin | ToDashboard | ToNotAuthorized | RouteChildren

definition no_permission_needed :: "action_spec option \<Rightarrow> bool" where
  "no_permission_needed p = (case p of None \<Rightarrow> True | Some (OneAction a) \<Rightarrow> a = [] | Some (AnyOf _) \<Rightarrow> False)"

definition route_allowed :: "action_spec option \<Rightarrow> auth_state \<Rightarrow> bool" where
  "route_allowed permission s \<longleftrightarrow>
     isAuthenticated s = Some True \<and> (no_permission_needed permission \<or> can s (the permission))"

definition route_mount :: "action_spec option \<Rightarrow> auth_state \<Rightarrow> route_hooks" where
  "route_mount permission s =
     \<lparr>prevIsAllowed = route_allowed permission s, wasEverAllowed = route_allowed permission s\<rparr>"

text \<open>
  One render. Setting state while rendering makes React render again with the new state
  before anything is shown, so the view is computed from the adjusted hooks.
\<close>

definition route_adjust :: "bool \<Rightarrow> route_hooks \<Rightarrow> route_hooks" where
  "route_adjust allowed h =
     (if allowed \<noteq> prevIsAllowed h
      then (let h1 = h\<lparr>prevIsAllowed := allowed\<rparr> in if allowed then h1\<lparr>wasEverAllowed := True\<rparr> else h1)
      else h)"

definition protected_route ::
  "action_spec option \<Rightarrow> auth_state \<Rightarrow> route_hooks \<Rightarrow> route_hooks \<times> route_view" where
  "protected_route permission s h =
     (let allowed = route_allowed permission s;
          h' = route_adjust allowed h
      in (h',
          if isAuthenticated s = None then VerifyingLoader
          else if isAuthenticated s = Some False then ToLogin
          else if \<not> allowed then
            (if wasEverAllowed h' \<and> permissionsPending s then VerifyingLoader
             else if wasEverAllowed h' then ToDashboard
             else ToNotAuthorized)
          else RouteChildren))"

text \<open>The views of a mounted route over the successive states of the store.\<close>

fun route_renders :: "action_spec option \<Rightarrow> route_hooks \<Rightarrow> auth_state list \<Rightarrow> route_view list" where
  "route_renders permission h [] = []"
| "route_renders permission h (s # ss) =
     (let r = protected_route permission s h in snd r # route_renders permission (fst r) ss)"

definition route_views :: "action_spec option \<Rightarrow> auth_state list \<Rightarrow> route_view list" where
  "route_views permission ss =
     (case ss of [] \<Rightarrow> [] | s # _ \<Rightarrow> route_renders permission (route_mount permission s) ss)"

text \<open>What the view should be, given the whole history of store states since mounting.\<close>

definition route_spec :: "action_spec option \<Rightarrow> auth_state list \<Rightarrow> auth_state \<Rightarrow> route_view" where
  "route_spec permission before s =
     (if isAuthenticated s = None then VerifyingLoader
      else if isAuthenticated s = Some False then ToLogin
      else if route_allowed permission s then RouteChildren
      else if list_ex (route_allowed permission) before
      then (if permissionsPending s then VerifyingLoader else ToDashboard)
      else ToNotAuthorized)"

definition route_inv :: "action_spec option \<Rightarrow> auth_state list \<Rightarrow> route_hooks \<Rightarrow> bool" where
  "route_inv permission before h \<longleftrightarrow>
     wasEverAllowed h = list_ex (route_allowed permission) before
     \<and> (prevIsAllowed h \<longrightarrow> wasEverAllowed h)"

lemma protected_route_inv:
  "route_inv permission before h \<Longrightarrow>
     route_inv permission (before @ [s]) (fst (protected_route permission s h))"
  by (auto simp: route_inv_def protected_route_def route_adjust_def Let_def)

lemma protected_route_view:
  "route_inv permission before h \<Longrightarrow>
     snd (protected_route permission s h) = route_spec permission before s"
  by (auto simp: route_inv_def protected_route_def route_adjust_def Let_def route_spec_def)

lemma route_renders_length [simp]: "length (route_renders permission h ss) = length ss"
  by (induction ss arbitrary: h) (simp_all add: Let_def)

lemma route_renders_spec:
  "route_inv permission before h \<Longrightarrow> i < length ss \<Longrightarrow>
     route_renders permission h ss ! i = route_spec permission (before @ take i ss) (ss ! i)"
proof (induction ss arbitrary: h before i)
  case Nil
  then show ?case by simp
next
  case (Cons s ss)
  show ?case
  proof (cases i)
    case 0
    with Cons.prems show ?thesis by (simp add: Let_def protected_route_view)
  next
    case (Suc j)
    with Cons.prems Cons.IH [OF protected_route_inv [of permission before h s], of j] show ?thesis
      by (simp add: Let_def)
  qed
qed

lemma route_mount_inv: "route_inv permission [s] (route_mount permission s)"
  by (simp add: route_inv_def route_mount_def)

lemma route_views_spec:
  assumes "i < length ss"
  shows "route_views permission ss ! i = route_spec permission (take i ss) (ss ! i)"
proof (cases ss)
  case Nil
  with assms show ?thesis by simp
next
  case (Cons s rest)
  have "route_views permission ss ! i = route_spec permission ([s] @ take i ss) (ss ! i)"
    using route_renders_spec [OF route_mount_inv, of i "s # rest" permission] assms Cons
    by (simp add: route_views_def)
  also have "\<dots> = route_spec permission (take i ss) (ss ! i)"
    using Cons by (cases i) (auto simp: route_spec_def)
  finally show ?thesis .
qed

section \<open>Properties\<close>

fun sets_profile :: "auth_op \<Rightarrow> bool" where
  "sets_profile (SetProfile p) = True"
| "sets_profile op = False"

fun clears_permissions :: "auth_op \<Rightarrow> bool" where
  "clears_permissions (SetAuthenticated now b) = (\<not> b)"
| "clears_permissions (SetProfile p) = False"
| "clears_permissions op = True"

lemma step_keeps_no_permissions:
  "\<not> sets_profile op \<Longrightarrow> permissions s = [] \<Longrightarrow> permissions (auth_step op s) = []"
  by (cases op) (auto simp: auth_store_defs)

lemma step_clears_permissions: "clears_permissions op \<Longrightarrow> permissions (auth_step op s) = []"
  by (cases op) (auto simp: auth_store_defs)

lemma run_keeps_no_permissions:
  "list_all (\<lambda>op. \<not> sets_profile op) ops \<Longrightarrow> permissions s = [] \<Longrightarrow>
     permissions (foldl (\<lambda>s op. auth_step op s) s ops) = []"
  by (induction ops arbitrary: s) (simp_all add: step_keeps_no_permissions)

lemma can_no_permissions: "permissions s = [] \<Longrightarrow> \<not> can s spec"
  by (cases spec) (auto simp: can_def list_ex_iff)

text \<open>C1: The store fails closed. After a sign-out, a permissions-changed push, a cleared profile or
  a reset, no permission check succeeds, for one action or any of several, until a profile read
  from the server is stored, whatever else happens to the store in between; and throughout, an
  establishment time is kept exactly while the session is established.\<close>

theorem auth_fail_closed:
  assumes "clears_permissions op" and "list_all (\<lambda>o'. \<not> sets_profile o') later"
  shows "\<not> can (auth_run (ops @ op # later)) spec \<and> auth_inv (auth_run (ops @ op # later))"
proof
  have "permissions (auth_run (ops @ op # later)) = []"
    unfolding auth_run_def foldl_append foldl_Cons
    by (rule run_keeps_no_permissions [OF assms(2) step_clears_permissions [OF assms(1)]])
  then show "\<not> can (auth_run (ops @ op # later)) spec" by (rule can_no_permissions)
qed (rule auth_inv_run)

lemma auth_fail_closed_witness:
  "\<not> can (auth_run [SetAuthenticated 5 True, DropPermissions, SetAuthenticated 9 True]) (OneAction ''users:list_all'')"
  using auth_fail_closed [of DropPermissions "[SetAuthenticated 9 True]" "[SetAuthenticated 5 True]"
      "OneAction ''users:list_all''"] by simp

text \<open>C7: A mounted protected route shows, at every render, exactly what the history of the store
  calls for: its content iff the session is established and the permission held now; the
  loader while the session is unknown, or while a permission once held is being re-read; the
  dashboard once a permission once held is confirmed gone; the 403 page only if the route was
  never allowed.\<close>

theorem protected_route_history:
  assumes "i < length ss"
  shows "route_views permission ss ! i = route_spec permission (take i ss) (ss ! i)"
  using assms by (rule route_views_spec)

definition signed_in :: "string list \<Rightarrow> auth_state" where
  "signed_in ps = initial_auth\<lparr>isAuthenticated := Some True, authenticatedAt := Some 1, permissions := ps\<rparr>"

lemma protected_route_history_witness:
  "let a = signed_in [''policies:read'']; ss = [a, dropPermissions a, signed_in []] in
     route_views (Some (OneAction ''policies:read'')) ss ! 2 = ToDashboard"
  using protected_route_history [of 2 "[signed_in [''policies:read''],
      dropPermissions (signed_in [''policies:read'']), signed_in []]" "Some (OneAction ''policies:read'')"]
  by (simp add: Let_def route_spec_def route_allowed_def signed_in_def dropPermissions_def
      initial_auth_def can_def no_permission_needed_def)

end
