(* ===== verification/Grants.thy ===== *)
theory Grants
  imports AuthStore
begin

text \<open>
  What a user effectively holds (\<open>policies/logic/effectiveGrants.ts\<close>): every (action,
  resource type) pair of their assigned policies and direct grants, with the wildcard
  resource type \<open>*\<close> covering every other. The code keys pairs by the string
  \<open>action::resourceType\<close>; the lemmas say for which actions that key is faithful, and relate
  the string sets to the abstract set of pairs and its wildcard coverage.
\<close>

record grant =
  g_action :: string
  g_resource_type :: string

record effective_grant = grant +
  policyNames :: "string list"
  direct :: bool

definition WILDCARD_RESOURCE_TYPE :: string where
  "WILDCARD_RESOURCE_TYPE = ''*''"

definition grantKey :: "string \<Rightarrow> string \<Rightarrow> string" where
  "grantKey action resourceType = action @ ''::'' @ resourceType"

definition buildEffectiveGrantKeySet :: "policy list \<Rightarrow> 'a grant_scheme list \<Rightarrow> string list" where
  "buildEffectiveGrantKeySet assignedPolicies directGrants =
     (let keys = foldl (\<lambda>ks p. foldl (\<lambda>ks a. set_add (grantKey a (pol_resource_type p)) ks) ks (pol_actions p))
                   [] assignedPolicies
      in foldl (\<lambda>ks g. set_add (grantKey (g_action g) (g_resource_type g)) ks) keys directGrants)"

definition hasEffectiveGrant :: "string list \<Rightarrow> string \<Rightarrow> string \<Rightarrow> bool" where
  "hasEffectiveGrant keys action resourceType \<longleftrightarrow>
     grantKey action resourceType \<in> set keys \<or> grantKey action WILDCARD_RESOURCE_TYPE \<in> set keys"

definition policyAddsNothingNew :: "policy \<Rightarrow> string list \<Rightarrow> bool" where
  "policyAddsNothingNew candidate keys \<longleftrightarrow>
     list_all (\<lambda>a. hasEffectiveGrant keys a (pol_resource_type candidate)) (pol_actions candidate)"

definition dedupeAgainstWildcards :: "'a grant_scheme list \<Rightarrow> 'b grant_scheme list \<Rightarrow> 'a grant_scheme list" where
  "dedupeAgainstWildcards grants wildcardSource =
     (let wildcardActions = js_set (map g_action
            (filter (\<lambda>g. g_resource_type g = WILDCARD_RESOURCE_TYPE) wildcardSource))
      in filter (\<lambda>g. g_resource_type g = WILDCARD_RESOURCE_TYPE \<or> g_action g \<notin> set wildcardActions) grants)"

definition isSubsumedByWildcard :: "'a grant_scheme \<Rightarrow> 'b grant_scheme list \<Rightarrow> bool" where
  "isSubsumedByWildcard target source \<longleftrightarrow>
     (if g_resource_type target = WILDCARD_RESOURCE_TYPE then False
      else list_ex (\<lambda>g. g_action g = g_action target \<and> g_resource_type g = WILDCARD_RESOURCE_TYPE) source)"

text \<open>One policy action, then one direct grant, recorded with its source.\<close>

definition add_policy_action ::
  "policy \<Rightarrow> string \<Rightarrow> (string, effective_grant) omap \<Rightarrow> (string, effective_grant) omap" where
  "add_policy_action p action byKey =
     (let key = grantKey action (pol_resource_type p) in
      om_set key (case om_get byKey key of
          Some existing \<Rightarrow> existing\<lparr>policyNames := policyNames existing @ [pol_name p]\<rparr>
        | None \<Rightarrow> \<lparr>g_action = action, g_resource_type = pol_resource_type p,
                   policyNames = [pol_name p], direct = False\<rparr>) byKey)"

definition add_direct_grant ::
  "'a grant_scheme \<Rightarrow> (string, effective_grant) omap \<Rightarrow> (string, effective_grant) omap" where
  "add_direct_grant g byKey =
     (let key = grantKey (g_action g) (g_resource_type g) in
      om_set key (case om_get byKey key of
          Some existing \<Rightarrow> existing\<lparr>direct := True\<rparr>
        | None \<Rightarrow> \<lparr>g_action = g_action g, g_resource_type = g_resource_type g,
                   policyNames = [], direct = True\<rparr>) byKey)"

definition buildEffectiveGrantsWithSource ::
  "policy list \<Rightarrow> 'a grant_scheme list \<Rightarrow> effective_grant list" where
  "buildEffectiveGrantsWithSource assignedPolicies directGrants =
     (let m1 = foldl (\<lambda>m p. foldl (\<lambda>m a. add_policy_action p a m) m (pol_actions p)) [] assignedPolicies;
          m2 = foldl (\<lambda>m g. add_direct_grant g m) m1 directGrants
      in om_values m2)"

definition groupByResourceType :: "'a grant_scheme list \<Rightarrow> (string, 'a grant_scheme list) omap" where
  "groupByResourceType items = group_list g_resource_type items"

definition isAlreadyEffectivelyGranted :: "string list \<Rightarrow> string \<Rightarrow> string \<Rightarrow> bool" where
  "isAlreadyEffectivelyGranted keys action resourceType = hasEffectiveGrant keys action resourceType"

section \<open>The abstract grants\<close>

definition policy_pairs :: "policy \<Rightarrow> (string \<times> string) list" where
  "policy_pairs p = map (\<lambda>a. (a, pol_resource_type p)) (pol_actions p)"

definition grant_pair :: "'a grant_scheme \<Rightarrow> string \<times> string" where
  "grant_pair g = (g_action g, g_resource_type g)"

definition held :: "policy list \<Rightarrow> 'a grant_scheme list \<Rightarrow> (string \<times> string) set" where
  "held pols grants = (\<Union>p\<in>set pols. set (policy_pairs p)) \<union> grant_pair ` set grants"

text \<open>What a set of pairs authorizes, by the backend's wildcard rule.\<close>

definition covers :: "(string \<times> string) set \<Rightarrow> string \<Rightarrow> string \<Rightarrow> bool" where
  "covers H action resourceType \<longleftrightarrow> (action, resourceType) \<in> H \<or> (action, WILDCARD_RESOURCE_TYPE) \<in> H"

text \<open>An action for which the key determines the pair: no \<open>::\<close> in it, and no final colon.\<close>

definition clean_action :: "string \<Rightarrow> bool" where
  "clean_action a \<longleftrightarrow> \<not> contains (a @ '':'') ''::''"

definition clean_holdings :: "policy list \<Rightarrow> 'a grant_scheme list \<Rightarrow> bool" where
  "clean_holdings pols grants \<longleftrightarrow>
     list_all (\<lambda>p. list_all clean_action (pol_actions p)) pols \<and> list_all (\<lambda>g. clean_action (g_action g)) grants"

lemma permissions_clean: "list_all (\<lambda>p. clean_action (snd p)) PERMISSIONS"
  by (simp add: PERMISSIONS_def clean_action_def starts_with_def)

lemma grantKey_inject:
  assumes "clean_action a" "clean_action b"
  shows "grantKey a r = grantKey b s \<longleftrightarrow> a = b \<and> r = s"
proof
  assume eq: "grantKey a r = grantKey b s"
  then have "a @ ''::'' @ r = b @ ''::'' @ s" by (simp add: grantKey_def)
  then obtain us where us: "a = b @ us \<and> us @ ''::'' @ r = ''::'' @ s
      \<or> a @ us = b \<and> ''::'' @ r = us @ ''::'' @ s"
    by (auto simp: append_eq_append_conv2)
  have no: "\<not> clean_action (x @ u)" if "u @ ''::'' @ y = ''::'' @ z" "u \<noteq> []" for x u y z
  proof -
    from that have "\<exists>w. u @ '':'' = ''::'' @ w" by (cases u; cases "tl u") auto
    then obtain w where "(x @ u) @ '':'' = x @ ''::'' @ w" by auto
    then show ?thesis unfolding clean_action_def contains_iff by blast
  qed
  from us no [of us r s b] no [of us s r a] assms have "us = []" by (metis append.assoc)
  with us show "a = b \<and> r = s" by auto
qed simp

lemma set_foldl_add: "set (foldl (\<lambda>ks x. set_add (f x) ks) ks xs) = set ks \<union> f ` set xs"
  by (induction xs arbitrary: ks) auto

lemma set_foldl_policies:
  "set (foldl (\<lambda>ks p. foldl (\<lambda>ks a. set_add (grantKey a (pol_resource_type p)) ks) ks (pol_actions p)) ks pols)
     = set ks \<union> (\<Union>p\<in>set pols. (\<lambda>(a, r). grantKey a r) ` set (policy_pairs p))"
  by (induction pols arbitrary: ks) (auto simp: set_foldl_add policy_pairs_def)

lemma key_set: "set (buildEffectiveGrantKeySet pols grants) = (\<lambda>(a, r). grantKey a r) ` held pols grants"
  by (auto simp: buildEffectiveGrantKeySet_def Let_def set_foldl_add set_foldl_policies held_def grant_pair_def)

lemma held_clean: "clean_holdings pols grants \<Longrightarrow> (a, r) \<in> held pols grants \<Longrightarrow> clean_action a"
  by (auto simp: clean_holdings_def held_def policy_pairs_def grant_pair_def list_all_iff)

lemma key_in_set:
  assumes "clean_holdings pols grants" "clean_action a"
  shows "grantKey a r \<in> set (buildEffectiveGrantKeySet pols grants) \<longleftrightarrow> (a, r) \<in> held pols grants"
  unfolding key_set using held_clean [OF assms(1)] grantKey_inject [OF assms(2)] by force

lemma hasEffectiveGrant_covers:
  assumes "clean_holdings pols grants" "clean_action a"
  shows "hasEffectiveGrant (buildEffectiveGrantKeySet pols grants) a r \<longleftrightarrow> covers (held pols grants) a r"
  by (simp add: hasEffectiveGrant_def covers_def key_in_set [OF assms])

lemma held_snoc: "held (pols @ [p]) grants = held pols grants \<union> set (policy_pairs p)"
  by (auto simp: held_def)

lemma covers_Un: "covers (A \<union> B) a r \<longleftrightarrow> covers A a r \<or> covers B a r"
  by (auto simp: covers_def)

lemma covers_policy: "covers (set (policy_pairs p)) a r \<longleftrightarrow>
    a \<in> set (pol_actions p) \<and> (pol_resource_type p = r \<or> pol_resource_type p = WILDCARD_RESOURCE_TYPE)"
  by (auto simp: covers_def policy_pairs_def)

lemma covers_wildcard: "covers A a WILDCARD_RESOURCE_TYPE \<Longrightarrow> covers A a r"
  by (simp add: covers_def)

lemma dedupe_iff:
  "g \<in> set (dedupeAgainstWildcards grants source) \<longleftrightarrow> g \<in> set grants \<and> \<not> isSubsumedByWildcard g source"
  by (force simp: dedupeAgainstWildcards_def isSubsumedByWildcard_def list_ex_iff)

lemma dedupe_pairs:
  "(a, r) \<in> grant_pair ` set (dedupeAgainstWildcards gs gs) \<longleftrightarrow>
     (a, r) \<in> grant_pair ` set gs \<and>
     (r = WILDCARD_RESOURCE_TYPE \<or> (a, WILDCARD_RESOURCE_TYPE) \<notin> grant_pair ` set gs)"
proof -
  have sub: "isSubsumedByWildcard g gs \<longleftrightarrow> g_resource_type g \<noteq> WILDCARD_RESOURCE_TYPE
      \<and> (g_action g, WILDCARD_RESOURCE_TYPE) \<in> grant_pair ` set gs" for g
    by (force simp: isSubsumedByWildcard_def list_ex_iff grant_pair_def)
  have "set (dedupeAgainstWildcards gs gs) = {g \<in> set gs. \<not> isSubsumedByWildcard g gs}"
    using dedupe_iff by blast
  then show ?thesis unfolding sub by (auto simp: grant_pair_def)
qed

section \<open>Grants with their sources\<close>

text \<open>The entry of one pair, given the policy names and the direct flag recorded so far.\<close>

definition source_entry :: "string \<Rightarrow> string \<Rightarrow> string list \<Rightarrow> bool \<Rightarrow> effective_grant option" where
  "source_entry a r names d =
     (if names = [] \<and> \<not> d then None
      else Some \<lparr>g_action = a, g_resource_type = r, policyNames = names, direct = d\<rparr>)"

lemma source_entry_Some: "source_entry a r ns d = Some e \<Longrightarrow> policyNames e = ns \<and> direct e = d"
  by (auto simp: source_entry_def split: if_splits)

definition granting_names :: "policy list \<Rightarrow> string \<Rightarrow> string \<Rightarrow> string list" where
  "granting_names pols a r =
     concat (map (\<lambda>p. map (\<lambda>_. pol_name p) (filter (\<lambda>x. x = (a, r)) (policy_pairs p))) pols)"

lemma add_policy_action_entry:
  assumes "clean_action x" "clean_action a" "om_get m (grantKey a r) = source_entry a r ns d"
  shows "om_get (add_policy_action p x m) (grantKey a r)
       = source_entry a r (ns @ (if (x, pol_resource_type p) = (a, r) then [pol_name p] else [])) d"
  using assms(3) by (auto simp: add_policy_action_def Let_def source_entry_def
      grantKey_inject [OF assms(2,1)] split: if_splits)

lemma fold_policy_entry:
  assumes "list_all clean_action xs" "clean_action a" "om_get m (grantKey a r) = source_entry a r ns d"
  shows "om_get (foldl (\<lambda>m x. add_policy_action p x m) m xs) (grantKey a r)
       = source_entry a r (ns @ map (\<lambda>_. pol_name p)
           (filter (\<lambda>x. x = (a, r)) (map (\<lambda>x. (x, pol_resource_type p)) xs))) d"
  using assms
proof (induction xs arbitrary: m ns)
  case Nil
  then show ?case by simp
next
  case (Cons x xs)
  from Cons.prems Cons.IH [OF _ _ add_policy_action_entry [of x a m r ns d p]] show ?case by auto
qed

lemma fold_policies_entry:
  assumes "list_all (\<lambda>p. list_all clean_action (pol_actions p)) pols" "clean_action a"
    and "om_get m (grantKey a r) = source_entry a r ns d"
  shows "om_get (foldl (\<lambda>m p. foldl (\<lambda>m x. add_policy_action p x m) m (pol_actions p)) m pols) (grantKey a r)
       = source_entry a r (ns @ granting_names pols a r) d"
  using assms
proof (induction pols arbitrary: m ns)
  case Nil
  then show ?case by (simp add: granting_names_def)
next
  case (Cons p pols)
  have p: "list_all clean_action (pol_actions p)" using Cons.prems(1) by simp
  from Cons.IH [OF _ Cons.prems(2) fold_policy_entry [OF p Cons.prems(2,3)]] Cons.prems(1)
  show ?case by (simp add: granting_names_def policy_pairs_def)
qed

lemma add_direct_entry:
  assumes "clean_action (g_action g)" "clean_action a" "om_get m (grantKey a r) = source_entry a r ns d"
  shows "om_get (add_direct_grant g m) (grantKey a r) = source_entry a r ns (d \<or> (a, r) = grant_pair g)"
  using assms(3) by (auto simp: add_direct_grant_def Let_def source_entry_def grant_pair_def
      grantKey_inject [OF assms(2,1)] split: if_splits)

lemma fold_direct_entry:
  assumes "list_all (\<lambda>g. clean_action (g_action g)) gs" "clean_action a"
    and "om_get m (grantKey a r) = source_entry a r ns d"
  shows "om_get (foldl (\<lambda>m g. add_direct_grant g m) m gs) (grantKey a r)
       = source_entry a r ns (d \<or> (a, r) \<in> grant_pair ` set gs)"
  using assms
proof (induction gs arbitrary: m d)
  case Nil
  then show ?case by simp
next
  case (Cons g gs)
  from Cons.prems Cons.IH [OF _ _ add_direct_entry [of g a m r ns d]] show ?case by auto
qed

text \<open>Every entry is stored under its own pair's key, and that pair's action is clean.\<close>

definition keyed :: "(string, effective_grant) omap \<Rightarrow> bool" where
  "keyed m \<longleftrightarrow> distinct (om_keys m) \<and>
     (\<forall>k e. om_get m k = Some e \<longrightarrow>
        k = grantKey (g_action e) (g_resource_type e) \<and> clean_action (g_action e))"

lemma keyed_Nil: "keyed []"
  by (simp add: keyed_def)

lemma keyed_add_policy: "keyed m \<Longrightarrow> clean_action x \<Longrightarrow> keyed (add_policy_action p x m)"
  by (auto simp: keyed_def add_policy_action_def Let_def split: option.splits)

lemma keyed_add_direct: "keyed m \<Longrightarrow> clean_action (g_action g) \<Longrightarrow> keyed (add_direct_grant g m)"
  by (auto simp: keyed_def add_direct_grant_def Let_def split: option.splits)

lemma keyed_fold_policy:
  "keyed m \<Longrightarrow> list_all clean_action xs \<Longrightarrow> keyed (foldl (\<lambda>m x. add_policy_action p x m) m xs)"
  by (induction xs arbitrary: m) (simp_all add: keyed_add_policy)

lemma keyed_fold_policies:
  "keyed m \<Longrightarrow> list_all (\<lambda>p. list_all clean_action (pol_actions p)) pols \<Longrightarrow>
     keyed (foldl (\<lambda>m p. foldl (\<lambda>m x. add_policy_action p x m) m (pol_actions p)) m pols)"
  by (induction pols arbitrary: m) (simp_all add: keyed_fold_policy)

lemma keyed_fold_direct:
  "keyed m \<Longrightarrow> list_all (\<lambda>g. clean_action (g_action g)) gs \<Longrightarrow>
     keyed (foldl (\<lambda>m g. add_direct_grant g m) m gs)"
  by (induction gs arbitrary: m) (simp_all add: keyed_add_direct)

lemma granting_names_empty: "granting_names pols a r = [] \<longleftrightarrow> (\<forall>p\<in>set pols. (a, r) \<notin> set (policy_pairs p))"
  by (auto simp: granting_names_def filter_empty_conv)

lemma keyed_values:
  assumes "keyed m"
  shows "e \<in> set (om_values m) \<longleftrightarrow> om_get m (grantKey (g_action e) (g_resource_type e)) = Some e"
proof -
  have d: "distinct (om_keys m)" using assms by (simp add: keyed_def)
  have "e \<in> set (om_values m) \<longleftrightarrow> (\<exists>k. om_get m k = Some e)"
    using om_get_in_set [OF d] by (force simp: om_values_def)
  then show ?thesis using assms by (auto simp: keyed_def)
qed

lemma keyed_values_distinct: "keyed m \<Longrightarrow> distinct (map grant_pair (om_values m))"
proof -
  assume m: "keyed m"
  then have d: "distinct (om_keys m)" by (simp add: keyed_def)
  have "map (\<lambda>e. grantKey (g_action e) (g_resource_type e)) (om_values m) = om_keys m"
    using m om_get_in_set [OF d] by (force simp: om_values_def om_keys_def keyed_def)
  with d have "distinct (map (\<lambda>(a, r). grantKey a r) (map grant_pair (om_values m)))"
    by (simp add: grant_pair_def comp_def)
  then show ?thesis by (metis distinct_map)
qed

definition sources_map :: "policy list \<Rightarrow> 'a grant_scheme list \<Rightarrow> (string, effective_grant) omap" where
  "sources_map pols grants = foldl (\<lambda>m g. add_direct_grant g m)
     (foldl (\<lambda>m p. foldl (\<lambda>m x. add_policy_action p x m) m (pol_actions p)) [] pols) grants"

lemma sources_map_keyed: "clean_holdings pols grants \<Longrightarrow> keyed (sources_map pols grants)"
  by (simp add: sources_map_def clean_holdings_def keyed_fold_direct keyed_fold_policies keyed_Nil)

lemma sources_map_get:
  assumes "clean_holdings pols grants" "clean_action a"
  shows "om_get (sources_map pols grants) (grantKey a r)
       = source_entry a r (granting_names pols a r) ((a, r) \<in> grant_pair ` set grants)"
proof -
  have e: "om_get [] (grantKey a r) = source_entry a r [] False" by (simp add: source_entry_def)
  from assms(1) have c: "list_all (\<lambda>p. list_all clean_action (pol_actions p)) pols"
    "list_all (\<lambda>g. clean_action (g_action g)) grants" by (simp_all add: clean_holdings_def)
  show ?thesis
    using fold_direct_entry [OF c(2) assms(2) fold_policies_entry [OF c(1) assms(2) e]]
    by (simp add: sources_map_def)
qed

lemma sources_values: "buildEffectiveGrantsWithSource pols grants = om_values (sources_map pols grants)"
  by (simp add: buildEffectiveGrantsWithSource_def sources_map_def Let_def)

section \<open>Properties\<close>

text \<open>C8: As long as no action held, and none of the candidate's, contains two colons in a row or ends in
  one (every action of the built-in catalog is so; the field itself is free text), a candidate policy is judged to add
  nothing new exactly when adding its actions to those that the user's policies and direct grants name would not
  change what is covered, on any action and any resource type, under the wildcard rule. (Conditions, and
  whether a policy is active, play no part on either side, as the code does not look at them.)\<close>

theorem adds_nothing_new_iff:
  assumes "clean_holdings pols grants" and "list_all clean_action (pol_actions c)"
  shows "policyAddsNothingNew c (buildEffectiveGrantKeySet pols grants) \<longleftrightarrow>
     (\<forall>a r. covers (held (pols @ [c]) grants) a r = covers (held pols grants) a r)"
proof
  let ?H = "held pols grants"
  have has: "a \<in> set (pol_actions c) \<Longrightarrow>
      hasEffectiveGrant (buildEffectiveGrantKeySet pols grants) a r \<longleftrightarrow> covers ?H a r" for a r
    using assms by (intro hasEffectiveGrant_covers) (auto simp: list_all_iff)
  show "\<forall>a r. covers (held (pols @ [c]) grants) a r = covers ?H a r"
    if "policyAddsNothingNew c (buildEffectiveGrantKeySet pols grants)"
    using that by (auto simp: policyAddsNothingNew_def list_all_iff has held_snoc covers_Un covers_policy
        intro: covers_wildcard)
  show "policyAddsNothingNew c (buildEffectiveGrantKeySet pols grants)"
    if "\<forall>a r. covers (held (pols @ [c]) grants) a r = covers ?H a r"
    using that by (auto simp: policyAddsNothingNew_def list_all_iff has held_snoc covers_Un covers_policy)
qed

definition sample_policy :: "string \<Rightarrow> string list \<Rightarrow> string \<Rightarrow> policy" where
  "sample_policy n as r = \<lparr>pol_id = 1, pol_name = n, pol_description = None, pol_actions = as,
     pol_resource_type = r, pol_conditions = None, pol_is_active = True, pol_created_at = [],
     pol_updated_at = [], pol_created_by = None, pol_holder_count = None\<rparr>"

lemma adds_nothing_new_iff_witness:
  "policyAddsNothingNew (sample_policy ''reader'' [''policies:read''] ''policies'')
     (buildEffectiveGrantKeySet [sample_policy ''su'' [''policies:read''] ''*''] ([] :: grant list))
   = (\<forall>a r. covers (held ([sample_policy ''su'' [''policies:read''] ''*'']
        @ [sample_policy ''reader'' [''policies:read''] ''policies'']) ([] :: grant list)) a r
       = covers (held [sample_policy ''su'' [''policies:read''] ''*''] ([] :: grant list)) a r)"
  by (rule adds_nothing_new_iff)
    (simp_all add: clean_holdings_def sample_policy_def clean_action_def starts_with_def)

text \<open>Without that condition the verdict can be wrong, as the key of a pair is its two texts joined by two
  colons: who holds the action \<open>a\<close> on \<open>b::c\<close> is told that a policy for \<open>a::b\<close> on \<open>c\<close> adds nothing.\<close>

lemma joined_keys_collide:
  "let pols = [sample_policy ''one'' [''a''] ''b::c'']; c = sample_policy ''two'' [''a::b''] ''c'' in
     policyAddsNothingNew c (buildEffectiveGrantKeySet pols ([] :: grant list)) \<and>
     covers (held (pols @ [c]) ([] :: grant list)) ''a::b'' ''c'' \<and> \<not> covers (held pols ([] :: grant list)) ''a::b'' ''c''"
  by (simp add: Let_def policyAddsNothingNew_def buildEffectiveGrantKeySet_def hasEffectiveGrant_def grantKey_def
      sample_policy_def set_add_def covers_def held_def policy_pairs_def WILDCARD_RESOURCE_TYPE_def)

text \<open>The effective grants with their sources list each held pair exactly once, each with the
  names of the policies that grant it, in order, and the direct flag iff a direct grant holds
  it; nothing that is not held is listed.\<close>

theorem effective_grants_with_source:
  assumes "clean_holdings pols grants"
  shows "let es = buildEffectiveGrantsWithSource pols grants in
     distinct (map grant_pair es) \<and> set (map grant_pair es) = held pols grants \<and>
     list_all (\<lambda>e. policyNames e = granting_names pols (g_action e) (g_resource_type e)
        \<and> direct e = (grant_pair e \<in> grant_pair ` set grants)) es"
proof -
  let ?m = "sources_map pols grants"
  note m = sources_map_keyed [OF assms]
  have entry: "om_get ?m (grantKey a r)
      = source_entry a r (granting_names pols a r) ((a, r) \<in> grant_pair ` set grants)"
    if "clean_action a" for a r by (rule sources_map_get [OF assms that])
  have clean: "clean_action (g_action e)" if "e \<in> set (om_values ?m)" for e
    using that m by (auto simp: keyed_values [OF m] keyed_def)
  have each: "policyNames e = granting_names pols (g_action e) (g_resource_type e)
      \<and> direct e = (grant_pair e \<in> grant_pair ` set grants)" if "e \<in> set (om_values ?m)" for e
    using that entry [OF clean [OF that], of "g_resource_type e"] source_entry_Some
    by (auto simp: keyed_values [OF m] grant_pair_def)
  have listed: "(a, r) \<in> grant_pair ` set (om_values ?m) \<longleftrightarrow> (a, r) \<in> held pols grants" for a r
  proof (cases "clean_action a")
    case False
    then show ?thesis using clean held_clean [OF assms] by (auto simp: grant_pair_def)
  next
    case True
    have "(a, r) \<in> grant_pair ` set (om_values ?m) \<longleftrightarrow> om_get ?m (grantKey a r) \<noteq> None"
    proof
      assume "(a, r) \<in> grant_pair ` set (om_values ?m)"
      then obtain e where "e \<in> set (om_values ?m)" "g_action e = a" "g_resource_type e = r"
        by (auto simp: grant_pair_def)
      then show "om_get ?m (grantKey a r) \<noteq> None" by (auto simp: keyed_values [OF m])
    next
      assume "om_get ?m (grantKey a r) \<noteq> None"
      then obtain e where e: "om_get ?m (grantKey a r) = Some e" by auto
      then have "g_action e = a" "g_resource_type e = r"
        using entry [OF True, of r] by (auto simp: source_entry_def split: if_splits)
      with e show "(a, r) \<in> grant_pair ` set (om_values ?m)"
        by (auto simp: keyed_values [OF m] grant_pair_def image_iff intro!: bexI [of _ e])
    qed
    also have "\<dots> \<longleftrightarrow> (a, r) \<in> held pols grants"
      using entry [OF True] by (auto simp: source_entry_def held_def granting_names_empty)
    finally show ?thesis .
  qed
  have "grant_pair ` set (om_values ?m) = held pols grants"
    using listed by (intro set_eqI) (simp add: split_paired_all)
  with each keyed_values_distinct [OF m] show ?thesis by (simp add: sources_values list_all_iff)
qed

lemma effective_grants_with_source_witness:
  "set (map grant_pair (buildEffectiveGrantsWithSource
       [sample_policy ''reader'' [''policies:read''] ''*''] [\<lparr>g_action = ''policies:read'', g_resource_type = ''*''\<rparr>]))
   = {(''policies:read'', ''*'')}"
  using effective_grants_with_source [of "[sample_policy ''reader'' [''policies:read''] ''*'']"
      "[\<lparr>g_action = ''policies:read'', g_resource_type = ''*''\<rparr>]"]
  by (simp add: clean_holdings_def sample_policy_def clean_action_def starts_with_def Let_def
      held_def policy_pairs_def grant_pair_def)

text \<open>C9: Dropping the grants a wildcard covers keeps what the list authorizes, keeps every wildcard
  entry, and leaves no entry that another one subsumes.\<close>

theorem dedupe_preserves_coverage:
  "let ds = dedupeAgainstWildcards gs gs in
     covers (grant_pair ` set ds) a r = covers (grant_pair ` set gs) a r \<and>
     list_all (\<lambda>g. \<not> isSubsumedByWildcard g gs) ds \<and>
     filter (\<lambda>g. g_resource_type g = WILDCARD_RESOURCE_TYPE) ds
       = filter (\<lambda>g. g_resource_type g = WILDCARD_RESOURCE_TYPE) gs \<and>
     dedupeAgainstWildcards ds ds = ds"
proof -
  let ?ds = "dedupeAgainstWildcards gs gs"
  have wild: "filter (\<lambda>g. g_resource_type g = WILDCARD_RESOURCE_TYPE) ?ds
      = filter (\<lambda>g. g_resource_type g = WILDCARD_RESOURCE_TYPE) gs"
    by (auto simp: dedupeAgainstWildcards_def Let_def intro: filter_cong)
  have cov: "covers (grant_pair ` set ?ds) a r = covers (grant_pair ` set gs) a r"
    by (auto simp: covers_def dedupe_pairs)
  have none: "list_all (\<lambda>g. \<not> isSubsumedByWildcard g gs) ?ds"
    by (simp add: list_all_iff dedupe_iff)
  have "dedupeAgainstWildcards ?ds ?ds = ?ds"
    using wild by (simp add: dedupeAgainstWildcards_def [of ?ds ?ds] Let_def)
      (auto simp: dedupeAgainstWildcards_def Let_def)
  with wild cov none show ?thesis by (simp add: Let_def)
qed

text \<open>Grouping by resource type loses and duplicates nothing, makes one group per type in order
  of first appearance, and puts each item in its own type's group, in order.\<close>

lemma group_by_resource_type:
  "om_keys (groupByResourceType items) = js_set (map g_resource_type items) \<and>
   mset (concat (om_values (groupByResourceType items))) = mset items \<and>
   om_get (groupByResourceType items) t =
     (if t \<in> g_resource_type ` set items then Some (filter (\<lambda>i. g_resource_type i = t) items) else None)"
  by (simp add: groupByResourceType_def group_list_mset group_list_get)

end
