(* ===== verification/AppState.thy ===== *)
theory AppState
  imports Grants
begin

text \<open>
  The state shared by the session code and the mutations: the auth store, the calls made on
  the query client, the toasts, the rotation and self-mutation guards
  (\<open>sessionRotationGuard.ts\<close>, \<open>selfPermissionMutationGuard.ts\<close>), and the query keys.

  The query client is a library: the model records the calls made on it, in order
  (\<open>qlog\<close>). What the code relies on (a key removes every query it is a prefix of) is the
  predicate \<open>query_client_laws\<close>, a hypothesis of the properties that need it.
\<close>

section \<open>Query keys\<close>

datatype key_part = KStr string | KNum nat | KFields fields | KOptStr "string option" | KBool bool

type_synonym query_key = "key_part list"

definition CURRENT_USER_QUERY_KEY :: query_key where
  [qkey_simps]: "CURRENT_USER_QUERY_KEY = [KStr ''currentUser'']"
definition SESSIONS_QUERY_KEY :: query_key where
  [qkey_simps]: "SESSIONS_QUERY_KEY = [KStr ''sessions'', KStr ''me'']"
definition PREVIOUS_LOGIN_QUERY_KEY :: query_key where
  [qkey_simps]: "PREVIOUS_LOGIN_QUERY_KEY = [KStr ''auditLog'', KStr ''security'', KStr ''me'', KStr ''previousLogin'']"
definition USERS_QUERY_KEY :: query_key where
  [qkey_simps]: "USERS_QUERY_KEY = [KStr ''users'']"
definition USER_STATS_QUERY_KEY :: query_key where
  [qkey_simps]: "USER_STATS_QUERY_KEY = [KStr ''users'', KStr ''stats'']"
definition POLICIES_QUERY_KEY :: query_key where
  [qkey_simps]: "POLICIES_QUERY_KEY = [KStr ''policies'']"
definition policyHistoryQueryKey :: "string \<Rightarrow> nat \<Rightarrow> nat \<Rightarrow> query_key" where
  [qkey_simps]: "policyHistoryQueryKey policyName page pageSize =
     [KStr ''policies'', KStr policyName, KStr ''history'', KNum page, KNum pageSize]"
definition policyHoldersQueryKey :: "string \<Rightarrow> query_key" where
  [qkey_simps]: "policyHoldersQueryKey policyName = [KStr ''policies'', KStr policyName, KStr ''holders'']"
definition MY_POLICIES_QUERY_KEY :: query_key where
  [qkey_simps]: "MY_POLICIES_QUERY_KEY = [KStr ''policies'', KStr ''me'']"
definition userPoliciesQueryKey :: "string \<Rightarrow> query_key" where
  [qkey_simps]: "userPoliciesQueryKey userEmail = [KStr ''policies'', KStr ''user'', KStr userEmail]"
definition MY_PERMISSIONS_QUERY_KEY :: query_key where
  [qkey_simps]: "MY_PERMISSIONS_QUERY_KEY = [KStr ''permissions'', KStr ''me'']"
definition userPermissionsQueryKey :: "string \<Rightarrow> query_key" where
  [qkey_simps]: "userPermissionsQueryKey userEmail = [KStr ''permissions'', KStr ''user'', KStr userEmail]"
definition PERMISSION_CATALOG_QUERY_KEY :: query_key where
  [qkey_simps]: "PERMISSION_CATALOG_QUERY_KEY = [KStr ''permissions'', KStr ''catalog'']"
definition PERMISSION_CATALOG_USAGE_QUERY_KEY :: query_key where
  [qkey_simps]: "PERMISSION_CATALOG_USAGE_QUERY_KEY = [KStr ''permissions'', KStr ''catalog'', KStr ''usage'']"
definition PASSKEYS_QUERY_KEY :: query_key where
  [qkey_simps]: "PASSKEYS_QUERY_KEY = [KStr ''myPasskeys'']"
definition SECURITY_AUDIT_LOG_QUERY_KEY :: query_key where
  [qkey_simps]: "SECURITY_AUDIT_LOG_QUERY_KEY = [KStr ''auditLog'', KStr ''security'', KStr ''all'']"
definition MY_SECURITY_AUDIT_LOG_QUERY_KEY :: query_key where
  [qkey_simps]: "MY_SECURITY_AUDIT_LOG_QUERY_KEY = [KStr ''auditLog'', KStr ''security'', KStr ''me'']"
definition LOGIN_TREND_QUERY_KEY :: query_key where
  [qkey_simps]: "LOGIN_TREND_QUERY_KEY = [KStr ''auditLog'', KStr ''security'', KStr ''all'', KStr ''loginTrend'']"
definition MY_LOGIN_TREND_QUERY_KEY :: query_key where
  [qkey_simps]: "MY_LOGIN_TREND_QUERY_KEY = [KStr ''auditLog'', KStr ''security'', KStr ''me'', KStr ''loginTrend'']"
definition AUTHORIZATION_AUDIT_LOG_QUERY_KEY :: query_key where
  [qkey_simps]: "AUTHORIZATION_AUDIT_LOG_QUERY_KEY = [KStr ''auditLog'', KStr ''authorization'', KStr ''all'']"
definition MY_AUTHORIZATION_AUDIT_LOG_QUERY_KEY :: query_key where
  [qkey_simps]: "MY_AUTHORIZATION_AUDIT_LOG_QUERY_KEY = [KStr ''auditLog'', KStr ''authorization'', KStr ''me'']"
definition userAuthorizationAuditLogQueryKey :: "string \<Rightarrow> query_key" where
  [qkey_simps]: "userAuthorizationAuditLogQueryKey userEmail =
     [KStr ''auditLog'', KStr ''authorization'', KStr ''user'', KStr userEmail]"
definition RATE_LIMITS_QUERY_KEY :: query_key where
  [qkey_simps]: "RATE_LIMITS_QUERY_KEY = [KStr ''rate-limits'']"
definition RATE_LIMITS_SUMMARY_QUERY_KEY :: query_key where
  [qkey_simps]: "RATE_LIMITS_SUMMARY_QUERY_KEY = [KStr ''rate-limits'', KStr ''summary'']"

section \<open>Calls on the query client\<close>

datatype qop = Invalidate query_key | RemoveQueries query_key | SetNull query_key
  | SetUser query_key current_user | CancelQueries query_key | ResetAll

text \<open>Documented behaviour of a query client: \<open>run\<close> performs one call on a cache, \<open>get\<close> reads
  the data cached under a key. Only what the model's properties use is stated.\<close>

definition query_client_laws ::
  "(qop \<Rightarrow> 'c \<Rightarrow> 'c) \<Rightarrow> ('c \<Rightarrow> query_key \<Rightarrow> 'd option) \<Rightarrow> bool" where
  "query_client_laws run get \<longleftrightarrow>
     (\<forall>k c k'. get (run (RemoveQueries k) c) k' = (if starts_with k' k then None else get c k')) \<and>
     (\<forall>k c k'. k' \<noteq> k \<longrightarrow> get (run (SetNull k) c) k' = get c k')"

section \<open>Toasts raised by non-UI code\<close>

datatype toast_type = ToastError | ToastSuccess

record toast_note =
  tn_title :: string
  tn_description :: string
  tn_type :: toast_type

section \<open>The application state\<close>

record app =
  auth :: auth_state
  qlog :: "qop list"
  toasts :: "toast_note list"
  brandColor :: "string option"
  pendingRotation :: "nat option"
  nextRotation :: nat
  rotationSettledAt :: "int option"
  lastSelfMutationAt :: "int option"

definition initial_app :: app where
  "initial_app = \<lparr>auth = initial_auth, qlog = [], toasts = [], brandColor = None,
     pendingRotation = None, nextRotation = 0, rotationSettledAt = None, lastSelfMutationAt = None\<rparr>"

definition on_auth :: "(auth_state \<Rightarrow> auth_state) \<Rightarrow> app \<Rightarrow> app" where
  "on_auth f s = s\<lparr>auth := f (auth s)\<rparr>"

definition query_call :: "qop \<Rightarrow> app \<Rightarrow> app" where
  "query_call q s = s\<lparr>qlog := qlog s @ [q]\<rparr>"

definition query_calls :: "qop list \<Rightarrow> app \<Rightarrow> app" where
  "query_calls qs s = s\<lparr>qlog := qlog s @ qs\<rparr>"

definition toast :: "toast_note \<Rightarrow> app \<Rightarrow> app" where
  "toast n s = s\<lparr>toasts := toasts s @ [n]\<rparr>"

lemma on_auth_simps [simp]:
  "auth (on_auth f s) = f (auth s)" "qlog (on_auth f s) = qlog s" "toasts (on_auth f s) = toasts s"
  "brandColor (on_auth f s) = brandColor s" "pendingRotation (on_auth f s) = pendingRotation s"
  "rotationSettledAt (on_auth f s) = rotationSettledAt s" "lastSelfMutationAt (on_auth f s) = lastSelfMutationAt s"
  by (simp_all add: on_auth_def)

lemma query_calls_simps [simp]:
  "auth (query_calls q s) = auth s" "qlog (query_calls q s) = qlog s @ q" "toasts (query_calls q s) = toasts s"
  "brandColor (query_calls q s) = brandColor s" "pendingRotation (query_calls q s) = pendingRotation s"
  "rotationSettledAt (query_calls q s) = rotationSettledAt s"
  "lastSelfMutationAt (query_calls q s) = lastSelfMutationAt s"
  by (simp_all add: query_calls_def)

lemma query_call_as_calls: "query_call q = query_calls [q]"
  by (rule ext) (simp add: query_call_def query_calls_def)

lemma toast_simps [simp]:
  "auth (toast n s) = auth s" "qlog (toast n s) = qlog s" "toasts (toast n s) = toasts s @ [n]"
  by (simp_all add: toast_def)

section \<open>sessionRotationGuard.ts\<close>

definition RECENTLY_ROTATED_GRACE_MS :: int where
  "RECENTLY_ROTATED_GRACE_MS = 3000"

text \<open>Tracking a request records its promise; the promise settling runs the \<open>finally\<close> handler.\<close>

definition trackSessionRotatingRequest :: "app \<Rightarrow> nat \<times> app" where
  "trackSessionRotatingRequest s =
     (nextRotation s, s\<lparr>pendingRotation := Some (nextRotation s), nextRotation := Suc (nextRotation s)\<rparr>)"

definition rotation_settled :: "int \<Rightarrow> nat \<Rightarrow> app \<Rightarrow> app" where
  "rotation_settled now tracked s =
     (if pendingRotation s = Some tracked then s\<lparr>pendingRotation := None\<rparr> else s)
       \<lparr>rotationSettledAt := Some now\<rparr>"

definition getPendingSessionRotation :: "app \<Rightarrow> nat option" where
  "getPendingSessionRotation s = pendingRotation s"

definition wasSessionRecentlyRotated :: "int \<Rightarrow> app \<Rightarrow> bool" where
  "wasSessionRecentlyRotated now s =
     (if pendingRotation s \<noteq> None then True
      else case rotationSettledAt s of None \<Rightarrow> False | Some t \<Rightarrow> now - t < RECENTLY_ROTATED_GRACE_MS)"

section \<open>selfPermissionMutationGuard.ts\<close>

definition RECENT_SELF_MUTATION_WINDOW_MS :: int where
  "RECENT_SELF_MUTATION_WINDOW_MS = 5000"

definition markSelfPermissionMutation :: "int \<Rightarrow> app \<Rightarrow> app" where
  "markSelfPermissionMutation now s = s\<lparr>lastSelfMutationAt := Some now\<rparr>"

definition wasSelfPermissionMutationRecent :: "int \<Rightarrow> app \<Rightarrow> bool \<times> app" where
  "wasSelfPermissionMutationRecent now s =
     (case lastSelfMutationAt s of None \<Rightarrow> (False, s)
      | Some t \<Rightarrow> (now - t < RECENT_SELF_MUTATION_WINDOW_MS, s\<lparr>lastSelfMutationAt := None\<rparr>))"

section \<open>clearMyAccountSessionCaches.ts\<close>

definition clearMyAccountSessionCaches :: "int \<Rightarrow> app \<Rightarrow> app" where
  "clearMyAccountSessionCaches now s =
     query_calls [SetNull CURRENT_USER_QUERY_KEY, RemoveQueries SESSIONS_QUERY_KEY,
         RemoveQueries MY_POLICIES_QUERY_KEY, RemoveQueries MY_AUTHORIZATION_AUDIT_LOG_QUERY_KEY,
         RemoveQueries MY_SECURITY_AUDIT_LOG_QUERY_KEY]
       (on_auth (setAuthenticated now False) s)"

section \<open>useSessionEventsStream.ts\<close>

text \<open>\<open>parsed\<close> is what \<open>JSON.parse(event.data)\<close> yields: \<open>None\<close> if it throws, else the parsed value.\<close>

definition event_type :: "json option \<Rightarrow> json" where
  "event_type parsed = (case parsed of Some (JObj fs) \<Rightarrow> nullish (map_of fs ''type'') JUndef | _ \<Rightarrow> JUndef)"

definition session_event :: "int \<Rightarrow> json option \<Rightarrow> app \<Rightarrow> app" where
  "session_event now parsed s =
     (if event_type parsed = JStr ''permissions_changed''
      then (let r = wasSelfPermissionMutationRecent now s;
                s1 = (if \<not> fst r then on_auth dropPermissions (snd r) else snd r)
            in query_calls [ResetAll] s1)
      else query_calls [Invalidate CURRENT_USER_QUERY_KEY, Invalidate SESSIONS_QUERY_KEY,
              Invalidate PREVIOUS_LOGIN_QUERY_KEY] s)"

text \<open>The stream is open exactly while the session is established.\<close>

definition stream_open :: "app \<Rightarrow> bool" where
  "stream_open s \<longleftrightarrow> isAuthenticated (auth s) = Some True"

section \<open>useCurrentUserQuery.ts: mirroring GET /auth/me into the store\<close>

datatype me_result = MeSuccess "current_user option" | MeError | MePending

text \<open>\<open>query_state\<close> is the cache's state of the query: whether its status is "error", and when the
  error was recorded. \<open>useAuthSession\<close> runs this effect whenever the query's result changes.\<close>

definition useAuthSession :: "int \<Rightarrow> me_result \<Rightarrow> (bool \<times> int) option \<Rightarrow> app \<Rightarrow> app" where
  "useAuthSession now result query_state s =
     (case result of
        MeSuccess (Some data) \<Rightarrow>
          (on_auth (setAuthenticated now True) (on_auth (setProfile data) s))\<lparr>brandColor := cu_brand_color data\<rparr>
      | MeError \<Rightarrow>
          (if (case query_state of Some (is_err, _) \<Rightarrow> is_err | None \<Rightarrow> False)
           then (let errorUpdatedAt = (case query_state of Some (_, t) \<Rightarrow> t | None \<Rightarrow> 0) in
                 if (case authenticatedAt (auth s) of Some t \<Rightarrow> errorUpdatedAt < t | None \<Rightarrow> False) then s
                 else (on_auth (setAuthenticated now False) (on_auth clearProfile s))\<lparr>brandColor := None\<rparr>)
           else s)
      | _ \<Rightarrow> s)"

end
