(* ===== verification/Session.thy ===== *)
theory Session
  imports AppState
begin

text \<open>
  The response interceptor (\<open>setupAuthInterceptor.ts\<close>): on a 401 it refreshes the session
  and retries, waits out a session rotation, or signs the user out.

  One request is followed from its first attempt to its final outcome. Everything the code
  does not control comes from a script of exchanges: the status of each response, and what
  happened to the shared state while the request was in flight (other operations on the auth
  store, the rotation guard, the clock). The theorems quantify over the script. A retry is a
  new request with its own copy of the configuration, flags included, as axios merges every
  request's configuration into a fresh object; so each attempt carries its two flags.
\<close>

section \<open>The network\<close>

record exchange =
  x_status :: "nat option"
  x_elsewhere :: bool
  x_ops :: "auth_op list"
  x_pending :: "nat option"
  x_settled :: "int option"
  x_now :: int

record net =
  script :: "exchange list"
  sent :: "string list"
  napp :: app
  nnow :: int

text \<open>Time passes while a request is in flight.\<close>

definition pass :: "exchange \<Rightarrow> net \<Rightarrow> net" where
  "pass x n = n\<lparr>napp := (on_auth (\<lambda>a. foldl (\<lambda>a op. auth_step op a) a (x_ops x)) (napp n))
        \<lparr>pendingRotation := x_pending x, rotationSettledAt := x_settled x\<rparr>, nnow := x_now x\<rparr>"

text \<open>One HTTP attempt; with the script used up, the network is unreachable.\<close>

definition serve :: "string \<Rightarrow> net \<Rightarrow> nat option \<times> net" where
  "serve u n = (case script n of
       [] \<Rightarrow> (None, n\<lparr>sent := sent n @ [u]\<rparr>)
     | x # xs \<Rightarrow> (x_status x, pass x (n\<lparr>script := xs, sent := sent n @ [u]\<rparr>)))"

text \<open>A call resolves, or rejects with the response's status (none for a network error).\<close>

datatype call_result = Resolved | Failed "nat option"

definition AUTH_ENDPOINTS_EXCLUDED_FROM_REFRESH :: "string list" where
  "AUTH_ENDPOINTS_EXCLUDED_FROM_REFRESH =
     [''/auth/login'', ''/auth/signup'', ''/auth/refresh'', ''/auth/logout'', ''/auth/password-reset'',
      ''/auth/verify-account'', ''/auth/oauth2'']"

definition isEligibleForRefresh :: "string \<Rightarrow> bool" where
  "isEligibleForRefresh requestUrl \<longleftrightarrow>
     \<not> list_ex (\<lambda>path. contains requestUrl path) AUTH_ENDPOINTS_EXCLUDED_FROM_REFRESH"

definition REFRESH_URL :: string where
  "REFRESH_URL = ''/auth/refresh/''"

lemma refresh_not_eligible [simp]: "\<not> isEligibleForRefresh REFRESH_URL"
  by (simp add: isEligibleForRefresh_def AUTH_ENDPOINTS_EXCLUDED_FROM_REFRESH_def REFRESH_URL_def starts_with_def)

section \<open>The end of the session\<close>

definition expired_toast :: toast_note where
  "expired_toast = \<lparr>tn_title = ''Your session has expired'',
     tn_description = ''Please log in again to continue.'', tn_type = ToastError\<rparr>"

definition session_over :: "int \<Rightarrow> app \<Rightarrow> app" where
  "session_over now s =
     (let hadLiveSession = (isAuthenticated (auth s) = Some True);
          s1 = on_auth (setAuthenticated now False) s;
          s2 = query_calls [SetNull CURRENT_USER_QUERY_KEY, RemoveQueries SESSIONS_QUERY_KEY,
                 RemoveQueries MY_POLICIES_QUERY_KEY, RemoveQueries MY_AUTHORIZATION_AUDIT_LOG_QUERY_KEY,
                 RemoveQueries MY_SECURITY_AUDIT_LOG_QUERY_KEY] s1
      in if hadLiveSession then toast expired_toast s2 else s2)"

definition ok_status :: "nat \<Rightarrow> bool" where
  "ok_status s \<longleftrightarrow> 200 \<le> s \<and> s < 300"

text \<open>\<open>await pendingRotation\<close>: the tracked promise's own handler has run by then.\<close>

definition await_rotation :: "net \<Rightarrow> net" where
  "await_rotation n = (case pendingRotation (napp n) of None \<Rightarrow> n
     | Some p \<Rightarrow> n\<lparr>napp := rotation_settled (nnow n) p (napp n)\<rparr>)"

definition call_weight :: "string \<Rightarrow> bool \<Rightarrow> bool \<Rightarrow> nat" where
  "call_weight u f r = (if isEligibleForRefresh u \<and> \<not> f then 2 else 0) + (if r then 0 else 1)"

section \<open>The interceptor\<close>

text \<open>
  \<open>api_call u f r\<close> is one call through the instance: \<open>f\<close> and \<open>r\<close> are the flags
  \<open>_retriedAfterRefresh\<close> and \<open>_retriedAfterRotation\<close> of its configuration. A refresh that
  another tab completed (\<open>x_elsewhere\<close>) resolves without a request.
\<close>

function api_call :: "string \<Rightarrow> bool \<Rightarrow> bool \<Rightarrow> net \<Rightarrow> call_result \<times> net" where
  "api_call u f r n =
     (let (status, n1) = serve u n in
      if (case status of Some s \<Rightarrow> ok_status s | None \<Rightarrow> False) then (Resolved, n1)
      else if status \<noteq> Some 401 then (Failed status, n1)
      else
        (let refreshed =
           (if isEligibleForRefresh u \<and> \<not> f
            then (let (res, n2) =
                    (case script n1 of
                       x # xs \<Rightarrow> if x_elsewhere x then (Resolved, pass x (n1\<lparr>script := xs\<rparr>))
                                 else api_call REFRESH_URL False False n1
                     | [] \<Rightarrow> api_call REFRESH_URL False False n1)
                  in case res of
                       Resolved \<Rightarrow> (let (res3, n3) = api_call u True r n2 in (res3 = Resolved, True, n3))
                     | Failed _ \<Rightarrow> (False, f, n2))
            else (False, f, n1))
         in case refreshed of (True, _, n4) \<Rightarrow> (Resolved, n4)
          | (False, f', n4) \<Rightarrow>
              (let rotated =
                 (if \<not> r \<and> (getPendingSessionRotation (napp n4) \<noteq> None \<or> wasSessionRecentlyRotated (nnow n4) (napp n4))
                  then (let (res5, n5) = api_call u f' True (await_rotation n4) in (res5 = Resolved, n5))
                  else (False, n4))
               in case rotated of (True, n6) \<Rightarrow> (Resolved, n6)
                | (False, n6) \<Rightarrow> (Failed status, n6\<lparr>napp := session_over (nnow n6) (napp n6)\<rparr>))))"
  by pat_completeness auto

termination
  by (relation "measure (\<lambda>(u, f, r, n). call_weight u f r)")
    (auto simp: call_weight_def split: if_splits)

declare api_call.simps [simp del]

section \<open>How many requests one call can cause\<close>


lemma pass_sent [simp]: "sent (pass x n) = sent n"
  by (simp add: pass_def)

lemma await_sent [simp]: "sent (await_rotation n) = sent n"
  by (simp add: await_rotation_def split: option.splits)


lemma api_call_excluded:
  assumes "\<not> isEligibleForRefresh u \<or> f"
  shows "api_call u f r n =
     (let (status, n1) = serve u n in
      if (case status of Some s \<Rightarrow> ok_status s | None \<Rightarrow> False) then (Resolved, n1)
      else if status \<noteq> Some 401 then (Failed status, n1)
      else if \<not> r \<and> (getPendingSessionRotation (napp n1) \<noteq> None \<or> wasSessionRecentlyRotated (nnow n1) (napp n1))
      then (let (res5, n5) = api_call u f True (await_rotation n1) in
            if res5 = Resolved then (Resolved, n5)
            else (Failed status, n5\<lparr>napp := session_over (nnow n5) (napp n5)\<rparr>))
      else (Failed status, n1\<lparr>napp := session_over (nnow n1) (napp n1)\<rparr>))"
  using assms by (subst api_call.simps) (auto simp: Let_def split: prod.splits)



text \<open>The refresh: resolved elsewhere, or one call on the excluded refresh endpoint.\<close>

definition do_refresh :: "net \<Rightarrow> call_result \<times> net" where
  "do_refresh n1 = (case script n1 of
       x # xs \<Rightarrow> if x_elsewhere x then (Resolved, pass x (n1\<lparr>script := xs\<rparr>)) else api_call REFRESH_URL False False n1
     | [] \<Rightarrow> api_call REFRESH_URL False False n1)"


definition after_refresh :: "string \<Rightarrow> bool \<Rightarrow> bool \<Rightarrow> net \<Rightarrow> call_result \<times> net" where
  "after_refresh u f' r n4 =
     (if \<not> r \<and> (getPendingSessionRotation (napp n4) \<noteq> None \<or> wasSessionRecentlyRotated (nnow n4) (napp n4))
      then (let (res5, n5) = api_call u f' True (await_rotation n4) in
            if res5 = Resolved then (Resolved, n5)
            else (Failed (Some 401), n5\<lparr>napp := session_over (nnow n5) (napp n5)\<rparr>))
      else (Failed (Some 401), n4\<lparr>napp := session_over (nnow n4) (napp n4)\<rparr>))"

lemma api_call_eligible:
  assumes "isEligibleForRefresh u"
  shows "api_call u False r n =
     (let (status, n1) = serve u n in
      if (case status of Some s \<Rightarrow> ok_status s | None \<Rightarrow> False) then (Resolved, n1)
      else if status \<noteq> Some 401 then (Failed status, n1)
      else (let (res, n2) = do_refresh n1 in
            if res = Resolved
            then (let (res3, n3) = api_call u True r n2 in
                  if res3 = Resolved then (Resolved, n3) else after_refresh u True r n3)
            else after_refresh u False r n2))"
proof -
  obtain status n1 where s: "serve u n = (status, n1)" by (cases "serve u n")
  obtain res n2 where r: "do_refresh n1 = (res, n2)" by (cases "do_refresh n1")
  obtain res3 n3 where c: "api_call u True r n2 = (res3, n3)" by (cases "api_call u True r n2")
  have r': "(case script n1 of [] \<Rightarrow> api_call REFRESH_URL False False n1
      | x # xs \<Rightarrow> if x_elsewhere x then (Resolved, pass x (n1\<lparr>script := xs\<rparr>))
                else api_call REFRESH_URL False False n1) = (res, n2)"
    using r by (simp add: do_refresh_def)
  show ?thesis
    by (subst api_call.simps, cases res)
      (simp_all add: s r r' c assms after_refresh_def Let_def split: prod.split)
qed




section \<open>What a rejected 401 leaves behind\<close>

definition signed_out :: "app \<Rightarrow> bool" where
  "signed_out s \<longleftrightarrow> isAuthenticated (auth s) = Some False \<and> permissions (auth s) = []
     \<and> authenticatedAt (auth s) = None"

lemma session_over_signed_out [simp]: "signed_out (session_over now s)"
  by (simp add: session_over_def Let_def signed_out_def auth_store_defs)





section \<open>With no session rotation about\<close>

definition no_rotation :: "net \<Rightarrow> bool" where
  "no_rotation n \<longleftrightarrow> pendingRotation (napp n) = None \<and> rotationSettledAt (napp n) = None
     \<and> list_all (\<lambda>x. x_pending x = None \<and> x_settled x = None) (script n)"

lemma serve_no_rotation: "no_rotation n \<Longrightarrow> serve u n = (s, n1) \<Longrightarrow> no_rotation n1"
  by (auto simp: no_rotation_def serve_def pass_def split: list.splits)

lemma no_rotation_skip:
  "no_rotation n \<Longrightarrow> getPendingSessionRotation (napp n) = None \<and> \<not> wasSessionRecentlyRotated t (napp n)"
  by (simp add: no_rotation_def getPendingSessionRotation_def wasSessionRecentlyRotated_def)

lemma no_rotation_excluded:
  assumes "\<not> isEligibleForRefresh u \<or> f" "no_rotation n" "serve u n = (status, n1)"
  shows "api_call u f r n =
     (if (case status of Some s \<Rightarrow> ok_status s | None \<Rightarrow> False) then (Resolved, n1)
      else if status \<noteq> Some 401 then (Failed status, n1)
      else (Failed status, n1\<lparr>napp := session_over (nnow n1) (napp n1)\<rparr>))"
  using no_rotation_skip [OF serve_no_rotation [OF assms(2,3)]]
  by (simp add: api_call_excluded [OF assms(1)] assms(3) Let_def)

lemma no_rotation_after_refresh:
  "no_rotation n \<Longrightarrow> after_refresh u f' r n = (Failed (Some 401), n\<lparr>napp := session_over (nnow n) (napp n)\<rparr>)"
  using no_rotation_skip [of n "nnow n"] by (simp add: after_refresh_def)

lemma no_rotation_over: "no_rotation n \<Longrightarrow> no_rotation (n\<lparr>napp := session_over t (napp n)\<rparr>)"
  by (simp add: no_rotation_def session_over_def Let_def toast_def query_calls_def on_auth_def)

definition succeeds :: "exchange \<Rightarrow> bool" where
  "succeeds x \<longleftrightarrow> (case x_status x of Some s \<Rightarrow> ok_status s | None \<Rightarrow> False)"

definition step_net :: "string \<Rightarrow> exchange \<Rightarrow> exchange list \<Rightarrow> net \<Rightarrow> net" where
  "step_net u x xs n = pass x (n\<lparr>script := xs, sent := sent n @ [u]\<rparr>)"

lemma serve_Cons: "script n = x # xs \<Longrightarrow> serve u n = (x_status x, step_net u x xs n)"
  by (simp add: serve_def step_net_def)

lemma script_step [simp]: "script (step_net u x xs n) = xs"
  by (simp add: step_net_def pass_def)

lemma not_succeeds_401: "x_status x = Some 401 \<Longrightarrow> \<not> succeeds x"
  by (simp add: succeeds_def ok_status_def)

text \<open>The whole call when nothing rotates: at most one refresh and one retry.\<close>

lemma no_rotation_call:
  assumes e: "isEligibleForRefresh u" and q: "no_rotation n"
    and sc: "script n = x1 # x2 # x3 # xs" and el: "\<not> x_elsewhere x2"
  defines "n1 \<equiv> step_net u x1 (x2 # x3 # xs) n"
  defines "n2 \<equiv> step_net REFRESH_URL x2 (x3 # xs) n1"
  defines "n3 \<equiv> step_net u x3 xs n2"
  shows "api_call u False r n =
    (if succeeds x1 then (Resolved, n1)
     else if x_status x1 \<noteq> Some 401 then (Failed (x_status x1), n1)
     else if succeeds x2 \<and> succeeds x3 then (Resolved, n3)
     else (Failed (Some 401), snd (api_call u False r n)))"
    and "x_status x1 = Some 401 \<Longrightarrow> \<not> succeeds x2 \<Longrightarrow> sent (snd (api_call u False r n)) = sent n @ [u, REFRESH_URL]"
    and "x_status x1 = Some 401 \<Longrightarrow> succeeds x2 \<Longrightarrow> sent (snd (api_call u False r n)) = sent n @ [u, REFRESH_URL, u]"
    and "x_status x1 = Some 401 \<Longrightarrow> succeeds x2 \<Longrightarrow> \<not> succeeds x3 \<Longrightarrow> x_status x3 \<noteq> Some 401 \<Longrightarrow>
           api_call u False r n = (Failed (Some 401), n3\<lparr>napp := session_over (nnow n3) (napp n3)\<rparr>)"
proof -
  have s1: "serve u n = (x_status x1, n1)" unfolding n1_def by (rule serve_Cons [OF sc])
  have s2: "serve REFRESH_URL n1 = (x_status x2, n2)" unfolding n2_def by (rule serve_Cons) (simp add: n1_def)
  have s3: "serve u n2 = (x_status x3, n3)" unfolding n3_def by (rule serve_Cons) (simp add: n2_def)
  have sc1: "script n1 = x2 # x3 # xs" by (simp add: n1_def)
  note q1 = serve_no_rotation [OF q s1]
  note q2 = serve_no_rotation [OF q1 s2]
  note q3 = serve_no_rotation [OF q2 s3]
  have ref: "do_refresh n1 = (if succeeds x2 then (Resolved, n2)
      else if x_status x2 \<noteq> Some 401 then (Failed (x_status x2), n2)
      else (Failed (x_status x2), n2\<lparr>napp := session_over (nnow n2) (napp n2)\<rparr>))"
    using el sc1 by (simp add: do_refresh_def succeeds_def
        no_rotation_excluded [OF disjI1 [OF refresh_not_eligible] q1 s2])
  have ret: "api_call u True r n2 = (if succeeds x3 then (Resolved, n3)
      else if x_status x3 \<noteq> Some 401 then (Failed (x_status x3), n3)
      else (Failed (x_status x3), n3\<lparr>napp := session_over (nnow n3) (napp n3)\<rparr>))"
    by (simp add: no_rotation_excluded [OF disjI2 [OF TrueI] q2 s3] succeeds_def)
  note ar = no_rotation_after_refresh [OF q2] no_rotation_after_refresh [OF q3]
    no_rotation_after_refresh [OF no_rotation_over [OF q2]] no_rotation_after_refresh [OF no_rotation_over [OF q3]]
  have call: "api_call u False r n =
    (if succeeds x1 then (Resolved, n1)
     else if x_status x1 \<noteq> Some 401 then (Failed (x_status x1), n1)
     else if succeeds x2
     then (if succeeds x3 then (Resolved, n3)
           else if x_status x3 \<noteq> Some 401 then after_refresh u True r n3
           else after_refresh u True r (n3\<lparr>napp := session_over (nnow n3) (napp n3)\<rparr>))
     else if x_status x2 \<noteq> Some 401 then after_refresh u False r n2
     else after_refresh u False r (n2\<lparr>napp := session_over (nnow n2) (napp n2)\<rparr>))"
    unfolding api_call_eligible [OF e] s1 using ref ret by (simp add: Let_def succeeds_def)
  have sent: "sent n1 = sent n @ [u]" "sent n2 = sent n @ [u, REFRESH_URL]" "sent n3 = sent n @ [u, REFRESH_URL, u]"
    by (simp_all add: n1_def n2_def n3_def step_net_def)
  show "api_call u False r n =
    (if succeeds x1 then (Resolved, n1)
     else if x_status x1 \<noteq> Some 401 then (Failed (x_status x1), n1)
     else if succeeds x2 \<and> succeeds x3 then (Resolved, n3)
     else (Failed (Some 401), snd (api_call u False r n)))"
    by (simp add: call ar)
  show "x_status x1 = Some 401 \<Longrightarrow> \<not> succeeds x2 \<Longrightarrow> sent (snd (api_call u False r n)) = sent n @ [u, REFRESH_URL]"
    by (simp add: call ar sent not_succeeds_401)
  show "x_status x1 = Some 401 \<Longrightarrow> succeeds x2 \<Longrightarrow> sent (snd (api_call u False r n)) = sent n @ [u, REFRESH_URL, u]"
    by (simp add: call ar sent not_succeeds_401)
  show "x_status x1 = Some 401 \<Longrightarrow> succeeds x2 \<Longrightarrow> \<not> succeeds x3 \<Longrightarrow> x_status x3 \<noteq> Some 401 \<Longrightarrow>
           api_call u False r n = (Failed (Some 401), n3\<lparr>napp := session_over (nnow n3) (napp n3)\<rparr>)"
    by (simp add: call ar not_succeeds_401)
qed

text \<open>What the rest of the application does to the shared state while the requests are in flight.\<close>

definition during :: "exchange list \<Rightarrow> app \<Rightarrow> app" where
  "during xs s = foldl (\<lambda>s x. (on_auth (\<lambda>a. foldl (\<lambda>a op. auth_step op a) a (x_ops x)) s)
     \<lparr>pendingRotation := x_pending x, rotationSettledAt := x_settled x\<rparr>) s xs"

lemma pass_during: "napp (pass x n) = during [x] (napp n)"
  by (simp add: pass_def during_def)

lemma step_during: "napp (step_net u x xs n) = during [x] (napp n)"
  by (simp add: step_net_def pass_during)

lemma during_during [simp]: "during ys (during xs s) = during (xs @ ys) s"
  by (simp add: during_def)

text \<open>A retry that fails otherwise than by a 401, after a refresh by this tab or by another one.\<close>

lemma failed_retry_call:
  assumes e: "isEligibleForRefresh u" and q: "no_rotation n" and sc: "script n = x1 # x2 # x3 # xs"
    and s1: "x_status x1 = Some 401" and s2: "succeeds x2 \<or> x_elsewhere x2"
    and s3: "\<not> succeeds x3" "x_status x3 \<noteq> Some 401"
  obtains n3 where "api_call u False r n = (Failed (Some 401), n3\<lparr>napp := session_over (nnow n3) (napp n3)\<rparr>)"
    and "napp n3 = during [x1, x2, x3] (napp n)"
proof (cases "x_elsewhere x2")
  case False
  with no_rotation_call(4) [OF e q sc False s1 _ s3, of r] s2 that show ?thesis by (simp add: step_during)
next
  case True
  let ?n1 = "step_net u x1 (x2 # x3 # xs) n"
  let ?n2 = "pass x2 (?n1\<lparr>script := x3 # xs\<rparr>)"
  let ?n3 = "step_net u x3 xs ?n2"
  have v1: "serve u n = (x_status x1, ?n1)" by (rule serve_Cons [OF sc])
  have v3: "serve u ?n2 = (x_status x3, ?n3)" by (rule serve_Cons) (simp add: pass_def)
  have q1: "no_rotation ?n1" by (rule serve_no_rotation [OF q v1])
  then have q2: "no_rotation ?n2" by (simp add: no_rotation_def pass_def)
  have "api_call u True r ?n2 = (Failed (x_status x3), ?n3)"
    using s3 by (simp add: no_rotation_excluded [OF disjI2 [OF TrueI] q2 v3] succeeds_def)
  moreover have "do_refresh ?n1 = (Resolved, ?n2)" using True by (simp add: do_refresh_def)
  moreover note no_rotation_after_refresh [OF serve_no_rotation [OF q2 v3], of u True r]
  ultimately have "api_call u False r n = (Failed (Some 401), ?n3\<lparr>napp := session_over (nnow ?n3) (napp ?n3)\<rparr>)"
    using s1 by (simp add: api_call_eligible [OF e] v1 Let_def ok_status_def)
  then show ?thesis by (rule that) (simp add: step_during pass_during)
qed

lemma session_over_toasts:
  "toasts (session_over now s) = toasts s @ (if isAuthenticated (auth s) = Some True then [expired_toast] else [])"
  by (simp add: session_over_def Let_def)

section \<open>Properties\<close>


definition exchange_of :: "nat option \<Rightarrow> exchange" where
  "exchange_of s = \<lparr>x_status = s, x_elsewhere = False, x_ops = [], x_pending = None, x_settled = None, x_now = 1\<rparr>"

definition live_net :: "exchange list \<Rightarrow> net" where
  "live_net xs = \<lparr>script = xs, sent = [], napp = initial_app\<lparr>auth := signed_in [''policies:read'']\<rparr>, nnow = 1\<rparr>"




text \<open>C6: A retry that fails for a reason other than a 401 still ends the session. When no rotation of the
  session is pending or recent (so that the interceptor has no second retry left to make), after a 401 and a
  refresh that succeeded, in this tab or in another one, a retry answered 403, 404, 500 or not at all makes
  the call reject with the original 401 and leaves the store signed out; if the tab was still signed
  in when that answer came, whatever else had happened meanwhile, it also announces that the session has
  expired, although it was just renewed.\<close>

theorem failed_retry_ends_renewed_session:
  assumes "isEligibleForRefresh u" "no_rotation n" "script n = x1 # x2 # x3 # xs"
    and "x_status x1 = Some 401" "succeeds x2 \<or> x_elsewhere x2" "\<not> succeeds x3" "x_status x3 \<noteq> Some 401"
  shows "fst (api_call u False r n) = Failed (Some 401)
     \<and> signed_out (napp (snd (api_call u False r n)))
     \<and> toasts (napp (snd (api_call u False r n))) = toasts (napp n)
         @ (if isAuthenticated (auth (during [x1, x2, x3] (napp n))) = Some True then [expired_toast] else [])"
proof -
  obtain n3 where c: "api_call u False r n = (Failed (Some 401), n3\<lparr>napp := session_over (nnow n3) (napp n3)\<rparr>)"
    and d: "napp n3 = during [x1, x2, x3] (napp n)"
    by (rule failed_retry_call [OF assms])
  have "toasts (during [x1, x2, x3] (napp n)) = toasts (napp n)" by (simp add: during_def)
  with d show ?thesis unfolding c by (simp add: session_over_toasts)
qed

text \<open>The refresh was another tab's, and the retry is forbidden.\<close>

lemma failed_retry_ends_renewed_session_witness:
  "let n' = snd (api_call ''/users/'' False False (live_net [exchange_of (Some 401),
      (exchange_of None)\<lparr>x_elsewhere := True\<rparr>, exchange_of (Some 403)]))
   in signed_out (napp n') \<and> toasts (napp n') = [expired_toast]"
  unfolding Let_def
  using failed_retry_ends_renewed_session [of "''/users/''" "live_net [exchange_of (Some 401),
      (exchange_of None)\<lparr>x_elsewhere := True\<rparr>, exchange_of (Some 403)]" "exchange_of (Some 401)"
      "(exchange_of None)\<lparr>x_elsewhere := True\<rparr>" "exchange_of (Some 403)" "[]" False]
  by (simp add: isEligibleForRefresh_def AUTH_ENDPOINTS_EXCLUDED_FROM_REFRESH_def starts_with_def live_net_def
      no_rotation_def exchange_of_def initial_app_def succeeds_def ok_status_def signed_in_def during_def)

end
