(* ===== verification/SessionEvents.thy ===== *)
theory SessionEvents
  imports Session
begin

text \<open>
  The other parts of the session life cycle: the single-flight refresh of
  \<open>setupAuthInterceptor.ts\<close> under concurrent callers, the permissions-changed pushes of
  \<open>useSessionEventsStream.ts\<close> against the self-mutation guard, and what a sign-out drops from
  the query cache (\<open>clearMyAccountSessionCaches.ts\<close>).
\<close>

section \<open>Single-flight refresh\<close>

text \<open>
  The module-level promise of \<open>refreshSession\<close>: callers that arrive while a refresh is in
  flight share it. Callers are numbered; \<open>settled\<close> records the outcome each one was given.
\<close>

record flight =
  refreshInFlight :: "nat list option"
  posts :: nat
  settled :: "(nat \<times> bool) list"

datatype flight_event = CallRefresh nat | RefreshSettles bool

definition refreshSession :: "nat \<Rightarrow> flight \<Rightarrow> flight" where
  "refreshSession w f = (case refreshInFlight f of
       None \<Rightarrow> f\<lparr>refreshInFlight := Some [w], posts := Suc (posts f)\<rparr>
     | Some ws \<Rightarrow> f\<lparr>refreshInFlight := Some (ws @ [w])\<rparr>)"

definition refresh_settles :: "bool \<Rightarrow> flight \<Rightarrow> flight" where
  "refresh_settles ok f = (case refreshInFlight f of None \<Rightarrow> f
     | Some ws \<Rightarrow> f\<lparr>refreshInFlight := None, settled := settled f @ map (\<lambda>w. (w, ok)) ws\<rparr>)"

fun flight_step :: "flight_event \<Rightarrow> flight \<Rightarrow> flight" where
  "flight_step (CallRefresh w) f = refreshSession w f"
| "flight_step (RefreshSettles ok) f = refresh_settles ok f"

definition flight_run :: "flight_event list \<Rightarrow> flight" where
  "flight_run es = foldl (\<lambda>f e. flight_step e f) \<lparr>refreshInFlight = None, posts = 0, settled = []\<rparr> es"

fun callers :: "flight_event list \<Rightarrow> nat list" where
  "callers [] = []"
| "callers (CallRefresh w # es) = w # callers es"
| "callers (RefreshSettles ok # es) = callers es"

lemma callers_append: "callers (es @ fs) = callers es @ callers fs"
  by (induction es rule: callers.induct) simp_all

lemma flight_callers:
  "map fst (settled (flight_run es)) @ nullish (refreshInFlight (flight_run es)) [] = callers es"
proof (induction es rule: rev_induct)
  case Nil
  then show ?case by (simp add: flight_run_def nullish_def)
next
  case (snoc e es)
  then show ?case
    by (cases e) (auto simp: flight_run_def nullish_def callers_append refreshSession_def refresh_settles_def
        comp_def split: option.splits)
qed

definition flight_ok :: "flight \<Rightarrow> bool" where
  "flight_ok f \<longleftrightarrow> (case refreshInFlight f of Some ws \<Rightarrow> ws \<noteq> [] | None \<Rightarrow> True)
     \<and> posts f \<le> length (settled f) + (if refreshInFlight f = None then 0 else 1)"

lemma flight_ok_run: "flight_ok (flight_run es)"
proof (induction es rule: rev_induct)
  case Nil
  then show ?case by (simp add: flight_run_def flight_ok_def)
next
  case (snoc e es)
  then show ?case
    by (cases e) (auto simp: flight_run_def flight_ok_def refreshSession_def refresh_settles_def
        Suc_le_eq split: option.splits if_splits elim: order.trans)
qed

text \<open>While a refresh is in flight no further one is posted, and its callers share its outcome.\<close>

lemma flight_shared:
  assumes "refreshInFlight (flight_run es) = Some ws" "list_all (\<lambda>e. case e of CallRefresh _ \<Rightarrow> True | _ \<Rightarrow> False) cs"
  shows "posts (flight_run (es @ cs)) = posts (flight_run es)"
    and "refreshInFlight (flight_run (es @ cs)) = Some (ws @ callers cs)"
    and "settled (flight_run (es @ cs)) = settled (flight_run es)"
  using assms(2)
proof (induction cs rule: rev_induct)
  case Nil
  { case 1 then show ?case by simp next case 2 then show ?case using assms(1) by simp next case 3 then show ?case by simp }
next
  case (snoc e cs)
  { case 1 with snoc show ?case
      by (cases e) (auto simp: flight_run_def refreshSession_def callers_append split: option.splits)
  next case 2 with snoc show ?case
      by (cases e) (auto simp: flight_run_def refreshSession_def callers_append split: option.splits)
  next case 3 with snoc show ?case
      by (cases e) (auto simp: flight_run_def refreshSession_def callers_append split: option.splits) }
qed

text \<open>C3: The refresh is single-flight: callers that arrive while one is in flight cause no further
  request, and when it settles every one of them is given its outcome, once.\<close>

theorem refresh_single_flight:
  assumes "refreshInFlight (flight_run es) = None"
  shows "let f = flight_run (es @ CallRefresh w # map CallRefresh ws @ [RefreshSettles ok]) in
     posts f = Suc (posts (flight_run es)) \<and> refreshInFlight f = None \<and>
     settled f = settled (flight_run es) @ map (\<lambda>v. (v, ok)) (w # ws)"
proof -
  let ?e1 = "es @ [CallRefresh w]" and ?cs = "map CallRefresh ws"
  have start: "refreshInFlight (flight_run ?e1) = Some [w]" "posts (flight_run ?e1) = Suc (posts (flight_run es))"
    "settled (flight_run ?e1) = settled (flight_run es)"
    using assms by (simp_all add: flight_run_def refreshSession_def)
  have all: "list_all (\<lambda>e. case e of CallRefresh _ \<Rightarrow> True | _ \<Rightarrow> False) ?cs" by (simp add: list_all_iff)
  have calls: "callers ?cs = ws" by (induction ws) simp_all
  note sh = flight_shared [OF start(1) all]
  have "flight_run (es @ CallRefresh w # ?cs @ [RefreshSettles ok]) = refresh_settles ok (flight_run (?e1 @ ?cs))"
    by (simp add: flight_run_def)
  with sh start calls show ?thesis by (simp add: refresh_settles_def)
qed

lemma refresh_single_flight_witness:
  "posts (flight_run [CallRefresh 1, CallRefresh 2, CallRefresh 3, RefreshSettles True]) = 1"
  using refresh_single_flight [of "[]" 1 "[2, 3]" True] by (simp add: flight_run_def Let_def)

section \<open>Pushed permission changes\<close>

definition permissions_changed :: "json option" where
  "permissions_changed = Some (JObj [(''type'', JStr ''permissions_changed'')])"

definition push_all :: "int list \<Rightarrow> app \<Rightarrow> app" where
  "push_all ts s = foldl (\<lambda>s t. session_event t permissions_changed s) s ts"

lemma event_type_permissions_changed [simp]: "event_type permissions_changed = JStr ''permissions_changed''"
  by (simp add: event_type_def permissions_changed_def nullish_def)

lemma push_unmarked:
  "lastSelfMutationAt s = None \<Longrightarrow>
     push_all ts s = query_calls (map (\<lambda>_. ResetAll) ts) (if ts = [] then s else on_auth dropPermissions s)"
proof (induction ts arbitrary: s)
  case Nil
  then show ?case by (simp add: push_all_def query_calls_def)
next
  case (Cons t ts)
  have "session_event t permissions_changed s = query_calls [ResetAll] (on_auth dropPermissions s)"
    using Cons.prems by (simp add: session_event_def wasSelfPermissionMutationRecent_def Let_def)
  with Cons.IH [of "query_calls [ResetAll] (on_auth dropPermissions s)"] Cons.prems show ?case
    by (auto simp: push_all_def query_calls_def on_auth_def dropPermissions_def)
qed

text \<open>C22: After this tab changes its own permissions, at most one permissions-changed push is taken
  for the echo of that change, and only within five seconds; any other push empties the
  permission list at once. Every push resets every query.\<close>

theorem self_echo_consumed_once:
  "let s' = push_all ts (markSelfPermissionMutation t0 s) in
     permissions (auth s') = (if ts = [] \<or> (length ts = 1 \<and> hd ts - t0 < 5000) then permissions (auth s) else [])
     \<and> qlog s' = qlog s @ map (\<lambda>_. ResetAll) ts"
proof (cases ts)
  case Nil
  then show ?thesis by (simp add: push_all_def markSelfPermissionMutation_def)
next
  case (Cons t rest)
  let ?m = "markSelfPermissionMutation t0 s"
  let ?s1 = "session_event t permissions_changed ?m"
  have one: "?s1 = query_calls [ResetAll] (let s0 = ?m\<lparr>lastSelfMutationAt := None\<rparr> in
      if t - t0 < 5000 then s0 else on_auth dropPermissions s0)"
    by (simp add: session_event_def wasSelfPermissionMutationRecent_def markSelfPermissionMutation_def
        RECENT_SELF_MUTATION_WINDOW_MS_def Let_def)
  then have none: "lastSelfMutationAt ?s1 = None" by (simp add: Let_def)
  have "push_all ts ?m = push_all rest ?s1" by (simp add: push_all_def Cons)
  with push_unmarked [OF none, of rest] one Cons show ?thesis
    by (cases "rest = []") (auto simp: Let_def markSelfPermissionMutation_def dropPermissions_def)
qed

section \<open>What a sign-out drops from the query cache\<close>

definition run_calls :: "(qop \<Rightarrow> 'c \<Rightarrow> 'c) \<Rightarrow> qop list \<Rightarrow> 'c \<Rightarrow> 'c" where
  "run_calls run qs c = foldl (\<lambda>c q. run q c) c qs"

definition sign_out_calls :: "int \<Rightarrow> app \<Rightarrow> qop list" where
  "sign_out_calls now s = drop (length (qlog s)) (qlog (clearMyAccountSessionCaches now s))"

lemma sign_out_calls_eq: "sign_out_calls now s =
    [SetNull CURRENT_USER_QUERY_KEY, RemoveQueries SESSIONS_QUERY_KEY, RemoveQueries MY_POLICIES_QUERY_KEY,
     RemoveQueries MY_AUTHORIZATION_AUDIT_LOG_QUERY_KEY, RemoveQueries MY_SECURITY_AUDIT_LOG_QUERY_KEY]"
  by (simp add: sign_out_calls_def clearMyAccountSessionCaches_def)

definition dropped_keys :: "query_key list" where
  "dropped_keys = [SESSIONS_QUERY_KEY, MY_POLICIES_QUERY_KEY, MY_AUTHORIZATION_AUDIT_LOG_QUERY_KEY,
     MY_SECURITY_AUDIT_LOG_QUERY_KEY]"

text \<open>Signing out (or deleting the account) marks the store signed out and drops from the query
  cache exactly the queries under the caller's sessions, policies and two audit logs. Every
  other cached query but the current user's survives; in particular the caller's own direct
  permissions and passkeys, which carry no user in their keys either.\<close>

theorem sign_out_drops:
  assumes "query_client_laws run get" "k \<noteq> CURRENT_USER_QUERY_KEY"
  shows "signed_out (clearMyAccountSessionCaches now s) \<and>
     get (run_calls run (sign_out_calls now s) c) k
       = (if list_ex (starts_with k) dropped_keys then None else get c k) \<and>
     \<not> list_ex (starts_with MY_PERMISSIONS_QUERY_KEY) dropped_keys \<and>
     \<not> list_ex (starts_with PASSKEYS_QUERY_KEY) dropped_keys"
proof (intro conjI)
  show "signed_out (clearMyAccountSessionCaches now s)"
    by (simp add: clearMyAccountSessionCaches_def signed_out_def auth_store_defs)
  show "get (run_calls run (sign_out_calls now s) c) k
       = (if list_ex (starts_with k) dropped_keys then None else get c k)"
    using assms by (auto simp: run_calls_def sign_out_calls_eq dropped_keys_def query_client_laws_def)
qed (simp_all add: dropped_keys_def qkey_simps starts_with_def)

definition sample_run :: "qop \<Rightarrow> (query_key \<Rightarrow> nat option) \<Rightarrow> query_key \<Rightarrow> nat option" where
  "sample_run q c = (case q of RemoveQueries k \<Rightarrow> (\<lambda>k'. if starts_with k' k then None else c k')
     | SetNull k \<Rightarrow> c(k := Some 0) | _ \<Rightarrow> c)"

lemma sample_run_laws: "query_client_laws sample_run (\<lambda>c k. c k)"
  by (simp add: query_client_laws_def sample_run_def)

lemma sign_out_drops_witness:
  "run_calls sample_run (sign_out_calls 0 initial_app) (\<lambda>_. Some 7) MY_PERMISSIONS_QUERY_KEY = Some 7"
  using sign_out_drops [OF sample_run_laws, of MY_PERMISSIONS_QUERY_KEY 0 initial_app "\<lambda>_. Some 7"]
  by (simp add: qkey_simps)

end
