(* ===== verification/CrossTab.thy ===== *)
theory CrossTab
  imports Session
begin

text \<open>
  Rotating the refresh token from several tabs (\<open>crossTabRefresh.ts\<close>). The shared
  \<open>localStorage\<close> is explicit; tabs interleave at the granularity of one storage operation, one
  lock grant, one response or one timer. Two step relations are given: the Web Locks path,
  with the browser's exclusive lock, and the fallback by a lease kept in storage.
\<close>

section \<open>Storage\<close>

text \<open>A stored text either parses as JSON or does not (the empty text counts as unparsable: the code
  treats it as absent). Reading or writing may throw.\<close>

datatype stored = Unparsable | Parsed json

record storage =
  can_read :: bool
  can_write :: bool
  lease_item :: "stored option"
  result_item :: "stored option"

record lease =
  owner :: string
  expiresAt :: int

record rotation =
  epoch :: int
  success :: bool

definition LEASE_MS :: int where "LEASE_MS = 15000"
definition HEARTBEAT_MS :: int where "HEARTBEAT_MS = 5000"

definition readLease :: "storage \<Rightarrow> lease option" where
  "readLease st =
     (if \<not> can_read st then None
      else case lease_item st of
        Some (Parsed (JObj fs)) \<Rightarrow>
          (case (map_of fs ''owner'', map_of fs ''expiresAt'') of
             (Some (JStr o'), Some (JNum e)) \<Rightarrow> Some \<lparr>owner = o', expiresAt = e\<rparr>
           | _ \<Rightarrow> None)
      | _ \<Rightarrow> None)"

definition lease_json :: "lease \<Rightarrow> json" where
  "lease_json l = JObj [(''owner'', JStr (owner l)), (''expiresAt'', JNum (expiresAt l))]"

text \<open>\<open>writeLease\<close> stores the lease, then reads it back.\<close>

definition setLease :: "lease \<Rightarrow> storage \<Rightarrow> storage" where
  "setLease l st = st\<lparr>lease_item := Some (Parsed (lease_json l))\<rparr>"

definition owns_lease :: "string \<Rightarrow> storage \<Rightarrow> bool" where
  "owns_lease tab st \<longleftrightarrow> map_option owner (readLease st) = Some tab"

definition writeLease :: "lease \<Rightarrow> storage \<Rightarrow> storage \<times> bool" where
  "writeLease l st =
     (if can_write st then (let st' = setLease l st in (st', owns_lease (owner l) st')) else (st, False))"

definition releaseLease :: "string \<Rightarrow> storage \<Rightarrow> storage" where
  "releaseLease tab st = (if owns_lease tab st \<and> can_write st then st\<lparr>lease_item := None\<rparr> else st)"

definition readRotationResult :: "storage \<Rightarrow> rotation option" where
  "readRotationResult st =
     (if \<not> can_read st then None
      else case result_item st of
        Some (Parsed (JObj fs)) \<Rightarrow>
          (case (map_of fs ''epoch'', map_of fs ''success'') of
             (Some (JNum e), Some (JBool b)) \<Rightarrow> Some \<lparr>epoch = e, success = b\<rparr>
           | _ \<Rightarrow> None)
      | _ \<Rightarrow> None)"

definition publishRotationResult :: "bool \<Rightarrow> storage \<Rightarrow> storage" where
  "publishRotationResult ok st =
     (let previous = readRotationResult st;
          e = (case previous of None \<Rightarrow> 0 | Some r \<Rightarrow> epoch r) + 1
      in if can_write st
         then st\<lparr>result_item := Some (Parsed (JObj [(''epoch'', JNum e), (''success'', JBool ok)]))\<rparr>
         else st)"

definition rotationCompletedAfter :: "rotation option \<Rightarrow> storage \<Rightarrow> bool" where
  "rotationCompletedAfter before st =
     (case readRotationResult st of None \<Rightarrow> False
      | Some after \<Rightarrow> (case before of None \<Rightarrow> True | Some b \<Rightarrow> epoch after \<noteq> epoch b) \<and> success after)"

datatype refresh_result = ServerAnswered | ServerRejected | RotatedInAnotherTab

lemma readLease_set [simp]: "readLease (setLease l st) = (if can_read st then Some l else None)"
  by (simp add: readLease_def setLease_def lease_json_def)

lemma set_lease_keeps [simp]:
  "readRotationResult (setLease l st) = readRotationResult st"
  "can_read (setLease l st) = can_read st" "can_write (setLease l st) = can_write st"
  by (simp_all add: readRotationResult_def setLease_def)

lemma release_keeps [simp]:
  "readRotationResult (releaseLease t st) = readRotationResult st"
  "can_read (releaseLease t st) = can_read st" "can_write (releaseLease t st) = can_write st"
  by (simp_all add: readRotationResult_def releaseLease_def)

lemma publish_keeps [simp]:
  "can_read (publishRotationResult ok st) = can_read st" "can_write (publishRotationResult ok st) = can_write st"
  "readLease (publishRotationResult ok st) = readLease st"
  by (simp_all add: publishRotationResult_def Let_def readLease_def)

lemma write_then_read: "can_read st \<Longrightarrow> can_write st \<Longrightarrow> readLease (fst (writeLease l st)) = Some l \<and> snd (writeLease l st)"
  by (simp add: writeLease_def Let_def owns_lease_def)

lemma release_other: "readLease st = Some l \<Longrightarrow> owner l \<noteq> t \<Longrightarrow> releaseLease t st = st"
  by (simp add: releaseLease_def owns_lease_def)

text \<open>The epoch grows by one with every published result.\<close>

lemma read_published:
  "can_read st \<Longrightarrow> can_write st \<Longrightarrow> readRotationResult (publishRotationResult ok st) =
     Some \<lparr>epoch = (case readRotationResult st of None \<Rightarrow> 0 | Some r \<Rightarrow> epoch r) + 1, success = ok\<rparr>"
  by (simp add: publishRotationResult_def Let_def) (simp add: readRotationResult_def)

section \<open>The Web Locks path\<close>

text \<open>
  Where one tab is in \<open>runCrossTabRefresh\<close>. \<open>since\<close> is a ghost: the outcomes published after
  the tab read \<open>rotationBefore\<close>.
\<close>

datatype wtab = WIdle | WWaiting "rotation option" | WHolding "rotation option" | WRequesting
  | WDone refresh_result

record wstate =
  wstore :: storage
  wtabs :: "string \<Rightarrow> wtab"
  wlock :: "string option"
  since :: "string \<Rightarrow> bool list"

definition holds_lock :: "wtab \<Rightarrow> bool" where
  "holds_lock w \<longleftrightarrow> (case w of WHolding _ \<Rightarrow> True | WRequesting \<Rightarrow> True | _ \<Rightarrow> False)"

inductive wstep :: "wstate \<Rightarrow> wstate \<Rightarrow> bool" where
  w_start: "wtabs s t = WIdle \<or> (\<exists>r. wtabs s t = WDone r) \<Longrightarrow>
     wstep s (s\<lparr>wtabs := (wtabs s)(t := WWaiting (readRotationResult (wstore s))), since := (since s)(t := [])\<rparr>)"
| w_grant: "wtabs s t = WWaiting b \<Longrightarrow> wlock s = None \<Longrightarrow>
     wstep s (s\<lparr>wtabs := (wtabs s)(t := WHolding b), wlock := Some t\<rparr>)"
| w_skip: "wtabs s t = WHolding b \<Longrightarrow> rotationCompletedAfter b (wstore s) \<Longrightarrow>
     wstep s (s\<lparr>wtabs := (wtabs s)(t := WDone RotatedInAnotherTab), wlock := None\<rparr>)"
| w_request: "wtabs s t = WHolding b \<Longrightarrow> \<not> rotationCompletedAfter b (wstore s) \<Longrightarrow>
     wstep s (s\<lparr>wtabs := (wtabs s)(t := WRequesting)\<rparr>)"
| w_settle: "wtabs s t = WRequesting \<Longrightarrow>
     wstep s (s\<lparr>wtabs := (wtabs s)(t := WDone (if ok then ServerAnswered else ServerRejected)), wlock := None,
                wstore := publishRotationResult ok (wstore s), since := (\<lambda>u. since s u @ [ok])\<rparr>)"
| w_crash: "holds_lock (wtabs s t) \<Longrightarrow> wstep s (s\<lparr>wtabs := (wtabs s)(t := WIdle), wlock := None\<rparr>)"
| w_leave: "wtabs s t = WWaiting b \<Longrightarrow> wstep s (s\<lparr>wtabs := (wtabs s)(t := WIdle)\<rparr>)"

inductive_cases wstepE: "wstep s s'"

definition wstart :: "stored option \<Rightarrow> wstate" where
  "wstart res = \<lparr>wstore = \<lparr>can_read = True, can_write = True, lease_item = None, result_item = res\<rparr>,
     wtabs = (\<lambda>_. WIdle), wlock = None, since = (\<lambda>_. [])\<rparr>"

definition wreachable :: "stored option \<Rightarrow> wstate \<Rightarrow> bool" where
  "wreachable res s \<longleftrightarrow> wstep\<^sup>*\<^sup>* (wstart res) s"

text \<open>What a tab's \<open>rotationBefore\<close> and the outcomes since then say about the stored result.\<close>

definition tracks :: "rotation option \<Rightarrow> bool list \<Rightarrow> rotation option \<Rightarrow> bool" where
  "tracks before outcomes now \<longleftrightarrow>
     (if outcomes = [] then now = before
      else \<exists>r. now = Some r \<and> success r = last outcomes \<and> (case before of None \<Rightarrow> True | Some b \<Rightarrow> epoch b < epoch r))"

definition winv :: "wstate \<Rightarrow> bool" where
  "winv s \<longleftrightarrow> can_read (wstore s) \<and> can_write (wstore s)
     \<and> (\<forall>t. holds_lock (wtabs s t) \<longleftrightarrow> wlock s = Some t)
     \<and> (\<forall>t b. wtabs s t = WWaiting b \<or> wtabs s t = WHolding b \<longrightarrow>
          tracks b (since s t) (readRotationResult (wstore s)))"

lemma tracks_publish:
  assumes "tracks b os (readRotationResult st)" "can_read st" "can_write st"
  shows "tracks b (os @ [ok]) (readRotationResult (publishRotationResult ok st))"
  using assms by (auto simp: tracks_def read_published split: if_splits option.splits)

lemma winv_start: "winv (wstart res)"
  by (simp add: winv_def wstart_def holds_lock_def)

lemma holds_lock_simps [simp]:
  "\<not> holds_lock WIdle" "\<not> holds_lock (WWaiting b)" "holds_lock (WHolding b)" "holds_lock WRequesting"
  "\<not> holds_lock (WDone r)"
  by (simp_all add: holds_lock_def)

lemma winv_lock: "winv s \<Longrightarrow> wlock s = Some t \<longleftrightarrow> holds_lock (wtabs s t)"
  by (simp add: winv_def)

lemma winv_tracks:
  "winv s \<Longrightarrow> wtabs s t = WWaiting b \<or> wtabs s t = WHolding b \<Longrightarrow> tracks b (since s t) (readRotationResult (wstore s))"
  by (auto simp: winv_def)

lemma winv_other: "winv s \<Longrightarrow> holds_lock (wtabs s t) \<Longrightarrow> u \<noteq> t \<Longrightarrow> \<not> holds_lock (wtabs s u)"
  by (auto simp: winv_def)

lemma winvI:
  assumes "can_read (wstore s)" "can_write (wstore s)"
    and "\<And>t. holds_lock (wtabs s t) \<longleftrightarrow> wlock s = Some t"
    and "\<And>t b. wtabs s t = WWaiting b \<or> wtabs s t = WHolding b \<Longrightarrow> tracks b (since s t) (readRotationResult (wstore s))"
  shows "winv s"
  using assms by (simp add: winv_def)

lemma winv_store: "winv s \<Longrightarrow> can_read (wstore s) \<and> can_write (wstore s)"
  by (simp add: winv_def)

lemma winv_step: "wstep s s' \<Longrightarrow> winv s \<Longrightarrow> winv s'"
proof (induction rule: wstep.induct)
  case (w_start s t)
  then have "\<not> holds_lock (wtabs s t)" by auto
  with w_start show ?case
    by (intro winvI) (auto simp: winv_store winv_lock tracks_def [of _ "[]"] dest: winv_tracks split: if_splits)
next
  case (w_grant s t b)
  then have "\<And>u. \<not> holds_lock (wtabs s u)" using winv_lock [OF w_grant(3)] by simp
  with w_grant show ?case
    by (intro winvI) (auto simp: winv_store dest: winv_tracks split: if_splits)
next
  case (w_skip s t b)
  then have "\<And>u. u \<noteq> t \<Longrightarrow> \<not> holds_lock (wtabs s u)" using winv_other [of s t] by simp
  with w_skip show ?case
    by (intro winvI) (auto simp: winv_store dest: winv_tracks split: if_splits)
next
  case (w_request s t b)
  then have "wlock s = Some t" using winv_lock by simp
  with w_request show ?case
    by (intro winvI) (auto simp: winv_store winv_lock dest: winv_tracks split: if_splits)
next
  case (w_settle s t ok)
  then have "\<And>u. u \<noteq> t \<Longrightarrow> \<not> holds_lock (wtabs s u)" using winv_other [of s t] by simp
  with w_settle show ?case
    by (intro winvI) (auto simp: winv_store intro!: tracks_publish dest: winv_tracks split: if_splits)
next
  case (w_crash s t)
  then have "\<And>u. u \<noteq> t \<Longrightarrow> \<not> holds_lock (wtabs s u)" using winv_other [of s t] by simp
  with w_crash show ?case
    by (intro winvI) (auto simp: winv_store dest: winv_tracks split: if_splits)
next
  case (w_leave s t b)
  then show ?case
    by (intro winvI) (auto simp: winv_store winv_lock dest: winv_tracks split: if_splits)
qed

lemma tracks_completed: "tracks b os (readRotationResult st) \<Longrightarrow> rotationCompletedAfter b st \<longleftrightarrow> os \<noteq> [] \<and> last os"
  by (auto simp: tracks_def rotationCompletedAfter_def split: if_splits option.splits)

text \<open>A tab that is requesting found no newer successful rotation, and none can have been published
  since, because it holds the lock.\<close>

definition wasked :: "wstate \<Rightarrow> bool" where
  "wasked s \<longleftrightarrow> (\<forall>t. wtabs s t = WRequesting \<longrightarrow> since s t = [] \<or> \<not> last (since s t))"

lemma wasked_step: "wstep s s' \<Longrightarrow> winv s \<Longrightarrow> wasked s \<Longrightarrow> wasked s'"
proof (induction rule: wstep.induct)
  case (w_request s t b)
  then have "since s t = [] \<or> \<not> last (since s t)" using tracks_completed winv_tracks by blast
  with w_request show ?case by (simp add: wasked_def)
next
  case (w_settle s t ok)
  then have "\<And>u. u \<noteq> t \<Longrightarrow> \<not> holds_lock (wtabs s u)" using winv_other [of s t] by simp
  then have "\<And>u. u \<noteq> t \<Longrightarrow> wtabs s u \<noteq> WRequesting" by (metis holds_lock_simps(4))
  then show ?case by (simp add: wasked_def)
qed (auto simp: wasked_def)

lemma wasked_start: "wasked (wstart res)"
  by (simp add: wasked_def wstart_def)

lemma wreachable_wasked: "wreachable res s \<Longrightarrow> winv s \<and> wasked s"
  unfolding wreachable_def
  by (induction rule: rtranclp_induct) (auto intro: winv_start winv_step wasked_start wasked_step)

section \<open>The lease path\<close>

text \<open>
  Where one tab is in \<open>refreshWithStorageLease\<close>: at the top of the loop, waiting for another
  tab, about to write its lease, about to read it back, backing off for 25 ms, holding the
  lease, requesting.
\<close>

datatype ltab = LIdle | LTop "rotation option" | LBlocked "rotation option" | LSet "rotation option"
  | LVerify "rotation option" | LBackoff "rotation option" | LHeld "rotation option" | LRequesting
  | LDone refresh_result

record lstate =
  lstore :: storage
  ltabs :: "string \<Rightarrow> ltab"
  clock :: int

text \<open>\<open>existing && existing.owner !== tabId && existing.expiresAt > Date.now()\<close>\<close>

definition blocked_by_lease :: "string \<Rightarrow> int \<Rightarrow> storage \<Rightarrow> bool" where
  "blocked_by_lease t now st \<longleftrightarrow>
     (case readLease st of None \<Rightarrow> False | Some e \<Rightarrow> owner e \<noteq> t \<and> now < expiresAt e)"

definition at :: "string \<Rightarrow> ltab \<Rightarrow> lstate \<Rightarrow> lstate" where
  "at t w s = s\<lparr>ltabs := (ltabs s)(t := w)\<rparr>"

definition my_lease :: "string \<Rightarrow> lstate \<Rightarrow> lease" where
  "my_lease t s = \<lparr>owner = t, expiresAt = clock s + LEASE_MS\<rparr>"

inductive lstep :: "lstate \<Rightarrow> lstate \<Rightarrow> bool" where
  l_start: "ltabs s t = LIdle \<Longrightarrow> lstep s (at t (LTop (readRotationResult (lstore s))) s)"
| l_blocked: "ltabs s t = LTop b \<Longrightarrow> blocked_by_lease t (clock s) (lstore s) \<Longrightarrow> lstep s (at t (LBlocked b) s)"
| l_woken: "ltabs s t = LBlocked b \<Longrightarrow>
     lstep s (at t (if rotationCompletedAfter b (lstore s) then LDone RotatedInAnotherTab else LTop b) s)"
| l_free: "ltabs s t = LTop b \<Longrightarrow> \<not> blocked_by_lease t (clock s) (lstore s) \<Longrightarrow> lstep s (at t (LSet b) s)"
| l_set: "ltabs s t = LSet b \<Longrightarrow> can_write (lstore s) \<Longrightarrow>
     lstep s (at t (LVerify b) (s\<lparr>lstore := setLease (my_lease t s) (lstore s)\<rparr>))"
| l_set_throws: "ltabs s t = LSet b \<Longrightarrow> \<not> can_write (lstore s) \<Longrightarrow> lstep s (at t (LBackoff b) s)"
| l_verify: "ltabs s t = LVerify b \<Longrightarrow>
     lstep s (at t (if owns_lease t (lstore s) then LHeld b else LBackoff b) s)"
| l_backoff: "ltabs s t = LBackoff b \<Longrightarrow> lstep s (at t (LTop b) s)"
| l_skip: "ltabs s t = LHeld b \<Longrightarrow> rotationCompletedAfter b (lstore s) \<Longrightarrow>
     lstep s (at t (LDone RotatedInAnotherTab) (s\<lparr>lstore := releaseLease t (lstore s)\<rparr>))"
| l_request: "ltabs s t = LHeld b \<Longrightarrow> \<not> rotationCompletedAfter b (lstore s) \<Longrightarrow> lstep s (at t LRequesting s)"
| l_heartbeat: "ltabs s t = LRequesting \<Longrightarrow> owns_lease t (lstore s) \<Longrightarrow> can_write (lstore s) \<Longrightarrow>
     lstep s (s\<lparr>lstore := setLease (my_lease t s) (lstore s)\<rparr>)"
| l_settle: "ltabs s t = LRequesting \<Longrightarrow>
     lstep s (at t (LDone (if ok then ServerAnswered else ServerRejected))
                (s\<lparr>lstore := releaseLease t (publishRotationResult ok (lstore s))\<rparr>))"
| l_crash: "lstep s (at t LIdle s)"
| l_tick: "0 \<le> d \<Longrightarrow> lstep s (s\<lparr>clock := clock s + d\<rparr>)"

definition lstart :: "storage \<Rightarrow> int \<Rightarrow> lstate" where
  "lstart st now = \<lparr>lstore = st, ltabs = (\<lambda>_. LIdle), clock = now\<rparr>"

definition lreachable :: "lstate \<Rightarrow> lstate \<Rightarrow> bool" where
  "lreachable s0 s \<longleftrightarrow> lstep\<^sup>*\<^sup>* s0 s"

lemma at_simps [simp]:
  "ltabs (at t w s) = (ltabs s)(t := w)" "lstore (at t w s) = lstore s" "clock (at t w s) = clock s"
  by (simp_all add: at_def)

lemma lreachable_step: "lreachable s0 s \<Longrightarrow> lstep s s' \<Longrightarrow> lreachable s0 s'"
  unfolding lreachable_def by (rule rtranclp.rtrancl_into_rtrancl)

lemma lreachable_refl: "lreachable s s"
  by (simp add: lreachable_def)

subsection \<open>A broken storage\<close>

text \<open>Inside the acquisition loop, or not in the fallback at all: the lease is not held, nothing is requested
  and nothing was returned.\<close>

definition searching :: "ltab \<Rightarrow> bool" where
  "searching w \<longleftrightarrow> (case w of LHeld _ \<Rightarrow> False | LRequesting \<Rightarrow> False | LDone _ \<Rightarrow> False | _ \<Rightarrow> True)"

definition broken :: "storage \<Rightarrow> bool" where
  "broken st \<longleftrightarrow> \<not> can_read st \<or> \<not> can_write st"

text \<open>What the loop of a tab carries in a broken storage: the result read at its start is still the one
  stored, and a lease is only ever written, to be read back, where nothing can be read.\<close>

definition in_loop :: "storage \<Rightarrow> ltab \<Rightarrow> bool" where
  "in_loop st w \<longleftrightarrow> (case w of LIdle \<Rightarrow> True | LTop b \<Rightarrow> b = readRotationResult st
     | LBlocked b \<Rightarrow> b = readRotationResult st | LSet b \<Rightarrow> b = readRotationResult st
     | LVerify b \<Rightarrow> b = readRotationResult st \<and> \<not> can_read st | LBackoff b \<Rightarrow> b = readRotationResult st
     | _ \<Rightarrow> False)"

definition stuck_inv :: "lstate \<Rightarrow> bool" where
  "stuck_inv s \<longleftrightarrow> broken (lstore s) \<and> (\<forall>t. in_loop (lstore s) (ltabs s t))"

lemma in_loop_simps [simp]:
  "in_loop st LIdle" "in_loop st (LTop b) \<longleftrightarrow> b = readRotationResult st"
  "in_loop st (LBlocked b) \<longleftrightarrow> b = readRotationResult st" "in_loop st (LSet b) \<longleftrightarrow> b = readRotationResult st"
  "in_loop st (LVerify b) \<longleftrightarrow> b = readRotationResult st \<and> \<not> can_read st"
  "in_loop st (LBackoff b) \<longleftrightarrow> b = readRotationResult st"
  "\<not> in_loop st (LHeld b)" "\<not> in_loop st LRequesting" "\<not> in_loop st (LDone r)"
  by (simp_all add: in_loop_def)

lemma in_loop_searching: "in_loop st w \<Longrightarrow> searching w"
  by (cases w) (simp_all add: searching_def)

lemma in_loop_set: "in_loop (setLease l st) w = in_loop st w"
  by (cases w) simp_all

lemma stuck_loop: "stuck_inv s \<Longrightarrow> in_loop (lstore s) (ltabs s t)"
  by (simp add: stuck_inv_def)

lemma stuck_at: "stuck_inv s \<Longrightarrow> in_loop (lstore s) w \<Longrightarrow> stuck_inv (at t w s)"
  by (simp add: stuck_inv_def)

lemma not_after_itself: "\<not> rotationCompletedAfter (readRotationResult st) st"
  by (simp add: rotationCompletedAfter_def split: option.splits)

lemma unread_not_owned: "\<not> can_read st \<Longrightarrow> \<not> owns_lease t st"
  by (simp add: owns_lease_def readLease_def)

lemma stuck_step: "lstep s s' \<Longrightarrow> stuck_inv s \<Longrightarrow> stuck_inv s'"
proof (induction rule: lstep.induct)
  case (l_start s t)
  then show ?case by (intro stuck_at) simp_all
next
  case (l_blocked s t b)
  then show ?case using stuck_loop [of s t] by (simp add: stuck_at)
next
  case (l_woken s t b)
  then show ?case using stuck_loop [of s t] by (simp add: stuck_at not_after_itself)
next
  case (l_free s t b)
  then show ?case using stuck_loop [of s t] by (simp add: stuck_at)
next
  case (l_set s t b)
  then have r: "\<not> can_read (lstore s)" by (simp add: stuck_inv_def broken_def)
  have "stuck_inv (s\<lparr>lstore := setLease (my_lease t s) (lstore s)\<rparr>)"
    using l_set by (simp add: stuck_inv_def broken_def in_loop_set)
  then show ?case using l_set r stuck_loop [of s t] by (intro stuck_at) simp_all
next
  case (l_set_throws s t b)
  then show ?case using stuck_loop [of s t] by (simp add: stuck_at)
next
  case (l_verify s t b)
  then show ?case using stuck_loop [of s t] by (simp add: stuck_at unread_not_owned)
next
  case (l_backoff s t b)
  then show ?case using stuck_loop [of s t] by (simp add: stuck_at)
next
  case (l_skip s t b)
  then show ?case using stuck_loop [of s t] by simp
next
  case (l_request s t b)
  then show ?case using stuck_loop [of s t] by simp
next
  case (l_heartbeat s t)
  then show ?case using stuck_loop [of s t] by simp
next
  case (l_settle s t ok)
  then show ?case using stuck_loop [of s t] by simp
next
  case (l_crash s t)
  then show ?case by (intro stuck_at) simp_all
next
  case (l_tick d s)
  then show ?case by (simp add: stuck_inv_def)
qed

lemma stuck_forever: "lreachable s0 s \<Longrightarrow> stuck_inv s0 \<Longrightarrow> stuck_inv s"
  unfolding lreachable_def by (induction rule: rtranclp_induct) (auto intro: stuck_step)

subsection \<open>Two tabs\<close>

definition fresh_storage :: storage where
  "fresh_storage = \<lparr>can_read = True, can_write = True, lease_item = None, result_item = None\<rparr>"

text \<open>One step of a named tab, for replaying a schedule.\<close>

definition both_requesting :: "string \<Rightarrow> string \<Rightarrow> lstate \<Rightarrow> bool" where
  "both_requesting t u s \<longleftrightarrow> ltabs s t = LRequesting \<and> ltabs s u = LRequesting"

definition race_schedule :: "string \<Rightarrow> string \<Rightarrow> int \<Rightarrow> lstate" where
  "race_schedule t u now = \<lparr>lstore = setLease \<lparr>owner = u, expiresAt = now + LEASE_MS\<rparr>
        (setLease \<lparr>owner = t, expiresAt = now + LEASE_MS\<rparr> fresh_storage),
     ltabs = (\<lambda>_. LIdle)(t := LRequesting, u := LRequesting), clock = now\<rparr>"

lemma free_in_fresh: "\<not> blocked_by_lease t now fresh_storage"
  by (simp add: blocked_by_lease_def readLease_def fresh_storage_def)

lemma no_result_fresh: "readRotationResult fresh_storage = None"
  by (simp add: readRotationResult_def fresh_storage_def)

lemma race_reached:
  assumes "t \<noteq> u"
  shows "lreachable (lstart fresh_storage now) (race_schedule t u now)"
proof -
  let ?s0 = "lstart fresh_storage now"
  let ?lt = "\<lparr>owner = t, expiresAt = now + LEASE_MS\<rparr>" and ?lu = "\<lparr>owner = u, expiresAt = now + LEASE_MS\<rparr>"
  let ?st = "setLease ?lt fresh_storage"
  define state where "state st tt tu = \<lparr>lstore = st, ltabs = (\<lambda>_. LIdle)(t := tt, u := tu), clock = now\<rparr>" for st tt tu
  have at_t: "at t w (state st tt tu) = state st w tu" and at_u: "at u w (state st tt tu) = state st tt w" for w st tt tu
    using assms by (auto simp: at_def state_def fun_eq_iff)
  have sel: "ltabs (state st tt tu) t = tt" "ltabs (state st tt tu) u = tu" "lstore (state st tt tu) = st"
    "clock (state st tt tu) = now" "(state st tt tu)\<lparr>lstore := st'\<rparr> = state st' tt tu" for st st' tt tu
    using assms by (simp_all add: state_def)
  have leases: "my_lease t (state st tt tu) = ?lt" "my_lease u (state st tt tu) = ?lu" for st tt tu
    by (simp_all add: my_lease_def sel)
  have rw: "can_read fresh_storage" "can_write fresh_storage" by (simp_all add: fresh_storage_def)
  have none: "readRotationResult ?st = None" "readRotationResult (setLease ?lu ?st) = None"
    by (simp_all add: no_result_fresh)
  have s0: "?s0 = state fresh_storage LIdle LIdle" by (simp add: lstart_def state_def fun_eq_iff)
  note reach = lreachable_step
  have "lreachable ?s0 (state fresh_storage (LTop None) LIdle)"
    using reach [OF lreachable_refl l_start [of ?s0 t]] by (simp add: s0 sel at_t no_result_fresh)
  from reach [OF this l_start [of _ u]]
  have "lreachable ?s0 (state fresh_storage (LTop None) (LTop None))"
    by (simp add: sel at_u no_result_fresh)
  from reach [OF this l_free [of _ t None]]
  have "lreachable ?s0 (state fresh_storage (LSet None) (LTop None))"
    by (simp add: sel at_t free_in_fresh)
  from reach [OF this l_free [of _ u None]]
  have "lreachable ?s0 (state fresh_storage (LSet None) (LSet None))"
    by (simp add: sel at_u free_in_fresh)
  from reach [OF this l_set [of _ t None]]
  have "lreachable ?s0 (state ?st (LVerify None) (LSet None))"
    by (simp add: sel at_t leases rw)
  from reach [OF this l_verify [of _ t None]]
  have "lreachable ?s0 (state ?st (LHeld None) (LSet None))"
    by (simp add: sel at_t rw owns_lease_def)
  from reach [OF this l_set [of _ u None]]
  have "lreachable ?s0 (state (setLease ?lu ?st) (LHeld None) (LVerify None))"
    by (simp add: sel at_u leases rw)
  from reach [OF this l_verify [of _ u None]]
  have "lreachable ?s0 (state (setLease ?lu ?st) (LHeld None) (LHeld None))"
    by (simp add: sel at_u rw owns_lease_def)
  from reach [OF this l_request [of _ t None]]
  have "lreachable ?s0 (state (setLease ?lu ?st) LRequesting (LHeld None))"
    by (simp add: sel at_t none no_result_fresh rotationCompletedAfter_def)
  from reach [OF this l_request [of _ u None]]
  have "lreachable ?s0 (state (setLease ?lu ?st) LRequesting LRequesting)"
    by (simp add: sel at_u none no_result_fresh rotationCompletedAfter_def)
  then show ?thesis by (simp add: race_schedule_def state_def)
qed

section \<open>Properties\<close>

text \<open>C4: With Web Locks and a local storage that can be read and written, whatever the interleaving of tabs, responses and crashed tabs, at most one
  tab requests a rotation at a time; and a tab that has been granted the lock sends its own
  request exactly unless a rotation was published since it began and the last one published
  succeeded.\<close>

theorem web_lock_rotation:
  assumes "wreachable res s"
  shows "(wtabs s t = WRequesting \<and> wtabs s u = WRequesting \<longrightarrow> t = u) \<and>
     (wtabs s t = WHolding b \<longrightarrow>
        (rotationCompletedAfter b (wstore s) \<longleftrightarrow> since s t \<noteq> [] \<and> last (since s t))) \<and>
     (wtabs s t = WRequesting \<longrightarrow> since s t = [] \<or> \<not> last (since s t))"
proof -
  have inv: "winv s" and asked: "wasked s" using wreachable_wasked [OF assms] by simp_all
  have "wtabs s t = WRequesting \<longrightarrow> since s t = [] \<or> \<not> last (since s t)"
    using asked by (simp add: wasked_def)
  then show ?thesis
    using winv_other [OF inv, of t u] winv_tracks [OF inv, of t b] tracks_completed by fastforce
qed

lemma web_lock_rotation_witness:
  "\<exists>s. wreachable None s \<and> wtabs s ''a'' = WHolding None \<and> \<not> rotationCompletedAfter None (wstore s)"
proof -
  let ?s1 = "(wstart None)\<lparr>wtabs := (wtabs (wstart None))(''a'' := WWaiting None), since := (since (wstart None))(''a'' := [])\<rparr>"
  let ?s2 = "?s1\<lparr>wtabs := (wtabs ?s1)(''a'' := WHolding None), wlock := Some ''a''\<rparr>"
  have "wstep (wstart None) ?s1"
    using w_start [of "wstart None" "''a''"] by (simp add: wstart_def readRotationResult_def)
  moreover have "wstep ?s1 ?s2" by (rule w_grant) (simp_all add: wstart_def)
  ultimately have "wreachable None ?s2"
    unfolding wreachable_def by (meson rtranclp.rtrancl_into_rtrancl rtranclp.rtrancl_refl)
  moreover have "wtabs ?s2 ''a'' = WHolding None" "since ?s2 ''a'' = []" by simp_all
  ultimately show ?thesis
    using web_lock_rotation [of None ?s2 "''a''" "''a''" None] by blast
qed

text \<open>C23: The lease fallback does not exclude a second tab: from an empty, working storage, two tabs
  that both read it before either writes can both verify their own lease in turn and both
  request a rotation, with no lease expiring.\<close>

theorem lease_two_tabs_request:
  "\<exists>s. lreachable (lstart fresh_storage now) s \<and> both_requesting ''a'' ''b'' s \<and> clock s = now"
proof -
  have "lreachable (lstart fresh_storage now) (race_schedule ''a'' ''b'' now)" by (rule race_reached) simp
  moreover have "both_requesting ''a'' ''b'' (race_schedule ''a'' ''b'' now)" "clock (race_schedule ''a'' ''b'' now) = now"
    by (simp_all add: both_requesting_def race_schedule_def)
  ultimately show ?thesis by blast
qed

text \<open>C24: Where storage cannot be read, or can be read but not written, the lease fallback never sends
  a refresh and never returns: whatever is stored there at the start (nothing, a lease of this or of
  another tab, live or expired, an earlier result) and however long it runs, no tab ever holds the lease,
  requests or returns; each stays in the acquisition loop.\<close>

theorem lease_path_starves:
  assumes "\<not> can_read st \<or> \<not> can_write st" "lreachable (lstart st now) s"
  shows "ltabs s t \<noteq> LRequesting \<and> ltabs s t \<noteq> LDone r \<and> searching (ltabs s t)"
proof -
  have "stuck_inv (lstart st now)" using assms(1) by (simp add: stuck_inv_def lstart_def broken_def)
  from stuck_forever [OF assms(2) this] have "searching (ltabs s t)" by (rule in_loop_searching [OF stuck_loop])
  then show ?thesis by (auto simp: searching_def)
qed

text \<open>Another tab's live lease in a storage that has become read-only: the tab waits for it.\<close>

lemma lease_path_starves_witness:
  "let st = setLease \<lparr>owner = ''b'', expiresAt = 9\<rparr> (fresh_storage\<lparr>can_write := False\<rparr>);
       s = at ''a'' (LBlocked None) (at ''a'' (LTop None) (lstart st 0))
   in lreachable (lstart st 0) s \<and> searching (ltabs s ''a'')"
proof -
  let ?st = "setLease \<lparr>owner = ''b'', expiresAt = 9\<rparr> (fresh_storage\<lparr>can_write := False\<rparr>)"
  let ?s = "at ''a'' (LBlocked None) (at ''a'' (LTop None) (lstart ?st 0))"
  have res: "readRotationResult ?st = None" by (simp add: readRotationResult_def setLease_def fresh_storage_def)
  have "lreachable (lstart ?st 0) (at ''a'' (LTop (readRotationResult ?st)) (lstart ?st 0))"
    using lreachable_step [OF lreachable_refl l_start [of "lstart ?st 0" "''a''"]] by (simp add: lstart_def)
  then have "lreachable (lstart ?st 0) ?s" unfolding res
    by (rule lreachable_step) (rule l_blocked, simp_all add: lstart_def blocked_by_lease_def fresh_storage_def)
  moreover from this have "searching (ltabs ?s ''a'')" by (intro lease_path_starves [THEN conjunct2, THEN conjunct2]) simp_all
  ultimately show ?thesis by (simp only: Let_def simp_thms)
qed

end
