(* ===== verification/Mutations.thy ===== *)
theory Mutations
  imports SessionEvents
begin

text \<open>
  The mutations of the policy, permission and user pages: the request each one issues, the
  message a failure is turned into (\<open>api/apiError.ts\<close>), and what success does to the query
  cache and the session guards (\<open>policies/queries/*Mutations.ts\<close>,
  \<open>users/queries/userMutations.ts\<close>). Bulk operations are cut into chunks
  (\<open>bulkAssignmentMutations.ts\<close>).
\<close>

section \<open>apiError.ts\<close>

text \<open>The translation library: which keys exist, and the text of a key with parameters.\<close>

record translator =
  tr_exists :: "string \<Rightarrow> bool"
  tr_text :: "string \<Rightarrow> fields \<Rightarrow> string"

definition translateErrorCode :: "translator \<Rightarrow> json \<Rightarrow> fields \<Rightarrow> string option" where
  "translateErrorCode tr code params =
     (case code of
        JStr c \<Rightarrow> (let translationKey = ''errors:'' @ c in
                  if tr_exists tr translationKey then Some (tr_text tr translationKey params) else None)
      | _ \<Rightarrow> None)"

definition isForbiddenError :: "api_error \<Rightarrow> bool" where
  "isForbiddenError e \<longleftrightarrow> error_status e = Some 403"

definition extractApiErrorMessage :: "translator \<Rightarrow> api_error \<Rightarrow> string \<Rightarrow> string" where
  "extractApiErrorMessage tr e fallback =
     (case e of
        HttpError (Some (_, body)) \<Rightarrow>
          (let translated = translateErrorCode tr (eb_code body) (eb_params body) in
           if truthy translated then the translated
           else (case eb_detail body of JStr m \<Rightarrow> if m \<noteq> [] then m else fallback | _ \<Rightarrow> fallback))
      | _ \<Rightarrow> fallback)"

lemma extract_nonempty: "fallback \<noteq> [] \<Longrightarrow> extractApiErrorMessage tr e fallback \<noteq> []"
  by (auto simp: extractApiErrorMessage_def Let_def truthy_def split: api_error.splits option.splits json.splits)

section \<open>Mutations\<close>

record 'd mutation =
  m_request :: request
  m_fallback :: string
  m_success :: "'d \<Rightarrow> app \<Rightarrow> app"
  m_settled :: "app \<Rightarrow> app"

definition nothing :: "'d \<Rightarrow> app \<Rightarrow> app" where
  "nothing d s = s"

definition mutation_of :: "request \<Rightarrow> string \<Rightarrow> ('d \<Rightarrow> app \<Rightarrow> app) \<Rightarrow> 'd mutation" where
  "mutation_of r fb f = \<lparr>m_request = r, m_fallback = fb, m_success = f, m_settled = (\<lambda>s. s)\<rparr>"

text \<open>Run on the server's answer: the thrown message or the data, and the state left behind.\<close>

definition run_mutation ::
  "translator \<Rightarrow> 'd mutation \<Rightarrow> 'd outcome \<Rightarrow> app \<Rightarrow> (string + 'd) \<times> app" where
  "run_mutation tr m answer s = (case answer of
       Fulfilled d \<Rightarrow> (Inr d, m_settled m (m_success m d s))
     | Rejected e \<Rightarrow> (Inl (extractApiErrorMessage tr e (m_fallback m)), m_settled m s))"

definition invalidate :: "query_key list \<Rightarrow> app \<Rightarrow> app" where
  "invalidate ks = query_calls (map Invalidate ks)"

lemma invalidate_simps [simp]:
  "auth (invalidate ks s) = auth s" "toasts (invalidate ks s) = toasts s"
  "qlog (invalidate ks s) = qlog s @ map Invalidate ks" "lastSelfMutationAt (invalidate ks s) = lastSelfMutationAt s"
  by (simp_all add: invalidate_def)

subsection \<open>policyMutations.ts\<close>

definition policies_changed :: "'d \<Rightarrow> app \<Rightarrow> app" where
  "policies_changed d = invalidate [PERMISSION_CATALOG_USAGE_QUERY_KEY, POLICIES_QUERY_KEY]"

definition useCreatePolicyMutation :: "policy_create \<Rightarrow> policy mutation" where
  "useCreatePolicyMutation payload =
     mutation_of (createPolicyApi payload) ''Failed to create policy'' policies_changed"

definition useUpdatePolicyMutation :: "string \<Rightarrow> policy_update \<Rightarrow> policy mutation" where
  "useUpdatePolicyMutation policyName payload =
     mutation_of (updatePolicyApi policyName payload) ''Failed to update policy'' policies_changed"

definition useDeletePolicyMutation :: "string \<Rightarrow> string option \<Rightarrow> unit mutation" where
  "useDeletePolicyMutation policyName reason =
     mutation_of (deletePolicyApi policyName reason) ''Failed to delete policy'' policies_changed"

definition useRollbackPolicyMutation :: "string \<Rightarrow> int \<Rightarrow> string option \<Rightarrow> policy mutation" where
  "useRollbackPolicyMutation policyName historyId reason =
     mutation_of (rollbackPolicyApi policyName historyId reason) ''Failed to roll back policy''
       (\<lambda>_. invalidate [PERMISSION_CATALOG_USAGE_QUERY_KEY, POLICIES_QUERY_KEY,
              [KStr ''policies'', KStr policyName, KStr ''history'']])"

text \<open>The shared tail: \<open>if (userEmail === useAuthStore.getState().email) ...\<close>\<close>

definition self_changed :: "int \<Rightarrow> string \<Rightarrow> app \<Rightarrow> app" where
  "self_changed now userEmail s =
     (if a_email (auth s) = Some userEmail
      then markSelfPermissionMutation now (invalidate [CURRENT_USER_QUERY_KEY] s) else s)"

definition useAssignPolicyMutation :: "int \<Rightarrow> string \<Rightarrow> string \<Rightarrow> unit mutation" where
  "useAssignPolicyMutation now userEmail policyName =
     mutation_of (assignPolicyApi userEmail policyName) ''Failed to assign policy''
       (\<lambda>_ s. self_changed now userEmail
          (invalidate [PERMISSION_CATALOG_USAGE_QUERY_KEY, userPoliciesQueryKey userEmail, MY_POLICIES_QUERY_KEY] s))"

definition useRevokePolicyMutation :: "int \<Rightarrow> string \<Rightarrow> string \<Rightarrow> unit mutation" where
  "useRevokePolicyMutation now userEmail policyName =
     mutation_of (revokePolicyApi userEmail policyName) ''Failed to revoke policy''
       (\<lambda>_ s. self_changed now userEmail
          (invalidate [PERMISSION_CATALOG_USAGE_QUERY_KEY, userPoliciesQueryKey userEmail, MY_POLICIES_QUERY_KEY] s))"

definition useRevokePolicyActionMutation :: "int \<Rightarrow> string \<Rightarrow> string \<Rightarrow> string \<Rightarrow> unit mutation" where
  "useRevokePolicyActionMutation now userEmail policyName action =
     mutation_of (revokePolicyActionApi userEmail policyName action) ''Failed to revoke action''
       (\<lambda>_ s. self_changed now userEmail
          (invalidate [PERMISSION_CATALOG_USAGE_QUERY_KEY, userPoliciesQueryKey userEmail, MY_POLICIES_QUERY_KEY,
             userPermissionsQueryKey userEmail, MY_PERMISSIONS_QUERY_KEY] s))"

subsection \<open>permissionMutations.ts\<close>

definition useGrantPermissionMutation :: "int \<Rightarrow> string \<Rightarrow> permission_assignment \<Rightarrow> unit mutation" where
  "useGrantPermissionMutation now userEmail payload =
     mutation_of (grantPermissionApi userEmail payload) ''Failed to grant permission''
       (\<lambda>_ s. self_changed now userEmail
          (invalidate [PERMISSION_CATALOG_USAGE_QUERY_KEY, userPermissionsQueryKey userEmail, MY_PERMISSIONS_QUERY_KEY] s))"

definition useRevokePermissionMutation :: "int \<Rightarrow> string \<Rightarrow> string \<Rightarrow> string \<Rightarrow> unit mutation" where
  "useRevokePermissionMutation now userEmail action resourceType =
     mutation_of (revokePermissionApi userEmail action resourceType) ''Failed to revoke permission''
       (\<lambda>_ s. self_changed now userEmail
          (invalidate [PERMISSION_CATALOG_USAGE_QUERY_KEY, userPermissionsQueryKey userEmail, MY_PERMISSIONS_QUERY_KEY] s))"

subsection \<open>userMutations.ts\<close>

definition users_changed :: "'d \<Rightarrow> app \<Rightarrow> app" where
  "users_changed d = invalidate [USERS_QUERY_KEY]"

definition useDeleteUserMutation :: "string \<Rightarrow> unit mutation" where
  "useDeleteUserMutation userEmail = mutation_of (deleteUserApi userEmail) ''Failed to delete user'' users_changed"

definition usePurgeUserMutation :: "string \<Rightarrow> unit mutation" where
  "usePurgeUserMutation userEmail =
     mutation_of (purgeUserApi userEmail) ''Failed to permanently remove user'' users_changed"

definition useReactivateUserMutation :: "string \<Rightarrow> managed_user mutation" where
  "useReactivateUserMutation userEmail =
     mutation_of (reactivateUserApi userEmail) ''Failed to reactivate user'' users_changed"

definition useUpdateUserRoleMutation :: "string \<Rightarrow> string \<Rightarrow> unit mutation" where
  "useUpdateUserRoleMutation userEmail role =
     mutation_of (updateUserRoleApi userEmail role) ''Failed to update role'' users_changed"

text \<open>\<open>match(/filename="([^"]+)"/)\<close>: the first place where the quoted name is not empty and closed.\<close>

definition quoted_name_at :: "string \<Rightarrow> string option" where
  "quoted_name_at s =
     (if starts_with s ''filename=\"''
      then (let rest = drop 10 s; w = takeWhile (\<lambda>c. c \<noteq> CHR ''\"'') rest
            in if w \<noteq> [] \<and> length w < length rest then Some w else None)
      else None)"

fun match_filename :: "string \<Rightarrow> string option" where
  "match_filename [] = None"
| "match_filename (c # cs) =
     (case quoted_name_at (c # cs) of Some w \<Rightarrow> Some w | None \<Rightarrow> match_filename cs)"

definition filenameFromContentDisposition :: "string option \<Rightarrow> string" where
  "filenameFromContentDisposition h =
     nullish (case h of None \<Rightarrow> None | Some s \<Rightarrow> match_filename s) ''users_export.csv''"

text \<open>The export offers the file under that name; the link it clicks is removed again.\<close>

definition useExportUsersMutation :: "list_users_params \<Rightarrow> string mutation" where
  "useExportUsersMutation params = mutation_of (exportUsersApi params) ''Failed to export users'' nothing"

lemma filename_no_quote: "CHR ''\"'' \<notin> set (filenameFromContentDisposition h)"
proof -
  have q: "quoted_name_at s = Some w \<Longrightarrow> CHR ''\"'' \<notin> set w" for s w
    by (auto simp: quoted_name_at_def Let_def dest: set_takeWhileD split: if_splits)
  have "match_filename s = Some w \<Longrightarrow> CHR ''\"'' \<notin> set w" for s w
    by (induction s) (auto dest: q split: option.splits)
  then show ?thesis
    by (auto simp: filenameFromContentDisposition_def nullish_def split: option.splits)
qed

section \<open>Bulk operations\<close>

definition distinctEmails :: "bulk_response \<Rightarrow> string list" where
  "distinctEmails data = js_set (map bi_user_email (br_results data))"

definition invalidateSelfIfIncluded :: "int \<Rightarrow> string list \<Rightarrow> bool \<Rightarrow> app \<Rightarrow> app" where
  "invalidateSelfIfIncluded now emails marksPermissionChange s =
     (if nullish (a_email (auth s)) '''' \<notin> set emails then s
      else (let s1 = invalidate [CURRENT_USER_QUERY_KEY] s in
            if marksPermissionChange then markSelfPermissionMutation now s1 else s1))"

definition BULK_REQUEST_CHUNK_SIZE :: nat where
  "BULK_REQUEST_CHUNK_SIZE = 200"

text \<open>\<open>for (let i = 0; i < items.length; i += sz)\<close>; it is only called with a positive sz.\<close>

function chunk_from :: "nat \<Rightarrow> nat \<Rightarrow> 'a list \<Rightarrow> 'a list list" where
  "chunk_from i sz items =
     (if sz = 0 \<or> length items \<le> i then [] else slice i (i + sz) items # chunk_from (i + sz) sz items)"
  by pat_completeness auto
termination by (relation "measure (\<lambda>(i, sz, items). length items - i)") auto

declare chunk_from.simps [simp del]

definition chunk :: "'a list \<Rightarrow> nat \<Rightarrow> 'a list list" where
  "chunk items sz = chunk_from 0 sz items"

definition no_bulk :: bulk_response where
  "no_bulk = \<lparr>br_results = [], br_success_count = 0, br_error_count = 0\<rparr>"

definition merge_bulk :: "bulk_response \<Rightarrow> bulk_response \<Rightarrow> bulk_response" where
  "merge_bulk m d = \<lparr>br_results = br_results m @ br_results d,
     br_success_count = br_success_count m + br_success_count d,
     br_error_count = br_error_count m + br_error_count d\<rparr>"

text \<open>The server's answers are consumed in order; with none left the network is unreachable. The
  requests sent are logged.\<close>

record bulk_net =
  answers :: "bulk_response outcome list"
  requests :: "request list"

definition bulk_call :: "request \<Rightarrow> bulk_net \<Rightarrow> bulk_response outcome \<times> bulk_net" where
  "bulk_call r n = (case answers n of
       [] \<Rightarrow> (Rejected (HttpError None), n\<lparr>requests := requests n @ [r]\<rparr>)
     | a # as \<Rightarrow> (a, n\<lparr>answers := as, requests := requests n @ [r]\<rparr>))"

fun run_calls_merged :: "request list \<Rightarrow> bulk_response \<Rightarrow> bulk_net \<Rightarrow> bulk_response outcome \<times> bulk_net" where
  "run_calls_merged [] merged n = (Fulfilled merged, n)"
| "run_calls_merged (r # rs) merged n =
     (case bulk_call r n of
        (Fulfilled d, n') \<Rightarrow> run_calls_merged rs (merge_bulk merged d) n'
      | (Rejected e, n') \<Rightarrow> (Rejected e, n'))"

definition runChunkedBulk ::
  "string list \<Rightarrow> (string list \<Rightarrow> request) \<Rightarrow> bulk_net \<Rightarrow> bulk_response outcome \<times> bulk_net" where
  "runChunkedBulk userEmails call n =
     run_calls_merged (map call (chunk userEmails BULK_REQUEST_CHUNK_SIZE)) no_bulk n"

text \<open>The outer loop over several policies or actions, merging each one's result.\<close>

fun run_targets ::
  "string list \<Rightarrow> (string list \<Rightarrow> request) list \<Rightarrow> bulk_response \<Rightarrow> bulk_net \<Rightarrow> bulk_response outcome \<times> bulk_net" where
  "run_targets userEmails [] merged n = (Fulfilled merged, n)"
| "run_targets userEmails (call # calls) merged n =
     (case runChunkedBulk userEmails call n of
        (Fulfilled d, n') \<Rightarrow> run_targets userEmails calls (merge_bulk merged d) n'
      | (Rejected e, n') \<Rightarrow> (Rejected e, n'))"

text \<open>\<open>names ?? (policyName ? [policyName] : [])\<close>, and the same for actions.\<close>

definition selected_policies :: "string option \<Rightarrow> string list option \<Rightarrow> string list" where
  "selected_policies policyName names =
     nullish names (if truthy policyName then [the policyName] else [])"

definition selected_actions ::
  "string option \<Rightarrow> string option \<Rightarrow> (string \<times> string) list option \<Rightarrow> (string \<times> string) list" where
  "selected_actions action resourceType actions =
     nullish actions (if truthy action \<and> truthy resourceType then [(the action, the resourceType)] else [])"

definition bulk_success :: "int \<Rightarrow> (string \<Rightarrow> query_key) \<Rightarrow> query_key \<Rightarrow> bulk_response \<Rightarrow> app \<Rightarrow> app" where
  "bulk_success now user_key my_key data s =
     (let emails = distinctEmails data in
      invalidateSelfIfIncluded now emails True
        (invalidate ([PERMISSION_CATALOG_USAGE_QUERY_KEY] @ map user_key emails @ [my_key]) s))"

text \<open>A finished bulk run: the error message, or the merged response and the updated state.\<close>

definition finish_bulk ::
  "translator \<Rightarrow> string \<Rightarrow> (bulk_response \<Rightarrow> app \<Rightarrow> app) \<Rightarrow> bulk_response outcome \<Rightarrow> app
     \<Rightarrow> (string + bulk_response) \<times> app" where
  "finish_bulk tr fallback on_success r s = (case r of
       Fulfilled d \<Rightarrow> (Inr d, on_success d s)
     | Rejected e \<Rightarrow> (Inl (extractApiErrorMessage tr e fallback), s))"

definition useBulkAssignPoliciesMutation ::
  "translator \<Rightarrow> int \<Rightarrow> string list \<Rightarrow> string option \<Rightarrow> string list option \<Rightarrow> bulk_net \<Rightarrow> app
     \<Rightarrow> ((string + bulk_response) \<times> app) \<times> bulk_net" where
  "useBulkAssignPoliciesMutation tr now userEmails policyName names n s =
     (let (r, n') = run_targets userEmails
            (map (\<lambda>name emails. bulkAssignPoliciesApi emails name) (selected_policies policyName names)) no_bulk n
      in (finish_bulk tr ''Failed to bulk-assign policy'' (bulk_success now userPoliciesQueryKey MY_POLICIES_QUERY_KEY) r s, n'))"

definition useBulkRemovePoliciesMutation ::
  "translator \<Rightarrow> int \<Rightarrow> string list \<Rightarrow> string option \<Rightarrow> string list option \<Rightarrow> bulk_net \<Rightarrow> app
     \<Rightarrow> ((string + bulk_response) \<times> app) \<times> bulk_net" where
  "useBulkRemovePoliciesMutation tr now userEmails policyName names n s =
     (let (r, n') = run_targets userEmails
            (map (\<lambda>name emails. bulkRemovePoliciesApi emails name) (selected_policies policyName names)) no_bulk n
      in (finish_bulk tr ''Failed to bulk-remove policy'' (bulk_success now userPoliciesQueryKey MY_POLICIES_QUERY_KEY) r s, n'))"

definition useBulkAssignPermissionsMutation ::
  "translator \<Rightarrow> int \<Rightarrow> string list \<Rightarrow> string option \<Rightarrow> (string \<times> string) list option \<Rightarrow> string option
     \<Rightarrow> fields option \<Rightarrow> bulk_net \<Rightarrow> app \<Rightarrow> ((string + bulk_response) \<times> app) \<times> bulk_net" where
  "useBulkAssignPermissionsMutation tr now userEmails action actions resourceType conditions n s =
     (let (r, n') = run_targets userEmails
            (map (\<lambda>(a, rt) emails. bulkAssignPermissionsApi emails a rt conditions)
               (selected_actions action resourceType actions)) no_bulk n
      in (finish_bulk tr ''Failed to bulk-grant permission''
            (bulk_success now userPermissionsQueryKey MY_PERMISSIONS_QUERY_KEY) r s, n'))"

definition useBulkRemovePermissionsMutation ::
  "translator \<Rightarrow> int \<Rightarrow> string list \<Rightarrow> string option \<Rightarrow> (string \<times> string) list option \<Rightarrow> string option
     \<Rightarrow> bulk_net \<Rightarrow> app \<Rightarrow> ((string + bulk_response) \<times> app) \<times> bulk_net" where
  "useBulkRemovePermissionsMutation tr now userEmails action actions resourceType n s =
     (let (r, n') = run_targets userEmails
            (map (\<lambda>(a, rt) emails. bulkRemovePermissionsApi emails a rt) (selected_actions action resourceType actions)) no_bulk n
      in (finish_bulk tr ''Failed to bulk-revoke permission''
            (bulk_success now userPermissionsQueryKey MY_PERMISSIONS_QUERY_KEY) r s, n'))"

definition useBulkUpdateRoleMutation ::
  "translator \<Rightarrow> int \<Rightarrow> string list \<Rightarrow> string \<Rightarrow> bulk_net \<Rightarrow> app
     \<Rightarrow> ((string + bulk_response) \<times> app) \<times> bulk_net" where
  "useBulkUpdateRoleMutation tr now userEmails role n s =
     (let (r, n') = runChunkedBulk userEmails (\<lambda>emails. bulkUpdateRoleApi emails role) n
      in (finish_bulk tr ''Failed to bulk-update role''
            (\<lambda>d s. invalidateSelfIfIncluded now (distinctEmails d) False (invalidate [USERS_QUERY_KEY] s)) r s, n'))"

section \<open>Chunks\<close>

lemma chunk_from_concat: "0 < sz \<Longrightarrow> concat (chunk_from i sz items) = drop i items"
proof (induction i sz items rule: chunk_from.induct)
  case (1 i sz items)
  show ?case
  proof (cases "length items \<le> i")
    case True
    then show ?thesis by (subst chunk_from.simps) simp
  next
    case False
    with 1 have "concat (chunk_from (i + sz) sz items) = drop (i + sz) items" by simp
    then have "concat (chunk_from i sz items) = slice i (i + sz) items @ drop (i + sz) items"
      using False 1 by (subst chunk_from.simps) simp
    also have "\<dots> = drop i items"
      by (simp add: slice_def) (metis add.commute append_take_drop_id drop_drop)
    finally show ?thesis .
  qed
qed

lemma chunk_from_bounds: "c \<in> set (chunk_from i sz items) \<Longrightarrow> c \<noteq> [] \<and> length c \<le> sz"
proof (induction i sz items rule: chunk_from.induct)
  case (1 i sz items)
  show ?case
  proof (cases "sz = 0 \<or> length items \<le> i")
    case True
    with 1 show ?thesis by (subst (asm) chunk_from.simps) simp
  next
    case False
    then have "slice i (i + sz) items \<noteq> [] \<and> length (slice i (i + sz) items) \<le> sz" by (auto simp: slice_def)
    with 1 False show ?thesis by (subst (asm) (2) chunk_from.simps) auto
  qed
qed

lemma chunk_concat: "0 < sz \<Longrightarrow> concat (chunk items sz) = items"
  by (simp add: chunk_def chunk_from_concat)

lemma chunk_bounds: "c \<in> set (chunk items sz) \<Longrightarrow> c \<noteq> [] \<and> length c \<le> sz"
  unfolding chunk_def by (rule chunk_from_bounds)

section \<open>Runs of requests\<close>

definition sum_bulk :: "bulk_response list \<Rightarrow> bulk_response" where
  "sum_bulk ds = foldl merge_bulk no_bulk ds"

lemma merge_bulk_assoc: "merge_bulk (merge_bulk a b) c = merge_bulk a (merge_bulk b c)"
  by (simp add: merge_bulk_def)

lemma merge_no_bulk [simp]: "merge_bulk no_bulk d = d" "merge_bulk d no_bulk = d"
  by (simp_all add: merge_bulk_def no_bulk_def)

lemma foldl_merge: "foldl merge_bulk m ds = merge_bulk m (sum_bulk ds)"
proof (induction ds arbitrary: m)
  case Nil
  then show ?case by (simp add: sum_bulk_def)
next
  case (Cons d ds)
  have "sum_bulk (d # ds) = foldl merge_bulk d ds" by (simp add: sum_bulk_def)
  also have "\<dots> = merge_bulk d (sum_bulk ds)" by (rule Cons)
  finally show ?case using Cons [of "merge_bulk m d"] by (simp only: foldl_Cons merge_bulk_assoc)
qed

lemma sum_bulk_Cons [simp]: "sum_bulk (d # ds) = merge_bulk d (sum_bulk ds)"
  using foldl_merge [of d ds] by (simp add: sum_bulk_def)

lemma sum_bulk_Nil [simp]: "sum_bulk [] = no_bulk"
  by (simp add: sum_bulk_def)

lemma sum_bulk_append: "sum_bulk (xs @ ys) = merge_bulk (sum_bulk xs) (sum_bulk ys)"
  by (induction xs) (simp_all add: merge_bulk_assoc)

text \<open>All answers good: every request is sent, in order, and the results are merged in order.\<close>

lemma run_calls_ok:
  "length ds = length rs \<Longrightarrow> answers n = map Fulfilled ds @ rest \<Longrightarrow>
     run_calls_merged rs m n = (Fulfilled (merge_bulk m (sum_bulk ds)),
        n\<lparr>answers := rest, requests := requests n @ rs\<rparr>)"
proof (induction rs arbitrary: ds m n)
  case Nil
  then show ?case by simp
next
  case (Cons r rs)
  then obtain d ds' where "ds = d # ds'" by (cases ds) auto
  with Cons.prems Cons.IH [of ds' "n\<lparr>answers := map Fulfilled ds' @ rest, requests := requests n @ [r]\<rparr>" "merge_bulk m d"]
  show ?case by (simp add: bulk_call_def merge_bulk_assoc)
qed

text \<open>The first bad answer stops the run: the requests after it are not sent.\<close>

lemma run_calls_fail:
  "length ds < length rs \<Longrightarrow> answers n = map Fulfilled ds @ Rejected e # rest \<Longrightarrow>
     run_calls_merged rs m n = (Rejected e,
        n\<lparr>answers := rest, requests := requests n @ take (Suc (length ds)) rs\<rparr>)"
proof (induction rs arbitrary: ds m n)
  case Nil
  then show ?case by simp
next
  case (Cons r rs)
  show ?case
  proof (cases ds)
    case Nil
    with Cons.prems show ?thesis by (simp add: bulk_call_def)
  next
    case (Cons d ds')
    with Cons.prems Cons.IH [of ds' "n\<lparr>answers := map Fulfilled ds' @ Rejected e # rest, requests := requests n @ [r]\<rparr>" "merge_bulk m d"]
    show ?thesis by (simp add: bulk_call_def)
  qed
qed

lemma sum_bulk_results: "br_results (sum_bulk ds) = concat (map br_results ds)"
  by (induction ds) (simp_all add: merge_bulk_def no_bulk_def)

lemma sum_bulk_counts:
  "br_success_count (sum_bulk ds) = sum_list (map br_success_count ds)"
  "br_error_count (sum_bulk ds) = sum_list (map br_error_count ds)"
  by (induction ds) (simp_all add: merge_bulk_def no_bulk_def)

text \<open>The items of a bulk request.\<close>

fun request_items :: "json option \<Rightarrow> json list" where
  "request_items (Some (JObj [(k, JArr items)])) = items"
| "request_items b = []"

definition item_email :: "json \<Rightarrow> string option" where
  "item_email j = (case j of JObj fs \<Rightarrow> (case map_of fs ''user_email'' of Some (JStr e) \<Rightarrow> Some e | _ \<Rightarrow> None) | _ \<Rightarrow> None)"

definition bulk_emails :: "request \<Rightarrow> string list" where
  "bulk_emails r = map (\<lambda>j. the (item_email j)) (request_items (r_body r))"

lemma bulk_req_emails [simp]: "bulk_emails (bulk_req segs item es) = es"
  by (simp add: bulk_emails_def bulk_req_def post_req_def item_email_def comp_def)

section \<open>Mutations of one user's grants\<close>

text \<open>What the mutations that change one user's grants have in common.\<close>

locale grant_mutation =
  fixes mut :: "int \<Rightarrow> string \<Rightarrow> 'd mutation" and keys :: "string \<Rightarrow> query_key list"
  assumes on_success: "m_success (mut now e) d s = self_changed now e (invalidate (keys e) s)"
    and on_settled: "m_settled (mut now e) s = s"
    and counts_usage: "PERMISSION_CATALOG_USAGE_QUERY_KEY \<in> set (keys e)"
begin

lemma failure_changes_nothing: "snd (run_mutation tr (mut now e) (Rejected err) s) = s"
  by (simp add: run_mutation_def on_settled)

lemma success_state:
  "snd (run_mutation tr (mut now e) (Fulfilled d) s) = self_changed now e (invalidate (keys e) s)"
  by (simp add: run_mutation_def on_success on_settled)

lemma success_invalidates:
  "set (map Invalidate (keys e)) \<subseteq> set (qlog (snd (run_mutation tr (mut now e) (Fulfilled d) s)))"
  by (auto simp: success_state self_changed_def markSelfPermissionMutation_def)

lemma arms_guard_iff_own:
  "lastSelfMutationAt (snd (run_mutation tr (mut now e) (Fulfilled d) s)) =
     (if a_email (auth s) = Some e then Some now else lastSelfMutationAt s)"
  by (simp add: success_state self_changed_def markSelfPermissionMutation_def)

lemma keeps_store: "auth (snd (run_mutation tr (mut now e) (Fulfilled d) s)) = auth s"
  by (simp add: success_state self_changed_def markSelfPermissionMutation_def)

lemma usage_refreshed:
  "Invalidate PERMISSION_CATALOG_USAGE_QUERY_KEY \<in> set (qlog (snd (run_mutation tr (mut now e) (Fulfilled d) s)))"
  using success_invalidates [of e tr now d s] counts_usage [of e] by auto

end

interpretation assign_policy: grant_mutation "\<lambda>now e. useAssignPolicyMutation now e p"
    "\<lambda>e. [PERMISSION_CATALOG_USAGE_QUERY_KEY, userPoliciesQueryKey e, MY_POLICIES_QUERY_KEY]" for p
  by unfold_locales (simp_all add: useAssignPolicyMutation_def mutation_of_def)

interpretation revoke_policy: grant_mutation "\<lambda>now e. useRevokePolicyMutation now e p"
    "\<lambda>e. [PERMISSION_CATALOG_USAGE_QUERY_KEY, userPoliciesQueryKey e, MY_POLICIES_QUERY_KEY]" for p
  by unfold_locales (simp_all add: useRevokePolicyMutation_def mutation_of_def)

interpretation revoke_action: grant_mutation "\<lambda>now e. useRevokePolicyActionMutation now e p a"
    "\<lambda>e. [PERMISSION_CATALOG_USAGE_QUERY_KEY, userPoliciesQueryKey e, MY_POLICIES_QUERY_KEY,
       userPermissionsQueryKey e, MY_PERMISSIONS_QUERY_KEY]" for p a
  by unfold_locales (simp_all add: useRevokePolicyActionMutation_def mutation_of_def)

interpretation grant_permission: grant_mutation "\<lambda>now e. useGrantPermissionMutation now e pl"
    "\<lambda>e. [PERMISSION_CATALOG_USAGE_QUERY_KEY, userPermissionsQueryKey e, MY_PERMISSIONS_QUERY_KEY]" for pl
  by unfold_locales (simp_all add: useGrantPermissionMutation_def mutation_of_def)

interpretation revoke_permission: grant_mutation "\<lambda>now e. useRevokePermissionMutation now e a r"
    "\<lambda>e. [PERMISSION_CATALOG_USAGE_QUERY_KEY, userPermissionsQueryKey e, MY_PERMISSIONS_QUERY_KEY]" for a r
  by unfold_locales (simp_all add: useRevokePermissionMutation_def mutation_of_def)

section \<open>Properties\<close>

text \<open>C18: A bulk role change over any number of users sends consecutive requests of at most 200 users
  each, none empty, that together name exactly the given users in the given order; when every
  answer arrives, the merged response holds every item's result in order and the summed
  counts.\<close>

theorem bulk_chunks_cover:
  assumes "length ds = length (chunk userEmails BULK_REQUEST_CHUNK_SIZE)" "answers n = map Fulfilled ds"
  shows "let (r, n') = runChunkedBulk userEmails (\<lambda>es. bulkUpdateRoleApi es role) n;
             new = drop (length (requests n)) (requests n')
         in concat (map bulk_emails new) = userEmails \<and>
            list_all (\<lambda>q. bulk_emails q \<noteq> [] \<and> length (bulk_emails q) \<le> 200) new \<and>
            r = Fulfilled \<lparr>br_results = concat (map br_results ds),
                  br_success_count = sum_list (map br_success_count ds),
                  br_error_count = sum_list (map br_error_count ds)\<rparr>"
proof -
  let ?rs = "map (\<lambda>es. bulkUpdateRoleApi es role) (chunk userEmails BULK_REQUEST_CHUNK_SIZE)"
  have run: "runChunkedBulk userEmails (\<lambda>es. bulkUpdateRoleApi es role) n
      = (Fulfilled (sum_bulk ds), n\<lparr>answers := [], requests := requests n @ ?rs\<rparr>)"
    using run_calls_ok [of ds ?rs n "[]" no_bulk] assms by (simp add: runChunkedBulk_def)
  have emails: "map bulk_emails ?rs = chunk userEmails BULK_REQUEST_CHUNK_SIZE"
    by (simp add: comp_def bulkUpdateRoleApi_def)
  have pos: "0 < BULK_REQUEST_CHUNK_SIZE" by (simp add: BULK_REQUEST_CHUNK_SIZE_def)
  have "list_all (\<lambda>q. bulk_emails q \<noteq> [] \<and> length (bulk_emails q) \<le> 200) ?rs"
    using chunk_bounds [of _ userEmails BULK_REQUEST_CHUNK_SIZE]
    by (auto simp: list_all_iff bulkUpdateRoleApi_def BULK_REQUEST_CHUNK_SIZE_def)
  moreover have "sum_bulk ds = \<lparr>br_results = concat (map br_results ds),
      br_success_count = sum_list (map br_success_count ds), br_error_count = sum_list (map br_error_count ds)\<rparr>"
    using sum_bulk_results [of ds] sum_bulk_counts [of ds] by (cases "sum_bulk ds") simp
  moreover have "concat (map bulk_emails ?rs) = userEmails" unfolding emails by (rule chunk_concat [OF pos])
  ultimately show ?thesis by (simp only: run Let_def split_conv drop_append) simp
qed

lemma bulk_chunks_cover_witness:
  "fst (runChunkedBulk [''a'', ''b''] (\<lambda>es. bulkUpdateRoleApi es ''user'')
      \<lparr>answers = [Fulfilled no_bulk], requests = []\<rparr>) = Fulfilled no_bulk"
  using bulk_chunks_cover [of "[no_bulk]" "[''a'', ''b'']" "\<lparr>answers = [Fulfilled no_bulk], requests = []\<rparr>" "''user''"]
  by (simp add: chunk_def chunk_from.simps [of 0] chunk_from.simps [of 200] BULK_REQUEST_CHUNK_SIZE_def no_bulk_def
      Let_def split: prod.splits)

text \<open>Every request of a bulk run, in the order it is sent: for each policy or action in turn, its chunks.\<close>

definition bulk_plan :: "string list \<Rightarrow> (string list \<Rightarrow> request) list \<Rightarrow> request list" where
  "bulk_plan userEmails calls = concat (map (\<lambda>call. map call (chunk userEmails BULK_REQUEST_CHUNK_SIZE)) calls)"

lemma run_targets_fail:
  "length ds < length (bulk_plan userEmails calls) \<Longrightarrow> answers n = map Fulfilled ds @ Rejected e # rest \<Longrightarrow>
     run_targets userEmails calls m n = (Rejected e,
        n\<lparr>answers := rest, requests := requests n @ take (Suc (length ds)) (bulk_plan userEmails calls)\<rparr>)"
proof (induction calls arbitrary: ds m n)
  case Nil
  then show ?case by (simp add: bulk_plan_def)
next
  case (Cons call calls)
  let ?rs = "map call (chunk userEmails BULK_REQUEST_CHUNK_SIZE)"
  have plan: "bulk_plan userEmails (call # calls) = ?rs @ bulk_plan userEmails calls" by (simp add: bulk_plan_def)
  show ?case
  proof (cases "length ds < length ?rs")
    case True
    with run_calls_fail [OF True Cons.prems(2), of no_bulk] show ?thesis
      by (simp add: runChunkedBulk_def plan)
  next
    case False
    let ?d1 = "take (length ?rs) ds" and ?d2 = "drop (length ?rs) ds"
    let ?n = "n\<lparr>answers := map Fulfilled ?d2 @ Rejected e # rest, requests := requests n @ ?rs\<rparr>"
    have "answers n = map Fulfilled ?d1 @ (map Fulfilled ?d2 @ Rejected e # rest)"
      using Cons.prems(2) by (metis append_assoc append_take_drop_id map_append)
    moreover have "length ?d1 = length ?rs" using False by simp
    ultimately have "runChunkedBulk userEmails call n = (Fulfilled (merge_bulk no_bulk (sum_bulk ?d1)), ?n)"
      using run_calls_ok [of ?d1 ?rs n "map Fulfilled ?d2 @ Rejected e # rest" no_bulk] by (simp add: runChunkedBulk_def)
    moreover have "length ?d2 < length (bulk_plan userEmails calls)" using Cons.prems(1) False by (simp add: plan)
    note Cons.IH [OF this, of ?n "merge_bulk m (merge_bulk no_bulk (sum_bulk ?d1))"]
    moreover have "Suc (length ds) = length ?rs + Suc (length ?d2)" using False by simp
    then have "take (Suc (length ds)) (?rs @ bulk_plan userEmails calls) = ?rs @ take (Suc (length ?d2)) (bulk_plan userEmails calls)"
      using False by (simp only: take_append) (simp add: Suc_diff_le)
    ultimately show ?thesis by (simp add: plan)
  qed
qed

text \<open>The five bulk runs with the targets, the calls and the fallback message of each. The dialog selects policies and
  actions by list; the form with a single name is covered as well.\<close>

definition bulk_runs ::
  "translator \<Rightarrow> int \<Rightarrow> string list \<Rightarrow> string option \<Rightarrow> string list option \<Rightarrow> string option \<Rightarrow> (string \<times> string) list option
     \<Rightarrow> string option \<Rightarrow> fields option \<Rightarrow> string
     \<Rightarrow> ((string list \<Rightarrow> request) list \<times> string \<times> (bulk_net \<Rightarrow> app \<Rightarrow> ((string + bulk_response) \<times> app) \<times> bulk_net)) list" where
  "bulk_runs tr now es policyName names action actions resourceType conditions role =
     (let pols = selected_policies policyName names; acts = selected_actions action resourceType actions in
     [(map (\<lambda>p es. bulkAssignPoliciesApi es p) pols, ''Failed to bulk-assign policy'',
         useBulkAssignPoliciesMutation tr now es policyName names),
      (map (\<lambda>p es. bulkRemovePoliciesApi es p) pols, ''Failed to bulk-remove policy'',
         useBulkRemovePoliciesMutation tr now es policyName names),
      (map (\<lambda>(a, rt) es. bulkAssignPermissionsApi es a rt conditions) acts, ''Failed to bulk-grant permission'',
         useBulkAssignPermissionsMutation tr now es action actions resourceType conditions),
      (map (\<lambda>(a, rt) es. bulkRemovePermissionsApi es a rt) acts, ''Failed to bulk-revoke permission'',
         useBulkRemovePermissionsMutation tr now es action actions resourceType),
      ([\<lambda>es. bulkUpdateRoleApi es role], ''Failed to bulk-update role'',
         useBulkUpdateRoleMutation tr now es role)])"

lemma run_one_target: "run_targets userEmails [call] no_bulk n = (case runChunkedBulk userEmails call n of
    (Fulfilled d, n') \<Rightarrow> (Fulfilled (merge_bulk no_bulk d), n') | (Rejected e, n') \<Rightarrow> (Rejected e, n'))"
  by (simp split: outcome.splits prod.splits)

text \<open>C26: A bulk change that fails on the way forgets what it did. In each of the five bulk changes (assigning and removing
  policies, granting and revoking permissions, changing roles), over any selection of users, policies and actions, when
  one of its requests is rejected after earlier ones were answered, exactly the requests up to that one were sent; the
  caller is given the error alone, the results of all answered requests are dropped, no cached query is invalidated,
  and this tab does not note that it may have changed its own permissions: its whole state is as before the first
  request.\<close>

theorem bulk_failure_drops_progress:
  assumes "(calls, fallback, run) \<in> set (bulk_runs tr now userEmails policyName names action actions resourceType conditions role)"
    and "length ds < length (bulk_plan userEmails calls)" and "answers n = map Fulfilled ds @ Rejected e # rest"
  shows "run n s = ((Inl (extractApiErrorMessage tr e fallback), s),
     n\<lparr>answers := rest, requests := requests n @ take (Suc (length ds)) (bulk_plan userEmails calls)\<rparr>)"
proof -
  note fail = run_targets_fail [OF assms(2,3), of no_bulk]
  show ?thesis
  proof (cases "calls = [\<lambda>es. bulkUpdateRoleApi es role] \<and> run = useBulkUpdateRoleMutation tr now userEmails role
      \<and> fallback = ''Failed to bulk-update role''")
    case True
    with fail have "runChunkedBulk userEmails (\<lambda>es. bulkUpdateRoleApi es role) n = (Rejected e,
        n\<lparr>answers := rest, requests := requests n @ take (Suc (length ds)) (bulk_plan userEmails calls)\<rparr>)"
      by (auto simp: run_one_target split: outcome.splits prod.splits)
    with True show ?thesis by (simp add: useBulkUpdateRoleMutation_def finish_bulk_def)
  next
    case False
    with assms(1) fail show ?thesis
      by (auto simp: bulk_runs_def Let_def useBulkAssignPoliciesMutation_def useBulkRemovePoliciesMutation_def
          useBulkAssignPermissionsMutation_def useBulkRemovePermissionsMutation_def finish_bulk_def)
  qed
qed

text \<open>Two policies for one user, as the dialog selects them: the first is assigned, the second refused.\<close>

lemma bulk_failure_drops_progress_witness:
  "useBulkAssignPoliciesMutation \<lparr>tr_exists = \<lambda>_. False, tr_text = \<lambda>k _. k\<rparr> 0 [''a''] None (Some [''p'', ''q''])
      \<lparr>answers = [Fulfilled \<lparr>br_results = [], br_success_count = 1, br_error_count = 0\<rparr>, Rejected (OtherError [])], requests = []\<rparr>
      initial_app
    = ((Inl (extractApiErrorMessage \<lparr>tr_exists = \<lambda>_. False, tr_text = \<lambda>k _. k\<rparr> (OtherError []) ''Failed to bulk-assign policy''),
        initial_app), \<lparr>answers = [], requests = [bulkAssignPoliciesApi [''a''] ''p'', bulkAssignPoliciesApi [''a''] ''q'']\<rparr>)"
proof -
  let ?tr = "\<lparr>tr_exists = \<lambda>_. False, tr_text = \<lambda>k _. k\<rparr>"
  let ?d = "\<lparr>br_results = [], br_success_count = 1, br_error_count = 0\<rparr>"
  let ?calls = "map (\<lambda>p es. bulkAssignPoliciesApi es p) [''p'', ''q'']"
  have in_runs: "(?calls, ''Failed to bulk-assign policy'', useBulkAssignPoliciesMutation ?tr 0 [''a''] None (Some [''p'', ''q'']))
      \<in> set (bulk_runs ?tr 0 [''a''] None (Some [''p'', ''q'']) None None None None [])"
    by (simp add: bulk_runs_def selected_policies_def nullish_def Let_def)
  have plan: "bulk_plan [''a''] ?calls = [bulkAssignPoliciesApi [''a''] ''p'', bulkAssignPoliciesApi [''a''] ''q'']"
    by (simp add: bulk_plan_def chunk_def chunk_from.simps [of 0] chunk_from.simps [of 200] BULK_REQUEST_CHUNK_SIZE_def slice_def)
  show ?thesis
    using bulk_failure_drops_progress [OF in_runs, of "[?d]" "\<lparr>answers = [Fulfilled ?d, Rejected (OtherError [])], requests = []\<rparr>"
        "OtherError []" "[]" initial_app] unfolding plan by simp
qed

end
