(* ===== verification/Queries.thy ===== *)
theory Queries
  imports Mutations
begin

text \<open>
  The query hooks: the cache key each one reads, the request it issues, and whether it is
  enabled; the page totals; and the two functions with a loop or a merge of their own, the
  collection of every matching user and the previous login.
\<close>

record query =
  q_key :: query_key
  q_request :: request
  q_enabled :: bool
  q_stale :: nat

definition DEFAULT_STALE_TIME :: nat where
  "DEFAULT_STALE_TIME = 30 * 1000"

definition query_of :: "query_key \<Rightarrow> request \<Rightarrow> bool \<Rightarrow> query" where
  "query_of k r e = \<lparr>q_key = k, q_request = r, q_enabled = e, q_stale = DEFAULT_STALE_TIME\<rparr>"

text \<open>\<open>total\<close> is \<open>Number(headers["x-total-count"])\<close>, \<open>None\<close> when that is not finite.\<close>

definition total_or :: "nat \<Rightarrow> nat option \<Rightarrow> nat" where
  "total_or d t = nullish t d"

definition page_offset :: "nat \<Rightarrow> nat \<Rightarrow> nat" where
  "page_offset page pageSize = (page - 1) * pageSize"

section \<open>policyQueries.ts, permissionQueries.ts\<close>

definition POLICIES_STALE_TIME :: nat where
  "POLICIES_STALE_TIME = 5 * 60 * 1000"

definition usePoliciesQuery :: "bool \<Rightarrow> query" where
  "usePoliciesQuery enabled =
     (query_of POLICIES_QUERY_KEY (listPoliciesApi no_list_policies_params) enabled)\<lparr>q_stale := POLICIES_STALE_TIME\<rparr>"

text \<open>The filters are a parameter record whose limit and offset are unset.\<close>

definition usePoliciesListQuery :: "nat \<Rightarrow> nat \<Rightarrow> list_policies_params \<Rightarrow> bool \<Rightarrow> query" where
  "usePoliciesListQuery page pageSize filters enabled =
     query_of (POLICIES_QUERY_KEY @ [KStr ''list'', KNum page, KNum pageSize,
         KFields (toListPoliciesApiParams filters)])
       (listPoliciesApi (filters\<lparr>lp_limit := Some pageSize, lp_offset := Some (page_offset page pageSize)\<rparr>)) enabled"

definition usePolicyHistoryQuery :: "string \<Rightarrow> nat \<Rightarrow> nat \<Rightarrow> bool \<Rightarrow> query" where
  "usePolicyHistoryQuery policyName page pageSize enabled =
     query_of (policyHistoryQueryKey policyName page pageSize)
       (getPolicyHistoryApi policyName (Some pageSize) (Some (page_offset page pageSize)))
       (enabled \<and> policyName \<noteq> [])"

definition usePolicyHoldersQuery :: "string \<Rightarrow> bool \<Rightarrow> query" where
  "usePolicyHoldersQuery policyName enabled =
     query_of (policyHoldersQueryKey policyName) (getPolicyHoldersApi policyName) (enabled \<and> policyName \<noteq> [])"

definition useMyPoliciesQuery :: "bool \<Rightarrow> query" where
  "useMyPoliciesQuery enabled =
     (query_of MY_POLICIES_QUERY_KEY getMyPoliciesApi enabled)\<lparr>q_stale := POLICIES_STALE_TIME\<rparr>"

definition useUserPoliciesQuery :: "string \<Rightarrow> bool \<Rightarrow> query" where
  "useUserPoliciesQuery userEmail enabled =
     query_of (userPoliciesQueryKey userEmail) (getUserPoliciesApi userEmail) (enabled \<and> userEmail \<noteq> [])"

definition PERMISSION_CATALOG_STALE_TIME :: nat where
  "PERMISSION_CATALOG_STALE_TIME = 30 * 60 * 1000"

definition PERMISSION_CATALOG_USAGE_STALE_TIME :: nat where
  "PERMISSION_CATALOG_USAGE_STALE_TIME = 30 * 1000"

definition usePermissionCatalogQuery :: "bool \<Rightarrow> query" where
  "usePermissionCatalogQuery enabled =
     (query_of PERMISSION_CATALOG_QUERY_KEY getPermissionCatalogApi enabled)\<lparr>q_stale := PERMISSION_CATALOG_STALE_TIME\<rparr>"

definition usePermissionCatalogUsageQuery :: query where
  "usePermissionCatalogUsageQuery =
     (query_of PERMISSION_CATALOG_USAGE_QUERY_KEY getPermissionCatalogUsageApi True)
       \<lparr>q_stale := PERMISSION_CATALOG_USAGE_STALE_TIME\<rparr>"

definition useMyPermissionsQuery :: "bool \<Rightarrow> query" where
  "useMyPermissionsQuery enabled = query_of MY_PERMISSIONS_QUERY_KEY getMyPermissionsApi enabled"

definition useUserPermissionsQuery :: "string \<Rightarrow> bool \<Rightarrow> query" where
  "useUserPermissionsQuery userEmail enabled =
     query_of (userPermissionsQueryKey userEmail) (getUserPermissionsApi userEmail) (enabled \<and> userEmail \<noteq> [])"

section \<open>userQueries.ts\<close>

definition SELECT_ALL_MATCHING_MAX :: nat where
  "SELECT_ALL_MATCHING_MAX = 2000"

text \<open>\<open>search: filters.search || undefined\<close>\<close>

definition drop_empty_search :: "list_users_params \<Rightarrow> list_users_params" where
  "drop_empty_search f = f\<lparr>lu_search := (if truthy (lu_search f) then lu_search f else None)\<rparr>"

definition useUsersQuery :: "nat \<Rightarrow> nat \<Rightarrow> list_users_params \<Rightarrow> bool \<Rightarrow> query" where
  "useUsersQuery page pageSize filters enabled =
     query_of (USERS_QUERY_KEY @ [KNum page, KNum pageSize, KFields (toApiParams filters)])
       (listUsersApi (drop_empty_search
          (filters\<lparr>lu_limit := Some pageSize, lu_offset := Some (page_offset page pageSize)\<rparr>))) enabled"

definition useUserStatsQuery :: "bool \<Rightarrow> query" where
  "useUserStatsQuery enabled = query_of USER_STATS_QUERY_KEY getUserStatsApi enabled"

text \<open>
  \<open>fetchAllMatchingUserEmails\<close>: one page per step, a thousand at a time. \<open>server offset\<close> is
  the answer to the request at that offset: the e-mail addresses and the total header.
\<close>

definition PAGE_SIZE :: nat where "PAGE_SIZE = 1000"

datatype fetch_error = TooMany | RequestFailed api_error

definition fetch_request :: "list_users_params \<Rightarrow> nat \<Rightarrow> request" where
  "fetch_request filters off =
     listUsersApi (drop_empty_search (filters\<lparr>lu_limit := Some PAGE_SIZE, lu_offset := Some off\<rparr>))"

function fetch_from ::
  "(nat \<Rightarrow> (string list \<times> nat option) outcome) \<Rightarrow> nat \<Rightarrow> string list \<Rightarrow> fetch_error + string list" where
  "fetch_from server off emails =
     (case server off of
        Rejected e \<Rightarrow> Inl (RequestFailed e)
      | Fulfilled (data, tot) \<Rightarrow>
          (let emails' = emails @ data in
           if SELECT_ALL_MATCHING_MAX < length emails' then Inl TooMany
           else if tot = None \<or> the tot \<le> length emails' \<or> length data = 0 then Inr emails'
           else fetch_from server (off + PAGE_SIZE) emails'))"
  by pat_completeness auto
termination
  by (relation "measure (\<lambda>(server, off, emails). SELECT_ALL_MATCHING_MAX + 1 - length emails)")
    (auto simp flip: length_greater_0_conv)

declare fetch_from.simps [simp del]

definition fetchAllMatchingUserEmails ::
  "(nat \<Rightarrow> (string list \<times> nat option) outcome) \<Rightarrow> fetch_error + string list" where
  "fetchAllMatchingUserEmails server = fetch_from server 0 []"

section \<open>Audit logs, sessions and rate limits\<close>

text \<open>\<open>toPageResult\<close> of \<open>auditLogPageResult.ts\<close>: the rows and the total, 0 when there is none.\<close>

definition toPageResult :: "'a list \<Rightarrow> nat option \<Rightarrow> 'a list \<times> nat" where
  "toPageResult items t = (items, total_or 0 t)"

definition useSecurityAuditLogQuery :: "nat \<Rightarrow> nat \<Rightarrow> security_list_params \<Rightarrow> query" where
  "useSecurityAuditLogQuery page pageSize filters =
     query_of (SECURITY_AUDIT_LOG_QUERY_KEY @ [KNum page, KNum pageSize, KFields (toSecurityParams filters)])
       (getSecurityAuditLogApi (filters\<lparr>bl_limit := Some pageSize, bl_offset := Some (page_offset page pageSize)\<rparr>)) True"

definition useMySecurityAuditLogQuery :: "nat \<Rightarrow> nat \<Rightarrow> security_list_params \<Rightarrow> query" where
  "useMySecurityAuditLogQuery page pageSize filters =
     query_of (MY_SECURITY_AUDIT_LOG_QUERY_KEY @ [KNum page, KNum pageSize, KFields (toSecurityParams filters)])
       (getMySecurityAuditLogApi (filters\<lparr>bl_limit := Some pageSize, bl_offset := Some (page_offset page pageSize)\<rparr>)) True"

definition useLoginTrendQuery :: "nat \<Rightarrow> string option \<Rightarrow> string option \<Rightarrow> string option \<Rightarrow> query" where
  "useLoginTrendQuery days search from to =
     query_of (LOGIN_TREND_QUERY_KEY @ [KNum days, KOptStr search, KOptStr from, KOptStr to])
       (getLoginTrendApi (Some days) (if truthy search then search else None) from to) True"

definition useMyLoginTrendQuery :: "nat \<Rightarrow> string option \<Rightarrow> string option \<Rightarrow> query" where
  "useMyLoginTrendQuery days from to =
     query_of (MY_LOGIN_TREND_QUERY_KEY @ [KNum days, KOptStr from, KOptStr to])
       (getMyLoginTrendApi (Some days) from to) True"

definition useAuthorizationAuditLogQuery :: "nat \<Rightarrow> nat \<Rightarrow> authz_list_params \<Rightarrow> query" where
  "useAuthorizationAuditLogQuery page pageSize filters =
     query_of (AUTHORIZATION_AUDIT_LOG_QUERY_KEY @ [KNum page, KNum pageSize, KFields (toAuthorizationParams filters)])
       (getAuthorizationAuditLogApi (filters\<lparr>bl_limit := Some pageSize, bl_offset := Some (page_offset page pageSize)\<rparr>)) True"

definition useMyAuthorizationAuditLogQuery :: "nat \<Rightarrow> nat \<Rightarrow> authz_list_params \<Rightarrow> query" where
  "useMyAuthorizationAuditLogQuery page pageSize filters =
     query_of (MY_AUTHORIZATION_AUDIT_LOG_QUERY_KEY @ [KNum page, KNum pageSize, KFields (toAuthorizationParams filters)])
       (getMyAuthorizationAuditLogApi (filters\<lparr>bl_limit := Some pageSize, bl_offset := Some (page_offset page pageSize)\<rparr>)) True"

definition no_authz_params :: authz_list_params where
  "no_authz_params = \<lparr>bl_limit = None, bl_offset = None, bl_search = None, bl_sort_by = None, bl_sort_dir = None,
     bl_from = None, bl_to = None, bl_action = None, bl_resource_type = None, bl_allowed = None\<rparr>"

definition no_security_params :: security_list_params where
  "no_security_params = \<lparr>bl_limit = None, bl_offset = None, bl_search = None, bl_sort_by = None, bl_sort_dir = None,
     bl_from = None, bl_to = None, bl_event_type = None, bl_ip_address = None, bl_success = None\<rparr>"

definition useUserAuthorizationAuditLogQuery :: "string \<Rightarrow> nat \<Rightarrow> nat \<Rightarrow> bool \<Rightarrow> query" where
  "useUserAuthorizationAuditLogQuery userEmail page pageSize enabled =
     query_of (userAuthorizationAuditLogQueryKey userEmail @ [KNum page, KNum pageSize])
       (getUserAuthorizationAuditLogApi userEmail
          (no_authz_params\<lparr>bl_limit := Some pageSize, bl_offset := Some (page_offset page pageSize)\<rparr>))
       (enabled \<and> userEmail \<noteq> [])"

definition useSessionsQuery :: query where
  "useSessionsQuery = query_of SESSIONS_QUERY_KEY getMySessionsApi True"

definition useCurrentUserQuery :: query where
  "useCurrentUserQuery = query_of CURRENT_USER_QUERY_KEY (getCurrentUserApi (Some ''useCurrentUserQuery'')) True"

text \<open>The previous login: the two event types' recent logins, newest first, and the second of them.\<close>

definition LOGIN_EVENT_TYPES :: "string list" where
  "LOGIN_EVENT_TYPES = [''login_success'', ''oauth2_login_success'']"

definition fetchRecentLogins :: "string \<Rightarrow> request" where
  "fetchRecentLogins eventType = getMySecurityAuditLogApi
     (no_security_params\<lparr>bl_limit := Some 2, bl_event_type := Some eventType, bl_success := Some True,
        bl_sort_dir := Some Desc\<rparr>)"

definition newest_first :: "(string \<Rightarrow> string \<Rightarrow> int) \<Rightarrow> security_log_entry comparator" where
  "newest_first lc a b = lc (sl_created_at b) (sl_created_at a)"

definition usePreviousLoginQuery ::
  "(string \<Rightarrow> string \<Rightarrow> int) \<Rightarrow> security_log_entry list list
     \<Rightarrow> (string \<times> string option \<times> string option) option" where
  "usePreviousLoginQuery lc results =
     (let logins = js_sort (newest_first lc) (concat results) in
      if length logins < 2 then None
      else (let p = logins ! 1 in Some (sl_created_at p, sl_ip_address p, sl_user_agent p)))"

section \<open>rateLimitsQueries.ts, rateLimitsSummaryQueries.ts, rateLimitsMutations.ts\<close>

definition useRateLimitsQuery :: "nat \<Rightarrow> nat \<Rightarrow> list_rate_limits_params \<Rightarrow> query" where
  "useRateLimitsQuery page pageSize filters =
     (let p = filters\<lparr>lr_page := Some page, lr_page_size := Some pageSize\<rparr> in
      query_of (RATE_LIMITS_QUERY_KEY @ [KNum page, KNum pageSize, KFields (r_params (listRateLimitsApi filters))])
        (listRateLimitsApi p) True)"

definition useRateLimitsSummaryQuery :: query where
  "useRateLimitsSummaryQuery = query_of RATE_LIMITS_SUMMARY_QUERY_KEY getRateLimitsSummaryApi True"

definition useResetRateLimitMutation :: "string \<Rightarrow> unit mutation" where
  "useResetRateLimitMutation key =
     mutation_of (resetRateLimitApi key) ''Failed to reset rate limit'' (\<lambda>_. invalidate [RATE_LIMITS_QUERY_KEY])"

section \<open>The collection of every matching user\<close>

text \<open>A server that pages a fixed list of matches and reports its length.\<close>

definition paging_server :: "string list \<Rightarrow> nat \<Rightarrow> (string list \<times> nat option) outcome" where
  "paging_server matches off = Fulfilled (take PAGE_SIZE (drop off matches), Some (length matches))"

lemma fetch_from_capped:
  "fetch_from server off emails = Inr res \<Longrightarrow> length res \<le> SELECT_ALL_MATCHING_MAX \<and> (\<exists>more. res = emails @ more)"
proof (induction server off emails rule: fetch_from.induct)
  case (1 server off emails)
  show ?case
  proof (cases "server off")
    case (Rejected e)
    with 1 show ?thesis by (simp add: fetch_from.simps)
  next
    case (Fulfilled p)
    obtain d t where p: "p = (d, t)" by (cases p)
    show ?thesis
    proof (cases "SELECT_ALL_MATCHING_MAX < length (emails @ d) \<or> t = None \<or> the t \<le> length (emails @ d) \<or> length d = 0")
      case True
      with 1(2) Fulfilled p show ?thesis
        by (subst (asm) fetch_from.simps) (auto simp: Let_def split: if_splits)
    next
      case False
      then have "fetch_from server (off + PAGE_SIZE) (emails @ d) = Inr res"
        using 1(2) Fulfilled p by (subst (asm) fetch_from.simps) (auto simp: Let_def)
      with 1(1) [OF Fulfilled [unfolded p], of d t "emails @ d"] False show ?thesis by auto
    qed
  qed
qed

lemma fetch_from_paging:
  assumes "off = k * PAGE_SIZE" "off \<le> length matches"
  shows "fetch_from (paging_server matches) off (take off matches) =
     (if length matches \<le> SELECT_ALL_MATCHING_MAX then Inr matches else Inl TooMany)"
  using assms
proof (induction "length matches - off" arbitrary: off k rule: less_induct)
  case less
  let ?n = "length matches"
  have app: "take off matches @ take PAGE_SIZE (drop off matches) = take (off + PAGE_SIZE) matches"
    by (simp add: take_add)
  have step: "fetch_from (paging_server matches) off (take off matches) =
      (let e = take (off + PAGE_SIZE) matches in
       if SELECT_ALL_MATCHING_MAX < length e then Inl TooMany
       else if ?n \<le> length e \<or> min (?n - off) PAGE_SIZE = 0 then Inr e
       else fetch_from (paging_server matches) (off + PAGE_SIZE) e)"
    by (subst fetch_from.simps) (simp only: paging_server_def outcome.case prod.case app Let_def option.distinct
        option.sel length_take length_drop simp_thms)
  show ?case
  proof (cases "?n \<le> off + PAGE_SIZE")
    case True
    then show ?thesis unfolding step by (simp add: Let_def)
  next
    case False
    then have lt: "off + PAGE_SIZE < ?n" by simp
    have "fetch_from (paging_server matches) (off + PAGE_SIZE) (take (off + PAGE_SIZE) matches) =
        (if ?n \<le> SELECT_ALL_MATCHING_MAX then Inr matches else Inl TooMany)"
      using less(1) [of "off + PAGE_SIZE" "Suc k"] less(2) lt by (simp add: PAGE_SIZE_def)
    with lt show ?thesis unfolding step by (auto simp: Let_def PAGE_SIZE_def)
  qed
qed

section \<open>Properties\<close>

text \<open>C17: Selecting every matching user always finishes, never returns more than 2000 addresses
  whatever the server answers, and against a server that pages a fixed list it returns exactly
  that list when it has at most 2000 entries and refuses otherwise.\<close>

theorem select_all_matching:
  "(\<forall>res. fetchAllMatchingUserEmails server = Inr res \<longrightarrow> length res \<le> 2000) \<and>
   fetchAllMatchingUserEmails (paging_server matches) =
     (if length matches \<le> 2000 then Inr matches else Inl TooMany)"
  using fetch_from_capped [of server 0 "[]"] fetch_from_paging [of 0 0 matches]
  by (auto simp: fetchAllMatchingUserEmails_def SELECT_ALL_MATCHING_MAX_def)

lemma select_all_matching_witness:
  "length [''a@x''] \<le> 2000 \<and> fetchAllMatchingUserEmails (paging_server [''a@x'']) = Inr [''a@x'']"
  using select_all_matching [of "paging_server [''a@x'']" "[''a@x'']"] by simp

lemma newest_first_comparator: "js_comparator lc \<Longrightarrow> js_comparator (newest_first lc)"
  unfolding js_comparator_def newest_first_def by blast

text \<open>The previous login is the second newest of the logins of both kinds, whichever kind it is,
  and there is none exactly when fewer than two logins are known.\<close>

theorem previous_login_second_newest:
  assumes "js_comparator lc"
  shows "(usePreviousLoginQuery lc results = None \<longleftrightarrow> length (concat results) < 2) \<and>
     (2 \<le> length (concat results) \<longrightarrow>
        (\<exists>newest previous rest. mset (newest # previous # rest) = mset (concat results) \<and>
           usePreviousLoginQuery lc results
             = Some (sl_created_at previous, sl_ip_address previous, sl_user_agent previous) \<and>
           lc (sl_created_at previous) (sl_created_at newest) \<le> 0 \<and>
           (\<forall>l\<in>set rest. lc (sl_created_at l) (sl_created_at previous) \<le> 0)))"
proof -
  let ?ls = "js_sort (newest_first lc) (concat results)"
  have sorted: "sorted_wrt (\<lambda>a b. newest_first lc a b \<le> 0) ?ls"
    by (rule js_comparator.sort_sorted [OF newest_first_comparator [OF assms]])
  have len: "length ?ls = length (concat results)" by (rule length_js_sort)
  have perm: "mset ?ls = mset (concat results)" by (rule mset_js_sort)
  show ?thesis
  proof (cases "length (concat results) < 2")
    case True
    then show ?thesis using len by (simp add: usePreviousLoginQuery_def Let_def)
  next
    case False
    then have two: "Suc (Suc 0) \<le> length ?ls" by (simp add: len)
    obtain n p rest where ls: "?ls = n # p # rest"
      using two by (auto simp only: Suc_le_length_iff)
    then have "usePreviousLoginQuery lc results = Some (sl_created_at p, sl_ip_address p, sl_user_agent p)"
      using False len by (simp add: usePreviousLoginQuery_def Let_def)
    moreover have "mset (n # p # rest) = mset (concat results)" using perm by (simp only: ls)
    moreover have "lc (sl_created_at p) (sl_created_at n) \<le> 0"
      "\<forall>l\<in>set rest. lc (sl_created_at l) (sl_created_at p) \<le> 0"
      using sorted ls by (simp_all add: newest_first_def)
    ultimately show ?thesis using False by (intro conjI impI exI [of _ n] exI [of _ p] exI [of _ rest]) auto
  qed
qed

definition code_order :: "string \<Rightarrow> string \<Rightarrow> int" where
  "code_order a b = (if a = b then 0 else if a < b then -1 else 1)"

lemma code_order_comparator: "js_comparator code_order"
  by unfold_locales (auto simp: code_order_def split: if_splits)

definition login_at :: "string \<Rightarrow> security_log_entry" where
  "login_at t = \<lparr>sl_id = 1, sl_user_email = None, sl_event_type = ''login_success'', sl_success = True,
     sl_ip_address = None, sl_user_agent = None, sl_request_id = None, sl_event_metadata = None,
     sl_created_at = t\<rparr>"

lemma previous_login_second_newest_witness:
  "usePreviousLoginQuery code_order [[login_at ''2026''], []] = None"
  using previous_login_second_newest [OF code_order_comparator, of "[[login_at ''2026''], []]"] by simp

end
