(* ===== verification/AuthFlows.thy ===== *)
theory AuthFlows
  imports Queries
begin

text \<open>
  Signing in and out, the account and session mutations (\<open>auth/*/use*Mutation.ts\<close>,
  \<open>account_settings/\<close>, \<open>account_deletion/\<close>, \<open>active_sessions/\<close>), the authorization service,
  the password rules and the passkey management state machine
  (\<open>passkeys/usePasskeyManagement.ts\<close>).
\<close>

section \<open>Signing in\<close>

definition json_truthy :: "json \<Rightarrow> bool" where
  "json_truthy j \<longleftrightarrow> (case j of JUndef \<Rightarrow> False | JNull \<Rightarrow> False | JBool b \<Rightarrow> b | JNum n \<Rightarrow> n \<noteq> 0
     | JStr s \<Rightarrow> s \<noteq> [] | JArr _ \<Rightarrow> True | JObj _ \<Rightarrow> True)"

definition error_text :: "translator \<Rightarrow> string \<Rightarrow> fields \<Rightarrow> string \<Rightarrow> string" where
  "error_text tr code params message = nullish (translateErrorCode tr (JStr code) params) message"

definition login_error_message :: "translator \<Rightarrow> api_error \<Rightarrow> string" where
  "login_error_message tr e =
     (let message = extractApiErrorMessage tr e ''Login failed'' in
      case e of
        OtherError _ \<Rightarrow> message
      | HttpError None \<Rightarrow> error_text tr ''NETWORK_ERROR'' [] message
      | HttpError (Some (status, body)) \<Rightarrow>
          (if json_truthy (eb_code body) then message
           else if status = 401 then error_text tr ''INVALID_CREDENTIALS'' [] message
           else if status = 429 then error_text tr ''TOO_MANY_ATTEMPTS'' [(''endpoint'', JStr ''login'')] message
           else if 500 \<le> status then error_text tr ''SERVER_ERROR'' [] message
           else message))"

text \<open>What both sign-in mutations do with the fresh profile.\<close>

definition login_established :: "int \<Rightarrow> current_user \<Rightarrow> app \<Rightarrow> app" where
  "login_established now profile s =
     query_calls [SetUser CURRENT_USER_QUERY_KEY profile, Invalidate SESSIONS_QUERY_KEY,
         Invalidate MY_POLICIES_QUERY_KEY, Invalidate MY_AUTHORIZATION_AUDIT_LOG_QUERY_KEY,
         Invalidate MY_SECURITY_AUDIT_LOG_QUERY_KEY]
       (on_auth (setAuthenticated now True) (on_auth (setProfile profile) s))"

definition useLoginMutation ::
  "translator \<Rightarrow> int \<Rightarrow> unit outcome \<Rightarrow> current_user outcome \<Rightarrow> app \<Rightarrow> (string + current_user) \<times> app" where
  "useLoginMutation tr now login_answer me_answer s =
     (let s1 = query_call (CancelQueries CURRENT_USER_QUERY_KEY) s in
      case login_answer of
        Rejected e \<Rightarrow> (Inl (login_error_message tr e), s1)
      | Fulfilled _ \<Rightarrow>
          (case me_answer of
             Rejected e \<Rightarrow> (Inl (login_error_message tr e), s1)
           | Fulfilled profile \<Rightarrow> (Inr profile, login_established now profile s1)))"

text \<open>The passkey sign-in: four awaited steps (options, the browser's prompt, verification, profile);
  the first that rejects ends it.\<close>

definition usePasskeyLoginMutation ::
  "translator \<Rightarrow> int \<Rightarrow> json outcome \<Rightarrow> json outcome \<Rightarrow> unit outcome \<Rightarrow> current_user outcome \<Rightarrow> app
     \<Rightarrow> (string + current_user) \<times> app" where
  "usePasskeyLoginMutation tr now options credential verified me_answer s =
     (let s1 = query_call (CancelQueries CURRENT_USER_QUERY_KEY) s;
          failed = (\<lambda>e. (Inl (extractApiErrorMessage tr e ''Passkey sign-in failed''), s1)) in
      case options of Rejected e \<Rightarrow> failed e | Fulfilled _ \<Rightarrow>
      (case credential of Rejected e \<Rightarrow> failed e | Fulfilled _ \<Rightarrow>
      (case verified of Rejected e \<Rightarrow> failed e | Fulfilled _ \<Rightarrow>
      (case me_answer of Rejected e \<Rightarrow> failed e
       | Fulfilled profile \<Rightarrow> (Inr profile, login_established now profile s1)))))"

section \<open>Signing out and the account\<close>

definition useLogoutMutation :: "int \<Rightarrow> unit mutation" where
  "useLogoutMutation now = \<lparr>m_request = logoutApi, m_fallback = ''Logout failed'', m_success = nothing,
     m_settled = clearMyAccountSessionCaches now\<rparr>"

definition useLogoutAllMutation :: "int \<Rightarrow> unit mutation" where
  "useLogoutAllMutation now = \<lparr>m_request = logoutAllApi, m_fallback = ''Logout all devices failed'',
     m_success = nothing, m_settled = clearMyAccountSessionCaches now\<rparr>"

text \<open>The data is the response's \<open>confirmation_required\<close>.\<close>

definition useDeleteMyAccountMutation :: "int \<Rightarrow> string option \<Rightarrow> bool option mutation" where
  "useDeleteMyAccountMutation now current_password =
     mutation_of (deleteMyAccountApi current_password) ''Failed to delete account''
       (\<lambda>confirmation_required s. if confirmation_required = Some True then s else clearMyAccountSessionCaches now s)"

definition useConfirmDeleteMyAccountMutation :: "int \<Rightarrow> string \<Rightarrow> unit mutation" where
  "useConfirmDeleteMyAccountMutation now token =
     mutation_of (confirmDeleteMyAccountApi token) ''Account deletion confirmation failed''
       (\<lambda>_. clearMyAccountSessionCaches now)"

definition useUpdateMyAccountMutation :: "user_update \<Rightarrow> managed_user mutation" where
  "useUpdateMyAccountMutation payload =
     mutation_of (updateMyAccountApi payload) ''Failed to update profile'' (\<lambda>_. invalidate [CURRENT_USER_QUERY_KEY])"

text \<open>Starting the update: only a password change is tracked as a session rotation.\<close>

definition start_update_my_account :: "user_update \<Rightarrow> app \<Rightarrow> nat option \<times> app" where
  "start_update_my_account payload s =
     (if truthy (uu_password payload)
      then (let (p, s') = trackSessionRotatingRequest s in (Some p, s')) else (None, s))"

definition useSignupMutation :: "string \<Rightarrow> string \<Rightarrow> string \<Rightarrow> unit mutation" where
  "useSignupMutation name email password = mutation_of (signupApi name email password) ''Signup failed'' nothing"

definition useVerifyAccountMutation :: "string \<Rightarrow> string \<Rightarrow> unit mutation" where
  "useVerifyAccountMutation token email =
     mutation_of (verifyAccountApi token email) ''Account verification failed'' nothing"

definition useVerificationEmailRequestMutation :: "string \<Rightarrow> unit mutation" where
  "useVerificationEmailRequestMutation email =
     mutation_of (verificationEmailRequestApi email) ''Verification email request failed'' nothing"

definition usePasswordResetRequestMutation :: "string \<Rightarrow> unit mutation" where
  "usePasswordResetRequestMutation email =
     mutation_of (passwordResetRequestApi email) ''Password reset request failed'' nothing"

definition usePasswordResetConfirmMutation :: "string \<Rightarrow> string \<Rightarrow> bool mutation" where
  "usePasswordResetConfirmMutation token new_password =
     mutation_of (passwordResetConfirmApi token new_password) ''Password reset confirmation failed'' nothing"

section \<open>useRevokeSessionMutation.ts\<close>

definition END_SESSION_FAILED :: string where
  "END_SESSION_FAILED = ''dashboard:activeSessionsCard.failedEndSession''"

definition sessions_changed :: "'d \<Rightarrow> app \<Rightarrow> app" where
  "sessions_changed d = invalidate [SESSIONS_QUERY_KEY, CURRENT_USER_QUERY_KEY]"

definition useRevokeSessionMutation :: "translator \<Rightarrow> int \<Rightarrow> unit mutation" where
  "useRevokeSessionMutation tr sessionId =
     mutation_of (revokeSessionApi sessionId) (tr_text tr END_SESSION_FAILED []) sessions_changed"

record session_revoke_result =
  sr_sessionId :: int
  sr_ok :: bool
  sr_error :: "string option"

text \<open>Every request is sent; \<open>answer i\<close> is what becomes of the \<open>i\<close>th.\<close>

definition useBulkRevokeSessionsMutation ::
  "translator \<Rightarrow> int list \<Rightarrow> (nat \<Rightarrow> unit outcome) \<Rightarrow> app \<Rightarrow> session_revoke_result list \<times> app" where
  "useBulkRevokeSessionsMutation tr sessionIds answer s =
     (map (\<lambda>i. case answer i of
          Fulfilled _ \<Rightarrow> \<lparr>sr_sessionId = sessionIds ! i, sr_ok = True, sr_error = None\<rparr>
        | Rejected e \<Rightarrow> \<lparr>sr_sessionId = sessionIds ! i, sr_ok = False,
            sr_error = Some (extractApiErrorMessage tr e (tr_text tr END_SESSION_FAILED []))\<rparr>)
        [0..<length sessionIds],
      sessions_changed () s)"

section \<open>authorizationService.ts\<close>

definition check_fields :: "string \<Rightarrow> string \<Rightarrow> fields option \<Rightarrow> json" where
  "check_fields action resourceType resource =
     JObj [(''action'', JStr action), (''resource_type'', JStr resourceType), (''resource'', opt_obj resource)]"

definition batch_request :: "json list \<Rightarrow> request" where
  "batch_request checks = post_req ''/authorization/batch-check'' (Some (JObj [(''checks'', JArr checks)]))"

definition checkPermission ::
  "string \<Rightarrow> string \<Rightarrow> fields option \<Rightarrow> (request \<Rightarrow> 'r list outcome) \<Rightarrow> 'r option outcome" where
  "checkPermission action resourceType resource api =
     (case api (batch_request [check_fields action resourceType resource]) of
        Rejected e \<Rightarrow> Rejected e
      | Fulfilled results \<Rightarrow> Fulfilled (case results of [] \<Rightarrow> None | r # _ \<Rightarrow> Some r))"

definition checkBatch ::
  "(string \<times> string \<times> fields option) list \<Rightarrow> (request \<Rightarrow> 'r list outcome) \<Rightarrow> 'r list outcome" where
  "checkBatch checks api = api (batch_request (map (\<lambda>(a, t, r). check_fields a t r) checks))"

definition getUserPolicies :: request where
  "getUserPolicies = get_req ''/authorization/users/me/policies'' []"

definition getAuditLog :: request where
  "getAuditLog = get_req ''/authorization/audit-log/me'' []"

section \<open>passwordRules.ts\<close>

record password_rules =
  lengthRule :: bool
  upperRule :: bool
  lowerRule :: bool
  numberRule :: bool

datatype password_strength = Weak | Medium | Strong | NoPassword

definition has_code_in :: "nat \<Rightarrow> nat \<Rightarrow> string \<Rightarrow> bool" where
  "has_code_in lo hi s \<longleftrightarrow> list_ex (\<lambda>c. lo \<le> ucode c \<and> ucode c \<le> hi) s"

definition checkPasswordRules :: "string \<Rightarrow> password_rules" where
  "checkPasswordRules pwd = \<lparr>lengthRule = 8 \<le> length pwd, upperRule = has_code_in 65 90 pwd,
     lowerRule = has_code_in 97 122 pwd, numberRule = has_code_in 48 57 pwd\<rparr>"

definition evaluatePasswordStrength :: "string \<Rightarrow> password_strength" where
  "evaluatePasswordStrength pwd =
     (if pwd = [] then NoPassword
      else (let r = checkPasswordRules pwd;
                passedRules = length (filter id [lengthRule r, upperRule r, lowerRule r, numberRule r])
            in if passedRules \<le> 2 then Weak else if passedRules = 3 then Medium else Strong))"

definition validatePassword :: "string \<Rightarrow> (string \<Rightarrow> string) \<Rightarrow> string option" where
  "validatePassword pwd t =
     (let r = checkPasswordRules pwd in
      if \<not> lengthRule r then Some (t ''auth:passwordRules.lengthError'')
      else if \<not> upperRule r then Some (t ''auth:passwordRules.upperError'')
      else if \<not> lowerRule r then Some (t ''auth:passwordRules.lowerError'')
      else if \<not> numberRule r then Some (t ''auth:passwordRules.numberError'')
      else None)"

section \<open>usePasskeyManagement.ts\<close>

datatype bulk_confirm = ConfirmSelected | ConfirmAll

text \<open>The actions of the tab; the first three are step-up gated on the server, so they can be parked.\<close>

datatype passkey_action = AddPasskey string | RemovePasskey int | BulkRemove bulk_remove_payload
  | RenamePasskey int string

record passkey_ui =
  newName :: string
  pendingRemoval :: "passkey option"
  bulkConfirm :: "bulk_confirm option"
  selectedIds :: "int list"
  stepUpRetry :: "passkey_action option"
  started :: "passkey_action list"
  pk_app :: app

definition needsStepUp :: "api_error \<Rightarrow> bool" where
  "needsStepUp e \<longleftrightarrow> (case e of HttpError (Some (_, b)) \<Rightarrow> eb_code b = JStr STEP_UP_REQUIRED_CODE | _ \<Rightarrow> False)"

definition pk_refresh :: "passkey_ui \<Rightarrow> passkey_ui" where
  "pk_refresh u = u\<lparr>pk_app := invalidate [PASSKEYS_QUERY_KEY] (pk_app u)\<rparr>"

definition pk_toast :: "string \<Rightarrow> toast_type \<Rightarrow> passkey_ui \<Rightarrow> passkey_ui" where
  "pk_toast title ty u = u\<lparr>pk_app := toast \<lparr>tn_title = title, tn_description = [], tn_type = ty\<rparr> (pk_app u)\<rparr>"

definition mutate :: "passkey_action \<Rightarrow> passkey_ui \<Rightarrow> passkey_ui" where
  "mutate a u = u\<lparr>started := started u @ [a]\<rparr>"

fun passkey_succeeded :: "translator \<Rightarrow> nat \<Rightarrow> passkey_action \<Rightarrow> passkey_ui \<Rightarrow> passkey_ui" where
  "passkey_succeeded tr removed (AddPasskey name) u =
     pk_toast (tr_text tr ''passkeys.addedToast'' []) ToastSuccess (pk_refresh (u\<lparr>newName := []\<rparr>))"
| "passkey_succeeded tr removed (RenamePasskey i name) u =
     pk_toast (tr_text tr ''passkeys.renamedToast'' []) ToastSuccess (pk_refresh u)"
| "passkey_succeeded tr removed (RemovePasskey i) u =
     pk_toast (tr_text tr ''passkeys.removedToast'' []) ToastSuccess
       (pk_refresh (u\<lparr>pendingRemoval := None, selectedIds := []\<rparr>))"
| "passkey_succeeded tr removed (BulkRemove p) u =
     pk_toast (tr_text tr ''passkeys.bulkRemovedToast'' [(''count'', JNum (int removed))]) ToastSuccess
       (pk_refresh (u\<lparr>bulkConfirm := None, selectedIds := []\<rparr>))"

definition pk_fail :: "translator \<Rightarrow> api_error \<Rightarrow> string \<Rightarrow> passkey_ui \<Rightarrow> passkey_ui" where
  "pk_fail tr e key u = pk_toast (extractApiErrorMessage tr e (tr_text tr key [])) ToastError u"

fun passkey_failed :: "translator \<Rightarrow> api_error \<Rightarrow> passkey_action \<Rightarrow> passkey_ui \<Rightarrow> passkey_ui" where
  "passkey_failed tr e (AddPasskey name) u =
     (if needsStepUp e then u\<lparr>stepUpRetry := Some (AddPasskey name)\<rparr> else pk_fail tr e ''passkeys.addFailed'' u)"
| "passkey_failed tr e (RenamePasskey i name) u = pk_fail tr e ''passkeys.renameFailed'' u"
| "passkey_failed tr e (RemovePasskey i) u =
     (let u1 = u\<lparr>pendingRemoval := None\<rparr> in
      if needsStepUp e then u1\<lparr>stepUpRetry := Some (RemovePasskey i)\<rparr> else pk_fail tr e ''passkeys.removeFailed'' u1)"
| "passkey_failed tr e (BulkRemove p) u =
     (let u1 = u\<lparr>bulkConfirm := None\<rparr> in
      if needsStepUp e then u1\<lparr>stepUpRetry := Some (BulkRemove p)\<rparr>
      else pk_fail tr e ''passkeys.bulkRemoveFailed'' u1)"

definition confirmBulk :: "passkey_ui \<Rightarrow> passkey_ui" where
  "confirmBulk u = (if bulkConfirm u = Some ConfirmAll then mutate (BulkRemove RemoveAll) u
     else mutate (BulkRemove (RemoveIds (selectedIds u))) u)"

definition resumeAfterStepUp :: "passkey_ui \<Rightarrow> passkey_ui" where
  "resumeAfterStepUp u = (case stepUpRetry u of Some a \<Rightarrow> mutate a u | None \<Rightarrow> u)\<lparr>stepUpRetry := None\<rparr>"

definition cancelStepUp :: "passkey_ui \<Rightarrow> passkey_ui" where
  "cancelStepUp u = u\<lparr>stepUpRetry := None\<rparr>"

text \<open>\<open>useStepUpReturnToast\<close>: the result is taken off the query string once.\<close>

definition useStepUpReturnToast ::
  "translator \<Rightarrow> (string \<times> string) list \<Rightarrow> app \<Rightarrow> (string \<times> string) list \<times> app" where
  "useStepUpReturnToast tr search s =
     (let result = map_of search ''stepup'' in
      if \<not> truthy result then (search, s)
      else (filter (\<lambda>p. fst p \<noteq> ''stepup'') search,
        if result = Some ''ok''
        then toast \<lparr>tn_title = tr_text tr ''passkeys.stepUp.confirmedToast'' [], tn_description = [], tn_type = ToastSuccess\<rparr> s
        else toast \<lparr>tn_title = nullish (translateErrorCode tr (JStr (the result)) [])
               (tr_text tr ''passkeys.stepUp.failed'' []), tn_description = [], tn_type = ToastError\<rparr> s))"

section \<open>Lemmas\<close>

lemma validate_iff_rules:
  "validatePassword pwd t = None \<longleftrightarrow>
     lengthRule (checkPasswordRules pwd) \<and> upperRule (checkPasswordRules pwd)
     \<and> lowerRule (checkPasswordRules pwd) \<and> numberRule (checkPasswordRules pwd)"
  by (simp add: validatePassword_def Let_def)

lemma strength_iff_rules:
  "evaluatePasswordStrength pwd = Strong \<longleftrightarrow>
     lengthRule (checkPasswordRules pwd) \<and> upperRule (checkPasswordRules pwd)
     \<and> lowerRule (checkPasswordRules pwd) \<and> numberRule (checkPasswordRules pwd)"
  by (cases "pwd = []") (auto simp: evaluatePasswordStrength_def Let_def checkPasswordRules_def)

fun gated :: "passkey_action \<Rightarrow> bool" where
  "gated (RenamePasskey i name) = False"
| "gated a = True"

lemma failed_parks:
  "gated a \<Longrightarrow> needsStepUp e \<Longrightarrow> stepUpRetry (passkey_failed tr e a u) = Some a"
  "gated a \<Longrightarrow> needsStepUp e \<Longrightarrow> pk_app (passkey_failed tr e a u) = pk_app u"
  by (cases a; simp add: Let_def)+

lemma failed_keeps_started: "started (passkey_failed tr e a u) = started u"
  by (cases a) (auto simp: Let_def pk_fail_def pk_toast_def)

lemma failed_other:
  "\<not> (gated a \<and> needsStepUp e) \<Longrightarrow> stepUpRetry (passkey_failed tr e a u) = stepUpRetry u"
  "\<not> (gated a \<and> needsStepUp e) \<Longrightarrow> length (toasts (pk_app (passkey_failed tr e a u))) = Suc (length (toasts (pk_app u)))"
  by (cases a; auto simp: Let_def pk_fail_def pk_toast_def)+

section \<open>Properties\<close>

text \<open>A completed sign-in, by password or passkey, installs the new user's identity whole: the
  store that results is the same whoever was signed in before, and a sign-in that fails at any
  step leaves the store untouched.\<close>

theorem login_replaces_identity:
  "auth (snd (useLoginMutation tr now (Fulfilled ()) (Fulfilled p) s)) =
     \<lparr>isAuthenticated = Some True, authenticatedAt = Some now, a_name = Some (cu_name p),
      a_email = Some (cu_email p), a_role = cu_role p, permissions = nullish (cu_permissions p) [],
      permissionsPending = False, hasPassword = cu_has_password p\<rparr> \<and>
   auth (snd (usePasskeyLoginMutation tr now (Fulfilled o1) (Fulfilled c1) (Fulfilled ()) (Fulfilled p) s))
     = auth (snd (useLoginMutation tr now (Fulfilled ()) (Fulfilled p) s)) \<and>
   auth (snd (useLoginMutation tr now (Rejected e) me s)) = auth s \<and>
   auth (snd (useLoginMutation tr now (Fulfilled ()) (Rejected e) s)) = auth s \<and>
   auth (snd (usePasskeyLoginMutation tr now (Rejected e) c v me s)) = auth s"
  by (simp add: useLoginMutation_def usePasskeyLoginMutation_def login_established_def query_call_as_calls
      auth_store_defs Let_def)

definition touches :: "query_key \<Rightarrow> qop \<Rightarrow> bool" where
  "touches k q \<longleftrightarrow> (case q of Invalidate j \<Rightarrow> starts_with k j | RemoveQueries j \<Rightarrow> starts_with k j
     | SetNull j \<Rightarrow> k = j | SetUser j _ \<Rightarrow> k = j | CancelQueries j \<Rightarrow> False | ResetAll \<Rightarrow> True)"

text \<open>
  What is relied on of the query library, the cache and a query that is mounted being parameters: a call leaves every
  entry alone that it does not name, a removed entry is gone, invalidating creates none; and a mounted query shows the
  cached data at once and asks the server only without an entry, or with one that was invalidated or is as old as its
  \<open>staleTime\<close>.
\<close>

record 'd cached =
  cd_data :: 'd
  cd_updatedAt :: int
  cd_invalidated :: bool

definition cached_query_laws ::
  "(qop \<Rightarrow> 'c \<Rightarrow> 'c) \<Rightarrow> ('c \<Rightarrow> query_key \<Rightarrow> 'd cached option) \<Rightarrow> (query \<Rightarrow> int \<Rightarrow> 'c \<Rightarrow> 'd option \<times> request list) \<Rightarrow> bool" where
  "cached_query_laws run get mount \<longleftrightarrow>
     (\<forall>q k c. \<not> touches k q \<longrightarrow> get (run q c) k = get c k) \<and>
     (\<forall>k k' c. starts_with k k' \<longrightarrow> get (run (RemoveQueries k') c) k = None) \<and>
     (\<forall>k k' c. get c k = None \<longrightarrow> get (run (Invalidate k') c) k = None) \<and>
     (\<forall>q t c. q_enabled q \<longrightarrow> mount q t c = (case get c (q_key q) of None \<Rightarrow> (None, [q_request q])
        | Some e \<Rightarrow> (Some (cd_data e),
            if cd_invalidated e \<or> int (q_stale q) \<le> t - cd_updatedAt e then [q_request q] else [])))"

text \<open>The ways a session ends in this tab, and the two ways the next one begins.\<close>

definition session_endings :: "translator \<Rightarrow> int \<Rightarrow> unit outcome \<Rightarrow> string \<Rightarrow> string option \<Rightarrow> app \<Rightarrow> app list" where
  "session_endings tr now answer token pw s =
     [snd (run_mutation tr (useLogoutMutation now) answer s), snd (run_mutation tr (useLogoutAllMutation now) answer s),
      snd (run_mutation tr (useConfirmDeleteMyAccountMutation now token) (Fulfilled ()) s),
      snd (run_mutation tr (useDeleteMyAccountMutation now pw) (Fulfilled None) s), session_over now s]"

definition sign_ins :: "translator \<Rightarrow> int \<Rightarrow> json \<Rightarrow> json \<Rightarrow> current_user \<Rightarrow> app \<Rightarrow> app list" where
  "sign_ins tr now options credential p s =
     [snd (useLoginMutation tr now (Fulfilled ()) (Fulfilled p) s),
      snd (usePasskeyLoginMutation tr now (Fulfilled options) (Fulfilled credential) (Fulfilled ()) (Fulfilled p) s)]"

lemma ending_calls: "s1 \<in> set (session_endings tr now answer token pw s) \<Longrightarrow> qlog s1 = qlog s @ sign_out_calls now s"
  unfolding sign_out_calls_eq
  by (auto simp: session_endings_def run_mutation_def useLogoutMutation_def useLogoutAllMutation_def nothing_def
      useConfirmDeleteMyAccountMutation_def useDeleteMyAccountMutation_def mutation_of_def session_over_def Let_def
      clearMyAccountSessionCaches_def split: outcome.splits)

lemma sign_in_calls:
  assumes "s2 \<in> set (sign_ins tr now options credential p s1)"
  shows "qlog s2 = qlog s1 @ [CancelQueries CURRENT_USER_QUERY_KEY, SetUser CURRENT_USER_QUERY_KEY p,
      Invalidate SESSIONS_QUERY_KEY, Invalidate MY_POLICIES_QUERY_KEY, Invalidate MY_AUTHORIZATION_AUDIT_LOG_QUERY_KEY,
      Invalidate MY_SECURITY_AUDIT_LOG_QUERY_KEY]"
    and "a_email (auth s2) = Some (cu_email p)"
  using assms
  by (auto simp: sign_ins_def useLoginMutation_def usePasskeyLoginMutation_def login_established_def query_call_as_calls
      auth_store_defs Let_def)

text \<open>A call list that never touches a key leaves its entry; one that removes it and then at most invalidates it
  leaves none.\<close>

lemma untouched_kept:
  "cached_query_laws run get mount \<Longrightarrow> list_all (\<lambda>q. \<not> touches k q) qs \<Longrightarrow> get (run_calls run qs c) k = get c k"
proof (induction qs arbitrary: c)
  case (Cons q qs)
  have "get (run q c) k = get c k" using Cons.prems by (simp add: cached_query_laws_def)
  moreover have "get (run_calls run qs (run q c)) k = get (run q c) k" using Cons.prems by (intro Cons.IH) simp_all
  ultimately show ?case by (simp add: run_calls_def)
qed (simp add: run_calls_def)

lemma gone_stays_gone:
  "cached_query_laws run get mount \<Longrightarrow> list_all (\<lambda>q. \<not> touches k q \<or> (\<exists>j. q = Invalidate j \<or> q = RemoveQueries j)) qs \<Longrightarrow>
     get c k = None \<Longrightarrow> get (run_calls run qs c) k = None"
proof (induction qs arbitrary: c)
  case (Cons q qs)
  have laws: "\<not> touches k q \<Longrightarrow> get (run q c) k = get c k"
    "starts_with k j \<Longrightarrow> get (run (RemoveQueries j) c) k = None" "get c k = None \<Longrightarrow> get (run (Invalidate j) c) k = None" for j
    using Cons.prems(1) unfolding cached_query_laws_def by blast+
  have "\<not> touches k q \<or> (\<exists>j. q = Invalidate j \<or> q = RemoveQueries j \<and> starts_with k j)"
    using Cons.prems(2) by (auto simp: touches_def)
  then have "get (run q c) k = None" using Cons.prems(3) laws by auto
  with Cons.prems have "get (run_calls run qs (run q c)) k = None" by (intro Cons.IH) simp_all
  then show ?case by (simp add: run_calls_def)
qed (simp add: run_calls_def)

text \<open>C25: The next user of the browser is shown the direct permissions of the previous one. However the session ended
  (sign-out here or everywhere, answered or not, deletion of the account, or the interceptor giving it up), when somebody
  else then signs in, by password or by passkey, the page that asks for the caller's own direct permissions shows the list
  cached for the previous user, and while that is under 30 seconds old and not invalidated, the server is not even asked;
  whereas the caller's own policies are asked for anew. (The query cache is a parameter, with the documented behaviour of
  the library as its law.)\<close>

theorem own_permissions_survive_relogin:
  assumes "cached_query_laws run get mount" "get c MY_PERMISSIONS_QUERY_KEY = Some e"
    and "s1 \<in> set (session_endings tr t0 answer token pw s)" "s2 \<in> set (sign_ins tr t1 options credential p s1)"
  shows "let c' = run_calls run (drop (length (qlog s)) (qlog s2)) c in
     a_email (auth s2) = Some (cu_email p) \<and>
     mount (useMyPermissionsQuery True) t c' = (Some (cd_data e),
       if cd_invalidated e \<or> 30000 \<le> t - cd_updatedAt e then [getMyPermissionsApi] else []) \<and>
     mount (useMyPoliciesQuery True) t c' = (None, [getMyPoliciesApi])"
proof -
  let ?in = "[CancelQueries CURRENT_USER_QUERY_KEY, SetUser CURRENT_USER_QUERY_KEY p,
      Invalidate SESSIONS_QUERY_KEY, Invalidate MY_POLICIES_QUERY_KEY, Invalidate MY_AUTHORIZATION_AUDIT_LOG_QUERY_KEY,
      Invalidate MY_SECURITY_AUDIT_LOG_QUERY_KEY]"
  let ?c = "run_calls run (drop (length (qlog s)) (qlog s2)) c"
  have calls: "drop (length (qlog s)) (qlog s2) = sign_out_calls t0 s @ ?in"
    by (simp add: sign_in_calls(1) [OF assms(4)] ending_calls [OF assms(3)])
  have kept: "get ?c MY_PERMISSIONS_QUERY_KEY = Some e" unfolding calls sign_out_calls_eq
    by (subst untouched_kept [OF assms(1)]) (use assms(2) in \<open>simp_all add: touches_def qkey_simps starts_with_def\<close>)
  let ?out = "[SetNull CURRENT_USER_QUERY_KEY, RemoveQueries SESSIONS_QUERY_KEY, RemoveQueries MY_POLICIES_QUERY_KEY]"
  let ?rest = "[RemoveQueries MY_AUTHORIZATION_AUDIT_LOG_QUERY_KEY, RemoveQueries MY_SECURITY_AUDIT_LOG_QUERY_KEY] @ ?in"
  have split: "?c = run_calls run ?rest (run_calls run ?out c)"
    unfolding calls sign_out_calls_eq run_calls_def by simp
  have "get (run_calls run ?out c) MY_POLICIES_QUERY_KEY = None"
    using assms(1) by (simp add: run_calls_def cached_query_laws_def qkey_simps starts_with_def)
  then have gone: "get ?c MY_POLICIES_QUERY_KEY = None" unfolding split
    by (rule gone_stays_gone [OF assms(1), rotated]) (simp add: touches_def qkey_simps starts_with_def)
  have "mount q t ?c = (case get ?c (q_key q) of None \<Rightarrow> (None, [q_request q])
      | Some e \<Rightarrow> (Some (cd_data e), if cd_invalidated e \<or> int (q_stale q) \<le> t - cd_updatedAt e then [q_request q] else []))"
    if "q_enabled q" for q using assms(1) that unfolding cached_query_laws_def by blast
  from this [of "useMyPermissionsQuery True"] this [of "useMyPoliciesQuery True"] kept gone sign_in_calls(2) [OF assms(4)]
  show ?thesis by (simp add: Let_def useMyPermissionsQuery_def useMyPoliciesQuery_def query_of_def DEFAULT_STALE_TIME_def)
qed

definition plain_cache :: "qop \<Rightarrow> (query_key \<Rightarrow> string cached option) \<Rightarrow> query_key \<Rightarrow> string cached option" where
  "plain_cache q c = (case q of RemoveQueries k \<Rightarrow> (\<lambda>k'. if starts_with k' k then None else c k')
     | Invalidate k \<Rightarrow> (\<lambda>k'. if starts_with k' k then map_option (cd_invalidated_update (\<lambda>_. True)) (c k') else c k')
     | SetNull k \<Rightarrow> c(k := None) | SetUser k _ \<Rightarrow> c(k := None) | CancelQueries _ \<Rightarrow> c | ResetAll \<Rightarrow> (\<lambda>_. None))"

definition plain_mount :: "query \<Rightarrow> int \<Rightarrow> (query_key \<Rightarrow> string cached option) \<Rightarrow> string option \<times> request list" where
  "plain_mount q t c = (case c (q_key q) of None \<Rightarrow> (None, [q_request q])
     | Some e \<Rightarrow> (Some (cd_data e), if cd_invalidated e \<or> int (q_stale q) \<le> t - cd_updatedAt e then [q_request q] else []))"

lemma plain_cache_laws: "cached_query_laws plain_cache (\<lambda>c k. c k) plain_mount"
proof -
  have "\<not> touches k q \<longrightarrow> plain_cache q c k = c k" for q k c
    by (cases q) (auto simp: plain_cache_def touches_def)
  then show ?thesis unfolding cached_query_laws_def by (simp add: plain_cache_def plain_mount_def)
qed

lemma own_permissions_survive_relogin_witness:
  "let tr = \<lparr>tr_exists = \<lambda>_. False, tr_text = \<lambda>k _. k\<rparr>;
       p = \<lparr>cu_name = ''Bo'', cu_email = ''bo@x'', cu_role = None, cu_permissions = None, cu_has_password = True,
         cu_created_at = [], cu_active_sessions = 1, cu_brand_color = None\<rparr>;
       c = (\<lambda>_. None)(MY_PERMISSIONS_QUERY_KEY := Some \<lparr>cd_data = ''grants of Ann'', cd_updatedAt = 0, cd_invalidated = False\<rparr>);
       s2 = snd (useLoginMutation tr 9 (Fulfilled ()) (Fulfilled p) (snd (run_mutation tr (useLogoutMutation 5) (Fulfilled ()) initial_app)))
   in plain_mount (useMyPermissionsQuery True) 20 (run_calls plain_cache (drop (length (qlog initial_app)) (qlog s2)) c)
        = (Some ''grants of Ann'', [])"
proof -
  let ?tr = "\<lparr>tr_exists = \<lambda>_. False, tr_text = \<lambda>k _. k\<rparr>"
  let ?p = "\<lparr>cu_name = ''Bo'', cu_email = ''bo@x'', cu_role = None, cu_permissions = None, cu_has_password = True,
         cu_created_at = [], cu_active_sessions = 1, cu_brand_color = None\<rparr>"
  let ?e = "\<lparr>cd_data = ''grants of Ann'', cd_updatedAt = 0, cd_invalidated = False\<rparr>"
  let ?c = "(\<lambda>_. None)(MY_PERMISSIONS_QUERY_KEY := Some ?e)"
  let ?s1 = "snd (run_mutation ?tr (useLogoutMutation 5) (Fulfilled ()) initial_app)"
  have 1: "?s1 \<in> set (session_endings ?tr 5 (Fulfilled ()) [] None initial_app)" by (simp add: session_endings_def)
  have 2: "snd (useLoginMutation ?tr 9 (Fulfilled ()) (Fulfilled ?p) ?s1) \<in> set (sign_ins ?tr 9 JNull JNull ?p ?s1)"
    by (simp add: sign_ins_def)
  have "?c MY_PERMISSIONS_QUERY_KEY = Some ?e" by simp
  from own_permissions_survive_relogin [where c = "?c" and e = "?e" and t = 20, OF plain_cache_laws this 1 2]
  have "plain_mount (useMyPermissionsQuery True) 20 (run_calls plain_cache (drop (length (qlog initial_app))
      (qlog (snd (useLoginMutation ?tr 9 (Fulfilled ()) (Fulfilled ?p) ?s1)))) ?c)
    = (Some (cd_data ?e), if cd_invalidated ?e \<or> 30000 \<le> 20 - cd_updatedAt ?e then [getMyPermissionsApi] else [])"
    unfolding Let_def by (elim conjE)
  then show ?thesis unfolding Let_def by (simp only: cached.simps) simp
qed

text \<open>A passkey change rejected for want of a fresh confirmation is not lost and not reported: it
  is parked as it was, confirming runs exactly that change again, once, and cancelling drops
  it. A rename is never parked, and every other failure is reported by one toast and parks
  nothing.\<close>

theorem step_up_retry:
  "let u1 = passkey_failed tr e a u in
     (if gated a \<and> needsStepUp e
      then stepUpRetry u1 = Some a \<and> pk_app u1 = pk_app u
        \<and> started (resumeAfterStepUp u1) = started u @ [a] \<and> stepUpRetry (resumeAfterStepUp u1) = None
        \<and> started (resumeAfterStepUp (resumeAfterStepUp u1)) = started u @ [a]
        \<and> started (cancelStepUp u1) = started u \<and> stepUpRetry (cancelStepUp u1) = None
      else stepUpRetry u1 = stepUpRetry u \<and> length (toasts (pk_app u1)) = Suc (length (toasts (pk_app u))))"
  using failed_parks [of a e tr u] failed_other [of a e tr u] failed_keeps_started [of tr e a u]
  by (simp add: Let_def resumeAfterStepUp_def cancelStepUp_def mutate_def)

text \<open>The form accepts a password exactly when its meter says Strong: validation reports no error
  iff the strength is Strong, and both hold iff it has eight characters, an upper-case, a
  lower-case letter and a digit.\<close>

lemma password_accepted_iff_strong:
  "(validatePassword pwd t = None \<longleftrightarrow> evaluatePasswordStrength pwd = Strong) \<and>
   (evaluatePasswordStrength pwd = Strong \<longleftrightarrow>
      8 \<le> length pwd \<and> (\<exists>c\<in>set pwd. 65 \<le> ucode c \<and> ucode c \<le> 90) \<and>
      (\<exists>c\<in>set pwd. 97 \<le> ucode c \<and> ucode c \<le> 122) \<and> (\<exists>c\<in>set pwd. 48 \<le> ucode c \<and> ucode c \<le> 57))"
  unfolding validate_iff_rules strength_iff_rules
  by (auto simp: checkPasswordRules_def has_code_in_def list_ex_iff)

text \<open>Ending several sessions reports one outcome per session, in the order given, each that of
  its own request; one failure neither stops nor hides the others.\<close>

lemma bulk_revoke_reports_each:
  assumes "i < length ids"
  shows "let rs = fst (useBulkRevokeSessionsMutation tr ids answer s) in
     map sr_sessionId rs = ids \<and> (sr_ok (rs ! i) \<longleftrightarrow> (\<exists>u. answer i = Fulfilled u)) \<and>
     (sr_error (rs ! i) = None \<longleftrightarrow> sr_ok (rs ! i))"
proof -
  have "map sr_sessionId (fst (useBulkRevokeSessionsMutation tr ids answer s)) = map (\<lambda>i. ids ! i) [0..<length ids]"
    by (simp add: useBulkRevokeSessionsMutation_def comp_def split: outcome.splits)
  then show ?thesis using assms
    by (auto simp: useBulkRevokeSessionsMutation_def Let_def map_nth split: outcome.splits)
qed

lemma bulk_revoke_reports_each_witness:
  "map sr_sessionId (fst (useBulkRevokeSessionsMutation \<lparr>tr_exists = \<lambda>_. False, tr_text = \<lambda>k _. k\<rparr> [4, 9]
      (\<lambda>i. if i = 0 then Rejected (OtherError []) else Fulfilled ()) initial_app)) = [4, 9]"
  using bulk_revoke_reports_each [of 1 "[4, 9]" "\<lparr>tr_exists = \<lambda>_. False, tr_text = \<lambda>k _. k\<rparr>"
      "\<lambda>i. if i = 0 then Rejected (OtherError []) else Fulfilled ()" initial_app]
  by (simp add: Let_def)

end
