(* ===== verification/Toaster.thy ===== *)
theory Toaster
  imports Collections
begin

text \<open>
  The toast queue (\<open>ui/toaster/toasterInstance.ts\<close>). Timers are explicit: a toast is
  dismissed by its auto-dismiss timer and removed by its exit timer, each a step that can be
  taken while the timer is set.
\<close>

datatype kind = TSuccess | TError | TWarning | TInfo | TLoading

text \<open>\<open>duration\<close>: absent, a number of milliseconds, or Infinity.\<close>

datatype duration = Ms int | Forever

record toast_options =
  o_title :: string
  o_description :: "string option"
  o_type :: "kind option"
  o_duration :: "duration option"
  o_action :: "string option"

record app_toast = toast_options +
  t_id :: nat
  t_type :: kind
  t_exiting :: bool

record toaster =
  nextId :: nat
  queue :: "app_toast list"
  timers :: "nat list"
  exitTimers :: "nat list"
  actionToastIds :: "nat list"

definition initial_toaster :: toaster where
  "initial_toaster = \<lparr>nextId = 1, queue = [], timers = [], exitTimers = [], actionToastIds = []\<rparr>"

definition find_toast :: "nat \<Rightarrow> toaster \<Rightarrow> app_toast option" where
  "find_toast i s = find (\<lambda>t. t_id t = i) (queue s)"

definition clearTimer :: "nat \<Rightarrow> toaster \<Rightarrow> toaster" where
  "clearTimer i s = s\<lparr>timers := set_delete i (timers s)\<rparr>"

definition dismissToast :: "nat \<Rightarrow> toaster \<Rightarrow> toaster" where
  "dismissToast i s0 =
     (let s = clearTimer i s0 in
      case find_toast i s of
        None \<Rightarrow> s
      | Some existing \<Rightarrow>
          if t_exiting existing then s
          else s\<lparr>queue := map (\<lambda>t. if t_id t = i then t\<lparr>t_exiting := True\<rparr> else t) (queue s),
                 exitTimers := set_add i (exitTimers s)\<rparr>)"

definition lifetime :: "duration option \<Rightarrow> duration" where
  "lifetime d = nullish d (Ms 5000)"

definition armAutoDismiss :: "nat \<Rightarrow> duration option \<Rightarrow> toaster \<Rightarrow> toaster" where
  "armAutoDismiss i d s = (case lifetime d of
       Forever \<Rightarrow> s
     | Ms n \<Rightarrow> if 0 < n then s\<lparr>timers := set_add i (timers s)\<rparr> else s)"

definition create :: "toast_options \<Rightarrow> toaster \<Rightarrow> nat \<times> toaster" where
  "create opts s =
     (let s1 = foldl (\<lambda>s i. dismissToast i s) s (actionToastIds s);
          s2 = s1\<lparr>actionToastIds := []\<rparr>;
          i = nextId s2;
          t = \<lparr>o_title = o_title opts, o_description = o_description opts, o_type = o_type opts,
               o_duration = o_duration opts, o_action = o_action opts,
               t_id = i, t_type = nullish (o_type opts) TSuccess, t_exiting = False\<rparr>;
          s3 = s2\<lparr>nextId := Suc i, queue := queue s2 @ [t]\<rparr>
      in (i, armAutoDismiss i (o_duration opts) s3))"

text \<open>\<open>{ ...existing, ...options }\<close>: \<open>given\<close> says which optional members the object literal has;
  a member it lacks keeps the existing value.\<close>

record toast_patch =
  p_title :: string
  p_description :: "string option option"
  p_type :: "kind option"
  p_duration :: "duration option option"
  p_action :: "string option option"

definition update_toast :: "nat \<Rightarrow> toast_patch \<Rightarrow> toaster \<Rightarrow> toaster" where
  "update_toast i p s =
     (case find_toast i s of
        None \<Rightarrow> s
      | Some existing \<Rightarrow>
          (let s1 = clearTimer i s;
               updated = existing\<lparr>o_title := p_title p,
                   o_description := nullish (p_description p) (o_description existing),
                   o_duration := nullish (p_duration p) (o_duration existing),
                   o_action := nullish (p_action p) (o_action existing),
                   t_id := i, t_type := nullish (p_type p) TSuccess\<rparr>;
               s2 = s1\<lparr>queue := map (\<lambda>t. if t_id t = i then updated else t) (queue s1)\<rparr>
           in armAutoDismiss i (o_duration updated) s2))"

definition beginAction :: "nat \<Rightarrow> toaster \<Rightarrow> toaster" where
  "beginAction i s =
     (case find_toast i s of
        None \<Rightarrow> s
      | Some existing \<Rightarrow>
          update_toast i \<lparr>p_title = o_title existing, p_description = Some (o_description existing),
              p_type = Some TLoading, p_duration = Some (Some (Ms 15000)), p_action = Some None\<rparr>
            (s\<lparr>actionToastIds := set_add i (actionToastIds s)\<rparr>))"

definition dismiss_all :: "toaster \<Rightarrow> toaster" where
  "dismiss_all s =
     (let s1 = s\<lparr>timers := [], exitTimers := []\<rparr> in
      if queue s1 = [] then s1
      else s1\<lparr>queue := map (\<lambda>t. t\<lparr>t_exiting := True\<rparr>) (queue s1), exitTimers := js_set (map t_id (queue s1))\<rparr>)"

definition dismiss :: "nat option \<Rightarrow> toaster \<Rightarrow> toaster" where
  "dismiss i s = (case i of None \<Rightarrow> dismiss_all s
     | Some j \<Rightarrow> dismissToast j (s\<lparr>actionToastIds := set_delete j (actionToastIds s)\<rparr>))"

text \<open>Timers firing. An auto-dismiss timer that fires leaves its entry for \<open>clearTimer\<close> to remove.\<close>

definition fire_timer :: "nat \<Rightarrow> toaster \<Rightarrow> toaster" where
  "fire_timer i s = (if i \<in> set (timers s) then dismissToast i s else s)"

definition fire_exit :: "nat \<Rightarrow> toaster \<Rightarrow> toaster" where
  "fire_exit i s =
     (if i \<in> set (exitTimers s)
      then s\<lparr>exitTimers := set_delete i (exitTimers s), queue := filter (\<lambda>t. t_id t \<noteq> i) (queue s)\<rparr> else s)"

datatype toast_op = Create toast_options | BeginAction nat | UpdateToast nat toast_patch
  | Dismiss "nat option" | FireTimer nat | FireExit nat

fun toast_step :: "toast_op \<Rightarrow> toaster \<Rightarrow> toaster" where
  "toast_step (Create opts) s = snd (create opts s)"
| "toast_step (BeginAction i) s = beginAction i s"
| "toast_step (UpdateToast i p) s = update_toast i p s"
| "toast_step (Dismiss i) s = dismiss i s"
| "toast_step (FireTimer i) s = fire_timer i s"
| "toast_step (FireExit i) s = fire_exit i s"

definition toast_run :: "toast_op list \<Rightarrow> toaster" where
  "toast_run ops = foldl (\<lambda>s op. toast_step op s) initial_toaster ops"

text \<open>\<open>markToastInteraction\<close> and \<open>isToastInteractionActive\<close>: one second of grace.\<close>

definition markToastInteraction :: "int \<Rightarrow> int" where
  "markToastInteraction now = now + 1000"

definition isToastInteractionActive :: "int \<Rightarrow> int \<Rightarrow> bool" where
  "isToastInteractionActive until now \<longleftrightarrow> now < until"

section \<open>No toast is stuck\<close>

definition lasts :: "app_toast \<Rightarrow> bool" where
  "lasts t \<longleftrightarrow> (case lifetime (o_duration t) of Forever \<Rightarrow> True | Ms n \<Rightarrow> n \<le> 0)"

text \<open>Identifiers are unique and below the counter; an exiting toast has its exit timer, any other
  has its auto-dismiss timer unless it is meant to last.\<close>

definition leaves :: "toaster \<Rightarrow> app_toast \<Rightarrow> bool" where
  "leaves s t \<longleftrightarrow> t_id t < nextId s \<and>
     (if t_exiting t then t_id t \<in> set (exitTimers s) else t_id t \<in> set (timers s) \<or> lasts t)"

definition toast_inv :: "toaster \<Rightarrow> bool" where
  "toast_inv s \<longleftrightarrow> distinct (map t_id (queue s)) \<and> (\<forall>t\<in>set (queue s). leaves s t)"

lemma find_toast_Some: "find_toast i s = Some t \<Longrightarrow> t \<in> set (queue s) \<and> t_id t = i"
  by (auto simp: find_toast_def find_Some_iff)

lemma find_toast_None: "find_toast i s = None \<Longrightarrow> t \<in> set (queue s) \<Longrightarrow> t_id t \<noteq> i"
  by (auto simp: find_toast_def find_None_iff)

lemma toast_inv_unique: "toast_inv s \<Longrightarrow> t \<in> set (queue s) \<Longrightarrow> t' \<in> set (queue s) \<Longrightarrow> t_id t = t_id t' \<Longrightarrow> t = t'"
  by (auto simp: toast_inv_def distinct_map inj_on_def)

lemma exit_ids [simp]: "t_id \<circ> (\<lambda>t. if t_id t = i then t\<lparr>t_exiting := True\<rparr> else t) = t_id"
  by auto

lemma dismiss_inv: "toast_inv s \<Longrightarrow> toast_inv (dismissToast i s)"
proof -
  assume inv: "toast_inv s"
  show ?thesis
  proof (cases "find_toast i s")
    case None
    then show ?thesis using inv find_toast_None [OF None]
      by (auto simp: dismissToast_def Let_def clearTimer_def find_toast_def toast_inv_def leaves_def)
  next
    case (Some e)
    note e = find_toast_Some [OF Some]
    have same: "find_toast i (clearTimer i s) = Some e" using Some by (simp add: find_toast_def clearTimer_def)
    show ?thesis
    proof (cases "t_exiting e")
      case True
      then have "\<And>t. t \<in> set (queue s) \<Longrightarrow> t_id t = i \<Longrightarrow> t_exiting t"
        using e toast_inv_unique [OF inv] by metis
      with inv True same show ?thesis
        by (auto simp: dismissToast_def Let_def toast_inv_def leaves_def clearTimer_def)
    next
      case False
      with inv same show ?thesis
        by (auto simp: dismissToast_def Let_def toast_inv_def leaves_def clearTimer_def)
    qed
  qed
qed

lemma arm_inv:
  assumes "distinct (map t_id (queue s))" "\<And>t. t \<in> set (queue s) \<Longrightarrow> t_id t \<noteq> i \<Longrightarrow> leaves s t"
    and "\<And>t. t \<in> set (queue s) \<Longrightarrow> t_id t = i \<Longrightarrow>
           t_id t < nextId s \<and> o_duration t = d \<and> (t_exiting t \<longrightarrow> i \<in> set (exitTimers s))"
  shows "toast_inv (armAutoDismiss i d s)"
proof -
  have "leaves (armAutoDismiss i d s) t" if t: "t \<in> set (queue s)" for t
  proof (cases "t_id t = i")
    case True
    with assms(3) [OF t True] show ?thesis
      by (auto simp: armAutoDismiss_def leaves_def lasts_def split: duration.splits)
  next
    case False
    with assms(2) [OF t False] show ?thesis
      by (auto simp: armAutoDismiss_def leaves_def split: duration.splits)
  qed
  with assms(1) show ?thesis
    by (auto simp: toast_inv_def armAutoDismiss_def split: duration.splits)
qed

lemma dismiss_next [simp]: "nextId (dismissToast i s) = nextId s"
  by (auto simp: dismissToast_def Let_def clearTimer_def split: option.splits)

lemma dismiss_fold_inv:
  "toast_inv s \<Longrightarrow> toast_inv (foldl (\<lambda>s i. dismissToast i s) s ids)
     \<and> nextId (foldl (\<lambda>s i. dismissToast i s) s ids) = nextId s"
  by (induction ids arbitrary: s) (simp_all add: dismiss_inv)

lemma toast_inv_frame:
  "toast_inv s \<Longrightarrow> toast_inv (s\<lparr>actionToastIds := A\<rparr>)"
  by (simp add: toast_inv_def leaves_def)

lemma create_inv: assumes "toast_inv s" shows "toast_inv (snd (create opts s))"
proof -
  let ?s1 = "foldl (\<lambda>s i. dismissToast i s) s (actionToastIds s)"
  have inv: "toast_inv ?s1" and nx: "nextId ?s1 = nextId s" using dismiss_fold_inv [OF assms] by simp_all
  then have fresh: "\<And>t. t \<in> set (queue ?s1) \<Longrightarrow> t_id t < nextId ?s1 \<and> leaves ?s1 t"
    by (auto simp: toast_inv_def leaves_def)
  have "distinct (map t_id (queue ?s1))" using inv by (simp add: toast_inv_def)
  with fresh show ?thesis
    by (fastforce simp: create_def Let_def leaves_def intro!: arm_inv)
qed

lemma update_inv: assumes "toast_inv s" shows "toast_inv (update_toast i p s)"
proof (cases "find_toast i s")
  case None
  with assms show ?thesis by (simp add: update_toast_def)
next
  case (Some e)
  note e = find_toast_Some [OF Some]
  let ?u = "e\<lparr>o_title := p_title p, o_description := nullish (p_description p) (o_description e),
     o_duration := nullish (p_duration p) (o_duration e), o_action := nullish (p_action p) (o_action e),
     t_id := i, t_type := nullish (p_type p) TSuccess\<rparr>"
  have ids: "t_id \<circ> (\<lambda>t. if t_id t = i then ?u else t) = t_id" by auto
  have le: "leaves s e" using assms e by (auto simp: toast_inv_def)
  show ?thesis
    unfolding update_toast_def Some option.case Let_def
  proof (rule arm_inv)
    show "distinct (map t_id (queue (clearTimer i s\<lparr>queue := map (\<lambda>t. if t_id t = i then ?u else t) (queue (clearTimer i s))\<rparr>)))"
      using assms by (simp add: clearTimer_def ids toast_inv_def)
  qed (use assms le e in \<open>auto simp: clearTimer_def toast_inv_def leaves_def split: if_splits\<close>)
qed

lemma dismiss_all_inv: assumes "toast_inv s" shows "toast_inv (dismiss_all s)"
proof (cases "queue s = []")
  case True
  then show ?thesis by (simp add: dismiss_all_def Let_def toast_inv_def)
next
  case False
  have ids: "t_id \<circ> (\<lambda>t. t\<lparr>t_exiting := True\<rparr>) = t_id" by auto
  from False assms show ?thesis
    by (simp add: dismiss_all_def Let_def toast_inv_def leaves_def ids)
qed

lemma toast_step_inv: "toast_inv s \<Longrightarrow> toast_inv (toast_step op s)"
proof (cases op)
  case (Create opts)
  then show "toast_inv s \<Longrightarrow> ?thesis" by (simp add: create_inv)
next
  case (BeginAction i)
  then show "toast_inv s \<Longrightarrow> ?thesis"
    by (auto simp: beginAction_def toast_inv_frame intro!: update_inv split: option.splits)
next
  case (UpdateToast i p)
  then show "toast_inv s \<Longrightarrow> ?thesis" by (simp add: update_inv)
next
  case (Dismiss i)
  then show "toast_inv s \<Longrightarrow> ?thesis"
    by (cases i) (simp_all add: dismiss_def dismiss_all_inv dismiss_inv toast_inv_frame)
next
  case (FireTimer i)
  then show "toast_inv s \<Longrightarrow> ?thesis" by (simp add: fire_timer_def dismiss_inv)
next
  case (FireExit i)
  then show "toast_inv s \<Longrightarrow> ?thesis"
    by (auto simp: fire_exit_def toast_inv_def leaves_def distinct_map inj_on_def)
qed

lemma toast_run_inv: "toast_inv (toast_run ops)"
proof -
  have "toast_inv s \<Longrightarrow> toast_inv (foldl (\<lambda>s op. toast_step op s) s ops)" for s
    by (induction ops arbitrary: s) (simp_all add: toast_step_inv)
  moreover have "toast_inv initial_toaster" by (simp add: toast_inv_def initial_toaster_def)
  ultimately show ?thesis by (simp add: toast_run_def)
qed

lemma fire_exit_gone: "i \<in> set (exitTimers s) \<Longrightarrow> i \<notin> t_id ` set (queue (fire_exit i s))"
  by (auto simp: fire_exit_def)

section \<open>Toasts that no timer removes\<close>

text \<open>Exit timers belong to toasts that were created.\<close>

definition exits_below :: "toaster \<Rightarrow> bool" where
  "exits_below s \<longleftrightarrow> (\<forall>i\<in>set (exitTimers s). i < nextId s)"

lemma dismiss_below: "toast_inv s \<Longrightarrow> exits_below s \<Longrightarrow> exits_below (dismissToast i s)"
proof -
  assume inv: "toast_inv s" and b: "exits_below s"
  show ?thesis
  proof (cases "find_toast i s")
    case None
    then have "find_toast i (clearTimer i s) = None" by (simp add: find_toast_def clearTimer_def)
    then show ?thesis using b by (simp add: dismissToast_def Let_def exits_below_def clearTimer_def)
  next
    case (Some e)
    then have f: "find_toast i (clearTimer i s) = Some e" by (simp add: find_toast_def clearTimer_def)
    have "i < nextId s" using find_toast_Some [OF Some] inv by (auto simp: toast_inv_def leaves_def)
    with f b show ?thesis by (auto simp: dismissToast_def Let_def exits_below_def clearTimer_def)
  qed
qed

lemma dismiss_fold_below:
  "toast_inv s \<Longrightarrow> exits_below s \<Longrightarrow> exits_below (foldl (\<lambda>s i. dismissToast i s) s ids)"
  by (induction ids arbitrary: s) (simp_all add: dismiss_below dismiss_inv)

lemma arm_below [simp]: "exits_below (armAutoDismiss i d s) = exits_below s"
  by (auto simp: armAutoDismiss_def exits_below_def split: duration.splits)

lemma update_below: "exits_below s \<Longrightarrow> exits_below (update_toast i p s)"
  by (auto simp: update_toast_def Let_def exits_below_def clearTimer_def armAutoDismiss_def split: option.splits duration.splits)

lemma create_below: "toast_inv s \<Longrightarrow> exits_below s \<Longrightarrow> exits_below (snd (create opts s))"
proof -
  assume inv: "toast_inv s" and b: "exits_below s"
  let ?s1 = "foldl (\<lambda>s i. dismissToast i s) s (actionToastIds s)"
  have "exits_below ?s1" using dismiss_fold_below [OF inv b] .
  then show ?thesis unfolding create_def Let_def snd_conv arm_below by (auto simp: exits_below_def)
qed

lemma dismiss_all_below: "toast_inv s \<Longrightarrow> exits_below (dismiss_all s)"
  by (auto simp: dismiss_all_def Let_def exits_below_def toast_inv_def leaves_def)

lemma toast_step_below: "toast_inv s \<Longrightarrow> exits_below s \<Longrightarrow> exits_below (toast_step op s)"
proof (cases op)
  case (Create opts)
  then show "toast_inv s \<Longrightarrow> exits_below s \<Longrightarrow> ?thesis" by (simp add: create_below)
next
  case (BeginAction i)
  have "exits_below s \<Longrightarrow> exits_below (s\<lparr>actionToastIds := A\<rparr>)" for A by (simp add: exits_below_def)
  with BeginAction show "toast_inv s \<Longrightarrow> exits_below s \<Longrightarrow> ?thesis"
    by (auto simp: beginAction_def intro!: update_below split: option.splits)
next
  case (UpdateToast i p)
  then show "toast_inv s \<Longrightarrow> exits_below s \<Longrightarrow> ?thesis" by (simp add: update_below)
next
  case (Dismiss i)
  have "exits_below s \<Longrightarrow> exits_below (s\<lparr>actionToastIds := A\<rparr>)" for A by (simp add: exits_below_def)
  with Dismiss show "toast_inv s \<Longrightarrow> exits_below s \<Longrightarrow> ?thesis"
    by (cases i) (simp_all add: dismiss_def dismiss_all_below dismiss_below toast_inv_frame)
next
  case (FireTimer i)
  then show "toast_inv s \<Longrightarrow> exits_below s \<Longrightarrow> ?thesis" by (simp add: fire_timer_def dismiss_below)
next
  case (FireExit i)
  then show "toast_inv s \<Longrightarrow> exits_below s \<Longrightarrow> ?thesis" by (auto simp: fire_exit_def exits_below_def)
qed

lemma toast_run_below: "exits_below (toast_run ops)"
proof -
  have "toast_inv s \<and> exits_below s \<Longrightarrow> toast_inv (foldl (\<lambda>s op. toast_step op s) s ops)
      \<and> exits_below (foldl (\<lambda>s op. toast_step op s) s ops)" for s
    by (induction ops arbitrary: s) (simp_all add: toast_step_inv toast_step_below)
  moreover have "toast_inv initial_toaster" "exits_below initial_toaster"
    by (simp_all add: toast_inv_def initial_toaster_def exits_below_def)
  ultimately show ?thesis by (simp add: toast_run_def)
qed

text \<open>\<open>pinned t s\<close>: the toast is on screen, and neither kind of timer is set for it.\<close>

definition pinned :: "app_toast \<Rightarrow> toaster \<Rightarrow> bool" where
  "pinned t s \<longleftrightarrow> t \<in> set (queue s) \<and> \<not> t_exiting t \<and> t_id t \<notin> set (timers s) \<and> t_id t \<notin> set (exitTimers s)"

fun timer_op :: "toast_op \<Rightarrow> bool" where
  "timer_op (FireTimer i) = True"
| "timer_op (FireExit i) = True"
| "timer_op _ = False"

lemma pinned_step: "timer_op op \<Longrightarrow> pinned t s \<Longrightarrow> pinned t (toast_step op s)"
proof (cases op)
  case (FireTimer i)
  show "pinned t s \<Longrightarrow> ?thesis"
  proof (cases "i \<in> set (timers s)")
    case True
    moreover assume "pinned t s"
    ultimately show ?thesis
      by (auto simp: FireTimer fire_timer_def pinned_def dismissToast_def Let_def clearTimer_def image_iff split: option.splits)
  qed (simp add: FireTimer fire_timer_def)
next
  case (FireExit i)
  then show "pinned t s \<Longrightarrow> ?thesis" by (auto simp: fire_exit_def pinned_def)
qed simp_all

lemma pinned_timers: "list_all timer_op ops \<Longrightarrow> pinned t s \<Longrightarrow> pinned t (foldl (\<lambda>s op. toast_step op s) s ops)"
  by (induction ops arbitrary: s) (simp_all add: pinned_step)

text \<open>Created and then updated by a patch without a duration, a toast that never expires stays so.\<close>

lemma create_queue:
  "\<exists>q. queue (snd (create opts s)) = q @ [\<lparr>o_title = o_title opts, o_description = o_description opts,
       o_type = o_type opts, o_duration = o_duration opts, o_action = o_action opts,
       t_id = nextId s, t_type = nullish (o_type opts) TSuccess, t_exiting = False\<rparr>]"
  "fst (create opts s) = nextId s" "nextId (snd (create opts s)) = Suc (nextId s)"
proof -
  have nx: "nextId (foldl (\<lambda>s i. dismissToast i s) s ids) = nextId s" for ids
    by (induction ids arbitrary: s) simp_all
  have arm: "queue (armAutoDismiss i d s') = queue s'" "nextId (armAutoDismiss i d s') = nextId s'" for i d s'
    by (auto simp: armAutoDismiss_def split: duration.splits)
  show "\<exists>q. queue (snd (create opts s)) = q @ [\<lparr>o_title = o_title opts, o_description = o_description opts,
       o_type = o_type opts, o_duration = o_duration opts, o_action = o_action opts,
       t_id = nextId s, t_type = nullish (o_type opts) TSuccess, t_exiting = False\<rparr>]"
    by (simp add: create_def Let_def arm nx)
  show "fst (create opts s) = nextId s" "nextId (snd (create opts s)) = Suc (nextId s)"
    by (simp_all add: create_def Let_def arm nx)
qed

lemma fold_dismiss_exits:
  "i \<in> set (exitTimers (foldl (\<lambda>s i. dismissToast i s) s ids)) \<Longrightarrow> exits_below s \<Longrightarrow> toast_inv s \<Longrightarrow> i < nextId s"
  using dismiss_fold_below [of s ids] dismiss_fold_inv [of s ids] by (auto simp: exits_below_def)

lemma unending_update_pinned:
  assumes inv: "toast_inv s" and below: "exits_below s"
    and opts: "o_duration opts = Some Forever" and patch: "p_duration p = None"
  shows "\<exists>t. pinned t (update_toast (fst (create opts s)) p (snd (create opts s))) \<and> t_id t = fst (create opts s)
     \<and> o_title t = p_title p"
proof -
  let ?s1 = "snd (create opts s)" and ?i = "nextId s"
  obtain q where q: "queue ?s1 = q @ [\<lparr>o_title = o_title opts, o_description = o_description opts,
       o_type = o_type opts, o_duration = o_duration opts, o_action = o_action opts,
       t_id = ?i, t_type = nullish (o_type opts) TSuccess, t_exiting = False\<rparr>]"
    using create_queue(1) by blast
  have "distinct (map t_id (queue ?s1))" using create_inv [OF inv] by (simp add: toast_inv_def)
  then have "?i \<notin> t_id ` set q" by (simp add: q)
  then have find: "find_toast ?i ?s1 = Some \<lparr>o_title = o_title opts, o_description = o_description opts,
       o_type = o_type opts, o_duration = o_duration opts, o_action = o_action opts,
       t_id = ?i, t_type = nullish (o_type opts) TSuccess, t_exiting = False\<rparr>"
    unfolding find_toast_def q by (induction q) auto
  have "exitTimers ?s1 = exitTimers (foldl (\<lambda>s i. dismissToast i s) s (actionToastIds s))"
    by (auto simp: create_def Let_def armAutoDismiss_def split: duration.splits)
  then have noexit: "?i \<notin> set (exitTimers ?s1)" using fold_dismiss_exits [OF _ below inv] by fastforce
  let ?t = "\<lparr>o_title = p_title p, o_description = nullish (p_description p) (o_description opts),
       o_type = o_type opts, o_duration = Some Forever, o_action = nullish (p_action p) (o_action opts),
       t_id = ?i, t_type = nullish (p_type p) TSuccess, t_exiting = False\<rparr>"
  have upd: "update_toast ?i p ?s1 = (clearTimer ?i ?s1)\<lparr>queue := map (\<lambda>t. if t_id t = ?i then ?t else t) (queue ?s1)\<rparr>"
    unfolding update_toast_def find option.case Let_def
    by (simp add: opts patch nullish_def armAutoDismiss_def lifetime_def clearTimer_def)
  have "pinned ?t (update_toast ?i p ?s1)"
    unfolding upd pinned_def using noexit by (simp add: clearTimer_def q)
  moreover have "t_id ?t = ?i" "o_title ?t = p_title p" by simp_all
  ultimately show ?thesis unfolding create_queue(2) by blast
qed

section \<open>Properties\<close>

text \<open>C32: Whatever sequence of calls and timers led there, toast identifiers are unique, and every toast
  on screen is on its way out: an exiting one has its exit timer, and any other has its
  auto-dismiss timer unless its duration is Infinity or not positive. Taking those timers
  removes it from the queue.\<close>

theorem no_toast_stuck:
  assumes "t \<in> set (queue (toast_run ops))"
  shows "distinct (map t_id (queue (toast_run ops))) \<and>
     (t_exiting t \<longrightarrow> t_id t \<notin> t_id ` set (queue (fire_exit (t_id t) (toast_run ops)))) \<and>
     (\<not> t_exiting t \<and> \<not> lasts t \<longrightarrow>
        t_id t \<notin> t_id ` set (queue (fire_exit (t_id t) (fire_timer (t_id t) (toast_run ops)))))"
proof -
  let ?s = "toast_run ops"
  note inv = toast_run_inv [of ops]
  have lv: "leaves ?s t" and d: "distinct (map t_id (queue ?s))" using inv assms by (auto simp: toast_inv_def)
  have "t_id t \<notin> t_id ` set (queue (fire_exit (t_id t) ?s))" if "t_exiting t"
    using lv that by (intro fire_exit_gone) (simp add: leaves_def)
  moreover have "t_id t \<notin> t_id ` set (queue (fire_exit (t_id t) (fire_timer (t_id t) ?s)))"
    if "\<not> t_exiting t" "\<not> lasts t"
  proof -
    from lv that have timer: "t_id t \<in> set (timers ?s)" by (auto simp: leaves_def)
    obtain e where e: "find_toast (t_id t) ?s = Some e"
      using assms find_toast_None by (cases "find_toast (t_id t) ?s") blast+
    then have "e = t" using find_toast_Some [OF e] assms toast_inv_unique [OF inv] by metis
    with e have "find_toast (t_id t) (clearTimer (t_id t) ?s) = Some t" by (simp add: find_toast_def clearTimer_def)
    with timer that(1) have "t_id t \<in> set (exitTimers (fire_timer (t_id t) ?s))"
      by (simp add: fire_timer_def dismissToast_def Let_def)
    then show ?thesis by (rule fire_exit_gone)
  qed
  ultimately show ?thesis using d by blast
qed

definition plain_toast :: "string \<Rightarrow> toast_options" where
  "plain_toast title = \<lparr>o_title = title, o_description = None, o_type = None, o_duration = None, o_action = None\<rparr>"

lemma no_toast_stuck_witness:
  "1 \<notin> t_id ` set (queue (fire_exit 1 (fire_timer 1 (toast_run [Create (plain_toast ''Saved'')]))))"
proof -
  obtain t where t: "queue (toast_run [Create (plain_toast ''Saved'')]) = [t]" "t_id t = 1" "\<not> t_exiting t" "\<not> lasts t"
    by (auto simp: toast_run_def create_def Let_def initial_toaster_def plain_toast_def armAutoDismiss_def
        lifetime_def nullish_def lasts_def)
  then show ?thesis using no_toast_stuck [of t "[Create (plain_toast ''Saved'')]"] by simp
qed

end
