(* ===== verification/Selection.thy ===== *)
theory Selection
  imports Collections
begin

text \<open>
  Small UI state hooks several pages share: row selection
  (\<open>ui/DataTable/DataTableSelection.ts\<close>), the sort toggle (\<open>useSortState.ts\<close>), the page
  reset (\<open>usePageResetOn.ts\<close>), the resend cooldown (\<open>useCooldown.ts\<close>), the per-session UI
  store (\<open>createSessionUiStore.ts\<close>) and the route-load counter (\<open>routeLoadingStore.ts\<close>).
  Table page counts are instances of the locale \<open>page_counter\<close>.
\<close>

section \<open>DataTableSelection.ts\<close>

definition allKeysOnScreen :: "('r \<Rightarrow> 'k) \<Rightarrow> 'k list \<Rightarrow> 'r list option \<Rightarrow> 'k list" where
  "allKeysOnScreen rowKey disabledKeys rows = filter (\<lambda>k. k \<notin> set disabledKeys) (map rowKey (nullish rows []))"

definition selectedOnScreenCount :: "'k list \<Rightarrow> 'k list \<Rightarrow> nat" where
  "selectedOnScreenCount keys selectedKeys = length (filter (\<lambda>k. k \<in> set selectedKeys) keys)"

definition isAllSelected :: "'k list \<Rightarrow> 'k list \<Rightarrow> bool" where
  "isAllSelected keys selectedKeys \<longleftrightarrow> 0 < length keys \<and> selectedOnScreenCount keys selectedKeys = length keys"

definition isSomeSelected :: "'k list \<Rightarrow> 'k list \<Rightarrow> bool" where
  "isSomeSelected keys selectedKeys \<longleftrightarrow> 0 < selectedOnScreenCount keys selectedKeys \<and> \<not> isAllSelected keys selectedKeys"

text \<open>The updater functions, applied to the selection current at commit time.\<close>

definition toggleRow :: "'k \<Rightarrow> 'k list \<Rightarrow> 'k list" where
  "toggleRow key prev = (if key \<in> set prev then set_delete key prev else set_add key prev)"

definition toggleAll :: "'k list \<Rightarrow> 'k list \<Rightarrow> 'k list" where
  "toggleAll keys prev =
     (let allSelected = (0 < length keys \<and> list_all (\<lambda>k. k \<in> set prev) keys) in
      if allSelected then foldl (\<lambda>s k. set_delete k s) prev keys else foldl (\<lambda>s k. set_add k s) prev keys)"

definition clear_on_screen :: "'k list \<Rightarrow> 'k list \<Rightarrow> 'k list" where
  "clear_on_screen keys prev = foldl (\<lambda>s k. set_delete k s) prev keys"

lemma set_foldl_delete: "set (foldl (\<lambda>s k. set_delete k s) prev keys) = set prev - set keys"
  by (induction keys arbitrary: prev) auto

lemma set_foldl_set_add: "set (foldl (\<lambda>s k. set_add k s) prev keys) = set prev \<union> set keys"
  by (induction keys arbitrary: prev) auto

lemma all_selected_iff: "isAllSelected keys sel \<longleftrightarrow> keys \<noteq> [] \<and> set keys \<subseteq> set sel"
proof -
  have "length (filter (\<lambda>k. k \<in> set sel) keys) = length keys \<longleftrightarrow> (\<forall>k\<in>set keys. k \<in> set sel)"
    by (metis filter_True filter_id_conv length_filter_less linorder_neq_iff)
  then show ?thesis by (auto simp: isAllSelected_def selectedOnScreenCount_def)
qed

lemma toggleAll_set: "set (toggleAll keys prev) = (if isAllSelected keys prev then set prev - set keys else set prev \<union> set keys)"
  by (auto simp: toggleAll_def Let_def all_selected_iff list_all_iff set_foldl_delete set_foldl_set_add)

section \<open>Sorting, pages, cooldown\<close>

datatype direction = Ascending | Descending

record sort_state =
  s_key :: string
  s_direction :: direction

definition nextSortState :: "sort_state \<Rightarrow> string \<Rightarrow> sort_state" where
  "nextSortState prev k =
     (if s_key prev = k then \<lparr>s_key = k, s_direction = (if s_direction prev = Ascending then Descending else Ascending)\<rparr>
      else \<lparr>s_key = k, s_direction = Ascending\<rparr>)"

record page_hook =
  pg_page :: nat
  pg_prevResetKey :: string

definition page_mount :: "string \<Rightarrow> page_hook" where
  "page_mount k = \<lparr>pg_page = 1, pg_prevResetKey = k\<rparr>"

definition usePageResetOn :: "string \<Rightarrow> page_hook \<Rightarrow> page_hook" where
  "usePageResetOn resetKey h =
     (if resetKey \<noteq> pg_prevResetKey h then \<lparr>pg_page = 1, pg_prevResetKey = resetKey\<rparr> else h)"

text \<open>The cooldown counts down once a second; \<open>running\<close> is the number of intervals ticking, and
  \<open>tracked\<close> says whether the ref still names one (a second start replaces the ref without
  clearing the interval it named).\<close>

record cooldown =
  cd_left :: nat
  running :: nat
  tracked :: bool

definition start_cooldown :: "nat \<Rightarrow> cooldown \<Rightarrow> cooldown" where
  "start_cooldown seconds c = c\<lparr>cd_left := seconds, running := Suc (running c), tracked := True\<rparr>"

text \<open>One tick of one interval.\<close>

definition cooldown_tick :: "cooldown \<Rightarrow> cooldown" where
  "cooldown_tick c =
     (if running c = 0 then c
      else if cd_left c \<le> 1
      then (if tracked c then c\<lparr>cd_left := 0, running := running c - 1, tracked := False\<rparr> else c\<lparr>cd_left := 0\<rparr>)
      else c\<lparr>cd_left := cd_left c - 1\<rparr>)"

definition idle_cooldown :: cooldown where
  "idle_cooldown = \<lparr>cd_left = 0, running = 0, tracked = False\<rparr>"

text \<open>A second: every running interval ticks once.\<close>

definition cooldown_second :: "cooldown \<Rightarrow> cooldown" where
  "cooldown_second c = (cooldown_tick ^^ running c) c"

lemma cooldown_seconds:
  "k \<le> n \<Longrightarrow> 0 < n \<Longrightarrow> (cooldown_second ^^ k) (start_cooldown n idle_cooldown) =
     (if k < n then \<lparr>cd_left = n - k, running = 1, tracked = True\<rparr> else idle_cooldown)"
proof (induction k)
  case 0
  then show ?case by (simp add: start_cooldown_def idle_cooldown_def)
next
  case (Suc k)
  then have "(cooldown_second ^^ k) (start_cooldown n idle_cooldown) = \<lparr>cd_left = n - k, running = 1, tracked = True\<rparr>"
    by simp
  then have "(cooldown_second ^^ Suc k) (start_cooldown n idle_cooldown)
      = cooldown_second \<lparr>cd_left = n - k, running = 1, tracked = True\<rparr>" by simp
  also have "\<dots> = cooldown_tick \<lparr>cd_left = n - k, running = 1, tracked = True\<rparr>" by (simp add: cooldown_second_def)
  finally show ?case using Suc.prems by (auto simp: cooldown_tick_def idle_cooldown_def)
qed

section \<open>Stores\<close>

text \<open>\<open>createSessionUiStore(initial)\<close>: \<open>update(patch)\<close> merges, a reset restores the initial values.\<close>

definition update_ui :: "('k, 'v) omap \<Rightarrow> ('k, 'v) omap \<Rightarrow> ('k, 'v) omap" where
  "update_ui patch st = foldl (\<lambda>m p. om_set (fst p) (snd p) m) st patch"

definition reset_ui :: "('k, 'v) omap \<Rightarrow> ('k, 'v) omap \<Rightarrow> ('k, 'v) omap" where
  "reset_ui initial st = update_ui initial st"

lemma om_get_Cons: "om_get (p # m) k = (if fst p = k then Some (snd p) else om_get m k)"
  by (cases p) (simp add: om_get_def)

lemma update_ui_get:
  "distinct (om_keys patch) \<Longrightarrow> om_get (update_ui patch st) k
     = (case om_get patch k of Some v \<Rightarrow> Some v | None \<Rightarrow> om_get st k)"
proof (induction patch arbitrary: st)
  case Nil
  then show ?case by (simp add: update_ui_def)
next
  case (Cons p patch)
  then have "fst p \<notin> set (om_keys patch)" by (simp add: om_keys_def)
  then have none: "om_get patch (fst p) = None" using om_get_keys by fastforce
  have "update_ui (p # patch) st = update_ui patch (om_set (fst p) (snd p) st)" by (simp add: update_ui_def)
  with Cons none show ?case by (auto simp: om_get_Cons om_keys_def split: option.splits)
qed

definition startRouteLoad :: "int \<Rightarrow> int" where
  "startRouteLoad pendingCount = pendingCount + 1"

definition finishRouteLoad :: "int \<Rightarrow> int" where
  "finishRouteLoad pendingCount = max 0 (pendingCount - 1)"

section \<open>Page counts\<close>

text \<open>\<open>Math.max(1, Math.ceil(total / pageSize))\<close>\<close>

definition totalPages :: "nat \<Rightarrow> nat \<Rightarrow> nat" where
  "totalPages pageSize n = max 1 (ceil_div n pageSize)"

interpretation users_pages: page_counter "totalPages 25" 25
  by unfold_locales (simp_all add: totalPages_def)

section \<open>Properties\<close>

text \<open>The header checkbox acts on exactly the selectable rows on screen: it is shown as checked iff
  there is one and all are selected; clicking it then deselects exactly those, otherwise selects
  all of them; a second click with nothing in between undoes a first that found none of them
  selected; and rows that are off screen or not selectable are never touched.\<close>

lemma toggle_all_on_screen:
  "let keys = allKeysOnScreen rowKey disabledKeys rows in
     (isAllSelected keys sel = (keys \<noteq> [] \<and> set keys \<subseteq> set sel)) \<and>
     set (toggleAll keys sel) = (if isAllSelected keys sel then set sel - set keys else set sel \<union> set keys) \<and>
     set (toggleAll keys sel) - set keys = set sel - set keys \<and>
     (set sel \<inter> set keys = {} \<longrightarrow> set (toggleAll keys (toggleAll keys sel)) = set sel) \<and>
     set (clear_on_screen keys sel) = set sel - set keys \<and>
     set keys \<inter> set disabledKeys = {}"
proof -
  let ?k = "allKeysOnScreen rowKey disabledKeys rows"
  have "set (toggleAll ?k (toggleAll ?k sel)) = set sel" if "set sel \<inter> set ?k = {}"
    using that by (cases "?k = []") (auto simp: toggleAll_set all_selected_iff split: if_splits)
  then show ?thesis
    by (auto simp: Let_def all_selected_iff toggleAll_set clear_on_screen_def set_foldl_delete allKeysOnScreen_def)
qed

lemma toggle_all_on_screen_witness:
  "set ([5] :: nat list) \<inter> {1, 2} = {} \<and>
   set (toggleAll (allKeysOnScreen id [] (Some [1, 2])) (toggleAll (allKeysOnScreen id [] (Some [1, 2])) [5])) = {5 :: nat}"
  using toggle_all_on_screen [of "id :: nat \<Rightarrow> nat" "[]" "Some [1, 2]" "[5]"]
  by (simp add: Let_def allKeysOnScreen_def nullish_def)

end
