(* ===== verification/AuthForms.thy ===== *)
theory AuthForms
  imports AuthFlows Toaster Selection Complex_Main
begin

text \<open>
  The forms that create, prove and give up an identity: sign-up, sign-in, the pages reached by an emailed
  link (verification, password reset, deletion), the password and name cards of the settings, the
  deletion card and the step-up prompt of the passkeys. Each form is its state with its handlers; the
  answer of a request is a step of its own. The browser's own validity check of an email field and the
  translator are parameters.
\<close>

text \<open>The state of a mutation.\<close>

datatype 'd status = Idle | Pending | Succeeded 'd | Failed api_error

fun isError :: "'d status \<Rightarrow> bool" where
  "isError (Failed _) = True"
| "isError _ = False"

fun isSuccess :: "'d status \<Rightarrow> bool" where
  "isSuccess (Succeeded _) = True"
| "isSuccess _ = False"

section \<open>SignupForm.tsx\<close>

record signup_form =
  su_name :: string
  su_email :: string
  su_password :: string
  su_confirm :: string
  su_mismatch :: bool
  su_passwordInvalid :: bool
  su_strength :: password_strength
  su_nameError :: "string option"
  su_emailError :: "string option"

definition signup_mount :: signup_form where
  "signup_mount = \<lparr>su_name = [], su_email = [], su_password = [], su_confirm = [], su_mismatch = False,
     su_passwordInvalid = False, su_strength = NoPassword, su_nameError = None, su_emailError = None\<rparr>"

definition su_type_name :: "string \<Rightarrow> signup_form \<Rightarrow> signup_form" where
  "su_type_name v f = (let g = f\<lparr>su_name := v\<rparr> in if truthy (su_nameError f) then g\<lparr>su_nameError := None\<rparr> else g)"

definition su_type_email :: "string \<Rightarrow> signup_form \<Rightarrow> signup_form" where
  "su_type_email v f = (let g = f\<lparr>su_email := v\<rparr> in if truthy (su_emailError f) then g\<lparr>su_emailError := None\<rparr> else g)"

definition su_handlePasswordChange :: "string \<Rightarrow> signup_form \<Rightarrow> signup_form" where
  "su_handlePasswordChange v f = f\<lparr>su_password := v, su_strength := evaluatePasswordStrength v, su_passwordInvalid := False\<rparr>"

definition su_type_confirm :: "string \<Rightarrow> signup_form \<Rightarrow> signup_form" where
  "su_type_confirm v f = f\<lparr>su_confirm := v, su_mismatch := False\<rparr>"

text \<open>\<open>handleSubmit\<close>: the form that results and the name, email and password that are sent, if any;
  \<open>emailValid\<close> is the email field's own validity.\<close>

definition su_handleSubmit ::
  "(string \<Rightarrow> string) \<Rightarrow> bool \<Rightarrow> signup_form \<Rightarrow> signup_form \<times> (string \<times> string \<times> string) option" where
  "su_handleSubmit t emailValid f =
     (let nameError = (if trim (su_name f) = [] then Some (t ''signup.nameRequired'') else None);
          emailError = (if trim (su_email f) = [] then Some (t ''signup.emailRequired'')
             else if \<not> emailValid then Some (t ''signup.emailInvalid'') else None);
          g = f\<lparr>su_nameError := nameError, su_emailError := emailError\<rparr>
      in if truthy nameError then (g, None)
         else if truthy emailError then (g, None)
         else if truthy (validatePassword (su_password f) t) then (g\<lparr>su_passwordInvalid := True, su_mismatch := False\<rparr>, None)
         else if su_password f \<noteq> su_confirm f then (g\<lparr>su_mismatch := True, su_passwordInvalid := False\<rparr>, None)
         else (g\<lparr>su_mismatch := False, su_passwordInvalid := False\<rparr>, Some (su_name f, su_email f, su_password f)))"

definition su_succeeded :: "signup_form \<Rightarrow> signup_form" where
  "su_succeeded f = f\<lparr>su_password := [], su_confirm := [], su_strength := NoPassword\<rparr>"

text \<open>\<open>PasswordStrengthPanel.tsx\<close>: how many segments are filled.\<close>

definition filled_segments :: "string \<Rightarrow> nat" where
  "filled_segments pwd = (let r = checkPasswordRules pwd in
     length (filter id [lengthRule r, upperRule r, lowerRule r, numberRule r]))"

section \<open>LoginForm.tsx\<close>

definition formatMinutesSeconds :: "nat \<Rightarrow> string" where
  "formatMinutesSeconds totalSeconds = show_nat (totalSeconds div 60) @ '':'' @ pad2 (totalSeconds mod 60)"

record login_form =
  lf_email :: string
  lf_password :: string
  lf_cooldown :: cooldown
  lf_login :: "unit status"
  lf_passkey :: "unit status"

definition login_mount :: login_form where
  "login_mount = \<lparr>lf_email = [], lf_password = [], lf_cooldown = idle_cooldown, lf_login = Idle, lf_passkey = Idle\<rparr>"

definition isRetryableError :: "unit status \<Rightarrow> bool" where
  "isRetryableError s = (case s of
       Failed (HttpError None) \<Rightarrow> True
     | Failed (HttpError (Some (status, _))) \<Rightarrow> status \<ge> 500
     | _ \<Rightarrow> False)"

text \<open>\<open>Number(x) || 1\<close> for the minutes the server sends: a number, or decimal digits.\<close>

definition minutes_or_one :: "json option \<Rightarrow> nat" where
  "minutes_or_one v = (case v of
       Some (JNum n) \<Rightarrow> (if n = 0 then 1 else nat n)
     | Some (JStr s) \<Rightarrow>
         if s \<noteq> [] \<and> list_all (\<lambda>c. 48 \<le> ucode c \<and> ucode c \<le> 57) s \<and> read_nat s \<noteq> 0 then read_nat s else 1
     | _ \<Rightarrow> 1)"

text \<open>How long an error locks the form. \<open>retryAfter\<close> is the header as a number, absent when it is none.\<close>

definition lock_seconds :: "rat option \<Rightarrow> api_error \<Rightarrow> nat option" where
  "lock_seconds retryAfter e = (case e of
       HttpError (Some (status, b)) \<Rightarrow>
         if status \<noteq> 429 then None
         else (case retryAfter of
             Some r \<Rightarrow> if 0 < r then Some (nat \<lceil>r\<rceil>) else None
           | None \<Rightarrow> None)
     | _ \<Rightarrow> None)"

definition locked_by_code :: "api_error \<Rightarrow> nat option" where
  "locked_by_code e = (case e of
       HttpError (Some (status, b)) \<Rightarrow>
         if status = 429 \<and> (eb_code b = JStr ''ACCOUNT_LOCKED'' \<or> eb_code b = JStr ''LOGIN_THROTTLED'')
         then Some (minutes_or_one (map_of (eb_params b) ''minutes'') * 60) else None
     | _ \<Rightarrow> None)"

definition login_failed :: "rat option \<Rightarrow> api_error \<Rightarrow> login_form \<Rightarrow> login_form" where
  "login_failed retryAfter e f =
     (let g = f\<lparr>lf_login := Failed e\<rparr> in
      case lock_seconds retryAfter e of
        Some n \<Rightarrow> g\<lparr>lf_cooldown := start_cooldown n (lf_cooldown f)\<rparr>
      | None \<Rightarrow> (case locked_by_code e of
          Some n \<Rightarrow> g\<lparr>lf_cooldown := start_cooldown n (lf_cooldown f)\<rparr>
        | None \<Rightarrow> g))"

definition login_second :: "login_form \<Rightarrow> login_form" where
  "login_second f = f\<lparr>lf_cooldown := cooldown_second (lf_cooldown f)\<rparr>"

definition isLocked :: "login_form \<Rightarrow> bool" where
  "isLocked f \<longleftrightarrow> 0 < cd_left (lf_cooldown f)"

definition lf_handleSubmit :: "login_form \<Rightarrow> login_form \<times> (string \<times> string) option" where
  "lf_handleSubmit f =
     (if 0 < cd_left (lf_cooldown f) then (f, None) else (f\<lparr>lf_login := Pending\<rparr>, Some (lf_email f, lf_password f)))"

definition login_button :: "(string \<Rightarrow> (string \<times> string) list \<Rightarrow> string) \<Rightarrow> login_form \<Rightarrow> string" where
  "login_button t f =
     (if isLocked f then t ''login.tryAgainIn'' [(''time'', formatMinutesSeconds (cd_left (lf_cooldown f)))]
      else if isRetryableError (lf_login f) then t ''login.retryButton'' [] else t ''login.submitButton'' [])"

text \<open>The whole form: its fields, its two buttons and what comes in from outside. The password button is disabled while
  its request is under way or the form is locked (the handler itself looks at the lock again), the one for passkeys only
  while its own request is, and it is not there at all in a browser without WebAuthn.\<close>

datatype login_op = LoginSecond | TypeEmail string | TypePassword string | SubmitPassword
  | PasswordAnswer "rat option" "unit outcome" | ClickPasskey | PasskeyAnswer "unit outcome"

datatype login_request = PasswordLogin string string | PasskeyLogin

definition login_step :: "bool \<Rightarrow> login_op \<Rightarrow> login_form \<Rightarrow> login_form \<times> login_request list" where
  "login_step webauthn oper f = (case oper of
       LoginSecond \<Rightarrow> (login_second f, [])
     | TypeEmail v \<Rightarrow> (f\<lparr>lf_email := v\<rparr>, [])
     | TypePassword v \<Rightarrow> (f\<lparr>lf_password := v\<rparr>, [])
     | SubmitPassword \<Rightarrow> if lf_login f = Pending then (f, [])
         else (case lf_handleSubmit f of (f', None) \<Rightarrow> (f', []) | (f', Some (e, p)) \<Rightarrow> (f', [PasswordLogin e p]))
     | PasswordAnswer retryAfter answer \<Rightarrow> if lf_login f \<noteq> Pending then (f, [])
         else (case answer of Fulfilled u \<Rightarrow> (f\<lparr>lf_login := Succeeded u\<rparr>, []) | Rejected e \<Rightarrow> (login_failed retryAfter e f, []))
     | ClickPasskey \<Rightarrow> if webauthn \<and> lf_passkey f \<noteq> Pending then (f\<lparr>lf_passkey := Pending\<rparr>, [PasskeyLogin]) else (f, [])
     | PasskeyAnswer answer \<Rightarrow> if lf_passkey f \<noteq> Pending then (f, [])
         else (f\<lparr>lf_passkey := (case answer of Fulfilled u \<Rightarrow> Succeeded u | Rejected e \<Rightarrow> Failed e)\<rparr>, []))"

fun login_run :: "bool \<Rightarrow> login_op list \<Rightarrow> login_form \<Rightarrow> login_form \<times> login_request list" where
  "login_run w [] f = (f, [])"
| "login_run w (oper # ops) f =
     (let (f1, r1) = login_step w oper f; (f2, r2) = login_run w ops f1 in (f2, r1 @ r2))"

text \<open>\<open>LoginPage.tsx\<close>, \<open>SignupPage.tsx\<close>: a signed-in visitor is sent on.\<close>

definition auth_page_redirect :: "auth_state \<Rightarrow> string option" where
  "auth_page_redirect s = (if isAuthenticated s = Some True then Some ''/dashboard'' else None)"

section \<open>Pages behind an emailed link\<close>

text \<open>
  \<open>PasswordResetConfirmPage.tsx\<close>, \<open>VerifyAccountPage.tsx\<close>, \<open>ConfirmDeleteAccountPage.tsx\<close>: the token
  is read once, from the fragment or else from the query, kept in memory, and taken off the address bar.
  The parameters are those of the parsed fragment and query.
\<close>

definition link_param :: "string \<Rightarrow> (string \<times> string) list \<Rightarrow> (string \<times> string) list \<Rightarrow> string" where
  "link_param name hashParams searchParams =
     (case map_of hashParams name of
        Some v \<Rightarrow> if v \<noteq> [] then v else nullish (map_of searchParams name) []
      | None \<Rightarrow> nullish (map_of searchParams name) [])"

record link_page =
  lk_token :: string
  lk_email :: string
  lk_hash :: "(string \<times> string) list"
  lk_search :: "(string \<times> string) list"

definition link_open :: "(string \<times> string) list \<Rightarrow> (string \<times> string) list \<Rightarrow> link_page" where
  "link_open hashParams searchParams =
     \<lparr>lk_token = link_param ''token'' hashParams searchParams, lk_email = link_param ''email'' hashParams searchParams,
      lk_hash = hashParams, lk_search = searchParams\<rparr>"

definition link_effect :: "link_page \<Rightarrow> link_page" where
  "link_effect p = (if lk_token p \<noteq> [] then p\<lparr>lk_hash := [], lk_search := []\<rparr> else p)"

text \<open>Reloading the page reads what is left in the address bar.\<close>

definition link_reload :: "link_page \<Rightarrow> link_page" where
  "link_reload p = link_open (lk_hash p) (lk_search p)"

text \<open>\<open>VerifyAccountButton.tsx\<close>: the callbacks fire once, the button works once.\<close>

record verify_button =
  vb_token :: string
  vb_status :: "string status"
  vb_fired :: bool
  vb_successCalls :: nat
  vb_errorCalls :: nat

definition vb_mount :: "string \<Rightarrow> verify_button" where
  "vb_mount token = \<lparr>vb_token = token, vb_status = Idle, vb_fired = False, vb_successCalls = 0, vb_errorCalls = 0\<rparr>"

definition vb_enabled :: "verify_button \<Rightarrow> bool" where
  "vb_enabled b \<longleftrightarrow> \<not> (vb_token b = [] \<or> isSuccess (vb_status b) \<or> isError (vb_status b)) \<and> vb_status b \<noteq> Pending"

definition handleVerify :: "verify_button \<Rightarrow> verify_button" where
  "handleVerify b = (if vb_enabled b then b\<lparr>vb_status := Pending\<rparr> else b)"

definition vb_effect :: "verify_button \<Rightarrow> verify_button" where
  "vb_effect b =
     (if vb_fired b then b
      else if isSuccess (vb_status b) then b\<lparr>vb_fired := True, vb_successCalls := Suc (vb_successCalls b)\<rparr>
      else if isError (vb_status b) then b\<lparr>vb_fired := True, vb_errorCalls := Suc (vb_errorCalls b)\<rparr>
      else b)"

definition vb_answered :: "string outcome \<Rightarrow> verify_button \<Rightarrow> verify_button" where
  "vb_answered a b =
     (if vb_status b = Pending
      then vb_effect (b\<lparr>vb_status := (case a of Fulfilled m \<Rightarrow> Succeeded m | Rejected e \<Rightarrow> Failed e)\<rparr>) else b)"

datatype vb_op = ClickVerify | VerifyAnswer "string outcome" | VerifyRender

fun vb_step :: "vb_op \<Rightarrow> verify_button \<Rightarrow> verify_button" where
  "vb_step ClickVerify b = handleVerify b"
| "vb_step (VerifyAnswer a) b = vb_answered a b"
| "vb_step VerifyRender b = vb_effect b"

text \<open>\<open>ConfirmDeleteAccountButton.tsx\<close> and \<open>PasswordResetConfirmForm.tsx\<close>: a dead link replaces the form.\<close>

definition has_error_code :: "string \<Rightarrow> api_error \<Rightarrow> bool" where
  "has_error_code c e \<longleftrightarrow> (case e of HttpError (Some (_, b)) \<Rightarrow> eb_code b = JStr c | _ \<Rightarrow> False)"

definition isDeadDeleteLinkError :: "api_error \<Rightarrow> bool" where
  "isDeadDeleteLinkError = has_error_code ''INVALID_OR_EXPIRED_DELETE_TOKEN''"

definition isDeadResetLinkError :: "api_error \<Rightarrow> bool" where
  "isDeadResetLinkError = has_error_code ''INVALID_OR_EXPIRED_RESET_TOKEN''"

datatype delete_view = DeadDeleteLink | DeleteForm bool

text \<open>The argument says whether the button can be clicked.\<close>

definition confirm_delete_view :: "string \<Rightarrow> unit status \<Rightarrow> delete_view" where
  "confirm_delete_view token s = (case s of
       Failed e \<Rightarrow> if isDeadDeleteLinkError e then DeadDeleteLink else DeleteForm (token \<noteq> [])
     | Pending \<Rightarrow> DeleteForm False
     | _ \<Rightarrow> DeleteForm (token \<noteq> []))"

record reset_form =
  rp_propToken :: string
  rp_manualToken :: string
  rp_new :: string
  rp_confirm :: string
  rp_mismatch :: bool
  rp_passwordInvalid :: bool
  rp_strength :: password_strength
  rp_status :: "bool option status"

definition reset_mount :: "string \<Rightarrow> reset_form" where
  "reset_mount propToken = \<lparr>rp_propToken = propToken, rp_manualToken = [], rp_new = [], rp_confirm = [], rp_mismatch = False,
     rp_passwordInvalid = False, rp_strength = NoPassword, rp_status = Idle\<rparr>"

definition rp_token :: "reset_form \<Rightarrow> string" where
  "rp_token f = (if rp_propToken f \<noteq> [] then rp_propToken f else rp_manualToken f)"

definition rp_handlePasswordChange :: "string \<Rightarrow> reset_form \<Rightarrow> reset_form" where
  "rp_handlePasswordChange v f = f\<lparr>rp_new := v, rp_strength := evaluatePasswordStrength v, rp_passwordInvalid := False\<rparr>"

definition rp_type_confirm :: "string \<Rightarrow> reset_form \<Rightarrow> reset_form" where
  "rp_type_confirm v f = f\<lparr>rp_confirm := v, rp_mismatch := False\<rparr>"

definition rp_handleSubmit :: "(string \<Rightarrow> string) \<Rightarrow> reset_form \<Rightarrow> reset_form \<times> (string \<times> string) option" where
  "rp_handleSubmit t f =
     (if truthy (validatePassword (rp_new f) t) then (f\<lparr>rp_passwordInvalid := True, rp_mismatch := False\<rparr>, None)
      else if rp_new f \<noteq> rp_confirm f then (f\<lparr>rp_mismatch := True, rp_passwordInvalid := False\<rparr>, None)
      else (f\<lparr>rp_mismatch := False, rp_passwordInvalid := False, rp_status := Pending\<rparr>, Some (rp_token f, rp_new f)))"

text \<open>The data is the answer's \<open>sessions_revoked\<close>.\<close>

definition rp_answered :: "bool option outcome \<Rightarrow> reset_form \<Rightarrow> reset_form" where
  "rp_answered a f = (case a of
       Fulfilled d \<Rightarrow> f\<lparr>rp_status := Succeeded d, rp_new := [], rp_confirm := [], rp_strength := NoPassword\<rparr>
     | Rejected e \<Rightarrow> f\<lparr>rp_status := Failed e\<rparr>)"

datatype reset_view = ResetDone bool | ResetLinkDead | ResetForm

definition reset_view :: "reset_form \<Rightarrow> reset_view" where
  "reset_view f = (case rp_status f of
       Succeeded d \<Rightarrow> ResetDone (d \<noteq> Some False)
     | Failed e \<Rightarrow> if isDeadResetLinkError e then ResetLinkDead else ResetForm
     | _ \<Rightarrow> ResetForm)"

section \<open>Forms that send an email again\<close>

text \<open>
  \<open>VerificationEmailRequestForm.tsx\<close>, \<open>PasswordResetRequestForm.tsx\<close>: a request goes out when nothing
  cools down; the cooldown of sixty seconds starts with the server's success.
\<close>

record resend_form =
  rs_email :: string
  rs_cooldown :: cooldown
  rs_status :: "string status"

definition rs_handleSubmit :: "resend_form \<Rightarrow> resend_form \<times> string option" where
  "rs_handleSubmit f = (if 0 < cd_left (rs_cooldown f) then (f, None) else (f\<lparr>rs_status := Pending\<rparr>, Some (rs_email f)))"

definition rs_answered :: "string outcome \<Rightarrow> resend_form \<Rightarrow> resend_form" where
  "rs_answered a f = (case a of
       Fulfilled m \<Rightarrow> f\<lparr>rs_status := Succeeded m, rs_cooldown := start_cooldown 60 (rs_cooldown f)\<rparr>
     | Rejected e \<Rightarrow> f\<lparr>rs_status := Failed e\<rparr>)"

definition rs_button_enabled :: "resend_form \<Rightarrow> bool" where
  "rs_button_enabled f \<longleftrightarrow> \<not> (0 < cd_left (rs_cooldown f) \<or> rs_status f = Pending)"

section \<open>The cards of the settings\<close>

definition no_update :: user_update where
  "no_update = \<lparr>uu_name = None, uu_password = None, uu_current_password = None, uu_brand_color = None\<rparr>"

text \<open>\<open>ChangePasswordCard.tsx\<close>.\<close>

record password_card =
  pc_hasPassword :: bool
  pc_new :: string
  pc_current :: string
  pc_error :: string
  pc_status :: "bool option status"
  pc_toast :: "(string \<times> kind) option"

definition pc_mount :: "bool \<Rightarrow> password_card" where
  "pc_mount hasPw = \<lparr>pc_hasPassword = hasPw, pc_new = [], pc_current = [], pc_error = [], pc_status = Idle, pc_toast = None\<rparr>"

definition pc_isDirty :: "password_card \<Rightarrow> bool" where
  "pc_isDirty c \<longleftrightarrow> 0 < length (pc_new c)"

definition handlePasswordSubmit :: "(string \<Rightarrow> string) \<Rightarrow> password_card \<Rightarrow> password_card \<times> user_update option" where
  "handlePasswordSubmit t c0 =
     (let c = c0\<lparr>pc_error := []\<rparr>; validationError = validatePassword (pc_new c) t in
      if truthy validationError then (c\<lparr>pc_error := nullish validationError []\<rparr>, None)
      else if pc_hasPassword c \<and> pc_current c = [] then (c\<lparr>pc_error := t ''changePassword.confirmCurrentRequired''\<rparr>, None)
      else (let payload = no_update\<lparr>uu_password := Some (pc_new c)\<rparr>;
                payload' = (if pc_hasPassword c then payload\<lparr>uu_current_password := Some (pc_current c)\<rparr> else payload)
            in (c\<lparr>pc_status := Pending\<rparr>, Some payload')))"

text \<open>The data is the answer's \<open>sessions_revoked\<close>.\<close>

definition pc_answered :: "(string \<Rightarrow> string) \<Rightarrow> bool option outcome \<Rightarrow> password_card \<Rightarrow> password_card" where
  "pc_answered t a c = (case a of
       Fulfilled d \<Rightarrow> c\<lparr>pc_status := Succeeded d,
          pc_toast := Some (if d = Some False then (t ''changePassword.updatedButSessionsNotRevokedToast'', TWarning)
                            else (t ''changePassword.updatedToast'', TSuccess)),
          pc_new := [], pc_current := []\<rparr>
     | Rejected e \<Rightarrow> c\<lparr>pc_status := Failed e\<rparr>)"

text \<open>\<open>ProfileNameCard.tsx\<close>: the field starts with the name of the first render; \<open>name\<close> is the prop, and
  changes under the card.\<close>

record name_card =
  nc_name :: "string option"
  nc_edited :: string
  nc_error :: string
  nc_status :: "unit status"

definition nc_mount :: "string option \<Rightarrow> name_card" where
  "nc_mount name = \<lparr>nc_name = name, nc_edited = nullish name [], nc_error = [], nc_status = Idle\<rparr>"

definition nc_isDirty :: "name_card \<Rightarrow> bool" where
  "nc_isDirty c \<longleftrightarrow> nc_edited c \<noteq> nullish (nc_name c) []"

definition handleNameSubmit :: "(string \<Rightarrow> string) \<Rightarrow> name_card \<Rightarrow> name_card \<times> user_update option" where
  "handleNameSubmit t c0 =
     (let c = c0\<lparr>nc_error := []\<rparr> in
      if nc_edited c = [] \<or> Some (nc_edited c) = nc_name c then (c\<lparr>nc_error := t ''profileName.noChanges''\<rparr>, None)
      else (c\<lparr>nc_status := Pending\<rparr>, Some (no_update\<lparr>uu_name := Some (nc_edited c)\<rparr>)))"

definition nc_answered :: "string outcome \<Rightarrow> name_card \<Rightarrow> name_card" where
  "nc_answered a c = (case a of
       Fulfilled updated \<Rightarrow> c\<lparr>nc_status := Succeeded (), nc_edited := updated\<rparr>
     | Rejected e \<Rightarrow> c\<lparr>nc_status := Failed e\<rparr>)"

datatype nc_op = EditName string | SubmitName | NameAnswer "string outcome" | NameProp "string option"

fun nc_step :: "(string \<Rightarrow> string) \<Rightarrow> nc_op \<Rightarrow> name_card \<Rightarrow> name_card" where
  "nc_step t (EditName v) c = c\<lparr>nc_edited := v\<rparr>"
| "nc_step t SubmitName c = fst (handleNameSubmit t c)"
| "nc_step t (NameAnswer a) c = nc_answered a c"
| "nc_step t (NameProp name) c = c\<lparr>nc_name := name\<rparr>"

text \<open>\<open>DeleteAccountCard.tsx\<close>.\<close>

record delete_card =
  dc_hasPassword :: bool
  dc_current :: string
  dc_error :: string
  dc_confirmOpen :: bool
  dc_confirmationSent :: bool
  dc_status :: "bool option status"
  dc_path :: string

definition dc_mount :: "bool \<Rightarrow> delete_card" where
  "dc_mount hasPw = \<lparr>dc_hasPassword = hasPw, dc_current = [], dc_error = [], dc_confirmOpen = False,
     dc_confirmationSent = False, dc_status = Idle, dc_path = ''/account-settings''\<rparr>"

definition handleRequestDelete :: "(string \<Rightarrow> string) \<Rightarrow> delete_card \<Rightarrow> delete_card" where
  "handleRequestDelete t c0 =
     (let c = c0\<lparr>dc_error := []\<rparr> in
      if dc_hasPassword c \<and> dc_current c = [] then c\<lparr>dc_error := t ''deleteAccount.currentPasswordRequired''\<rparr>
      else c\<lparr>dc_confirmOpen := True\<rparr>)"

text \<open>The password that is sent, if any.\<close>

definition handleConfirmDelete :: "delete_card \<Rightarrow> delete_card \<times> string option" where
  "handleConfirmDelete c = (c\<lparr>dc_status := Pending\<rparr>, if dc_hasPassword c then Some (dc_current c) else None)"

text \<open>The data is the answer's \<open>confirmation_required\<close>.\<close>

definition dc_answered :: "bool option outcome \<Rightarrow> delete_card \<Rightarrow> delete_card" where
  "dc_answered a c = (case a of
       Fulfilled d \<Rightarrow>
         (let c1 = c\<lparr>dc_status := Succeeded d, dc_confirmOpen := False\<rparr> in
          if d = Some True then c1\<lparr>dc_confirmationSent := True\<rparr> else c1\<lparr>dc_path := ''/login''\<rparr>)
     | Rejected e \<Rightarrow> c\<lparr>dc_status := Failed e, dc_confirmOpen := False\<rparr>)"

section \<open>PasskeyStepUpDialog.tsx\<close>

record step_up =
  sp_open :: bool
  sp_hasPassword :: bool
  sp_canUsePasskey :: bool
  sp_password :: string
  sp_withPassword :: "unit status"
  sp_withPasskey :: "unit status"

definition sp_mount :: "bool \<Rightarrow> bool \<Rightarrow> bool \<Rightarrow> step_up" where
  "sp_mount hasPw hasPasskey supported = \<lparr>sp_open = False, sp_hasPassword = hasPw,
     sp_canUsePasskey = (hasPasskey \<and> supported), sp_password = [], sp_withPassword = Idle, sp_withPasskey = Idle\<rparr>"

definition error_of :: "unit status \<Rightarrow> api_error option" where
  "error_of s = (case s of Failed e \<Rightarrow> Some e | _ \<Rightarrow> None)"

definition sp_error :: "step_up \<Rightarrow> api_error option" where
  "sp_error d = (case error_of (sp_withPassword d) of Some e \<Rightarrow> Some e | None \<Rightarrow> error_of (sp_withPasskey d))"

definition sp_busy :: "step_up \<Rightarrow> bool" where
  "sp_busy d \<longleftrightarrow> sp_withPassword d = Pending \<or> sp_withPasskey d = Pending"

text \<open>Submitting the form: the button is disabled while busy, and a disabled button submits nothing.\<close>

definition sp_submit :: "step_up \<Rightarrow> step_up" where
  "sp_submit d = (if sp_password d = [] \<or> sp_busy d then d
      else if sp_hasPassword d \<and> sp_password d \<noteq> [] then d\<lparr>sp_withPassword := Pending\<rparr> else d)"

definition sp_usePasskey :: "step_up \<Rightarrow> step_up" where
  "sp_usePasskey d = (if sp_canUsePasskey d \<and> \<not> sp_busy d then d\<lparr>sp_withPasskey := Pending\<rparr> else d)"

text \<open>\<open>done\<close>: the password is emptied and the owner closes the dialog.\<close>

definition sp_done :: "step_up \<Rightarrow> step_up" where
  "sp_done d = d\<lparr>sp_password := [], sp_open := False\<rparr>"

definition sp_cancel :: "step_up \<Rightarrow> step_up" where
  "sp_cancel d = d\<lparr>sp_password := [], sp_withPassword := Idle, sp_withPasskey := Idle, sp_open := False\<rparr>"

definition sp_password_answered :: "unit outcome \<Rightarrow> step_up \<Rightarrow> step_up" where
  "sp_password_answered a d = (if sp_withPassword d \<noteq> Pending then d
     else case a of Fulfilled u \<Rightarrow> sp_done (d\<lparr>sp_withPassword := Succeeded ()\<rparr>)
       | Rejected e \<Rightarrow> d\<lparr>sp_withPassword := Failed e\<rparr>)"

text \<open>The passkey's three steps (options, the browser's prompt, the confirmation) as one answer.\<close>

definition sp_passkey_answered :: "unit outcome \<Rightarrow> step_up \<Rightarrow> step_up" where
  "sp_passkey_answered a d = (if sp_withPasskey d \<noteq> Pending then d
     else case a of Fulfilled u \<Rightarrow> sp_done (d\<lparr>sp_withPasskey := Succeeded ()\<rparr>)
       | Rejected e \<Rightarrow> d\<lparr>sp_withPasskey := Failed e\<rparr>)"

datatype sp_op = StepUpAsked | TypeStepUp string | SubmitStepUp | UsePasskey | CancelStepUp
  | PasswordAnswer "unit outcome" | PasskeyAnswer "unit outcome"

fun sp_step :: "sp_op \<Rightarrow> step_up \<Rightarrow> step_up" where
  "sp_step StepUpAsked d = d\<lparr>sp_open := True\<rparr>"
| "sp_step (TypeStepUp v) d = d\<lparr>sp_password := v\<rparr>"
| "sp_step SubmitStepUp d = sp_submit d"
| "sp_step UsePasskey d = sp_usePasskey d"
| "sp_step CancelStepUp d = sp_cancel d"
| "sp_step (PasswordAnswer a) d = sp_password_answered a d"
| "sp_step (PasskeyAnswer a) d = sp_passkey_answered a d"

section \<open>What the forms promise\<close>

text \<open>A translator that never gives an empty text: then every error is seen.\<close>

definition speaks :: "(string \<Rightarrow> string) \<Rightarrow> bool" where
  "speaks t \<longleftrightarrow> (\<forall>k. t k \<noteq> [])"

lemma truthy_some_speaks [simp]: "speaks t \<Longrightarrow> truthy (Some (t k))" "speaks t \<Longrightarrow> t k \<noteq> []"
  by (auto simp: truthy_def speaks_def)

lemma truthy_none [simp]: "\<not> truthy None"
  by (simp add: truthy_def)

lemma validate_truthy:
  "speaks t \<Longrightarrow> truthy (validatePassword pwd t) \<longleftrightarrow> evaluatePasswordStrength pwd \<noteq> Strong"
  unfolding strength_iff_rules by (simp add: validatePassword_def Let_def)

lemma validate_text:
  "speaks t \<Longrightarrow> evaluatePasswordStrength pwd \<noteq> Strong \<Longrightarrow> nullish (validatePassword pwd t) [] \<noteq> []"
  using validate_truthy [of t pwd] by (cases "validatePassword pwd t") (auto simp: truthy_def nullish_def)

definition signup_ready :: "bool \<Rightarrow> signup_form \<Rightarrow> bool" where
  "signup_ready emailValid f \<longleftrightarrow> trim (su_name f) \<noteq> [] \<and> trim (su_email f) \<noteq> [] \<and> emailValid
     \<and> evaluatePasswordStrength (su_password f) = Strong \<and> su_password f = su_confirm f"

definition signup_flagged :: "signup_form \<Rightarrow> bool" where
  "signup_flagged f \<longleftrightarrow> truthy (su_nameError f) \<or> truthy (su_emailError f) \<or> su_passwordInvalid f \<or> su_mismatch f"

text \<open>Signing up sends exactly what was typed, and only when the name and the email are not blank, the
  email is well formed, the password meets every rule and both passwords agree; otherwise nothing is sent
  and the form shows at least one error. Nothing typed is changed by it.\<close>

theorem signup_submits_iff:
  assumes "speaks t"
  shows "let (g, sent) = su_handleSubmit t emailValid f in
     (sent = Some (su_name f, su_email f, su_password f) \<longleftrightarrow> signup_ready emailValid f) \<and>
     (sent = None \<longleftrightarrow> \<not> signup_ready emailValid f) \<and> (signup_flagged g \<longleftrightarrow> \<not> signup_ready emailValid f) \<and>
     su_name g = su_name f \<and> su_email g = su_email f \<and> su_password g = su_password f \<and> su_confirm g = su_confirm f"
  using assms by (simp add: su_handleSubmit_def signup_ready_def signup_flagged_def validate_truthy Let_def)

lemma signup_submits_iff_witness:
  "snd (su_handleSubmit (\<lambda>k. k @ ''!'') True
     (signup_mount\<lparr>su_name := ''Ann'', su_email := ''a@b.c'', su_password := ''Abcdefg1'', su_confirm := ''Abcdefg1''\<rparr>))
   = Some (''Ann'', ''a@b.c'', ''Abcdefg1'')"
proof -
  let ?f = "signup_mount\<lparr>su_name := ''Ann'', su_email := ''a@b.c'', su_password := ''Abcdefg1'', su_confirm := ''Abcdefg1''\<rparr>"
  have "speaks (\<lambda>k. k @ ''!'')" by (simp add: speaks_def)
  from signup_submits_iff [OF this, of True ?f] have "snd (su_handleSubmit (\<lambda>k. k @ ''!'') True ?f)
     = Some (''Ann'', ''a@b.c'', ''Abcdefg1'') \<longleftrightarrow> signup_ready True ?f"
    by (simp add: Let_def split_def signup_mount_def)
  moreover have "signup_ready True ?f" by code_simp
  ultimately show ?thesis by simp
qed

text \<open>The change of a password is sent exactly when the new one meets every rule and, for an account
  that has a password, the current one was typed; an account without a password never sends one. When
  nothing is sent, the card says why.\<close>

theorem change_password_checks:
  assumes "speaks t"
  shows "let (g, sent) = handlePasswordSubmit t c;
             ok = (evaluatePasswordStrength (pc_new c) = Strong \<and> (pc_hasPassword c \<longrightarrow> pc_current c \<noteq> [])) in
     (sent = (if ok then Some (no_update\<lparr>uu_password := Some (pc_new c),
         uu_current_password := (if pc_hasPassword c then Some (pc_current c) else None)\<rparr>) else None)) \<and>
     (pc_error g = [] \<longleftrightarrow> ok)"
  using assms validate_text [OF assms, of "pc_new c"]
  by (cases "pc_hasPassword c") (auto simp: handlePasswordSubmit_def Let_def validate_truthy no_update_def)

lemma change_password_checks_witness:
  "snd (handlePasswordSubmit (\<lambda>k. k @ ''!'') ((pc_mount False)\<lparr>pc_new := ''Abcdefg1'', pc_current := ''x''\<rparr>))
     = Some (no_update\<lparr>uu_password := Some ''Abcdefg1''\<rparr>)"
proof -
  let ?c = "(pc_mount False)\<lparr>pc_new := ''Abcdefg1'', pc_current := ''x''\<rparr>"
  have "speaks (\<lambda>k. k @ ''!'')" by (simp add: speaks_def)
  moreover have "evaluatePasswordStrength ''Abcdefg1'' = Strong" by code_simp
  ultimately show ?thesis using change_password_checks [of "\<lambda>k. k @ ''!''" ?c]
    by (simp add: Let_def split_def pc_mount_def no_update_def)
qed

lemma cooldown_over: "(cooldown_second ^^ k) idle_cooldown = idle_cooldown"
  by (induction k) (simp_all add: cooldown_second_def idle_cooldown_def)

lemma cooldown_left:
  assumes "0 < n"
  shows "cd_left ((cooldown_second ^^ k) (start_cooldown n idle_cooldown)) = n - k"
proof (cases "k \<le> n")
  case True
  then show ?thesis using cooldown_seconds [OF True assms] by (auto simp: idle_cooldown_def)
next
  case False
  have "(cooldown_second ^^ k) (start_cooldown n idle_cooldown)
      = (cooldown_second ^^ ((k - n) + n)) (start_cooldown n idle_cooldown)" using False by simp
  also have "\<dots> = idle_cooldown"
    using cooldown_seconds [OF order_refl assms] by (simp only: funpow_add o_apply cooldown_over if_False less_irrefl)
  finally show ?thesis using False by (simp add: idle_cooldown_def)
qed

text \<open>While the lock lasts nothing but time changes it, and the password form sends nothing.\<close>

definition refused :: "nat \<Rightarrow> nat \<Rightarrow> login_form \<Rightarrow> bool" where
  "refused n k f \<longleftrightarrow> lf_cooldown f = (cooldown_second ^^ k) (start_cooldown n idle_cooldown) \<and> isError (lf_login f)"

lemma refused_left: "refused n k f \<Longrightarrow> 0 < n \<Longrightarrow> cd_left (lf_cooldown f) = n - k"
  by (simp add: refused_def cooldown_left)

lemma refused_step:
  assumes "refused n k f" "k < n"
  shows "refused n (if oper = LoginSecond then Suc k else k) (fst (login_step w oper f))"
    "set (snd (login_step w oper f)) \<subseteq> {PasskeyLogin}"
  using assms refused_left [OF assms(1)]
  by (cases oper; auto simp: login_step_def login_second_def refused_def lf_handleSubmit_def)+

lemma refused_run:
  "refused n k f \<Longrightarrow> k + count_list ops LoginSecond < n \<Longrightarrow>
     refused n (k + count_list ops LoginSecond) (fst (login_run w ops f)) \<and> set (snd (login_run w ops f)) \<subseteq> {PasskeyLogin}"
proof (induction ops arbitrary: k f)
  case (Cons oper ops)
  let ?k = "if oper = LoginSecond then Suc k else k"
  have lt: "k < n" using Cons.prems(2) by simp
  note s = refused_step [OF Cons.prems(1) lt, where oper = oper and w = w]
  have "refused n (?k + count_list ops LoginSecond) (fst (login_run w ops (fst (login_step w oper f)))) \<and>
      set (snd (login_run w ops (fst (login_step w oper f)))) \<subseteq> {PasskeyLogin}"
    using Cons.prems(2) by (intro Cons.IH [OF s(1)]) (auto split: if_splits)
  then show ?case using s(2) by (auto simp: Let_def split_def split: if_splits)
qed simp

text \<open>C39: After the server refuses a password sign-in with 429 and a Retry-After of r seconds, the form submits no password
  for exactly r seconds, rounded up. Whatever is typed, clicked, submitted or answered meanwhile, no password sign-in is
  sent, the password button stays disabled and counts the seconds down; with the last second a submit sends the address and
  the password as they then stand. Only the password is locked: a click on the passkey button sends its
  request all the time, unless one is already under way.\<close>

theorem login_lock_exact:
  assumes "0 < r" "lf_cooldown f = idle_cooldown" "int (count_list ops LoginSecond) < \<lceil>r\<rceil>"
  shows "let (g, sent_requests) = login_run w ops (login_failed (Some r) (HttpError (Some (429, b))) f);
             left = nat (\<lceil>r\<rceil> - int (count_list ops LoginSecond)) in
     set sent_requests \<subseteq> {PasskeyLogin} \<and> isLocked g \<and>
     login_button t g = t ''login.tryAgainIn'' [(''time'', formatMinutesSeconds left)] \<and>
     (left = 1 \<longrightarrow> snd (login_run w [LoginSecond, SubmitPassword] g) = [PasswordLogin (lf_email g) (lf_password g)]) \<and>
     (w \<and> lf_passkey g \<noteq> Pending \<longrightarrow> snd (login_step w ClickPasskey g) = [PasskeyLogin])"
proof -
  let ?n = "nat \<lceil>r\<rceil>" and ?k = "count_list ops LoginSecond"
  let ?f = "login_failed (Some r) (HttpError (Some (429, b))) f"
  have n: "0 < ?n" using assms(1) by (simp add: zero_less_ceiling)
  have "refused ?n 0 ?f" using assms(1,2) by (simp add: refused_def login_failed_def lock_seconds_def Let_def)
  moreover have k: "?k < ?n" using assms(3) by linarith
  ultimately have run: "refused ?n ?k (fst (login_run w ops ?f))" "set (snd (login_run w ops ?f)) \<subseteq> {PasskeyLogin}"
    using refused_run [of ?n 0 ?f ops w] by simp_all
  obtain g rs where g: "login_run w ops ?f = (g, rs)" by fastforce
  have left: "cd_left (lf_cooldown g) = ?n - ?k" "?n - ?k = nat (\<lceil>r\<rceil> - int ?k)" "isError (lf_login g)"
    using refused_left [OF run(1) n] run(1) by (simp_all add: g refused_def)
  have "cd_left (lf_cooldown (login_second g)) = ?n - Suc ?k"
    using run(1) cooldown_left [OF n, of "Suc ?k"] by (simp add: g refused_def login_second_def)
  then have "snd (login_run w [LoginSecond, SubmitPassword] g) = [PasswordLogin (lf_email g) (lf_password g)]" if "?n - ?k = 1"
    using that left(3) by (cases "lf_login g") (simp_all add: login_step_def lf_handleSubmit_def login_second_def)
  moreover have "isLocked g" using left(1) k by (simp add: isLocked_def)
  ultimately show ?thesis using run(2) left(1,2) unfolding g
    by (simp add: login_button_def login_step_def)
qed

text \<open>Two and a half seconds, the second of them just over: the passkey was tried, the password was not sent.\<close>

lemma login_lock_exact_witness:
  "let b = \<lparr>eb_code = JNull, eb_params = [], eb_detail = JNull\<rparr>;
       f = login_failed (Some (5/2)) (HttpError (Some (429, b))) (login_mount\<lparr>lf_email := ''a@x''\<rparr>);
       (g, sent_requests) = login_run True [SubmitPassword, LoginSecond, ClickPasskey, LoginSecond, SubmitPassword] f
   in set sent_requests \<subseteq> {PasskeyLogin} \<and> isLocked g \<and>
     snd (login_run True [LoginSecond, SubmitPassword] g) = [PasswordLogin (lf_email g) (lf_password g)]"
proof -
  let ?ops = "[SubmitPassword, LoginSecond, ClickPasskey, LoginSecond, SubmitPassword]"
  have r: "(0::rat) < 5/2" and c: "\<lceil>5/2 :: rat\<rceil> = 3" by (simp_all add: ceiling_eq_iff)
  have i: "lf_cooldown (login_mount\<lparr>lf_email := ''a@x''\<rparr>) = idle_cooldown" by (simp add: login_mount_def)
  have k: "count_list ?ops LoginSecond = 2" by simp
  then have "int (count_list ?ops LoginSecond) < \<lceil>5/2 :: rat\<rceil>" by (simp add: c)
  from login_lock_exact [OF r i this, of True "\<lparr>eb_code = JNull, eb_params = [], eb_detail = JNull\<rparr>" "\<lambda>_ _. []"]
  show ?thesis unfolding Let_def k c by (simp only: split_def)
qed

definition vb_run :: "vb_op list \<Rightarrow> verify_button \<Rightarrow> verify_button" where
  "vb_run ops b = foldl (\<lambda>s op. vb_step op s) b ops"

lemma vb_run_Cons [simp]: "vb_run [] b = b" "vb_run (op # ops) b = vb_run ops (vb_step op b)"
  by (simp_all add: vb_run_def)

lemma verify_failed_stays:
  "isError (vb_status b) \<Longrightarrow> vb_fired b \<Longrightarrow> vb_run ops b = b"
proof (induction ops)
  case (Cons op ops)
  have "vb_step op b = b"
    using Cons.prems by (cases "vb_status b"; cases op) (auto simp: handleVerify_def vb_enabled_def vb_answered_def vb_effect_def)
  then show ?case using Cons by simp
qed simp

text \<open>C40: one failed answer, of whatever kind, ends a verification for good. The button never works again,
  the page is told once, and the token has been taken off the address bar, so that reloading the page
  opens it without one and the emailed link itself has to be opened again.\<close>

theorem verify_dead_end:
  assumes "lk_token (link_open hashParams searchParams) \<noteq> []"
  shows "let p = link_effect (link_open hashParams searchParams);
             b = vb_run ops (vb_run [ClickVerify, VerifyAnswer (Rejected e)] (vb_mount (lk_token p))) in
     \<not> vb_enabled b \<and> vb_errorCalls b = 1 \<and> vb_successCalls b = 0 \<and> lk_token (link_reload p) = []
     \<and> \<not> vb_enabled (vb_mount (lk_token (link_reload p)))"
proof -
  let ?p = "link_effect (link_open hashParams searchParams)"
  let ?b = "vb_run [ClickVerify, VerifyAnswer (Rejected e)] (vb_mount (lk_token ?p))"
  have tok: "lk_token ?p \<noteq> []" using assms by (simp add: link_effect_def)
  have rel: "lk_token (link_reload ?p) = []"
    using assms by (simp add: link_effect_def link_reload_def link_open_def link_param_def nullish_def)
  have b: "isError (vb_status ?b)" "vb_fired ?b" "vb_errorCalls ?b = 1" "vb_successCalls ?b = 0"
    using tok by (simp_all add: vb_mount_def handleVerify_def vb_enabled_def vb_answered_def vb_effect_def)
  then show ?thesis using rel verify_failed_stays [OF b(1,2)]
    by (simp add: Let_def vb_enabled_def vb_mount_def del: vb_run_Cons)
qed

lemma verify_dead_end_witness:
  "\<not> vb_enabled (vb_run [ClickVerify] (vb_run [ClickVerify, VerifyAnswer (Rejected (HttpError None))]
     (vb_mount (lk_token (link_effect (link_open [(''token'', ''abc'')] []))))))"
  using verify_dead_end [of "[(''token'', ''abc'')]" "[]" "[ClickVerify]" "HttpError None"]
  by (simp add: Let_def link_open_def link_param_def del: vb_run_Cons)

definition sp_run :: "sp_op list \<Rightarrow> step_up \<Rightarrow> step_up" where
  "sp_run ops d = foldl (\<lambda>s op. sp_step op s) d ops"

text \<open>A rejected password leaves its message behind when a passkey is used instead: the prompt closes,
  and the next time it is asked for it opens with the error of the last time. Cancelling clears it.\<close>

theorem step_up_stale_error:
  assumes "sp_withPassword d = Failed e" "sp_withPasskey d \<noteq> Pending" "sp_canUsePasskey d"
  shows "let d' = sp_run [UsePasskey, PasskeyAnswer (Fulfilled ())] d in
     \<not> sp_open d' \<and> sp_open (sp_run [StepUpAsked] d') \<and> sp_error (sp_run [StepUpAsked] d') = Some e \<and>
     sp_error (sp_run [CancelStepUp, StepUpAsked] d) = None"
  using assms by (simp add: sp_run_def Let_def sp_usePasskey_def sp_busy_def sp_passkey_answered_def sp_done_def
      sp_error_def error_of_def sp_cancel_def)

lemma step_up_stale_error_witness:
  "sp_error (sp_run [StepUpAsked, TypeStepUp ''x'', SubmitStepUp, PasswordAnswer (Rejected (HttpError None)),
     UsePasskey, PasskeyAnswer (Fulfilled ()), StepUpAsked] (sp_mount True True True)) = Some (HttpError None)"
proof -
  let ?d = "sp_run [StepUpAsked, TypeStepUp ''x'', SubmitStepUp, PasswordAnswer (Rejected (HttpError None))] (sp_mount True True True)"
  have "sp_withPassword ?d = Failed (HttpError None)" "sp_withPasskey ?d \<noteq> Pending" "sp_canUsePasskey ?d" by code_simp+
  from step_up_stale_error [OF this] show ?thesis by (simp add: sp_run_def Let_def)
qed

definition nc_run :: "(string \<Rightarrow> string) \<Rightarrow> nc_op list \<Rightarrow> name_card \<Rightarrow> name_card" where
  "nc_run t ops c = foldl (\<lambda>s op. nc_step t op s) c ops"

text \<open>When the account's name changes elsewhere, an untouched name card counts as edited, and saving it
  puts the old name back.\<close>

theorem name_elsewhere_reverts:
  assumes "nc_edited c = old" "nc_name c = Some old" "old \<noteq> []" "new \<noteq> old"
  shows "\<not> nc_isDirty c \<and> nc_isDirty (nc_run t [NameProp (Some new)] c) \<and>
     snd (handleNameSubmit t (nc_run t [NameProp (Some new)] c)) = Some (no_update\<lparr>uu_name := Some old\<rparr>)"
  using assms by (simp add: nc_isDirty_def nc_run_def handleNameSubmit_def nullish_def Let_def)

lemma name_elsewhere_reverts_witness:
  "snd (handleNameSubmit (\<lambda>k. k) (nc_run (\<lambda>k. k) [NameProp (Some ''Bob'')] (nc_mount (Some ''Ann''))))
     = Some (no_update\<lparr>uu_name := Some ''Ann''\<rparr>)"
  using name_elsewhere_reverts [of "nc_mount (Some ''Ann'')" "''Ann''" "''Bob''" "\<lambda>k. k"]
  by (simp add: nc_mount_def nullish_def)

end
