(* ===== verification/UsersPage.thy ===== *)
theory UsersPage
  imports AuthFlows Selection
begin

text \<open>
  The users page (\<open>users/useUsersPageFilters.ts\<close>, \<open>users/useUsersPageState.ts\<close>,
  \<open>users/usersUiStore.ts\<close>): filters kept in a session store and mirrored in the URL, the page
  and selection resets done while rendering, the selection of every matching user, which
  awaits the server, and the confirmed row actions.
\<close>

definition ALL_VALUE :: string where
  "ALL_VALUE = []"

section \<open>Filters\<close>

record users_ui =
  ui_role :: string
  ui_verified :: string
  ui_status :: string
  ui_policy :: string
  ui_permission :: string
  ui_lastLogin :: string
  ui_sortKey :: string
  ui_sortDir :: direction

definition initial_users_ui :: users_ui where
  "initial_users_ui = \<lparr>ui_role = ALL_VALUE, ui_verified = ALL_VALUE, ui_status = ALL_VALUE, ui_policy = ALL_VALUE,
     ui_permission = ALL_VALUE, ui_lastLogin = ALL_VALUE, ui_sortKey = [], ui_sortDir = Descending\<rparr>"

text \<open>What the hook reads: its local search, the debounced one, the store and the URL's parameters.\<close>

record filters =
  f_search :: string
  f_debounced :: string
  f_ui :: users_ui
  f_url :: "(string \<times> string) list"

definition param :: "string \<Rightarrow> filters \<Rightarrow> string option" where
  "param k f = map_of (f_url f) k"

definition f_policy :: "filters \<Rightarrow> string" where
  "f_policy f = nullish (param ''policy'' f) (ui_policy (f_ui f))"

definition f_permission :: "filters \<Rightarrow> string" where
  "f_permission f = nullish (param ''permission'' f) (ui_permission (f_ui f))"

definition f_permissionSource :: "filters \<Rightarrow> string option" where
  "f_permissionSource f =
     (if param ''permission_source'' f = Some ''policy'' \<or> param ''permission_source'' f = Some ''direct''
      then param ''permission_source'' f else None)"

text \<open>A handler is a closure of one render: \<open>snap\<close> is the state that render saw, the last argument
  the current one. A navigation replaces the URL's parameters by the ones it was given.\<close>

definition setPolicy :: "filters \<Rightarrow> string \<Rightarrow> filters \<Rightarrow> filters" where
  "setPolicy snap value f =
     (let f1 = f\<lparr>f_ui := (f_ui f)\<lparr>ui_policy := value\<rparr>\<rparr> in
      if param ''policy'' snap \<noteq> None
      then f1\<lparr>f_url := (if value = ALL_VALUE then url_delete ''policy'' (f_url snap)
                         else url_set ''policy'' value (f_url snap))\<rparr>
      else f1)"

definition setPermission :: "filters \<Rightarrow> string \<Rightarrow> filters \<Rightarrow> filters" where
  "setPermission snap value f =
     (let f1 = f\<lparr>f_ui := (f_ui f)\<lparr>ui_permission := value\<rparr>\<rparr> in
      if param ''permission'' snap \<noteq> None
      then f1\<lparr>f_url := (if value = ALL_VALUE
                         then url_delete ''permission_source'' (url_delete ''permission'' (f_url snap))
                         else url_set ''permission'' value (f_url snap))\<rparr>
      else f1)"

definition setSearch :: "string \<Rightarrow> filters \<Rightarrow> filters" where
  "setSearch v f = f\<lparr>f_search := v\<rparr>"
definition setRole :: "string \<Rightarrow> filters \<Rightarrow> filters" where
  "setRole v f = f\<lparr>f_ui := (f_ui f)\<lparr>ui_role := v\<rparr>\<rparr>"
definition setVerified :: "string \<Rightarrow> filters \<Rightarrow> filters" where
  "setVerified v f = f\<lparr>f_ui := (f_ui f)\<lparr>ui_verified := v\<rparr>\<rparr>"
definition setStatus :: "string \<Rightarrow> filters \<Rightarrow> filters" where
  "setStatus v f = f\<lparr>f_ui := (f_ui f)\<lparr>ui_status := v\<rparr>\<rparr>"
definition setLastLogin :: "string \<Rightarrow> filters \<Rightarrow> filters" where
  "setLastLogin v f = f\<lparr>f_ui := (f_ui f)\<lparr>ui_lastLogin := v\<rparr>\<rparr>"

definition sort_of :: "filters \<Rightarrow> sort_state" where
  "sort_of f = \<lparr>s_key = ui_sortKey (f_ui f), s_direction = ui_sortDir (f_ui f)\<rparr>"

definition toggleSort :: "filters \<Rightarrow> string \<Rightarrow> filters \<Rightarrow> filters" where
  "toggleSort snap k f =
     (let next = nextSortState (sort_of snap) k in
      f\<lparr>f_ui := (f_ui f)\<lparr>ui_sortKey := s_key next, ui_sortDir := s_direction next\<rparr>\<rparr>)"

definition hasActiveFilters :: "filters \<Rightarrow> bool" where
  "hasActiveFilters f \<longleftrightarrow> f_search f \<noteq> [] \<or> ui_role (f_ui f) \<noteq> ALL_VALUE \<or> ui_verified (f_ui f) \<noteq> ALL_VALUE
     \<or> ui_status (f_ui f) \<noteq> ALL_VALUE \<or> f_policy f \<noteq> ALL_VALUE \<or> f_permission f \<noteq> ALL_VALUE
     \<or> f_permissionSource f \<noteq> None \<or> ui_lastLogin (f_ui f) \<noteq> ALL_VALUE"

definition clearFilters :: "filters \<Rightarrow> filters \<Rightarrow> filters" where
  "clearFilters snap f =
     setLastLogin ALL_VALUE (setPermission snap ALL_VALUE (setPolicy snap ALL_VALUE
       (setStatus ALL_VALUE (setVerified ALL_VALUE (setRole ALL_VALUE (setSearch [] f))))))"

text \<open>Deep link in: the search is read from the URL once, when the page mounts.\<close>

definition mount_filters :: "users_ui \<Rightarrow> (string \<times> string) list \<Rightarrow> filters" where
  "mount_filters ui url_params =
     (let s = nullish (map_of url_params ''search'') [] in
      \<lparr>f_search = s, f_debounced = s, f_ui = ui, f_url = url_params\<rparr>)"

section \<open>The page\<close>

definition USERS_PAGE_SIZE :: nat where
  "USERS_PAGE_SIZE = 25"

definition toBoolFilter :: "string \<Rightarrow> bool option" where
  "toBoolFilter value = (if value = ALL_VALUE then None else Some (value = ''true''))"

definition direction_name :: "direction \<Rightarrow> string" where
  "direction_name d = (case d of Ascending \<Rightarrow> ''asc'' | Descending \<Rightarrow> ''desc'')"

definition filterResetKey :: "filters \<Rightarrow> string" where
  "filterResetKey f = join ''|'' [f_debounced f, ui_sortKey (f_ui f), direction_name (ui_sortDir (f_ui f)),
     ui_role (f_ui f), ui_verified (f_ui f), ui_status (f_ui f), f_policy f, f_permission f,
     nullish (f_permissionSource f) ''undefined'', ui_lastLogin (f_ui f)]"

text \<open>The filters sent to the server; those on access are sent only by a holder of policies:read.\<close>

definition activeFilters :: "auth_state \<Rightarrow> filters \<Rightarrow> list_users_params" where
  "activeFilters a f =
     (let canFilterByAccess = useCan a (OneAction ''policies:read'') None in
      \<lparr>lu_limit = None, lu_offset = None, lu_search = Some (f_debounced f),
       lu_role = or_undefined (ui_role (f_ui f)), lu_is_verified = toBoolFilter (ui_verified (f_ui f)),
       lu_status = or_undefined (ui_status (f_ui f)),
       lu_policy = (if canFilterByAccess then or_undefined (f_policy f) else None),
       lu_permission = (if canFilterByAccess then or_undefined (f_permission f) else None),
       lu_permission_source = (if canFilterByAccess then f_permissionSource f else None),
       lu_sort_by = None, lu_sort_dir = None, lu_last_login = or_undefined (ui_lastLogin (f_ui f)),
       lu_last_login_from = None, lu_last_login_to = None\<rparr>)"

definition users_query :: "auth_state \<Rightarrow> filters \<Rightarrow> nat \<Rightarrow> query" where
  "users_query a f page = useUsersQuery page USERS_PAGE_SIZE
     ((activeFilters a f)\<lparr>lu_sort_by := or_undefined (ui_sortKey (f_ui f)),
        lu_sort_dir := Some (case ui_sortDir (f_ui f) of Ascending \<Rightarrow> Asc | Descending \<Rightarrow> Desc)\<rparr>) True"

record users_page =
  up_filters :: filters
  up_page :: page_hook
  up_selected :: "int list"
  up_allMatching :: bool
  up_matchingEmails :: "string list"
  up_selecting :: bool
  up_prevSelectionKey :: string
  up_rows :: "managed_user list option"
  up_total :: "nat option"

definition selectionResetKey :: "users_page \<Rightarrow> string" where
  "selectionResetKey p = show_nat (pg_page (up_page p)) @ ''|'' @ filterResetKey (up_filters p)"

text \<open>One render: the page reset, then the selection reset.\<close>

definition render_users :: "users_page \<Rightarrow> users_page" where
  "render_users p =
     (let p1 = p\<lparr>up_page := usePageResetOn (filterResetKey (up_filters p)) (up_page p)\<rparr>;
          key = selectionResetKey p1
      in if key \<noteq> up_prevSelectionKey p1
         then p1\<lparr>up_prevSelectionKey := key, up_selected := [], up_allMatching := False\<rparr> else p1)"

definition selectedUserEmails :: "users_page \<Rightarrow> string list" where
  "selectedUserEmails p =
     (if up_allMatching p then up_matchingEmails p
      else map mu_email (filter (\<lambda>u. mu_id u \<in> set (up_selected p)) (nullish (up_rows p) [])))"

definition selectedCount :: "users_page \<Rightarrow> nat" where
  "selectedCount p = (if up_allMatching p then nullish (up_total p) (length (up_matchingEmails p)) else length (up_selected p))"

definition clearSelection :: "users_page \<Rightarrow> users_page" where
  "clearSelection p = p\<lparr>up_selected := [], up_allMatching := False\<rparr>"

definition handleSelectionChange :: "(int list \<Rightarrow> int list) \<Rightarrow> users_page \<Rightarrow> users_page" where
  "handleSelectionChange upd p = p\<lparr>up_allMatching := False, up_selected := upd (up_selected p)\<rparr>"

text \<open>\<open>handleSelectAllMatching\<close> before and after its await.\<close>

definition select_all_start :: "users_page \<Rightarrow> users_page" where
  "select_all_start p = p\<lparr>up_selecting := True\<rparr>"

definition page_toast :: "string \<Rightarrow> toast_type \<Rightarrow> app \<Rightarrow> app" where
  "page_toast title ty = toast \<lparr>tn_title = title, tn_description = [], tn_type = ty\<rparr>"

text \<open>A set too large to collect has a message of its own; any other failure shows its own message.\<close>

definition fetch_message :: "(api_error \<Rightarrow> string) \<Rightarrow> fetch_error \<Rightarrow> string" where
  "fetch_message axios_message e = (case e of
     TooMany \<Rightarrow> ''This filter matches more than 2000 users. Narrow the filters and try again.''
   | RequestFailed r \<Rightarrow> axios_message r)"

definition select_all_done ::
  "(api_error \<Rightarrow> string) \<Rightarrow> fetch_error + string list \<Rightarrow> users_page \<times> app \<Rightarrow> users_page \<times> app" where
  "select_all_done axios_message r ps =
     (case r of
        Inr emails \<Rightarrow> ((fst ps)\<lparr>up_matchingEmails := emails, up_allMatching := True, up_selecting := False\<rparr>, snd ps)
      | Inl e \<Rightarrow> ((fst ps)\<lparr>up_selecting := False\<rparr>, page_toast (fetch_message axios_message e) ToastError (snd ps)))"

definition setPage :: "nat \<Rightarrow> users_page \<Rightarrow> users_page" where
  "setPage n p = p\<lparr>up_page := (up_page p)\<lparr>pg_page := n\<rparr>\<rparr>"

definition change_filters :: "(filters \<Rightarrow> filters) \<Rightarrow> users_page \<Rightarrow> users_page" where
  "change_filters g p = p\<lparr>up_filters := g (up_filters p)\<rparr>"

section \<open>Confirmed actions\<close>

text \<open>The pattern of \<open>handleDeleteConfirm\<close>, \<open>handlePurgeConfirm\<close> and \<open>handleRoleChangeConfirm\<close>:
  nothing without a pending target; success says so and closes the dialog, failure reports the
  message and leaves it open.\<close>

definition confirm_action ::
  "translator \<Rightarrow> ('t \<Rightarrow> 'd mutation) \<Rightarrow> string \<Rightarrow> 'd outcome \<Rightarrow> 't option \<times> app \<Rightarrow> 't option \<times> app" where
  "confirm_action tr mut done_key answer ps =
     (case fst ps of
        None \<Rightarrow> ps
      | Some target \<Rightarrow>
          (case run_mutation tr (mut target) answer (snd ps) of
             (Inr d, s) \<Rightarrow> (None, page_toast (tr_text tr done_key []) ToastSuccess s)
           | (Inl msg, s) \<Rightarrow> (Some target, page_toast msg ToastError s)))"

definition handleDeleteConfirm where
  "handleDeleteConfirm tr answer =
     confirm_action tr (\<lambda>u. useDeleteUserMutation (mu_email u)) ''users:page.userDeactivatedToast'' answer"

definition handlePurgeConfirm where
  "handlePurgeConfirm tr answer =
     confirm_action tr (\<lambda>u. usePurgeUserMutation (mu_email u)) ''users:page.userDeletedToast'' answer"

definition handleRoleChangeConfirm where
  "handleRoleChangeConfirm tr answer =
     confirm_action tr (\<lambda>(u, r). useUpdateUserRoleMutation (mu_email u) r) ''users:page.roleUpdatedToast'' answer"

definition handleReactivate :: "translator \<Rightarrow> string \<Rightarrow> managed_user outcome \<Rightarrow> app \<Rightarrow> app" where
  "handleReactivate tr userEmail answer s =
     (case run_mutation tr (useReactivateUserMutation userEmail) answer s of
        (Inr d, s') \<Rightarrow> page_toast (tr_text tr ''users:page.userReactivatedToast'' []) ToastSuccess s'
      | (Inl msg, s') \<Rightarrow> page_toast msg ToastError s')"

definition handleExport :: "translator \<Rightarrow> auth_state \<Rightarrow> filters \<Rightarrow> string outcome \<Rightarrow> app \<Rightarrow> app" where
  "handleExport tr a f answer s =
     (case run_mutation tr (useExportUsersMutation (activeFilters a f)) answer s of
        (Inr d, s') \<Rightarrow> s' | (Inl msg, s') \<Rightarrow> page_toast msg ToastError s')"

section \<open>Lemmas\<close>

lemma clearFilters_ui:
  "f_search (clearFilters snap f) = [] \<and> ui_role (f_ui (clearFilters snap f)) = ALL_VALUE
   \<and> ui_verified (f_ui (clearFilters snap f)) = ALL_VALUE \<and> ui_status (f_ui (clearFilters snap f)) = ALL_VALUE
   \<and> ui_policy (f_ui (clearFilters snap f)) = ALL_VALUE \<and> ui_permission (f_ui (clearFilters snap f)) = ALL_VALUE
   \<and> ui_lastLogin (f_ui (clearFilters snap f)) = ALL_VALUE"
  by (simp add: clearFilters_def setSearch_def setRole_def setVerified_def setStatus_def setLastLogin_def
      setPolicy_def setPermission_def Let_def)

lemma clearFilters_url:
  "f_url (clearFilters snap f) =
     (if param ''permission'' snap \<noteq> None
      then url_delete ''permission_source'' (url_delete ''permission'' (f_url snap))
      else if param ''policy'' snap \<noteq> None then url_delete ''policy'' (f_url snap) else f_url f)"
  by (simp add: clearFilters_def setSearch_def setRole_def setVerified_def setStatus_def setLastLogin_def
      setPolicy_def setPermission_def Let_def)

definition rendered :: "users_page \<Rightarrow> bool" where
  "rendered p \<longleftrightarrow> up_prevSelectionKey p = selectionResetKey p
     \<and> pg_prevResetKey (up_page p) = filterResetKey (up_filters p)"

lemma rendered_render: "rendered (render_users p)"
  by (simp add: rendered_def render_users_def usePageResetOn_def selectionResetKey_def Let_def)

lemma render_idem: "rendered p \<Longrightarrow> render_users p = p"
  by (simp add: rendered_def render_users_def usePageResetOn_def selectionResetKey_def Let_def)

text \<open>The page number and the filter key can be read off the selection key.\<close>

lemma selectionResetKey_inject:
  "selectionResetKey p = selectionResetKey q \<longleftrightarrow>
     pg_page (up_page p) = pg_page (up_page q) \<and> filterResetKey (up_filters p) = filterResetKey (up_filters q)"
  using split_at_sep [OF show_nat_no_bar show_nat_no_bar, of "pg_page (up_page p)" "filterResetKey (up_filters p)"
      "pg_page (up_page q)" "filterResetKey (up_filters q)"]
  by (auto simp: selectionResetKey_def)

section \<open>Properties\<close>

text \<open>C19: A change of the filters or of the page number, once rendered, leaves nobody selected, so a
  bulk action cannot reach a row that left the screen; a filter change also goes back to page 1,
  a page change keeps the page; and a change of neither keeps the selection as it is.\<close>

theorem leaving_rows_clears_selection:
  assumes "rendered p"
  shows "(filterResetKey (g (up_filters p)) \<noteq> filterResetKey (up_filters p) \<longrightarrow>
       selectedUserEmails (render_users (change_filters g p)) = [] \<and>
       selectedCount (render_users (change_filters g p)) = 0 \<and>
       pg_page (up_page (render_users (change_filters g p))) = 1) \<and>
     (n \<noteq> pg_page (up_page p) \<longrightarrow>
       selectedUserEmails (render_users (setPage n p)) = [] \<and> pg_page (up_page (render_users (setPage n p))) = n) \<and>
     render_users (setPage (pg_page (up_page p)) p) = p"
proof -
  have filter_change: "selectedUserEmails (render_users (change_filters g p)) = [] \<and>
      selectedCount (render_users (change_filters g p)) = 0 \<and>
      pg_page (up_page (render_users (change_filters g p))) = 1"
    if k: "filterResetKey (g (up_filters p)) \<noteq> filterResetKey (up_filters p)"
  proof -
    let ?p1 = "p\<lparr>up_filters := g (up_filters p), up_page := \<lparr>pg_page = 1, pg_prevResetKey = filterResetKey (g (up_filters p))\<rparr>\<rparr>"
    have "selectionResetKey ?p1 \<noteq> selectionResetKey p" using k by (simp add: selectionResetKey_inject)
    with assms k show ?thesis
      by (simp add: rendered_def render_users_def change_filters_def usePageResetOn_def Let_def
          selectedUserEmails_def selectedCount_def)
  qed
  have page_change: "selectedUserEmails (render_users (setPage n p)) = [] \<and>
      pg_page (up_page (render_users (setPage n p))) = n" if k: "n \<noteq> pg_page (up_page p)"
  proof -
    have "selectionResetKey (setPage n p) \<noteq> selectionResetKey p"
      using k by (simp add: selectionResetKey_inject setPage_def)
    with assms show ?thesis
      by (simp add: rendered_def render_users_def setPage_def usePageResetOn_def Let_def selectedUserEmails_def)
  qed
  have "setPage (pg_page (up_page p)) p = p" by (simp add: setPage_def)
  with assms filter_change page_change show ?thesis by (simp add: render_idem)
qed

definition empty_page :: users_page where
  "empty_page = render_users \<lparr>up_filters = mount_filters initial_users_ui [], up_page = page_mount [], up_selected = [7],
     up_allMatching = False, up_matchingEmails = [], up_selecting = False, up_prevSelectionKey = [],
     up_rows = None, up_total = None\<rparr>"

lemma leaving_rows_clears_selection_witness:
  "pg_page (up_page empty_page) = 1 \<and> selectedUserEmails (render_users (setPage 3 empty_page)) = []"
proof -
  have r: "rendered empty_page" unfolding empty_page_def by (rule rendered_render)
  have "pg_page (up_page empty_page) = 1"
    by (simp add: empty_page_def render_users_def usePageResetOn_def page_mount_def Let_def)
  with leaving_rows_clears_selection [OF r, of "\<lambda>f. f" 3] show ?thesis by simp
qed

text \<open>Selecting every matching user is not tied to the filters it was started under. If the filters
  change (and the page renders, clearing the selection) while the addresses are being collected,
  the late answer selects the users of the old filters: the bulk actions then target them while
  the table shows the new filters and the count shown is the total of the table, once it is loaded.\<close>

theorem select_all_outlives_filters:
  "let p1 = select_all_start p;
       p2 = render_users (change_filters g p1);
       p3 = render_users (fst (select_all_done am (Inr emails) (p2, s)))
   in selectedUserEmails p3 = emails \<and> selectedCount p3 = nullish (up_total p) (length emails)
      \<and> up_filters p3 = g (up_filters p)"
proof -
  let ?p2 = "render_users (change_filters g (select_all_start p))"
  let ?p = "fst (select_all_done am (Inr emails) (?p2, s))"
  have "rendered ?p" using rendered_render [of "change_filters g (select_all_start p)"]
    by (simp add: rendered_def select_all_done_def selectionResetKey_def)
  then have "render_users ?p = ?p" by (rule render_idem)
  moreover have "up_filters ?p2 = g (up_filters p)" "up_total ?p2 = up_total p"
    by (simp_all add: render_users_def change_filters_def select_all_start_def Let_def)
  ultimately show ?thesis
    by (simp add: Let_def select_all_done_def selectedUserEmails_def selectedCount_def)
qed

text \<open>Clearing the filters leaves a filter active in exactly two cases: the URL carries both a
  policy and a permission parameter (the second navigation restores the policy), or it carries a
  permission source without a permission.\<close>

theorem clear_filters_residue:
  "hasActiveFilters (clearFilters f f) \<longleftrightarrow>
     (if param ''permission'' f \<noteq> None then nullish (param ''policy'' f) [] \<noteq> []
      else f_permissionSource f \<noteq> None)"
proof -
  note ui = clearFilters_ui [of f f]
  have par: "param k (clearFilters f f) =
      (if param ''permission'' f \<noteq> None then (if k = ''permission'' \<or> k = ''permission_source'' then None else param k f)
       else if param ''policy'' f \<noteq> None then (if k = ''policy'' then None else param k f) else param k f)" for k
    by (simp add: param_def clearFilters_url map_of_url_delete)
  show ?thesis
    using ui by (auto simp: hasActiveFilters_def f_policy_def f_permission_def f_permissionSource_def par
        ALL_VALUE_def nullish_def split: option.splits)
qed

text \<open>Without the policies:read permission, no request of the page (the table's, the export's or the
  collection of every match) tells the server which policy or permission is filtered on, even
  when a link or a stored filter names one.\<close>

theorem access_filters_gated:
  assumes "\<not> can a (OneAction ''policies:read'')"
    and "r \<in> {q_request (users_query a f page), exportUsersApi (activeFilters a f), fetch_request (activeFilters a f) off}"
    and "k \<in> {''policy'', ''permission'', ''permission_source''}"
  shows "k \<notin> fst ` set (send_fields (r_params r))"
proof -
  have gone: "k \<notin> fst ` set (send_fields (toApiParams p))"
    if "lu_policy p = None" "lu_permission p = None" "lu_permission_source p = None" for p
    unfolding send_fields_key toApiParams_def using assms(3) that by auto
  have "\<not> useCan a (OneAction ''policies:read'') None" using assms(1) by (simp add: useCan_def)
  then have off: "lu_policy (activeFilters a f) = None" "lu_permission (activeFilters a f) = None"
      "lu_permission_source (activeFilters a f) = None"
    by (simp_all add: activeFilters_def Let_def)
  from assms(2) consider "r = q_request (users_query a f page)" | "r = exportUsersApi (activeFilters a f)"
    | "r = fetch_request (activeFilters a f) off" by auto
  then obtain p where "r_params r = toApiParams p" "lu_policy p = None" "lu_permission p = None"
      "lu_permission_source p = None"
  proof cases
    case 1
    then show ?thesis using that off
      by (simp add: users_query_def useUsersQuery_def query_of_def listUsersApi_def drop_empty_search_def get_req_def)
  next
    case 2
    then show ?thesis using that off by (simp add: exportUsersApi_def get_req_def)
  next
    case 3
    then show ?thesis using that off
      by (simp add: fetch_request_def listUsersApi_def drop_empty_search_def get_req_def)
  qed
  then show ?thesis using gone by simp
qed

lemma access_filters_gated_witness:
  "''policy'' \<notin> fst ` set (send_fields (r_params (exportUsersApi
      (activeFilters (signed_in []) (mount_filters initial_users_ui [(''policy'', ''admins'')])))))"
  by (rule access_filters_gated [where a = "signed_in []"])
    (auto simp: can_def signed_in_def)

end
