(* ===== verification/PolicyText.thy ===== *)
theory PolicyText
  imports Grants Selection
begin

text \<open>
  Lists and labels of policies (\<open>policies/policyCardHelpers.ts\<close>, \<open>policies/policyListHelpers.ts\<close>):
  the plain-language labels of actions and resource types, the grouping of actions by verb
  and of policies by resource type, the client-side filter and the pagination.
  \<open>localeCompare\<close> and \<open>toLocaleLowerCase\<close> depend on the host's locale; they are the parameters
  \<open>lc\<close> and \<open>locale_lower\<close>.
\<close>

section \<open>policyCardHelpers.ts\<close>

definition PROTECTED_POLICY_NAMES :: "string list" where
  "PROTECTED_POLICY_NAMES = [''self_service'', ''user_management'', ''system_superuser'']"

definition resourceTypeIconTone :: "string \<Rightarrow> string" where
  "resourceTypeIconTone resourceType =
     (if resourceType = ''users'' then ''text-sky-600 dark:text-sky-400''
      else if resourceType = ''policies'' then ''text-violet-600 dark:text-violet-400''
      else if resourceType = ''permissions'' then ''text-amber-600 dark:text-amber-400''
      else if resourceType = ''security_audit'' then ''text-rose-600 dark:text-rose-400''
      else if resourceType = ''rate_limits'' then ''text-cyan-600 dark:text-cyan-400''
      else ''text-fg-muted'')"

text \<open>The verb of an action: what follows the first colon, up to the first underscore.\<close>

definition action_verb :: "string \<Rightarrow> string" where
  "action_verb action =
     (let afterColon = (if CHR '':'' \<in> set action then split_on (CHR '':'') action ! 1 else action);
          verb = hd (split_on (CHR ''_'') afterColon)
      in if verb = [] then afterColon else verb)"

definition groupActionsByVerb ::
  "(string \<Rightarrow> string \<Rightarrow> int) \<Rightarrow> string list \<Rightarrow> (string \<times> string list) list" where
  "groupActionsByVerb lc actions = js_sort (\<lambda>a b. lc (fst a) (fst b)) (group_list action_verb actions)"

definition AUTHORIZATION_DESCRIPTION_MAX_LENGTH :: nat where
  "AUTHORIZATION_DESCRIPTION_MAX_LENGTH = 160"

text \<open>The ellipsis is code unit 0x2026, so the result is a list of code units.\<close>

definition displayAuthorizationDescription :: "string option \<Rightarrow> string \<Rightarrow> ustring" where
  "displayAuthorizationDescription description fallback =
     (let value = or_else (map_option trim description) fallback in
      if length value \<le> AUTHORIZATION_DESCRIPTION_MAX_LENGTH then codes value
      else codes (trim_end (slice 0 (AUTHORIZATION_DESCRIPTION_MAX_LENGTH - 1) value)) @ [0x2026])"

definition formatPolicyActionLabel :: "string \<Rightarrow> string" where
  "formatPolicyActionLabel action =
     (case take 2 (split_on (CHR '':'') action) of
        resource # rawVerb # _ \<Rightarrow>
          if rawVerb = [] then blank_seps action
          else capitalize (trim (blank_seps rawVerb)) @ '' '' @ trim (blank_seps resource)
      | _ \<Rightarrow> blank_seps action)"

definition formatResourceTypeLabel :: "string \<Rightarrow> string \<Rightarrow> string" where
  "formatResourceTypeLabel resourceType allResourceTypesLabel =
     (if resourceType = ''*'' then allResourceTypesLabel
      else join '' '' (map capitalize (split_ws (trim (blank_seps resourceType)))))"

section \<open>policyListHelpers.ts\<close>

record client_filters =
  cf_search :: "string option"
  cf_resourceType :: "string option"
  cf_isActive :: "bool option"
  cf_containsAction :: "string option"

definition destructive_match :: "(string \<Rightarrow> string) \<Rightarrow> client_filters \<Rightarrow> policy \<Rightarrow> bool" where
  "destructive_match locale_lower f p \<longleftrightarrow>
     (let search = nullish (map_option (\<lambda>s. locale_lower (trim s)) (cf_search f)) [] in
      if search \<noteq> [] \<and> \<not> contains (locale_lower (pol_name p @ '' '' @ nullish (pol_description p) [])) search then False
      else if truthy (cf_resourceType f) \<and> Some (pol_resource_type p) \<noteq> cf_resourceType f then False
      else if cf_isActive f \<noteq> None \<and> Some (pol_is_active p) \<noteq> cf_isActive f then False
      else if truthy (cf_containsAction f) \<and> the (cf_containsAction f) \<notin> set (pol_actions p) then False
      else list_ex isDestructiveAction (pol_actions p))"

definition filterDestructivePolicies ::
  "(string \<Rightarrow> string) \<Rightarrow> (string \<Rightarrow> string \<Rightarrow> int) \<Rightarrow> policy list \<Rightarrow> client_filters \<Rightarrow> policy list" where
  "filterDestructivePolicies locale_lower lc policies f =
     js_sort (\<lambda>a b. lc (pol_name a) (pol_name b)) (filter (destructive_match locale_lower f) policies)"

definition paginatePolicies :: "policy list \<Rightarrow> nat \<Rightarrow> nat \<Rightarrow> policy list" where
  "paginatePolicies policies page pageSize =
     (let start = (page - 1) * pageSize in slice start (start + pageSize) policies)"

definition groupPoliciesByResourceType ::
  "(string \<Rightarrow> string \<Rightarrow> int) \<Rightarrow> policy list \<Rightarrow> (string \<times> policy list) list" where
  "groupPoliciesByResourceType lc policies =
     map (\<lambda>(resourceType, g). (resourceType, js_sort (\<lambda>a b. lc (pol_name a) (pol_name b)) g))
       (js_sort (\<lambda>a b. lc (fst a) (fst b)) (group_list pol_resource_type policies))"

section \<open>Lemmas\<close>

text \<open>Sorting the groups of a list by their key.\<close>

lemma sorted_groups:
  fixes key :: "'a \<Rightarrow> string" and xs :: "'a list"
  assumes "js_comparator lc"
  defines "gs \<equiv> js_sort (\<lambda>a b. lc (fst a) (fst b)) (group_list key xs)"
  shows "mset (concat (map snd gs)) = mset xs" "distinct (map fst gs)"
    "sorted_wrt (\<lambda>a b. lc a b \<le> 0) (map fst gs)" "set gs = set (group_list key xs)"
proof -
  have m: "mset gs = mset (group_list key xs)" by (simp add: gs_def)
  show s: "set gs = set (group_list key xs)" by (simp add: gs_def)
  have "mset (concat (map snd gs)) = mset (concat (map snd (group_list key xs)))"
    using arg_cong [OF m, of "\<lambda>M. \<Sum>\<^sub># (image_mset (mset \<circ> snd) M)"]
    by (simp add: mset_concat comp_def flip: mset_map sum_mset_sum_list)
  then show "mset (concat (map snd gs)) = mset xs"
    using group_list_mset [of key xs] by (simp add: om_values_def)
  show "distinct (map fst gs)"
    using group_list_distinct [of key xs] m mset_eq_imp_distinct_iff [of "map fst gs" "map fst (group_list key xs)"]
    by (simp add: om_keys_def)
  have "js_comparator (\<lambda>a b. lc (fst a) (fst b))" using assms(1) by (rule js_comparator_on)
  from js_comparator.sort_sorted [OF this, of "group_list key xs"]
  show "sorted_wrt (\<lambda>a b. lc a b \<le> 0) (map fst gs)" by (simp add: gs_def sorted_wrt_map)
qed

lemma group_member: "(k, g) \<in> set (group_list key xs) \<Longrightarrow> g = filter (\<lambda>x. key x = k) xs \<and> k \<in> key ` set xs"
proof -
  assume "(k, g) \<in> set (group_list key xs)"
  then have "om_get (group_list key xs) k = Some g" by (simp add: om_get_in_set)
  then show ?thesis by (simp add: group_list_get split: if_splits)
qed

lemma pages_prefix: "concat (map (\<lambda>p. paginatePolicies ps (Suc p) n) [0..<k]) = take (k * n) ps"
proof (induction k)
  case 0
  then show ?case by simp
next
  case (Suc k)
  have "take (k * n) ps @ take n (drop (k * n) ps) = take (Suc k * n) ps"
    by (simp add: add.commute [of n] flip: take_add)
  with Suc show ?case by (simp add: paginatePolicies_def Let_def slice_def)
qed

lemma pages_reach:
  assumes "0 < n" shows "k \<le> totalPages n k * n"
proof -
  have "k \<le> ceil_div k n * n" using ceil_div_bounds(1) [OF assms] .
  also have "\<dots> \<le> totalPages n k * n" by (simp add: totalPages_def)
  finally show ?thesis .
qed

lemma length_trim_end_le: "length (trim_end s) \<le> length s"
  using trim_end_prefix [of s] by (metis length_append le_add1)

lemma description_bounded: "length (displayAuthorizationDescription d fb) \<le> 160"
  using length_trim_end_le [of "slice 0 159 (or_else (map_option trim d) fb)"]
    length_slice_le [of 0 159 "or_else (map_option trim d) fb"]
  by (simp add: displayAuthorizationDescription_def Let_def codes_def AUTHORIZATION_DESCRIPTION_MAX_LENGTH_def)

section \<open>Properties\<close>

text \<open>The policy list shown is a rearrangement of the policies: the groups are in order of their
  resource type, no type twice, each group holds exactly the policies of its type in order of
  their names, and nothing is lost or repeated. Cutting a list into pages of a positive size
  loses and repeats nothing either.\<close>

theorem policies_listed_once:
  assumes "js_comparator lc" "0 < pageSize"
  shows "let gs = groupPoliciesByResourceType lc ps in
     mset (concat (map snd gs)) = mset ps \<and> distinct (map fst gs) \<and>
     sorted_wrt (\<lambda>a b. lc a b \<le> 0) (map fst gs) \<and>
     (\<forall>(t, g) \<in> set gs. mset g = filter_mset (\<lambda>p. pol_resource_type p = t) (mset ps) \<and> g \<noteq> [] \<and>
        sorted_wrt (\<lambda>p q. lc (pol_name p) (pol_name q) \<le> 0) g) \<and>
     concat (map (\<lambda>p. paginatePolicies ps (Suc p) pageSize) [0..<totalPages pageSize (length ps)]) = ps"
proof -
  let ?gs = "js_sort (\<lambda>a b. lc (fst a) (fst b)) (group_list pol_resource_type ps)"
  note sg = sorted_groups [OF assms(1), of pol_resource_type ps]
  have res: "groupPoliciesByResourceType lc ps =
      map (\<lambda>p. (fst p, js_sort (\<lambda>a b. lc (pol_name a) (pol_name b)) (snd p))) ?gs"
    by (simp add: groupPoliciesByResourceType_def case_prod_beta)
  have keys: "map fst (groupPoliciesByResourceType lc ps) = map fst ?gs" by (simp add: res comp_def)
  have all: "mset (concat (map snd (groupPoliciesByResourceType lc ps))) = mset ps"
    using sg(1) by (simp add: res mset_concat comp_def)
  have names: "js_comparator (\<lambda>a b. lc (pol_name a) (pol_name b))" using assms(1) by (rule js_comparator_on)
  have each: "mset g = filter_mset (\<lambda>p. pol_resource_type p = t) (mset ps) \<and> g \<noteq> [] \<and>
      sorted_wrt (\<lambda>p q. lc (pol_name p) (pol_name q) \<le> 0) g"
    if tg: "(t, g) \<in> set (groupPoliciesByResourceType lc ps)" for t g
  proof -
    obtain h where h: "(t, h) \<in> set (group_list pol_resource_type ps)"
      and g: "g = js_sort (\<lambda>a b. lc (pol_name a) (pol_name b)) h"
      using tg sg(4) by (auto simp: res)
    note gm = group_member [OF h]
    have "h \<noteq> []" using gm by (auto simp: filter_empty_conv)
    then have "g \<noteq> []" unfolding g by (metis length_0_conv length_js_sort)
    then show ?thesis using gm js_comparator.sort_sorted [OF names, of h] by (simp add: g mset_filter)
  qed
  have "concat (map (\<lambda>p. paginatePolicies ps (Suc p) pageSize) [0..<totalPages pageSize (length ps)]) = ps"
    using pages_reach [OF assms(2), of "length ps"] by (simp add: pages_prefix)
  with each all sg(2,3) show ?thesis by (simp add: keys Let_def) blast
qed

definition by_length :: "string \<Rightarrow> string \<Rightarrow> int" where
  "by_length a b = int (length a) - int (length b)"

lemma policies_listed_once_witness:
  "concat (map (\<lambda>p. paginatePolicies [q] (Suc p) 25) [0..<1]) = [q] \<and>
   mset (concat (map snd (groupPoliciesByResourceType by_length [q]))) = {#q#}"
proof -
  have c: "js_comparator by_length" by unfold_locales (simp_all add: by_length_def sgn_if)
  have "(0::nat) < 25" by simp
  from policies_listed_once [OF c this, of "[q]"]
  have "concat (map (\<lambda>p. paginatePolicies [q] (Suc p) 25) [0..<totalPages 25 (length [q])]) = [q]"
    "mset (concat (map snd (groupPoliciesByResourceType by_length [q]))) = mset [q]"
    unfolding Let_def by blast+
  moreover have "totalPages 25 (length [q]) = 1" by (simp add: totalPages_def ceil_div_def)
  ultimately show ?thesis by simp
qed

end
