(* ===== verification/PolicyForm.thy ===== *)
theory PolicyForm
  imports PolicyText Mutations Toaster
begin

text \<open>
  The create/edit form of a policy (\<open>policies/dialogs/usePolicyFormState.ts\<close> and the discard
  confirmation of \<open>PolicyFormDialog.tsx\<close>): opening, the unsaved-changes check, the two ways
  actions change, leaving, submitting.
  \<open>JSON.parse\<close> and the pretty-printing \<open>JSON.stringify(conditions, null, 2)\<close> are the parameters
  \<open>parse\<close> (\<open>None\<close> where it throws) and \<open>pretty\<close>: the form only carries conditions between them.
  \<open>JSON.stringify\<close> of the form's own snapshot is spelled out, since the unsaved-changes check
  compares such texts.
\<close>

section \<open>JSON.stringify of strings and arrays\<close>

definition backslash :: char where "backslash = CHR 0x5C"
definition quote :: char where "quote = CHR 0x22"

definition lower_hex :: "nat \<Rightarrow> char" where
  "lower_hex d = (if d < 10 then char_of (48 + d) else char_of (87 + d))"

definition json_escape :: "char \<Rightarrow> string" where
  "json_escape c =
     (let n = ucode c in
      if n = 34 then [backslash, quote]
      else if n = 92 then [backslash, backslash]
      else if n = 8 then [backslash, CHR ''b'']
      else if n = 9 then [backslash, CHR ''t'']
      else if n = 10 then [backslash, CHR ''n'']
      else if n = 12 then [backslash, CHR ''f'']
      else if n = 13 then [backslash, CHR ''r'']
      else if n < 32 then backslash # ''u00'' @ [lower_hex (n div 16), lower_hex (n mod 16)]
      else [c])"

definition json_quote :: "string \<Rightarrow> string" where
  "json_quote s = quote # concat (map json_escape s) @ [quote]"

definition json_array :: "string list \<Rightarrow> string" where
  "json_array ws = ''['' @ join '','' ws @ '']''"

section \<open>The form\<close>

definition ALL_RESOURCE_TYPES_VALUE :: string where
  "ALL_RESOURCE_TYPES_VALUE = ''*''"

datatype form_tab = TabBasics | TabActions
datatype form_exit = ExitClose | ExitDetails

record policy_form =
  pf_tab :: form_tab
  pf_name :: string
  pf_description :: string
  pf_actions :: "string list"
  pf_resourceType :: string
  pf_conditionsEnabled :: bool
  pf_conditionsText :: string
  pf_initialSnapshot :: string
  pf_prevIsOpen :: bool
  pf_showDiscardConfirm :: bool
  pf_pendingExit :: "form_exit option"

definition blank_form :: policy_form where
  "blank_form = \<lparr>pf_tab = TabBasics, pf_name = [], pf_description = [], pf_actions = [], pf_resourceType = [],
     pf_conditionsEnabled = False, pf_conditionsText = [], pf_initialSnapshot = [], pf_prevIsOpen = False,
     pf_showDiscardConfirm = False, pf_pendingExit = None\<rparr>"

definition form_snapshot :: "policy_form \<Rightarrow> string" where
  "form_snapshot f = json_array [json_quote (pf_name f), json_quote (pf_description f),
     json_array (map json_quote (pf_actions f)), json_quote (pf_resourceType f), json_quote (pf_conditionsText f)]"

text \<open>One render: the form is loaded when the dialog has just opened.\<close>

definition load_form :: "(fields \<Rightarrow> string) \<Rightarrow> policy option \<Rightarrow> policy_form \<Rightarrow> policy_form" where
  "load_form pretty policy f =
     (let conditions = Option.bind policy pol_conditions;
          f1 = f\<lparr>pf_tab := TabBasics,
            pf_name := nullish (map_option pol_name policy) [],
            pf_description := nullish (Option.bind policy pol_description) [],
            pf_actions := (case policy of None \<Rightarrow> [] | Some p \<Rightarrow> pol_actions p),
            pf_resourceType := nullish (map_option pol_resource_type policy) [],
            pf_conditionsEnabled := conditions \<noteq> None,
            pf_conditionsText := (case conditions of None \<Rightarrow> [] | Some c \<Rightarrow> pretty c)\<rparr>
      in f1\<lparr>pf_initialSnapshot := form_snapshot f1\<rparr>)"

definition render_form :: "(fields \<Rightarrow> string) \<Rightarrow> bool \<Rightarrow> policy option \<Rightarrow> policy_form \<Rightarrow> policy_form" where
  "render_form pretty isOpen policy f =
     (if isOpen \<and> \<not> pf_prevIsOpen f then load_form pretty policy (f\<lparr>pf_prevIsOpen := isOpen\<rparr>)
      else if isOpen \<noteq> pf_prevIsOpen f then f\<lparr>pf_prevIsOpen := isOpen\<rparr> else f)"

definition isDirty :: "policy_form \<Rightarrow> bool" where
  "isDirty f \<longleftrightarrow> form_snapshot f \<noteq> pf_initialSnapshot f"

definition conditionsError :: "translator \<Rightarrow> (string \<Rightarrow> json option) \<Rightarrow> policy_form \<Rightarrow> string option" where
  "conditionsError tr parse f =
     (if \<not> pf_conditionsEnabled f \<or> trim (pf_conditionsText f) = [] then None
      else (case parse (pf_conditionsText f) of
              Some (JObj _) \<Rightarrow> None
            | _ \<Rightarrow> Some (tr_text tr ''policies:formDialog.conditionsInvalidJson'' [])))"

text \<open>The options on offer, as pairs of value and label.\<close>

definition resourceTypeOptions ::
  "translator \<Rightarrow> catalog_entry list option \<Rightarrow> policy option \<Rightarrow> (string \<times> string) list" where
  "resourceTypeOptions tr data policy =
     (let options = map (\<lambda>ty. (ty, formatResourceTypeLabel ty (tr_text tr ''policies:page.allResourceTypes'' [])))
            (js_set (map ce_resource_type (nullish data [])))
      in if map_option pol_resource_type policy = Some ALL_RESOURCE_TYPES_VALUE
         then (ALL_RESOURCE_TYPES_VALUE, tr_text tr ''policies:columns.allResourceTypesTag'' []) # options
         else options)"

definition type_entries :: "catalog_entry list option \<Rightarrow> string \<Rightarrow> catalog_entry list" where
  "type_entries data resourceType =
     (if resourceType = ALL_RESOURCE_TYPES_VALUE then nullish data []
      else filter (\<lambda>e. ce_resource_type e = resourceType) (nullish data []))"

definition actionOptions ::
  "(string \<Rightarrow> bool) \<Rightarrow> catalog_entry list option \<Rightarrow> policy_form \<Rightarrow> (string \<times> string) list" where
  "actionOptions can_do data f =
     (let entries = type_entries data (pf_resourceType f);
          visible = filter (\<lambda>e. canGrantAction (ce_action e) can_do) entries @
            filter (\<lambda>e. ce_action e \<in> set (pf_actions f) \<and> \<not> canGrantAction (ce_action e) can_do) entries
      in map (\<lambda>e. (ce_action e, if trim (ce_description e) \<noteq> [] then trim (ce_description e)
                                else formatPolicyActionLabel (ce_action e))) visible)"

section \<open>Edits\<close>

text \<open>The switches of the actions tab (\<open>PolicyActionGrid.tsx\<close>): the new list they pass on.\<close>

definition toggle_action :: "string \<Rightarrow> string list \<Rightarrow> string list" where
  "toggle_action a actions = (if a \<in> set actions then filter (\<lambda>v. v \<noteq> a) actions else actions @ [a])"

text \<open>\<open>handleActionsChange\<close>, with the \<open>rollback\<close> and \<open>apply\<close> closures it hands to the page: \<open>snap\<close> is
  the form at the render whose handler ran.\<close>

definition form_actions_change :: "string list \<Rightarrow> policy_form \<Rightarrow> policy_form" where
  "form_actions_change nextActions f =
     f\<lparr>pf_actions := nextActions, pf_initialSnapshot := form_snapshot (f\<lparr>pf_actions := nextActions\<rparr>)\<rparr>"

definition form_rollback :: "policy_form \<Rightarrow> policy_form \<Rightarrow> policy_form" where
  "form_rollback snap f = f\<lparr>pf_actions := pf_actions snap, pf_initialSnapshot := pf_initialSnapshot snap\<rparr>"

definition form_apply :: "policy_form \<Rightarrow> string list \<Rightarrow> policy_form \<Rightarrow> policy_form" where
  "form_apply snap nextActions f =
     f\<lparr>pf_actions := nextActions, pf_initialSnapshot := form_snapshot (snap\<lparr>pf_actions := nextActions\<rparr>)\<rparr>"

definition handleResourceTypeChange ::
  "translator \<Rightarrow> catalog_entry list option \<Rightarrow> string \<Rightarrow> policy_form \<Rightarrow> policy_form \<times> toast_options option" where
  "handleResourceTypeChange tr data value f =
     (let validForNewType = js_set (map ce_action
            (filter (\<lambda>e. value = ALL_RESOURCE_TYPES_VALUE \<or> ce_resource_type e = value) (nullish data [])));
          kept = filter (\<lambda>a. a \<in> set validForNewType) (pf_actions f);
          clearedCount = length (pf_actions f) - length kept
      in (f\<lparr>pf_resourceType := value, pf_actions := kept\<rparr>,
          if clearedCount > 0
          then Some \<lparr>o_title = tr_text tr ''policies:formDialog.clearedActionsToast'' [(''count'', JNum (int clearedCount))],
                     o_description = None, o_type = Some TInfo, o_duration = Some (Ms 6000),
                     o_action = Some (tr_text tr ''policies:page.undo'' [])\<rparr>
          else None))"

definition undo_resource_type :: "policy_form \<Rightarrow> policy_form \<Rightarrow> policy_form" where
  "undo_resource_type snap f = f\<lparr>pf_resourceType := pf_resourceType snap, pf_actions := pf_actions snap\<rparr>"

text \<open>The setters handed to the fields.\<close>

definition setName :: "string \<Rightarrow> policy_form \<Rightarrow> policy_form" where
  "setName v f = f\<lparr>pf_name := v\<rparr>"
definition setDescription :: "string \<Rightarrow> policy_form \<Rightarrow> policy_form" where
  "setDescription v f = f\<lparr>pf_description := v\<rparr>"
definition setConditionsEnabled :: "bool \<Rightarrow> policy_form \<Rightarrow> policy_form" where
  "setConditionsEnabled v f = f\<lparr>pf_conditionsEnabled := v\<rparr>"
definition setConditionsText :: "string \<Rightarrow> policy_form \<Rightarrow> policy_form" where
  "setConditionsText v f = f\<lparr>pf_conditionsText := v\<rparr>"

section \<open>Leaving and submitting\<close>

text \<open>The second component is the exit taken at once, if any.\<close>

definition requestExit :: "form_exit \<Rightarrow> policy_form \<Rightarrow> policy_form \<times> form_exit option" where
  "requestExit e f = (if isDirty f then (f\<lparr>pf_pendingExit := Some e, pf_showDiscardConfirm := True\<rparr>, None)
     else (f, Some e))"

definition requestClose :: "policy_form \<Rightarrow> policy_form \<times> form_exit option" where
  "requestClose = requestExit ExitClose"

definition requestDetails :: "bool \<Rightarrow> policy_form \<Rightarrow> policy_form \<times> form_exit option" where
  "requestDetails has_details = requestExit (if has_details then ExitDetails else ExitClose)"

definition confirm_discard :: "policy_form \<Rightarrow> policy_form \<times> form_exit option" where
  "confirm_discard f = (f\<lparr>pf_showDiscardConfirm := False, pf_pendingExit := None\<rparr>,
     Some (nullish (pf_pendingExit f) ExitClose))"

definition cancel_discard :: "policy_form \<Rightarrow> policy_form" where
  "cancel_discard f = f\<lparr>pf_pendingExit := None, pf_showDiscardConfirm := False\<rparr>"

record form_values =
  fv_name :: string
  fv_description :: string
  fv_actions :: "string list"
  fv_resource_type :: string
  fv_conditions :: "json option"

text \<open>What a submit does: it is blocked, it throws, or it hands values to the page.\<close>

datatype submit_result = Blocked | Throws | Submits form_values

definition handleSubmit :: "translator \<Rightarrow> (string \<Rightarrow> json option) \<Rightarrow> policy_form \<Rightarrow> policy_form \<times> submit_result" where
  "handleSubmit tr parse f =
     (if truthy (conditionsError tr parse f) then (f\<lparr>pf_tab := TabBasics\<rparr>, Blocked)
      else if pf_conditionsEnabled f \<and> trim (pf_conditionsText f) \<noteq> []
      then (f, case parse (pf_conditionsText f) of
             None \<Rightarrow> Throws
           | Some j \<Rightarrow> Submits \<lparr>fv_name = pf_name f, fv_description = pf_description f, fv_actions = pf_actions f,
               fv_resource_type = pf_resourceType f, fv_conditions = Some j\<rparr>)
      else (f, Submits \<lparr>fv_name = pf_name f, fv_description = pf_description f, fv_actions = pf_actions f,
               fv_resource_type = pf_resourceType f, fv_conditions = None\<rparr>))"

definition destructiveSelectedCount :: "policy_form \<Rightarrow> nat" where
  "destructiveSelectedCount f = length (filter isDestructiveAction (pf_actions f))"

definition canSave :: "translator \<Rightarrow> (string \<Rightarrow> json option) \<Rightarrow> policy_form \<Rightarrow> bool" where
  "canSave tr parse f \<longleftrightarrow> trim (pf_name f) \<noteq> [] \<and> pf_resourceType f \<noteq> [] \<and> pf_actions f \<noteq> []
     \<and> \<not> truthy (conditionsError tr parse f)"

definition saveSummary :: "translator \<Rightarrow> policy_form \<Rightarrow> string" where
  "saveSummary tr f =
     (if pf_resourceType f = [] \<or> pf_actions f = [] then tr_text tr ''policies:formDialog.saveSummaryIncomplete'' []
      else if destructiveSelectedCount f > 0
      then tr_text tr ''policies:formDialog.saveSummaryWithDestructive''
             [(''count'', JNum (int (length (pf_actions f)))), (''destructiveCount'', JNum (int (destructiveSelectedCount f)))]
      else tr_text tr ''policies:formDialog.saveSummary'' [(''count'', JNum (int (length (pf_actions f))))])"

section \<open>The snapshot determines the fields\<close>

lemma lower_hex_inj: "a < 16 \<Longrightarrow> b < 16 \<Longrightarrow> lower_hex a = lower_hex b \<Longrightarrow> a = b"
proof -
  assume ab: "a < 16" "b < 16" "lower_hex a = lower_hex b"
  have "ucode (lower_hex d) = (if d < 10 then 48 + d else 87 + d)" if "d < 16" for d
    using that by (simp add: lower_hex_def ucode_char_of)
  from this [OF ab(1)] this [OF ab(2)] ab(3)
  have "(if a < 10 then 48 + a else 87 + a) = (if b < 10 then 48 + b else 87 + b)" by metis
  then show "a = b" by (simp split: if_splits)
qed

lemma two_hex_inj:
  assumes "m < 32" "n < 32" "lower_hex (m div 16) = lower_hex (n div 16)" "lower_hex (m mod 16) = lower_hex (n mod 16)"
  shows "(m::nat) = n"
proof -
  have "m div 16 = n div 16" using assms by (intro lower_hex_inj) auto
  moreover have "m mod 16 = n mod 16" using assms by (intro lower_hex_inj) auto
  ultimately show ?thesis by (metis div_mult_mod_eq)
qed

lemma ucode_consts [simp]: "ucode backslash = 92" "ucode quote = 34"
  by (simp_all add: backslash_def quote_def ucode_def)

text \<open>An escape is a single ordinary unit, or a backslash followed by a key that names its kind.\<close>

definition plain :: "nat \<Rightarrow> bool" where
  "plain n \<longleftrightarrow> 32 \<le> n \<and> n \<noteq> 34 \<and> n \<noteq> 92"

definition escape_key :: "nat \<Rightarrow> string" where
  "escape_key n = (if n = 34 then [quote] else if n = 92 then [backslash]
     else if n = 8 then ''b'' else if n = 9 then ''t'' else if n = 10 then ''n'' else if n = 12 then ''f''
     else if n = 13 then ''r'' else ''u00'' @ [lower_hex (n div 16), lower_hex (n mod 16)])"

lemma json_escape_shape: "json_escape c = (if plain (ucode c) then [c] else backslash # escape_key (ucode c))"
  by (auto simp: json_escape_def escape_key_def plain_def Let_def)

lemma escape_key_prefix:
  assumes "\<not> plain m" "\<not> plain n" "escape_key m @ s = escape_key n @ t"
  shows "m = n \<and> s = t"
proof -
  have key: "hd (escape_key k) \<in> {quote, backslash, CHR ''b'', CHR ''t'', CHR ''n'', CHR ''f'', CHR ''r'', CHR ''u''}"
    "escape_key k \<noteq> []" for k by (simp_all add: escape_key_def)
  have small: "m = 34 \<or> m = 92 \<or> m < 32" "n = 34 \<or> n = 92 \<or> n < 32" using assms by (auto simp: plain_def)
  have "hd (escape_key m) = hd (escape_key n)" using assms(3) key(2) by (metis hd_append2)
  then show ?thesis using assms(3) small two_hex_inj [of m n]
    by (auto simp: escape_key_def quote_def backslash_def split: if_splits)
qed

lemma json_escape_prefix:
  assumes "json_escape c @ s = json_escape d @ t"
  shows "c = d \<and> s = t"
proof (cases "plain (ucode c) = plain (ucode d)")
  case True
  then show ?thesis using assms escape_key_prefix [of "ucode c" "ucode d" s t]
    by (auto simp: json_escape_shape split: if_splits)
next
  case False
  have "\<not> plain (ucode backslash)" by (simp add: plain_def)
  with False assms show ?thesis by (auto simp: json_escape_shape split: if_splits)
qed

lemma json_escape_not_quote: "json_escape c @ s \<noteq> quote # t"
proof
  assume eq: "json_escape c @ s = quote # t"
  show False
  proof (cases "plain (ucode c)")
    case True
    with eq have "c = quote" by (simp add: json_escape_shape)
    with True show False by (simp add: plain_def)
  next
    case False
    with eq have "backslash = quote" by (simp add: json_escape_shape)
    then show False by (simp add: backslash_def quote_def)
  qed
qed

text \<open>A code that can be read back off the front of any text.\<close>

definition readable :: "('a \<Rightarrow> string) \<Rightarrow> bool" where
  "readable enc \<longleftrightarrow> (\<forall>x y s t. enc x @ s = enc y @ t \<longrightarrow> x = y \<and> s = t)"

lemma readableD: "readable enc \<Longrightarrow> enc x @ s = enc y @ t \<Longrightarrow> x = y \<and> s = t"
  by (simp add: readable_def)

lemma body_prefix:
  "concat (map json_escape a) @ quote # s = concat (map json_escape b) @ quote # t \<Longrightarrow> a = b \<and> s = t"
proof (induction a arbitrary: b)
  case Nil
  show ?case
  proof (cases b)
    case Nil
    with Nil.prems show ?thesis by simp
  next
    case (Cons d b')
    with Nil.prems json_escape_not_quote [of d "concat (map json_escape b') @ quote # t" s] show ?thesis by simp
  qed
next
  case (Cons c a)
  show ?case
  proof (cases b)
    case Nil
    with Cons.prems json_escape_not_quote [of c] show ?thesis by simp
  next
    case (Cons d b')
    with Cons.prems have "json_escape c @ (concat (map json_escape a) @ quote # s)
        = json_escape d @ (concat (map json_escape b') @ quote # t)" by simp
    from json_escape_prefix [OF this] Cons.IH [of b'] Cons show ?thesis by simp
  qed
qed

lemma readable_quote: "readable json_quote"
  unfolding readable_def
proof (intro allI impI)
  fix x y s t
  assume "json_quote x @ s = json_quote y @ t"
  then have "concat (map json_escape x) @ quote # s = concat (map json_escape y) @ quote # t"
    by (simp add: json_quote_def)
  then show "x = y \<and> s = t" by (rule body_prefix)
qed

text \<open>A list of codes, none starting with the closing bracket, is read back too.\<close>

lemma join_close:
  "join '','' (map enc (z # zs)) @ CHR '']'' # r =
     enc z @ (if zs = [] then CHR '']'' # r else CHR '','' # join '','' (map enc zs) @ CHR '']'' # r)"
  by (cases zs) simp_all

lemma join_close_not_Nil:
  assumes "\<And>x. \<exists>c u. enc x = c # u \<and> c \<noteq> CHR '']''"
  shows "CHR '']'' # s \<noteq> join '','' (map enc (z # zs)) @ CHR '']'' # r"
proof -
  obtain c u where "enc z = c # u" "c \<noteq> CHR '']''" using assms by blast
  then show ?thesis unfolding join_close by simp
qed

lemma join_close_prefix:
  assumes "readable enc" "\<And>x. \<exists>c u. enc x = c # u \<and> c \<noteq> CHR '']''"
  shows "join '','' (map enc xs) @ CHR '']'' # s = join '','' (map enc ys) @ CHR '']'' # t \<Longrightarrow> xs = ys \<and> s = t"
proof (induction xs arbitrary: ys)
  case Nil
  show ?case
  proof (cases ys)
    case Nil
    with Nil.prems show ?thesis by simp
  next
    case (Cons y ys')
    with Nil.prems join_close_not_Nil [of enc s y ys' t, OF assms(2)] show ?thesis by simp
  qed
next
  case (Cons x xs)
  show ?case
  proof (cases ys)
    case Nil
    with Cons.prems join_close_not_Nil [of enc t x xs s, OF assms(2)] show ?thesis by simp
  next
    case (Cons y ys')
    note e = Cons.prems [unfolded Cons join_close]
    from readableD [OF assms(1) e] Cons.IH [of ys'] Cons show ?thesis by (auto split: if_splits)
  qed
qed

lemma readable_strings: "readable (\<lambda>xs. json_array (map json_quote xs))"
proof -
  have start: "\<exists>c u. json_quote x = c # u \<and> c \<noteq> CHR '']''" for x by (simp add: json_quote_def quote_def)
  show ?thesis unfolding readable_def json_array_def
  proof (intro allI impI)
    fix x y :: "string list" and s t
    assume "(''['' @ join '','' (map json_quote x) @ '']'') @ s = (''['' @ join '','' (map json_quote y) @ '']'') @ t"
    then have "join '','' (map json_quote x) @ CHR '']'' # s = join '','' (map json_quote y) @ CHR '']'' # t" by simp
    from join_close_prefix [OF readable_quote start this] show "x = y \<and> s = t" .
  qed
qed

text \<open>Two forms have the same snapshot exactly if the five fields agree.\<close>

lemma form_snapshot_eq:
  "form_snapshot f = form_snapshot g \<longleftrightarrow> pf_name f = pf_name g \<and> pf_description f = pf_description g
     \<and> pf_actions f = pf_actions g \<and> pf_resourceType f = pf_resourceType g \<and> pf_conditionsText f = pf_conditionsText g"
  (is "?l \<longleftrightarrow> ?r")
proof
  note rq = readableD [OF readable_quote] and rs = readableD [OF readable_strings]
  assume ?l
  then have e: "json_quote (pf_name f) @ CHR '','' # json_quote (pf_description f) @ CHR '','' #
        json_array (map json_quote (pf_actions f)) @ CHR '','' # json_quote (pf_resourceType f) @ CHR '','' #
        json_quote (pf_conditionsText f) @ '']''
      = json_quote (pf_name g) @ CHR '','' # json_quote (pf_description g) @ CHR '','' #
        json_array (map json_quote (pf_actions g)) @ CHR '','' # json_quote (pf_resourceType g) @ CHR '','' #
        json_quote (pf_conditionsText g) @ '']''"
    by (simp add: form_snapshot_def json_array_def [of "[json_quote _, json_quote _, _, _, _]"])
  note e1 = rq [OF e] and e2 = rq [OF conjunct2 [OF rq [OF e], simplified list.inject, THEN conjunct2]]
  note e3 = rs [OF conjunct2 [OF e2, simplified list.inject, THEN conjunct2]]
  note e4 = rq [OF conjunct2 [OF e3, simplified list.inject, THEN conjunct2]]
  note e5 = rq [OF conjunct2 [OF e4, simplified list.inject, THEN conjunct2]]
  show ?r using e1 e2 e3 e4 e5 by blast
qed (simp add: form_snapshot_def)

section \<open>Lemmas on the edits\<close>

lemma loaded_snapshot: "pf_initialSnapshot (load_form pretty policy f) = form_snapshot (load_form pretty policy f)"
  by (simp add: load_form_def Let_def form_snapshot_def)

lemma actions_change_clean: "\<not> isDirty (form_actions_change as f)"
  by (simp add: isDirty_def form_actions_change_def form_snapshot_def)

lemma type_entries_actions:
  "ce_action ` {e \<in> set (nullish data []). v = ALL_RESOURCE_TYPES_VALUE \<or> ce_resource_type e = v}
     = ce_action ` set (type_entries data v)"
  by (auto simp: type_entries_def)

lemma offered_actions:
  "fst ` set (actionOptions can_do data f) = ce_action ` {e \<in> set (type_entries data (pf_resourceType f)).
     can_do (ce_action e) \<or> ce_action e \<in> set (pf_actions f)}"
proof -
  have img: "fst ` set (map (\<lambda>e. (ce_action e, h e)) es) = ce_action ` set es" for h :: "catalog_entry \<Rightarrow> string" and es
    by (simp add: image_image)
  show ?thesis unfolding actionOptions_def Let_def img by (auto simp: canGrantAction_def)
qed

lemma filter_length_all: "length (filter P xs) = length xs \<longleftrightarrow> (\<forall>x\<in>set xs. P x)"
proof
  assume "length (filter P xs) = length xs"
  then have "length (filter (\<lambda>x. \<not> P x) xs) = 0" using sum_length_filter_compl [of P xs] by simp
  then show "\<forall>x\<in>set xs. P x" by (simp add: filter_empty_conv)
qed (simp add: filter_id_conv)

lemma conditions_error_cases:
  "conditionsError tr parse f =
     (if pf_conditionsEnabled f \<and> trim (pf_conditionsText f) \<noteq> [] \<and> (\<forall>o'. parse (pf_conditionsText f) \<noteq> Some (JObj o'))
      then Some (tr_text tr ''policies:formDialog.conditionsInvalidJson'' []) else None)"
  by (auto simp: conditionsError_def split: option.splits json.splits)

section \<open>Properties\<close>

text \<open>C27: While no action is toggled, closing the form asks for confirmation exactly if the name, the
  description, the actions, the resource type or the text of the conditions differs from what was
  loaded; cancelling the question keeps every field, and switching the conditions on or off is
  not seen as a change.\<close>

theorem unsaved_iff_changed:
  assumes "pf_initialSnapshot g = pf_initialSnapshot (load_form pretty policy f0)"
  shows "let f = load_form pretty policy f0 in
     (snd (requestClose g) = None \<longleftrightarrow>
        \<not> (pf_name g = pf_name f \<and> pf_description g = pf_description f \<and> pf_actions g = pf_actions f
           \<and> pf_resourceType g = pf_resourceType f \<and> pf_conditionsText g = pf_conditionsText f)) \<and>
     (snd (requestClose g) = None \<longrightarrow> pf_showDiscardConfirm (fst (requestClose g))
        \<and> form_snapshot (cancel_discard (fst (requestClose g))) = form_snapshot g
        \<and> snd (confirm_discard (fst (requestClose g))) = Some ExitClose) \<and>
     snd (requestClose (setConditionsEnabled b g)) = snd (requestClose g)"
proof -
  have dirty: "isDirty g \<longleftrightarrow> form_snapshot g \<noteq> form_snapshot (load_form pretty policy f0)"
    using assms by (simp add: isDirty_def loaded_snapshot)
  have "isDirty (setConditionsEnabled b g) = isDirty g"
    by (simp add: isDirty_def setConditionsEnabled_def form_snapshot_def)
  then show ?thesis using dirty unfolding form_snapshot_eq
    by (auto simp: Let_def requestClose_def requestExit_def cancel_discard_def confirm_discard_def nullish_def)
qed

lemma unsaved_iff_changed_witness:
  "snd (requestClose (setName ''x'' (load_form (\<lambda>_. []) None blank_form))) = None"
proof -
  have "pf_initialSnapshot (setName ''x'' (load_form (\<lambda>_. []) None blank_form))
      = pf_initialSnapshot (load_form (\<lambda>_. []) None blank_form)" by (simp add: setName_def)
  from unsaved_iff_changed [OF this] show ?thesis
    by (simp add: Let_def setName_def load_form_def nullish_def)
qed

text \<open>Toggling an action makes every pending edit look saved. Right after it the form closes
  without asking, whatever name, description, resource type or conditions were typed and not
  submitted.\<close>

theorem action_toggle_hides_edits:
  "let f = form_actions_change (toggle_action a (pf_actions g)) g in
     requestClose f = (f, Some ExitClose) \<and> pf_name f = pf_name g \<and> pf_description f = pf_description g \<and>
     pf_resourceType f = pf_resourceType g \<and> pf_conditionsText f = pf_conditionsText g"
  using actions_change_clean [of "toggle_action a (pf_actions g)" g]
  by (simp add: Let_def requestClose_def requestExit_def) (simp add: form_actions_change_def)

text \<open>Changing the resource type keeps, in order, exactly the chosen actions the catalog has for the
  new type (all of them for the wildcard type), each of which is then on offer; it announces a
  loss exactly if an action was dropped, and Undo restores the form.\<close>

theorem resource_type_change:
  "let (f', note) = handleResourceTypeChange tr data v f;
       valid = ce_action ` set (type_entries data v)
   in pf_resourceType f' = v \<and> pf_actions f' = filter (\<lambda>a. a \<in> valid) (pf_actions f) \<and>
      (note = None) = (set (pf_actions f) \<subseteq> valid) \<and>
      set (pf_actions f') \<subseteq> fst ` set (actionOptions can_do data f') \<and>
      undo_resource_type f f' = f"
proof -
  let ?valid = "ce_action ` set (type_entries data v)"
  let ?f = "f\<lparr>pf_resourceType := v, pf_actions := filter (\<lambda>a. a \<in> ?valid) (pf_actions f)\<rparr>"
  have fst: "fst (handleResourceTypeChange tr data v f) = ?f"
    by (simp add: handleResourceTypeChange_def Let_def type_entries_actions)
  have "snd (handleResourceTypeChange tr data v f) = None
      \<longleftrightarrow> length (pf_actions f) \<le> length (filter (\<lambda>a. a \<in> ?valid) (pf_actions f))"
    by (simp add: handleResourceTypeChange_def Let_def type_entries_actions)
  also have "\<dots> \<longleftrightarrow> length (filter (\<lambda>a. a \<in> ?valid) (pf_actions f)) = length (pf_actions f)"
    using length_filter_le [of "\<lambda>a. a \<in> ?valid" "pf_actions f"] by linarith
  finally have notice: "snd (handleResourceTypeChange tr data v f) = None \<longleftrightarrow> set (pf_actions f) \<subseteq> ?valid"
    unfolding filter_length_all by blast
  have offered: "set (pf_actions ?f) \<subseteq> fst ` set (actionOptions can_do data ?f)"
    unfolding offered_actions by auto
  show ?thesis using notice offered
    by (simp add: fst Let_def case_prod_beta undo_resource_type_def)
qed

text \<open>Submitting never throws: it is blocked exactly if the conditions are switched on, not blank
  and not the text of a JSON object; otherwise it hands over the fields with no conditions when
  they are off or blank, and else the very object the text denotes. A form that may be saved is
  never blocked.\<close>

theorem submit_conditions:
  assumes "tr_text tr ''policies:formDialog.conditionsInvalidJson'' [] \<noteq> []"
  shows "let on = (pf_conditionsEnabled f \<and> trim (pf_conditionsText f) \<noteq> []);
             object = (\<exists>o'. parse (pf_conditionsText f) = Some (JObj o'));
             r = snd (handleSubmit tr parse f)
         in r = (if on \<and> \<not> object then Blocked
              else Submits \<lparr>fv_name = pf_name f, fv_description = pf_description f, fv_actions = pf_actions f,
                fv_resource_type = pf_resourceType f,
                fv_conditions = (if on then parse (pf_conditionsText f) else None)\<rparr>) \<and>
            (canSave tr parse f \<longrightarrow> r \<noteq> Blocked)"
  using assms by (auto simp: Let_def handleSubmit_def conditions_error_cases canSave_def truthy_def)

lemma submit_conditions_witness:
  "snd (handleSubmit \<lparr>tr_exists = \<lambda>_. True, tr_text = \<lambda>k _. k\<rparr> (\<lambda>_. None) (blank_form\<lparr>pf_conditionsEnabled := True, pf_conditionsText := ''x''\<rparr>)) = Blocked"
proof -
  have "trim ''x'' = ''x''" by (simp add: trim_def trim_start_def trim_end_def is_js_space_def ucode_def)
  then show ?thesis
    using submit_conditions [of "\<lparr>tr_exists = \<lambda>_. True, tr_text = \<lambda>k _. k\<rparr>" "blank_form\<lparr>pf_conditionsEnabled := True, pf_conditionsText := ''x''\<rparr>" "\<lambda>_. None"]
    by (simp add: Let_def)
qed

end
