(* ===== verification/PoliciesPage.thy ===== *)
theory PoliciesPage
  imports PolicyForm UsersPage
begin

text \<open>
  The policies page (\<open>policies/PoliciesPage.tsx\<close>, \<open>policies/policiesPageHandlers.ts\<close>,
  \<open>policies/useOptimisticPolicyActivity.ts\<close>, \<open>policies/policiesUiStore.ts\<close>): its filters, the list
  it shows with the optimistic status switches laid over it, the dialogs and the two mutations
  that can be undone. An answer of the server is an argument; a handler that awaits one is cut
  into the part before and the part after the answer.
\<close>

section \<open>Filters\<close>

record policies_ui =
  pu_search :: string
  pu_resourceType :: string
  pu_status :: string
  pu_containsAction :: string
  pu_destructiveOnly :: bool

definition initial_policies_ui :: policies_ui where
  "initial_policies_ui = \<lparr>pu_search = [], pu_resourceType = ALL_VALUE, pu_status = ALL_VALUE,
     pu_containsAction = ALL_VALUE, pu_destructiveOnly = False\<rparr>"

text \<open>The page's own search (a link's parameter wins over the stored one when it mounts), its
  debounced copy, and the store.\<close>

record policy_filters =
  pl_search :: string
  pl_debounced :: string
  pl_ui :: policies_ui

definition mount_policy_filters :: "(string \<times> string) list \<Rightarrow> policies_ui \<Rightarrow> policy_filters" where
  "mount_policy_filters url_params ui =
     (let s = nullish (map_of url_params ''search'') (pu_search ui) in
      \<lparr>pl_search = s, pl_debounced = s, pl_ui = ui\<rparr>)"

definition setPolicySearch :: "string \<Rightarrow> policy_filters \<Rightarrow> policy_filters" where
  "setPolicySearch v f = f\<lparr>pl_search := v, pl_ui := (pl_ui f)\<lparr>pu_search := v\<rparr>\<rparr>"
definition setResourceType :: "string \<Rightarrow> policy_filters \<Rightarrow> policy_filters" where
  "setResourceType v f = f\<lparr>pl_ui := (pl_ui f)\<lparr>pu_resourceType := v\<rparr>\<rparr>"
definition setPolicyStatus :: "string \<Rightarrow> policy_filters \<Rightarrow> policy_filters" where
  "setPolicyStatus v f = f\<lparr>pl_ui := (pl_ui f)\<lparr>pu_status := v\<rparr>\<rparr>"
definition setContainsAction :: "string \<Rightarrow> policy_filters \<Rightarrow> policy_filters" where
  "setContainsAction v f = f\<lparr>pl_ui := (pl_ui f)\<lparr>pu_containsAction := v\<rparr>\<rparr>"
definition setDestructiveOnly :: "bool \<Rightarrow> policy_filters \<Rightarrow> policy_filters" where
  "setDestructiveOnly v f = f\<lparr>pl_ui := (pl_ui f)\<lparr>pu_destructiveOnly := v\<rparr>\<rparr>"

definition bool_name :: "bool \<Rightarrow> string" where
  "bool_name b = (if b then ''true'' else ''false'')"

definition policiesResetKey :: "policy_filters \<Rightarrow> string" where
  "policiesResetKey f = join ''|'' [pl_debounced f, pu_resourceType (pl_ui f), pu_status (pl_ui f),
     pu_containsAction (pl_ui f), bool_name (pu_destructiveOnly (pl_ui f))]"

definition POLICIES_PAGE_SIZE :: nat where
  "POLICIES_PAGE_SIZE = 25"

definition policies_page_query :: "auth_state \<Rightarrow> policy_filters \<Rightarrow> nat \<Rightarrow> query" where
  "policies_page_query a f page = usePoliciesListQuery page POLICIES_PAGE_SIZE
     \<lparr>lp_limit = None, lp_offset = None, lp_search = Some (pl_debounced f),
      lp_resource_type = or_undefined (pu_resourceType (pl_ui f)), lp_is_active = toBoolFilter (pu_status (pl_ui f)),
      lp_contains_action = or_undefined (pu_containsAction (pl_ui f)),
      lp_destructive_only = Some (pu_destructiveOnly (pl_ui f)), lp_sort_by = Some ''name'', lp_sort_dir = Some Asc\<rparr>
     (useCan a (OneAction ''policies:read'') None)"

definition hasSearchOrFilters :: "policy_filters \<Rightarrow> bool" where
  "hasSearchOrFilters f \<longleftrightarrow> pl_search f \<noteq> [] \<or> pu_resourceType (pl_ui f) \<noteq> ALL_VALUE \<or> pu_status (pl_ui f) \<noteq> ALL_VALUE
     \<or> pu_containsAction (pl_ui f) \<noteq> ALL_VALUE \<or> pu_destructiveOnly (pl_ui f)"

definition clearAllFilters :: "policy_filters \<Rightarrow> policy_filters" where
  "clearAllFilters f = setDestructiveOnly False (setContainsAction ALL_VALUE (setPolicyStatus ALL_VALUE
     (setResourceType ALL_VALUE (setPolicySearch [] f))))"

definition activeTile :: "policy_filters \<Rightarrow> string option" where
  "activeTile f =
     (let ui = pl_ui f; plain = (pu_resourceType ui = ALL_VALUE \<and> pl_search f = []) in
      if pu_destructiveOnly ui then Some ''destructive''
      else if pu_status ui = ''true'' \<and> plain then Some ''active''
      else if pu_status ui = ''false'' \<and> plain then Some ''inactive''
      else if \<not> hasSearchOrFilters f then Some ''total'' else None)"

section \<open>The page's state\<close>

text \<open>\<open>pp_optimistic\<close> is the record of switched policies; \<open>pp_toasts\<close> the toasts shown, oldest first.\<close>

record policies_page =
  pp_optimistic :: "(string, bool) omap"
  pp_app :: app
  pp_toasts :: "toast_options list"
  pp_formOpen :: bool
  pp_editingPolicy :: "policy option"
  pp_deletingPolicy :: "policy option"
  pp_viewingPolicy :: "policy option"
  pp_initialTab :: string
  pp_openNames :: "string list"

definition add_toast :: "string \<Rightarrow> kind \<Rightarrow> (duration \<times> string) option \<Rightarrow> policies_page \<Rightarrow> policies_page" where
  "add_toast title k undo pg =
     pg\<lparr>pp_toasts := pp_toasts pg @ [\<lparr>o_title = title, o_description = None, o_type = Some k,
          o_duration = map_option fst undo, o_action = map_option snd undo\<rparr>]\<rparr>"

text \<open>Running a mutation on the page's application state.\<close>

definition page_mutate ::
  "translator \<Rightarrow> 'd mutation \<Rightarrow> 'd outcome \<Rightarrow> policies_page \<Rightarrow> (string + 'd) \<times> policies_page" where
  "page_mutate tr m answer pg =
     (let (r, s) = run_mutation tr m answer (pp_app pg) in (r, pg\<lparr>pp_app := s\<rparr>))"

section \<open>useOptimisticPolicyActivity.ts\<close>

definition shown_policies :: "policy list option \<Rightarrow> policies_page \<Rightarrow> policy list option" where
  "shown_policies serverPolicies pg =
     map_option (map (\<lambda>p. case om_get (pp_optimistic pg) (pol_name p) of
         None \<Rightarrow> p | Some active \<Rightarrow> p\<lparr>pol_is_active := active\<rparr>)) serverPolicies"

definition setOptimisticActive :: "policy \<Rightarrow> bool \<Rightarrow> policies_page \<Rightarrow> policies_page" where
  "setOptimisticActive p isActive pg = pg\<lparr>pp_optimistic := om_set (pol_name p) isActive (pp_optimistic pg)\<rparr>"

definition rollbackOptimisticActive :: "string \<Rightarrow> policies_page \<Rightarrow> policies_page" where
  "rollbackOptimisticActive policyName pg = pg\<lparr>pp_optimistic := om_delete policyName (pp_optimistic pg)\<rparr>"

section \<open>Activating and deactivating\<close>

definition no_update :: policy_update where
  "no_update = \<lparr>pu_name = None, pu_description = None, pu_actions = None, pu_resource_type = None,
     pu_conditions = None, pu_is_active = None, pu_change_reason = None\<rparr>"

definition undo_of :: "translator \<Rightarrow> (duration \<times> string) option" where
  "undo_of tr = Some (Ms 6000, tr_text tr ''policies:page.undo'' [])"

definition status_toast :: "translator \<Rightarrow> bool \<Rightarrow> string" where
  "status_toast tr active = tr_text tr (if active then ''policies:page.policyReactivatedToast''
     else ''policies:page.policyDeactivatedToast'') []"

text \<open>The switch itself, the answer to its update, and the answer to the update of its Undo.\<close>

definition toggle_click :: "policy \<Rightarrow> policies_page \<Rightarrow> policies_page" where
  "toggle_click p pg = setOptimisticActive p (\<not> pol_is_active p) pg"

definition toggle_update :: "policy \<Rightarrow> bool \<Rightarrow> policy mutation" where
  "toggle_update p active = useUpdatePolicyMutation (pol_name p) (no_update\<lparr>pu_is_active := Some active\<rparr>)"

definition toggle_answered :: "translator \<Rightarrow> policy \<Rightarrow> policy outcome \<Rightarrow> policies_page \<Rightarrow> policies_page" where
  "toggle_answered tr p answer pg =
     (let nextActive = (\<not> pol_is_active p) in
      case page_mutate tr (toggle_update p nextActive) answer pg of
        (Inr d, pg') \<Rightarrow> add_toast (status_toast tr nextActive) TSuccess (undo_of tr) pg'
      | (Inl msg, pg') \<Rightarrow> add_toast msg TError None (rollbackOptimisticActive (pol_name p) pg'))"

definition toggle_undo_answered :: "translator \<Rightarrow> policy \<Rightarrow> policy outcome \<Rightarrow> policies_page \<Rightarrow> policies_page" where
  "toggle_undo_answered tr p answer pg =
     (let nextActive = (\<not> pol_is_active p) in
      case page_mutate tr (toggle_update p (\<not> nextActive)) answer pg of
        (Inr d, pg') \<Rightarrow> add_toast (status_toast tr (\<not> nextActive)) TSuccess None pg'
      | (Inl msg, pg') \<Rightarrow> add_toast msg TError None pg')"

section \<open>Granting and revoking one action from the editor\<close>

definition actions_update :: "policy \<Rightarrow> string list \<Rightarrow> policy mutation" where
  "actions_update p actions = useUpdatePolicyMutation (pol_name p) (no_update\<lparr>pu_actions := Some actions\<rparr>)"

text \<open>Which action changed: the first one new in the list, else the first one gone from it.\<close>

definition granted_action :: "string list \<Rightarrow> string list \<Rightarrow> string option" where
  "granted_action actions previousActions = find (\<lambda>a. a \<notin> set previousActions) actions"

definition changed_action :: "string list \<Rightarrow> string list \<Rightarrow> string option" where
  "changed_action actions previousActions =
     (case granted_action actions previousActions of Some a \<Rightarrow> Some a
      | None \<Rightarrow> find (\<lambda>a. a \<notin> set actions) previousActions)"

definition action_toast :: "translator \<Rightarrow> policy \<Rightarrow> bool \<Rightarrow> string option \<Rightarrow> string" where
  "action_toast tr p isGrant changed =
     tr_text tr (if isGrant then ''policies:page.policyActionGrantedToast'' else ''policies:page.policyActionRevokedToast'')
       [(''action'', JStr (if truthy changed then formatPolicyActionLabel (the changed)
                           else tr_text tr ''policies:page.policyActions'' [])),
        (''policyName'', JStr (pol_name p))]"

text \<open>\<open>snap\<close> is the form before the toggle (what \<open>rollback\<close> returns to), \<open>actions\<close> the new list.\<close>

definition actions_answered ::
  "translator \<Rightarrow> policy option \<Rightarrow> policy_form \<Rightarrow> string list \<Rightarrow> policy outcome
     \<Rightarrow> policy_form \<times> policies_page \<Rightarrow> policy_form \<times> policies_page" where
  "actions_answered tr editingPolicy snap actions answer fp =
     (case editingPolicy of None \<Rightarrow> fp
      | Some p \<Rightarrow>
         (let previousActions = pf_actions snap;
              isGrant = truthy (granted_action actions previousActions);
              changed = changed_action actions previousActions
          in case page_mutate tr (actions_update p actions) answer (snd fp) of
               (Inr d, pg) \<Rightarrow> (fst fp, add_toast (action_toast tr p isGrant changed) TSuccess (undo_of tr) pg)
             | (Inl msg, pg) \<Rightarrow> (form_rollback snap (fst fp), add_toast msg TError None pg)))"

definition actions_undo_click :: "policy_form \<Rightarrow> policy_form \<Rightarrow> policy_form" where
  "actions_undo_click snap f = form_rollback snap f"

definition actions_undo_answered ::
  "translator \<Rightarrow> policy \<Rightarrow> policy_form \<Rightarrow> string list \<Rightarrow> policy outcome
     \<Rightarrow> policy_form \<times> policies_page \<Rightarrow> policy_form \<times> policies_page" where
  "actions_undo_answered tr p snap actions answer fp =
     (let previousActions = pf_actions snap;
          isGrant = truthy (granted_action actions previousActions);
          changed = changed_action actions previousActions
      in case page_mutate tr (actions_update p previousActions) answer (snd fp) of
           (Inr d, pg) \<Rightarrow> (fst fp, add_toast (action_toast tr p (\<not> isGrant) changed) TSuccess None pg)
         | (Inl msg, pg) \<Rightarrow> (form_apply snap actions (fst fp), add_toast msg TError None pg))"

section \<open>Dialogs\<close>

definition openCreateForm :: "policies_page \<Rightarrow> policies_page" where
  "openCreateForm pg = pg\<lparr>pp_editingPolicy := None, pp_viewingPolicy := None, pp_formOpen := True\<rparr>"

definition openEditForm :: "policy \<Rightarrow> policies_page \<Rightarrow> policies_page" where
  "openEditForm p pg = pg\<lparr>pp_editingPolicy := Some p, pp_initialTab := ''edit'', pp_viewingPolicy := Some p,
     pp_formOpen := False\<rparr>"

definition openView :: "policy option \<Rightarrow> policies_page \<Rightarrow> policies_page" where
  "openView p pg = (case p of None \<Rightarrow> pg
     | Some _ \<Rightarrow> pg\<lparr>pp_editingPolicy := p, pp_initialTab := ''details''\<rparr>)\<lparr>pp_viewingPolicy := p\<rparr>"

definition closeForm :: "policies_page \<Rightarrow> policies_page" where
  "closeForm pg = pg\<lparr>pp_formOpen := False\<rparr>"

definition json_fields :: "json option \<Rightarrow> fields option" where
  "json_fields j = (case j of Some (JObj fs) \<Rightarrow> Some fs | _ \<Rightarrow> None)"

definition update_payload :: "form_values \<Rightarrow> policy_update" where
  "update_payload v = no_update\<lparr>pu_name := Some (fv_name v), pu_description := Some (fv_description v),
     pu_actions := Some (fv_actions v), pu_resource_type := Some (fv_resource_type v),
     pu_conditions := json_fields (fv_conditions v)\<rparr>"

definition create_payload :: "form_values \<Rightarrow> policy_create" where
  "create_payload v = \<lparr>pc_name = fv_name v, pc_description = Some (fv_description v), pc_actions = fv_actions v,
     pc_resource_type = fv_resource_type v, pc_conditions = json_fields (fv_conditions v)\<rparr>"

text \<open>A failed save shows its message in the form, which stays open.\<close>

definition handleFormSubmit :: "translator \<Rightarrow> form_values \<Rightarrow> policy outcome \<Rightarrow> policies_page \<Rightarrow> policies_page" where
  "handleFormSubmit tr v answer pg =
     (case pp_editingPolicy pg of
        Some p \<Rightarrow> (case page_mutate tr (useUpdatePolicyMutation (pol_name p) (update_payload v)) answer pg of
            (Inr d, pg') \<Rightarrow> (closeForm (add_toast (tr_text tr ''policies:page.policyUpdatedToast'' []) TSuccess None pg'))
                \<lparr>pp_viewingPolicy := None\<rparr>
          | (Inl msg, pg') \<Rightarrow> pg')
      | None \<Rightarrow> (case page_mutate tr (useCreatePolicyMutation (create_payload v)) answer pg of
            (Inr d, pg') \<Rightarrow> closeForm (add_toast (tr_text tr ''policies:page.policyCreatedToast'' []) TSuccess None pg')
          | (Inl msg, pg') \<Rightarrow> pg'))"

definition handlePolicyDeleteConfirm :: "translator \<Rightarrow> unit outcome \<Rightarrow> policies_page \<Rightarrow> policies_page" where
  "handlePolicyDeleteConfirm tr answer pg =
     (case pp_deletingPolicy pg of None \<Rightarrow> pg
      | Some p \<Rightarrow> (case page_mutate tr (useDeletePolicyMutation (pol_name p) None) answer pg of
            (Inr d, pg') \<Rightarrow> (add_toast (tr_text tr ''policies:page.policyDeletedToast'' []) TSuccess None pg')
                \<lparr>pp_deletingPolicy := None\<rparr>
          | (Inl msg, pg') \<Rightarrow> add_toast msg TError None pg'))"

definition toggleOpen :: "string \<Rightarrow> policies_page \<Rightarrow> policies_page" where
  "toggleOpen policyName pg = pg\<lparr>pp_openNames := (if policyName \<in> set (pp_openNames pg)
     then set_delete policyName (pp_openNames pg) else set_add policyName (pp_openNames pg))\<rparr>"

definition expandAll :: "policy list option \<Rightarrow> policies_page \<Rightarrow> policies_page" where
  "expandAll shown pg = pg\<lparr>pp_openNames := js_set (map pol_name (nullish shown []))\<rparr>"

definition collapseAll :: "policies_page \<Rightarrow> policies_page" where
  "collapseAll pg = pg\<lparr>pp_openNames := []\<rparr>"

definition allOpen :: "policy list option \<Rightarrow> policies_page \<Rightarrow> bool" where
  "allOpen shown pg \<longleftrightarrow> nullish shown [] \<noteq> [] \<and> list_all (\<lambda>p. pol_name p \<in> set (pp_openNames pg)) (nullish shown [])"

section \<open>Lemmas\<close>

lemma page_mutate_optimistic [simp]: "pp_optimistic (snd (page_mutate tr m answer pg)) = pp_optimistic pg"
  by (simp add: page_mutate_def case_prod_beta)

lemma page_mutate_cases:
  "page_mutate tr m (Fulfilled d) pg = (Inr d, pg\<lparr>pp_app := snd (run_mutation tr m (Fulfilled d) (pp_app pg))\<rparr>)"
  "page_mutate tr m (Rejected e) pg = (Inl (extractApiErrorMessage tr e (m_fallback m)),
     pg\<lparr>pp_app := snd (run_mutation tr m (Rejected e) (pp_app pg))\<rparr>)"
  by (simp_all add: page_mutate_def run_mutation_def)

lemma add_toast_optimistic [simp]: "pp_optimistic (add_toast title k undo pg) = pp_optimistic pg"
  by (simp add: add_toast_def)

lemma toggle_success_optimistic:
  "pp_optimistic (toggle_answered tr q (Fulfilled d) pg) = pp_optimistic pg"
  by (simp add: toggle_answered_def page_mutate_cases Let_def)

lemma toggle_failure_optimistic:
  "pp_optimistic (toggle_answered tr q (Rejected e) pg) = om_delete (pol_name q) (pp_optimistic pg)"
  by (simp add: toggle_answered_def page_mutate_cases rollbackOptimisticActive_def Let_def)

lemma undo_optimistic: "pp_optimistic (toggle_undo_answered tr q a pg) = pp_optimistic pg"
  by (cases a) (simp_all add: toggle_undo_answered_def page_mutate_cases Let_def)

lemma rollback_change: "form_rollback f (form_actions_change as f) = f"
  by (simp add: form_rollback_def form_actions_change_def)

lemma apply_rollback_change: "form_apply f as f = form_actions_change as f"
  by (simp add: form_apply_def form_actions_change_def)

section \<open>Properties\<close>

text \<open>A successful status switch is shown for ever. The optimistic value is dropped only when the
  switch itself fails: after it succeeded, and also after its Undo succeeded, the page shows the
  switched status for that policy, whatever list the server sends from then on; the other
  policies are shown as before. A failed switch leaves no trace of its own.\<close>

theorem status_switch_masks_server:
  "let done = toggle_answered tr q (Fulfilled d) (toggle_click q pg);
       undone = toggle_undo_answered tr q a done;
       failed = toggle_answered tr q (Rejected e) (toggle_click q pg);
       before = (\<lambda>p. case om_get (pp_optimistic pg) (pol_name p) of None \<Rightarrow> p | Some b \<Rightarrow> p\<lparr>pol_is_active := b\<rparr>)
   in shown_policies (Some server) undone =
        Some (map (\<lambda>p. if pol_name p = pol_name q then p\<lparr>pol_is_active := \<not> pol_is_active q\<rparr> else before p) server) \<and>
      shown_policies (Some server) done = shown_policies (Some server) undone \<and>
      shown_policies (Some server) failed =
        Some (map (\<lambda>p. if pol_name p = pol_name q then p else before p) server)"
  by (auto simp: Let_def shown_policies_def undo_optimistic toggle_success_optimistic toggle_failure_optimistic
      toggle_click_def setOptimisticActive_def)

text \<open>Toggling one action in the editor sends only the list of actions, and is reversible: if the
  update is rejected, or its Undo is accepted, the form is exactly what it was before the
  toggle; if the Undo is rejected it is exactly what it was after it.\<close>

theorem action_toggle_reversible:
  "let f' = form_actions_change as f in
     fst (actions_answered tr (Some p) f as (Rejected e) (f', pg)) = f \<and>
     fst (actions_answered tr (Some p) f as (Fulfilled d) (f', pg)) = f' \<and>
     fst (actions_undo_answered tr p f as (Fulfilled d) (actions_undo_click f f', pg)) = f \<and>
     fst (actions_undo_answered tr p f as (Rejected e) (actions_undo_click f f', pg)) = f' \<and>
     (\<exists>fs. r_body (m_request (actions_update p as)) = Some (JObj fs) \<and> send_fields fs = [(''actions'', str_list as)])"
proof -
  have "fst (actions_answered tr (Some p) f as (Rejected e) (f', pg)) = form_rollback f f'"
    "fst (actions_answered tr (Some p) f as (Fulfilled d) (f', pg)) = f'"
    "fst (actions_undo_answered tr p f as (Fulfilled d) (f', pg)) = f'"
    "fst (actions_undo_answered tr p f as (Rejected e) (f', pg)) = form_apply f as f'" for f'
    by (simp_all add: actions_answered_def actions_undo_answered_def page_mutate_cases Let_def)
  moreover have "\<exists>fs. r_body (m_request (actions_update p as)) = Some (JObj fs) \<and> send_fields fs = [(''actions'', str_list as)]"
    by (simp add: actions_update_def useUpdatePolicyMutation_def mutation_of_def updatePolicyApi_def put_req_def
        policy_update_fields_def no_update_def send_fields_def opt_obj_def str_list_def)
  ultimately show ?thesis by (simp add: Let_def actions_undo_click_def rollback_change apply_rollback_change)
qed

text \<open>C28: Switching the conditions of a policy off does not remove them. The body of a save consists of the name, the
  description, the actions and the resource type as they stand in the form, and of conditions exactly when the
  switch is on and the text not blank, namely the object typed. So with the switch off, or the text blank, the
  request is the same whatever conditions the policy had, and names none; only an object typed in their place (an empty one, say)
  reaches the server. (The message for text that is no object is taken not to be translated to nothing.)\<close>

theorem conditions_not_removed:
  assumes "tr_text tr ''policies:formDialog.conditionsInvalidJson'' [] \<noteq> []" and "snd (handleSubmit tr parse f) = Submits v"
  shows "\<exists>fs. r_body (m_request (useUpdatePolicyMutation policyName (update_payload v))) = Some (JObj fs)
     \<and> send_fields fs = [(''name'', JStr (pf_name f)), (''description'', JStr (pf_description f)),
           (''actions'', str_list (pf_actions f)), (''resource_type'', JStr (pf_resourceType f))]
         @ (if pf_conditionsEnabled f \<and> trim (pf_conditionsText f) \<noteq> []
            then [(''conditions'', the (parse (pf_conditionsText f)))] else [])"
proof -
  have send: "\<exists>fs. r_body (m_request (useUpdatePolicyMutation policyName (update_payload v))) = Some (JObj fs)
     \<and> send_fields fs = [(''name'', JStr (fv_name v)), (''description'', JStr (fv_description v)),
           (''actions'', str_list (fv_actions v)), (''resource_type'', JStr (fv_resource_type v))]
         @ (case json_fields (fv_conditions v) of None \<Rightarrow> [] | Some c \<Rightarrow> [(''conditions'', JObj c)])"
    by (simp add: useUpdatePolicyMutation_def mutation_of_def updatePolicyApi_def put_req_def update_payload_def
        policy_update_fields_def no_update_def send_fields_def opt_obj_def opt_str_def str_list_def
        opt_bool_def split: option.split)
  show ?thesis
  proof (cases "pf_conditionsEnabled f \<and> trim (pf_conditionsText f) \<noteq> []")
    case True
    with assms obtain ob where "parse (pf_conditionsText f) = Some (JObj ob)"
      "v = \<lparr>fv_name = pf_name f, fv_description = pf_description f, fv_actions = pf_actions f,
         fv_resource_type = pf_resourceType f, fv_conditions = Some (JObj ob)\<rparr>"
      by (auto simp: handleSubmit_def conditions_error_cases truthy_def split: if_splits)
    with send True show ?thesis by (simp add: json_fields_def)
  next
    case False
    with assms(2) have "v = \<lparr>fv_name = pf_name f, fv_description = pf_description f, fv_actions = pf_actions f,
         fv_resource_type = pf_resourceType f, fv_conditions = None\<rparr>"
      by (auto simp: handleSubmit_def conditions_error_cases truthy_def split: if_splits)
    with send False show ?thesis by (auto simp: json_fields_def)
  qed
qed

text \<open>A form that was loaded with conditions, with the switch turned off.\<close>

lemma conditions_not_removed_witness:
  "let f = blank_form\<lparr>pf_name := ''reader'', pf_conditionsText := ''{...}''\<rparr> in
   \<exists>v fs. snd (handleSubmit \<lparr>tr_exists = \<lambda>_. True, tr_text = \<lambda>k _. k\<rparr> (\<lambda>_. Some (JObj [(''self_only'', JBool True)])) f) = Submits v \<and>
     r_body (m_request (useUpdatePolicyMutation ''reader'' (update_payload v))) = Some (JObj fs)
     \<and> fst ` set (send_fields fs) = {''name'', ''description'', ''actions'', ''resource_type''}"
proof -
  let ?f = "blank_form\<lparr>pf_name := ''reader'', pf_conditionsText := ''{...}''\<rparr>" and ?tr = "\<lparr>tr_exists = \<lambda>_. True, tr_text = \<lambda>k _. k\<rparr>"
  let ?parse = "\<lambda>_. Some (JObj [(''self_only'', JBool True)])"
  have off: "\<not> pf_conditionsEnabled ?f" by (simp add: blank_form_def)
  then obtain v where v: "snd (handleSubmit ?tr ?parse ?f) = Submits v"
    unfolding handleSubmit_def conditions_error_cases by (simp add: truthy_def)
  obtain fs where "r_body (m_request (useUpdatePolicyMutation ''reader'' (update_payload v))) = Some (JObj fs)"
    "send_fields fs = [(''name'', JStr (pf_name ?f)), (''description'', JStr (pf_description ?f)),
       (''actions'', str_list (pf_actions ?f)), (''resource_type'', JStr (pf_resourceType ?f))]"
    using conditions_not_removed [OF _ v, of "''reader''"] off by auto
  with v show ?thesis unfolding Let_def by (intro exI [of _ v] exI [of _ fs]) (simp add: insert_commute)
qed

end
