(* ===== verification/UserAccess.thy ===== *)
theory UserAccess
  imports Grants Queries PolicyText Toaster
begin

text \<open>
  The access dialog of one user (\<open>users/dialogs/useUserAccessDialogState.ts\<close>,
  \<open>userAccessDialogHandlers.ts\<close>, \<open>userAccessDialogRows.ts\<close> and the permission switch of
  \<open>UserAccessPermissionsParts.tsx\<close>): which queries it may send, against the gates of the server's routes that
  answer them (\<open>authorization/dependencies\<close> and \<open>api/\<close> of the Python service), its rows, and the toggles with
  their toasts. It composes the effective grants, the queries, the grant mutations and the
  toaster. \<open>parse\<close> is \<open>JSON.parse\<close>, \<open>lc\<close> is \<open>localeCompare\<close>.
\<close>

section \<open>State of the dialog\<close>

datatype access_tab = DetailsTab | PoliciesTab | PermissionsTab
datatype access_filter = FilterAll | FilterOn | FilterOff

record access_dialog =
  ad_prevIsOpen :: bool
  ad_tab :: access_tab
  ad_polQuery :: string
  ad_polFilter :: access_filter
  ad_polOpen :: "string list"
  ad_permQuery :: string
  ad_permFilter :: access_filter
  ad_permClosedGroups :: "string list"
  ad_editingKey :: "string option"

definition reset_access :: "access_tab \<Rightarrow> access_dialog \<Rightarrow> access_dialog" where
  "reset_access initialTab d = d\<lparr>ad_tab := initialTab, ad_polQuery := [], ad_polFilter := FilterAll, ad_polOpen := [],
     ad_permQuery := [], ad_permFilter := FilterAll, ad_permClosedGroups := [], ad_editingKey := None\<rparr>"

definition mount_access :: "bool \<Rightarrow> access_dialog" where
  "mount_access isOpen = \<lparr>ad_prevIsOpen = isOpen, ad_tab = DetailsTab, ad_polQuery = [], ad_polFilter = FilterAll,
     ad_polOpen = [], ad_permQuery = [], ad_permFilter = FilterAll, ad_permClosedGroups = [], ad_editingKey = None\<rparr>"

definition render_access :: "bool \<Rightarrow> access_tab \<Rightarrow> access_dialog \<Rightarrow> access_dialog" where
  "render_access isOpen initialTab d =
     (if isOpen \<noteq> ad_prevIsOpen d
      then (let d1 = d\<lparr>ad_prevIsOpen := isOpen\<rparr> in if isOpen then reset_access initialTab d1 else d1)
      else d)"

definition togglePolicyOpen :: "string \<Rightarrow> access_dialog \<Rightarrow> access_dialog" where
  "togglePolicyOpen n d = d\<lparr>ad_polOpen := toggle_member n (ad_polOpen d)\<rparr>"
definition expandAllPolicies :: "policy list option \<Rightarrow> access_dialog \<Rightarrow> access_dialog" where
  "expandAllPolicies all d = d\<lparr>ad_polOpen := js_set (map pol_name (nullish all []))\<rparr>"
definition collapseAllPolicies :: "access_dialog \<Rightarrow> access_dialog" where
  "collapseAllPolicies d = d\<lparr>ad_polOpen := []\<rparr>"
definition togglePermGroup :: "string \<Rightarrow> access_dialog \<Rightarrow> access_dialog" where
  "togglePermGroup g d = d\<lparr>ad_permClosedGroups := toggle_member g (ad_permClosedGroups d)\<rparr>"
definition expandAllPermGroups :: "access_dialog \<Rightarrow> access_dialog" where
  "expandAllPermGroups d = d\<lparr>ad_permClosedGroups := []\<rparr>"
definition collapseAllPermGroups :: "catalog_entry list option \<Rightarrow> access_dialog \<Rightarrow> access_dialog" where
  "collapseAllPermGroups catalog d = d\<lparr>ad_permClosedGroups := js_set (map ce_resource_type (nullish catalog []))\<rparr>"

section \<open>Queries\<close>

definition access_isSelf :: "auth_state \<Rightarrow> string option \<Rightarrow> bool" where
  "access_isSelf a userEmail \<longleftrightarrow> truthy userEmail \<and> userEmail = a_email a"

definition RECENT_ACCESS_CHANGES_LIMIT :: nat where
  "RECENT_ACCESS_CHANGES_LIMIT = 5"

definition recent_changes_params :: security_list_params where
  "recent_changes_params = no_security_params\<lparr>bl_limit := Some RECENT_ACCESS_CHANGES_LIMIT,
     bl_event_type := Some ''access_change''\<rparr>"

definition recentAccessChangesQuery :: "auth_state \<Rightarrow> bool \<Rightarrow> string option \<Rightarrow> query" where
  "recentAccessChangesQuery a isOpen userEmail =
     (let isSelf = access_isSelf a userEmail in
      query_of [KStr ''auditLog'', KStr ''security'', KStr ''accessChanges'', KOptStr userEmail, KBool isSelf]
        (if isSelf then getMySecurityAuditLogApi recent_changes_params
         else getUserSecurityAuditLogApi (nullish userEmail []) recent_changes_params)
        (isOpen \<and> truthy userEmail \<and> (isSelf \<or> useCan a (OneAction ''security_audit:read'') None)))"

text \<open>Every query the hook registers, in order.\<close>

definition access_queries :: "auth_state \<Rightarrow> bool \<Rightarrow> string option \<Rightarrow> query list" where
  "access_queries a isOpen userEmail =
     (let isSelf = access_isSelf a userEmail;
          canReadPolicies = useCan a (OneAction ''policies:read'') None;
          canReadPermissions = useCan a (OneAction ''permissions:read'') None;
          canReadCatalog = useCan a (AnyOf [''permissions:read'', ''policies:create'', ''policies:update'', ''permissions:grant'']) None
      in [useUserPoliciesQuery (nullish userEmail []) (isOpen \<and> truthy userEmail \<and> \<not> isSelf \<and> canReadPolicies),
          useMyPoliciesQuery (isOpen \<and> isSelf),
          useUserPermissionsQuery (nullish userEmail []) (isOpen \<and> truthy userEmail \<and> \<not> isSelf \<and> canReadPermissions),
          useMyPermissionsQuery (isOpen \<and> isSelf),
          usePoliciesQuery (isOpen \<and> canReadPolicies),
          usePermissionCatalogQuery (isOpen \<and> canReadCatalog),
          recentAccessChangesQuery a isOpen userEmail])"

definition canSeePolicies :: "auth_state \<Rightarrow> string option \<Rightarrow> bool" where
  "canSeePolicies a userEmail \<longleftrightarrow> access_isSelf a userEmail \<or> useCan a (OneAction ''policies:read'') None"

definition canSeePermissions :: "auth_state \<Rightarrow> string option \<Rightarrow> bool" where
  "canSeePermissions a userEmail \<longleftrightarrow> access_isSelf a userEmail \<or> useCan a (OneAction ''permissions:read'') None"

section \<open>What the server asks for\<close>

text \<open>
  The routes the dialog reads from, as the server declares them: the segments of the path, a parameter standing for
  any one segment, and the actions of which the caller must hold one (none: being signed in is enough). The first route
  that matches is taken, and a \<open>/me\<close> route is registered before the one with an address in its place.
\<close>

type_synonym route = "string option list \<times> string list"

definition lit :: "string \<Rightarrow> string option" where
  "lit s = Some s"

definition POLICIES_READ_DEPENDENCY :: "string list" where
  "POLICIES_READ_DEPENDENCY = [''policies:read'']"

definition PERMISSIONS_READ_DEPENDENCY :: "string list" where
  "PERMISSIONS_READ_DEPENDENCY = [''permissions:read'']"

definition CATALOG_READ_DEPENDENCY :: "string list" where
  "CATALOG_READ_DEPENDENCY = [''permissions:read'', ''policies:create'', ''policies:update'', ''permissions:grant'']"

definition SECURITY_READ_DEPENDENCY :: "string list" where
  "SECURITY_READ_DEPENDENCY = [''security_audit:read'']"

definition list_policies_route :: route where
  "list_policies_route = ([lit ''authorization'', lit ''policies''], POLICIES_READ_DEPENDENCY)"

definition list_my_policies_route :: route where
  "list_my_policies_route = ([lit ''authorization'', lit ''users'', lit ''me'', lit ''policies''], [])"

definition list_user_policies_route :: route where
  "list_user_policies_route = ([lit ''authorization'', lit ''users'', None, lit ''policies''], POLICIES_READ_DEPENDENCY)"

definition list_my_permissions_route :: route where
  "list_my_permissions_route = ([lit ''authorization'', lit ''users'', lit ''me'', lit ''permissions''], [])"

definition list_user_permissions_route :: route where
  "list_user_permissions_route =
     ([lit ''authorization'', lit ''users'', None, lit ''permissions''], PERMISSIONS_READ_DEPENDENCY)"

definition get_permission_catalog_route :: route where
  "get_permission_catalog_route =
     ([lit ''authorization'', lit ''permissions'', lit ''catalog''], CATALOG_READ_DEPENDENCY)"

definition list_user_security_audit_log_route :: route where
  "list_user_security_audit_log_route =
     ([lit ''audit'', lit ''security-log'', lit ''users'', None], SECURITY_READ_DEPENDENCY)"

definition list_my_security_audit_log_route :: route where
  "list_my_security_audit_log_route = ([lit ''audit'', lit ''security-log'', lit ''me''], [])"

text \<open>In the order in which \<open>main.py\<close> includes the routers.\<close>

definition read_routes :: "route list" where
  "read_routes = [list_policies_route, list_my_policies_route, list_user_policies_route, list_my_permissions_route,
     list_user_permissions_route, get_permission_catalog_route, list_user_security_audit_log_route,
     list_my_security_audit_log_route]"

definition route_matches :: "string option list \<Rightarrow> string list \<Rightarrow> bool" where
  "route_matches pat segs \<longleftrightarrow>
     list_all2 (\<lambda>p s. case p of None \<Rightarrow> s \<noteq> [] | Some l \<Rightarrow> s = l) pat segs"

text \<open>Whether the gate of the route lets the caller's request through; \<open>can\<close> stands for the caller's grants.\<close>

definition server_admits :: "auth_state \<Rightarrow> request \<Rightarrow> bool" where
  "server_admits a r \<longleftrightarrow> r_method r = GET \<and>
     (case find (\<lambda>rt. route_matches (fst rt) (tl (split_on CHR ''/'' (r_path r)))) read_routes of
        None \<Rightarrow> False | Some rt \<Rightarrow> snd rt = [] \<or> can a (AnyOf (snd rt)))"

section \<open>Rows (\<open>userAccessDialogRows.ts\<close>)\<close>

text \<open>What the dialog has loaded about the user.\<close>

record access_data =
  da_assigned :: "policy list"
  da_direct :: "user_permission list"
  da_allPolicies :: "policy list option"
  da_catalog :: "catalog_entry list option"

definition assignedNames :: "access_data \<Rightarrow> string list" where
  "assignedNames x = js_set (map pol_name (da_assigned x))"

definition grant_of :: "user_permission \<Rightarrow> grant" where
  "grant_of g = \<lparr>g_action = up_action g, g_resource_type = up_resource_type g\<rparr>"

definition effectiveGrantKeys :: "access_data \<Rightarrow> string list" where
  "effectiveGrantKeys x = buildEffectiveGrantKeySet (da_assigned x) (map grant_of (da_direct x))"

definition granted_entry :: "access_data \<Rightarrow> catalog_entry \<Rightarrow> bool" where
  "granted_entry x e = isAlreadyEffectivelyGranted (effectiveGrantKeys x) (ce_action e) (ce_resource_type e)"

definition totalGranted :: "access_data \<Rightarrow> nat" where
  "totalGranted x = length (filter (granted_entry x) (nullish (da_catalog x) []))"

text \<open>\<open>[...new Map(list.map(p => [p.name, p])).values()]\<close>: the last policy of a name, where the first stood.\<close>

definition allPolicies :: "access_data \<Rightarrow> policy list" where
  "allPolicies x = om_values (foldl (\<lambda>m p. om_set (pol_name p) p m) [] (da_assigned x @ nullish (da_allPolicies x) []))"

definition filter_passes :: "access_filter \<Rightarrow> bool \<Rightarrow> bool" where
  "filter_passes f on \<longleftrightarrow> f = FilterAll \<or> (f = FilterOn) = on"

definition policyRows :: "(string \<Rightarrow> string \<Rightarrow> int) \<Rightarrow> access_dialog \<Rightarrow> access_data \<Rightarrow> policy list" where
  "policyRows lc d x =
     (let policyQuery = to_lower (trim (ad_polQuery d)) in
      js_sort (\<lambda>a b. lc (pol_name a) (pol_name b))
        (filter (\<lambda>p. policyQuery = [] \<or> contains (to_lower (pol_name p)) policyQuery
                   \<or> (case pol_description p of None \<Rightarrow> False | Some t \<Rightarrow> contains (to_lower t) policyQuery))
          (filter (\<lambda>p. filter_passes (ad_polFilter d) (pol_name p \<in> set (assignedNames x))) (allPolicies x))))"

definition permissionRows :: "access_dialog \<Rightarrow> access_data \<Rightarrow> catalog_entry list" where
  "permissionRows d x =
     (let permissionQuery = to_lower (trim (ad_permQuery d)) in
      filter (\<lambda>e. filter_passes (ad_permFilter d) (granted_entry x e)
          \<and> (permissionQuery = [] \<or> contains (to_lower (ce_action e)) permissionQuery
             \<or> contains (to_lower (ce_description e)) permissionQuery
             \<or> contains (to_lower (ce_resource_type e)) permissionQuery)) (nullish (da_catalog x) []))"

definition permissionGroups :: "access_dialog \<Rightarrow> access_data \<Rightarrow> string list" where
  "permissionGroups d x =
     filter (\<lambda>g. list_ex (\<lambda>e. ce_resource_type e = g) (permissionRows d x))
       (js_set (map ce_resource_type (nullish (da_catalog x) [])))"

section \<open>The switch of one permission\<close>

definition direct_grant :: "access_data \<Rightarrow> string \<Rightarrow> string \<Rightarrow> user_permission option" where
  "direct_grant x action resourceType =
     find (\<lambda>g. up_action g = action \<and> up_resource_type g = resourceType) (da_direct x)"

definition entry_direct :: "access_data \<Rightarrow> catalog_entry \<Rightarrow> bool" where
  "entry_direct x e \<longleftrightarrow> list_ex (\<lambda>g. up_action g = ce_action e \<and> up_resource_type g = ce_resource_type e) (da_direct x)"

definition entry_viaPolicy :: "access_data \<Rightarrow> catalog_entry \<Rightarrow> bool" where
  "entry_viaPolicy x e \<longleftrightarrow> \<not> entry_direct x e \<and> granted_entry x e"

text \<open>\<open>PermissionEntrySwitch\<close>: \<open>None\<close> when the gate hides it, else whether it is on and whether it is disabled.\<close>

definition permission_switch :: "auth_state \<Rightarrow> bool \<Rightarrow> access_data \<Rightarrow> catalog_entry \<Rightarrow> (bool \<times> bool) option" where
  "permission_switch a locked x e =
     (let direct = entry_direct x e; viaPolicy = entry_viaPolicy x e;
          callerCannotManageAction = (\<not> can a (OneAction (ce_action e)))
      in if ifcan_view a (OneAction (if direct then ''permissions:revoke'' else ''permissions:grant'')) = GateChildren
         then Some (direct \<or> viaPolicy, locked \<or> viaPolicy \<or> callerCannotManageAction) else None)"

definition switch_label :: "translator \<Rightarrow> string option \<Rightarrow> auth_state \<Rightarrow> bool \<Rightarrow> access_data \<Rightarrow> catalog_entry \<Rightarrow> string option" where
  "switch_label tr lockText a locked x e =
     (if locked then lockText
      else Some (tr_text tr (if entry_viaPolicy x e then ''users:accessDialog.comesFromPolicy''
        else if \<not> can a (OneAction (ce_action e)) then ''users:accessDialog.cannotGrantUnheld''
        else if entry_direct x e then ''users:accessDialog.removeDirect'' else ''users:accessDialog.giveDirect'') []))"

text \<open>Whether a click on the row itself toggles (\<open>PermissionItemsTable\<close>).\<close>

definition row_canToggle :: "auth_state \<Rightarrow> bool \<Rightarrow> access_data \<Rightarrow> catalog_entry \<Rightarrow> bool" where
  "row_canToggle a locked x e \<longleftrightarrow> \<not> locked \<and> \<not> entry_viaPolicy x e \<and> can a (OneAction (ce_action e))
     \<and> can a (OneAction (if entry_direct x e then ''permissions:revoke'' else ''permissions:grant''))"

definition group_open :: "access_dialog \<Rightarrow> string \<Rightarrow> bool" where
  "group_open d g \<longleftrightarrow> g \<notin> set (ad_permClosedGroups d) \<or> ad_permQuery d \<noteq> []"

definition armKey :: "string \<Rightarrow> string \<Rightarrow> string" where
  "armKey action resourceType = action @ ''::'' @ resourceType"

section \<open>Handlers (\<open>userAccessDialogHandlers.ts\<close>)\<close>

text \<open>The application and the toaster, which every handler's outcome touches. \<open>now\<close> is the time at
  which an answer arrives.\<close>

record access =
  ac_app :: app
  ac_toaster :: toaster

definition access_toast :: "string \<Rightarrow> kind \<Rightarrow> duration option \<Rightarrow> string option \<Rightarrow> access \<Rightarrow> access" where
  "access_toast title k d act s =
     s\<lparr>ac_toaster := snd (create \<lparr>o_title = title, o_description = None, o_type = Some k, o_duration = d, o_action = act\<rparr>
        (ac_toaster s))\<rparr>"

definition access_run :: "translator \<Rightarrow> 'd mutation \<Rightarrow> 'd outcome \<Rightarrow> access \<Rightarrow> (string + 'd) \<times> access" where
  "access_run tr m answer s = (let (r, app') = run_mutation tr m answer (ac_app s) in (r, s\<lparr>ac_app := app'\<rparr>))"

text \<open>Report an answer: the toast of success, or the message of the error.\<close>

definition report ::
  "translator \<Rightarrow> 'd mutation \<Rightarrow> 'd outcome \<Rightarrow> string \<Rightarrow> kind \<Rightarrow> string option \<Rightarrow> access \<Rightarrow> access" where
  "report tr m answer title k act s =
     (case access_run tr m answer s of
        (Inr d, s') \<Rightarrow> access_toast title k None act s'
      | (Inl msg, s') \<Rightarrow> access_toast msg TError None None s')"

definition undo_label :: "translator \<Rightarrow> string" where
  "undo_label tr = tr_text tr ''users:accessDialog.undo'' []"

definition policy_toast :: "translator \<Rightarrow> bool \<Rightarrow> string \<Rightarrow> string" where
  "policy_toast tr assigned policyName =
     tr_text tr (if assigned then ''users:accessDialog.policyAssignedToast'' else ''users:accessDialog.policyRevokedToast'')
       [(''policyName'', JStr policyName)]"

definition togglePolicy ::
  "translator \<Rightarrow> int \<Rightarrow> string option \<Rightarrow> string \<Rightarrow> bool \<Rightarrow> unit outcome \<Rightarrow> access \<Rightarrow> access" where
  "togglePolicy tr now userEmail policyName wasAssigned answer s =
     (if \<not> truthy userEmail then s
      else if wasAssigned
      then report tr (useRevokePolicyMutation now (the userEmail) policyName) answer
             (policy_toast tr False policyName) TInfo (Some (undo_label tr)) s
      else report tr (useAssignPolicyMutation now (the userEmail) policyName) answer
             (policy_toast tr True policyName) TSuccess (Some (undo_label tr)) s)"

definition togglePolicy_undo ::
  "translator \<Rightarrow> int \<Rightarrow> string \<Rightarrow> string \<Rightarrow> bool \<Rightarrow> unit outcome \<Rightarrow> access \<Rightarrow> access" where
  "togglePolicy_undo tr now userEmail policyName wasAssigned answer s =
     (if wasAssigned
      then report tr (useAssignPolicyMutation now userEmail policyName) answer (policy_toast tr True policyName) TSuccess None s
      else report tr (useRevokePolicyMutation now userEmail policyName) answer (policy_toast tr False policyName) TSuccess None s)"

definition requestRevokePolicyAction ::
  "translator \<Rightarrow> int \<Rightarrow> string option \<Rightarrow> string \<Rightarrow> string \<Rightarrow> unit outcome \<Rightarrow> access \<Rightarrow> access" where
  "requestRevokePolicyAction tr now userEmail policyName action answer s =
     (if \<not> truthy userEmail then s
      else report tr (useRevokePolicyActionMutation now (the userEmail) policyName action) answer
             (tr_text tr ''users:policiesDialog.actionRevokedToast''
                [(''action'', JStr action), (''policyName'', JStr policyName)]) TSuccess None s)"

text \<open>
  \<open>toggleDirectPermission\<close>: a loading toast that never expires, shown at once and named by the
  identifier returned; then the answer updates or replaces it.
\<close>

definition permission_toast :: "translator \<Rightarrow> string \<Rightarrow> string \<Rightarrow> string" where
  "permission_toast tr key action = tr_text tr (''users:accessDialog.'' @ key) [(''action'', JStr action)]"

definition toggleDirect_start :: "translator \<Rightarrow> string \<Rightarrow> user_permission option \<Rightarrow> access \<Rightarrow> nat \<times> access" where
  "toggleDirect_start tr action currentGrant s =
     (let (i, ts) = create
        \<lparr>o_title = permission_toast tr (if currentGrant \<noteq> None then ''permissionRevokingToast'' else ''permissionGrantingToast'') action,
         o_description = None, o_type = Some TLoading, o_duration = Some Forever, o_action = None\<rparr> (ac_toaster s)
      in (i, s\<lparr>ac_toaster := ts\<rparr>))"

definition direct_payload :: "string \<Rightarrow> string \<Rightarrow> fields option \<Rightarrow> permission_assignment" where
  "direct_payload action resourceType conditions =
     \<lparr>pa_action = action, pa_resource_type = resourceType, pa_conditions = conditions\<rparr>"

definition toggleDirect_mutation ::
  "int \<Rightarrow> string \<Rightarrow> string \<Rightarrow> string \<Rightarrow> user_permission option \<Rightarrow> unit mutation" where
  "toggleDirect_mutation now userEmail action resourceType currentGrant =
     (if currentGrant \<noteq> None then useRevokePermissionMutation now userEmail action resourceType
      else useGrantPermissionMutation now userEmail (direct_payload action resourceType None))"

definition done_patch :: "translator \<Rightarrow> string \<Rightarrow> user_permission option \<Rightarrow> toast_patch" where
  "done_patch tr action currentGrant =
     \<lparr>p_title = permission_toast tr (if currentGrant \<noteq> None then ''permissionRevokedToast'' else ''permissionGrantedToast'') action,
      p_description = None, p_type = Some (if currentGrant \<noteq> None then TInfo else TSuccess), p_duration = None,
      p_action = Some (Some (undo_label tr))\<rparr>"

definition toggleDirect_answered ::
  "translator \<Rightarrow> int \<Rightarrow> string \<Rightarrow> string \<Rightarrow> string \<Rightarrow> user_permission option \<Rightarrow> nat \<Rightarrow> unit outcome \<Rightarrow> access \<Rightarrow> access" where
  "toggleDirect_answered tr now userEmail action resourceType currentGrant i answer s =
     (case access_run tr (toggleDirect_mutation now userEmail action resourceType currentGrant) answer s of
        (Inr d, s') \<Rightarrow> s'\<lparr>ac_toaster := update_toast i (done_patch tr action currentGrant) (ac_toaster s')\<rparr>
      | (Inl msg, s') \<Rightarrow> access_toast msg TError (Some (Ms 8000)) None (s'\<lparr>ac_toaster := dismiss (Some i) (ac_toaster s')\<rparr>))"

definition toggleDirect_undo_mutation ::
  "int \<Rightarrow> string \<Rightarrow> string \<Rightarrow> string \<Rightarrow> user_permission option \<Rightarrow> unit mutation" where
  "toggleDirect_undo_mutation now userEmail action resourceType currentGrant =
     (case currentGrant of
        Some g \<Rightarrow> useGrantPermissionMutation now userEmail (direct_payload action resourceType (up_conditions g))
      | None \<Rightarrow> useRevokePermissionMutation now userEmail action resourceType)"

definition toggleDirect_undo ::
  "translator \<Rightarrow> int \<Rightarrow> string \<Rightarrow> string \<Rightarrow> string \<Rightarrow> user_permission option \<Rightarrow> unit outcome \<Rightarrow> access \<Rightarrow> access" where
  "toggleDirect_undo tr now userEmail action resourceType currentGrant answer s =
     report tr (toggleDirect_undo_mutation now userEmail action resourceType currentGrant) answer
       (permission_toast tr (if currentGrant \<noteq> None then ''permissionGrantedToast'' else ''permissionRevokedToast'') action)
       TSuccess None s"

text \<open>\<open>saveConditions\<close>: a text that does not parse is reported and nothing is sent; otherwise the
  parsed value is sent as it is (the cast to an object is not checked). The result is the
  message shown under the editor, and the mutation to run.\<close>

definition saveConditions ::
  "translator \<Rightarrow> (string \<Rightarrow> json option) \<Rightarrow> string option \<Rightarrow> string \<Rightarrow> string option + json" where
  "saveConditions tr parse userEmail conditionsText =
     (if \<not> truthy userEmail then Inl None
      else if trim conditionsText \<noteq> []
      then (case parse conditionsText of
              None \<Rightarrow> Inl (Some (tr_text tr ''users:permissionsDialog.invalidConditionsJson'' []))
            | Some j \<Rightarrow> Inr j)
      else Inr JUndef)"

definition saveConditions_answered ::
  "translator \<Rightarrow> int \<Rightarrow> string \<Rightarrow> string \<Rightarrow> string \<Rightarrow> fields option \<Rightarrow> unit outcome \<Rightarrow> access_dialog \<times> access
     \<Rightarrow> access_dialog \<times> access" where
  "saveConditions_answered tr now userEmail action resourceType conditions answer ds =
     (case access_run tr (useGrantPermissionMutation now userEmail (direct_payload action resourceType conditions))
             answer (snd ds) of
        (Inr d, s') \<Rightarrow> ((fst ds)\<lparr>ad_editingKey := None\<rparr>,
            access_toast (permission_toast tr ''conditionsSavedToast'' action) TSuccess None None s')
      | (Inl msg, s') \<Rightarrow> (fst ds, access_toast msg TError None None s'))"

section \<open>Lemmas\<close>

lemma can_any_of: "can a (AnyOf ps) \<longleftrightarrow> (\<exists>p\<in>set ps. can a (OneAction p))"
  by (auto simp: can_def list_ex_iff)

lemma om_fold_put:
  "om_keys (foldl (\<lambda>m p. om_set (k p) p m) m ps) = foldl (\<lambda>ks p. set_add (k p) ks) (om_keys m) ps \<and>
   (\<forall>n. om_get (foldl (\<lambda>m p. om_set (k p) p m) m ps) n =
      (if n \<in> k ` set ps then Some (last (filter (\<lambda>p. k p = n) ps)) else om_get m n))"
proof (induction ps arbitrary: m)
  case Nil
  then show ?case by simp
next
  case (Cons p ps)
  have none: "filter (\<lambda>q. k q = n) ps = []" if "n \<notin> k ` set ps" for n using that by (auto simp: filter_empty_conv)
  have some: "filter (\<lambda>q. k q = n) ps \<noteq> []" if "n \<in> k ` set ps" for n using that by (auto simp: filter_empty_conv)
  note ih = Cons [of "om_set (k p) p m"]
  have "om_get (foldl (\<lambda>m p. om_set (k p) p m) m (p # ps)) n =
      (if n \<in> k ` set (p # ps) then Some (last (filter (\<lambda>q. k q = n) (p # ps))) else om_get m n)" for n
  proof (cases "n \<in> k ` set ps")
    case True
    with ih some [OF True] show ?thesis by simp
  next
    case False
    with ih none [OF False] show ?thesis by auto
  qed
  with ih show ?case by simp
qed

lemma fold_set_add: "foldl (\<lambda>ks p. set_add (k p) ks) ks ps = add_all (map k ps) ks"
  by (induction ps arbitrary: ks) simp_all

text \<open>The merged list: every policy name once, with the policy that came last under it.\<close>

lemma allPolicies_names: "map pol_name (allPolicies x) = js_set (map pol_name (da_assigned x @ nullish (da_allPolicies x) []))"
  and allPolicies_last: "p \<in> set (allPolicies x) \<Longrightarrow>
      p = last (filter (\<lambda>q. pol_name q = pol_name p) (da_assigned x @ nullish (da_allPolicies x) []))"
proof -
  define ps where "ps = da_assigned x @ nullish (da_allPolicies x) []"
  let ?m = "foldl (\<lambda>m p. om_set (pol_name p) p m) [] ps"
  have keys: "om_keys ?m = js_set (map pol_name ps)"
    using om_fold_put [of pol_name "[]" ps] by (simp add: fold_set_add js_set_def)
  have get: "om_get ?m n = (if n \<in> pol_name ` set ps then Some (last (filter (\<lambda>p. pol_name p = n) ps)) else None)" for n
    using om_fold_put [of pol_name "[]" ps] by simp
  have vals: "allPolicies x = map (\<lambda>n. last (filter (\<lambda>p. pol_name p = n) ps)) (js_set (map pol_name ps))"
    unfolding allPolicies_def ps_def [symmetric] by (subst om_values_get) (auto simp: keys get)
  have named: "pol_name (last (filter (\<lambda>p. pol_name p = n) ps)) = n" if "n \<in> pol_name ` set ps" for n
  proof -
    have "filter (\<lambda>p. pol_name p = n) ps \<noteq> []" using that by (force simp: filter_empty_conv)
    from last_in_set [OF this] show ?thesis by auto
  qed
  show "map pol_name (allPolicies x) = js_set (map pol_name (da_assigned x @ nullish (da_allPolicies x) []))"
    unfolding ps_def [symmetric] vals map_map by (rule map_idI) (simp add: named)
  show "p \<in> set (allPolicies x) \<Longrightarrow>
      p = last (filter (\<lambda>q. pol_name q = pol_name p) (da_assigned x @ nullish (da_allPolicies x) []))"
    unfolding ps_def [symmetric] vals using named by auto
qed

subsection \<open>The routes\<close>

lemmas read_route_defs = read_routes_def list_policies_route_def list_my_policies_route_def list_user_policies_route_def
  list_my_permissions_route_def list_user_permissions_route_def get_permission_catalog_route_def
  list_user_security_audit_log_route_def list_my_security_audit_log_route_def lit_def
  POLICIES_READ_DEPENDENCY_def PERMISSIONS_READ_DEPENDENCY_def CATALOG_READ_DEPENDENCY_def SECURITY_READ_DEPENDENCY_def

lemma admits_url:
  assumes "segs \<noteq> []" "\<forall>s\<in>set segs. CHR ''/'' \<notin> set s"
  shows "server_admits a (get_req (url segs) ps) \<longleftrightarrow>
     (case find (\<lambda>rt. route_matches (fst rt) segs) read_routes of
        None \<Rightarrow> False | Some rt \<Rightarrow> snd rt = [] \<or> can a (AnyOf (snd rt)))"
  by (simp add: server_admits_def get_req_def url_segments [OF assms])

lemma admitted:
  "server_admits a getMyPoliciesApi" "server_admits a getMyPermissionsApi" "server_admits a (getMySecurityAuditLogApi ps)"
  "server_admits a (listPoliciesApi lp) \<longleftrightarrow> can a (OneAction ''policies:read'')"
  "server_admits a getPermissionCatalogApi \<longleftrightarrow>
     can a (AnyOf [''permissions:read'', ''policies:create'', ''policies:update'', ''permissions:grant''])"
  "e \<noteq> [] \<Longrightarrow> e \<noteq> ''me'' \<Longrightarrow> server_admits a (getUserPoliciesApi e) \<longleftrightarrow> can a (OneAction ''policies:read'')"
  "e \<noteq> [] \<Longrightarrow> e \<noteq> ''me'' \<Longrightarrow> server_admits a (getUserPermissionsApi e) \<longleftrightarrow> can a (OneAction ''permissions:read'')"
  "e \<noteq> [] \<Longrightarrow> e \<noteq> ''me'' \<Longrightarrow> server_admits a (getUserSecurityAuditLogApi e ps) \<longleftrightarrow> can a (OneAction ''security_audit:read'')"
proof -
  have me: "encodeURIComponent ''me'' = ''me''" by (simp add: encodeURIComponent_def encode_char_def unreserved_def Let_def ucode_def)
  have enc: "e \<noteq> [] \<Longrightarrow> e \<noteq> ''me'' \<Longrightarrow> encodeURIComponent e \<noteq> [] \<and> encodeURIComponent e \<noteq> ''me''" for e
    using encodeURIComponent_inj [of e "''me''"] encodeURIComponent_inj [of e "[]"] unfolding me
    by (simp add: encodeURIComponent_def)
  have one: "can a (AnyOf [p]) \<longleftrightarrow> can a (OneAction p)" for p by (simp add: can_any_of)
  note admits = admits_url read_route_defs route_matches_def one encodeURIComponent_safe
  show "server_admits a getMyPoliciesApi" "server_admits a getMyPermissionsApi"
    "server_admits a (listPoliciesApi lp) \<longleftrightarrow> can a (OneAction ''policies:read'')"
    "server_admits a getPermissionCatalogApi \<longleftrightarrow>
       can a (AnyOf [''permissions:read'', ''policies:create'', ''policies:update'', ''permissions:grant''])"
    by (simp_all add: getMyPoliciesApi_def getMyPermissionsApi_def listPoliciesApi_def getPermissionCatalogApi_def admits)
  show "server_admits a (getMySecurityAuditLogApi ps)"
    by (simp add: getMySecurityAuditLogApi_def server_admits_def get_req_def read_route_defs route_matches_def)
  show "e \<noteq> [] \<Longrightarrow> e \<noteq> ''me'' \<Longrightarrow> server_admits a (getUserPoliciesApi e) \<longleftrightarrow> can a (OneAction ''policies:read'')"
    "e \<noteq> [] \<Longrightarrow> e \<noteq> ''me'' \<Longrightarrow> server_admits a (getUserPermissionsApi e) \<longleftrightarrow> can a (OneAction ''permissions:read'')"
    "e \<noteq> [] \<Longrightarrow> e \<noteq> ''me'' \<Longrightarrow> server_admits a (getUserSecurityAuditLogApi e ps) \<longleftrightarrow> can a (OneAction ''security_audit:read'')"
    using enc [of e]
    by (simp_all add: getUserPoliciesApi_def getUserPermissionsApi_def getUserSecurityAuditLogApi_def authz_user_url_def admits)
qed

section \<open>Properties\<close>

text \<open>C31: The access dialog asks the server for exactly what the server would tell this caller. For another user's row it
  wants that user's policies, permissions and recent access changes, for the own row the same through the caller's own
  endpoints, and for both the list of policies and the permission catalog; an open dialog sends exactly those of these
  requests whose route on the server admits a caller with these permissions (the catalog, for one, also to those who may
  grant permissions or write policies), so none is made only to be refused and none is left out that would be
  answered; a closed dialog sends nothing. (The address of a row is not empty and not the word me; a caller's
  permissions are those the interface knows, by action.)\<close>

theorem access_need_to_know:
  assumes "e \<noteq> []" "e \<noteq> ''me''"
  shows "map q_request (filter q_enabled (access_queries a isOpen (Some e))) =
     (if isOpen then filter (server_admits a)
        ((if a_email a = Some e then [getMyPoliciesApi, getMyPermissionsApi] else [getUserPoliciesApi e, getUserPermissionsApi e])
         @ [listPoliciesApi no_list_policies_params, getPermissionCatalogApi]
         @ (if a_email a = Some e then [getMySecurityAuditLogApi recent_changes_params]
            else [getUserSecurityAuditLogApi e recent_changes_params]))
      else [])"
proof -
  have self: "access_isSelf a (Some e) \<longleftrightarrow> a_email a = Some e" using assms(1) by (auto simp: access_isSelf_def truthy_def)
  show ?thesis using assms
    by (simp add: access_queries_def Let_def self recentAccessChangesQuery_def query_of_def useCan_def truthy_def nullish_def
        useUserPoliciesQuery_def useMyPoliciesQuery_def useUserPermissionsQuery_def useMyPermissionsQuery_def
        usePoliciesQuery_def usePermissionCatalogQuery_def admitted)
qed

text \<open>A caller who may only grant permissions, on somebody else's row: the catalog is asked for, nothing else.\<close>

lemma access_need_to_know_witness:
  "map q_request (filter q_enabled (access_queries (signed_in [''permissions:grant'']) True (Some ''someone@x'')))
     = [getPermissionCatalogApi]"
proof -
  have "a_email (signed_in [''permissions:grant'']) = None" by (simp add: signed_in_def initial_auth_def)
  then show ?thesis using access_need_to_know [of "''someone@x''" "signed_in [''permissions:grant'']" True]
    by (simp add: admitted can_def signed_in_def)
qed

text \<open>The policy rows are in name order, show each policy once, in the version of the full list when
  it is there, and with an empty search hold exactly the known policies that pass the filter: all
  of them, the assigned ones, or the others.\<close>

theorem access_policy_rows:
  assumes "js_comparator lc"
  shows "distinct (map pol_name (policyRows lc d x)) \<and>
     sorted_wrt (\<lambda>p q. lc (pol_name p) (pol_name q) \<le> 0) (policyRows lc d x) \<and>
     (\<forall>p \<in> set (policyRows lc d x).
        p = last (filter (\<lambda>q. pol_name q = pol_name p) (da_assigned x @ nullish (da_allPolicies x) []))) \<and>
     (trim (ad_polQuery d) = [] \<longrightarrow> pol_name ` set (policyRows lc d x) =
        (let known = pol_name ` set (da_assigned x @ nullish (da_allPolicies x) []); on = pol_name ` set (da_assigned x)
         in case ad_polFilter d of FilterAll \<Rightarrow> known | FilterOn \<Rightarrow> on | FilterOff \<Rightarrow> known - on))"
proof -
  obtain P where rows: "policyRows lc d x = js_sort (\<lambda>a b. lc (pol_name a) (pol_name b))
      (filter P (filter (\<lambda>p. filter_passes (ad_polFilter d) (pol_name p \<in> set (assignedNames x))) (allPolicies x)))"
    and P: "trim (ad_polQuery d) = [] \<Longrightarrow> P = (\<lambda>_. True)"
    by (simp add: policyRows_def Let_def to_lower_def)
  have sub: "set (policyRows lc d x) \<subseteq> set (allPolicies x)" by (auto simp: rows)
  have "distinct (map pol_name (allPolicies x))" by (simp add: allPolicies_names)
  then have "distinct (map pol_name (filter P (filter (\<lambda>p. filter_passes (ad_polFilter d)
      (pol_name p \<in> set (assignedNames x))) (allPolicies x))))" by (intro distinct_map_filter)
  then have dist: "distinct (map pol_name (policyRows lc d x))"
    unfolding rows by (metis mset_js_sort mset_map mset_eq_imp_distinct_iff)
  have "js_comparator (\<lambda>a b. lc (pol_name a) (pol_name b))" using assms by (rule js_comparator_on)
  note sorted = js_comparator.sort_sorted [OF this]
  have names: "pol_name ` set (allPolicies x) = pol_name ` set (da_assigned x @ nullish (da_allPolicies x) [])"
    using arg_cong [OF allPolicies_names [of x], of set] by (simp add: image_Un)
  have "pol_name ` set (policyRows lc d x) = {n \<in> pol_name ` set (allPolicies x).
      filter_passes (ad_polFilter d) (n \<in> pol_name ` set (da_assigned x))}" if "trim (ad_polQuery d) = []"
    by (auto simp: rows P [OF that] assignedNames_def)
  then have "trim (ad_polQuery d) = [] \<longrightarrow> pol_name ` set (policyRows lc d x) =
      (let known = pol_name ` set (da_assigned x @ nullish (da_allPolicies x) []); on = pol_name ` set (da_assigned x)
       in case ad_polFilter d of FilterAll \<Rightarrow> known | FilterOn \<Rightarrow> on | FilterOff \<Rightarrow> known - on)"
    unfolding names by (auto simp: Let_def filter_passes_def split: access_filter.splits)
  with dist sorted sub allPolicies_last show ?thesis unfolding rows by blast
qed

lemma access_policy_rows_witness:
  "distinct (map pol_name (policyRows (\<lambda>a b. int (length a) - int (length b)) (mount_access True)
     \<lparr>da_assigned = [], da_direct = [], da_allPolicies = None, da_catalog = None\<rparr>))"
proof -
  have c: "js_comparator (\<lambda>a b. int (length (a :: string)) - int (length (b :: string)))"
    by unfold_locales (simp_all add: sgn_if)
  show ?thesis using access_policy_rows [OF c] by blast
qed

text \<open>A permission can be toggled by a click on its row exactly if its switch is shown and enabled, and
  then the caller holds the action itself and the permission to grant, or to revoke, it; an
  action that comes from a policy can never be toggled.\<close>

theorem permission_toggle_allowed:
  assumes "isAuthenticated a \<noteq> None"
  shows "(row_canToggle a locked x e \<longleftrightarrow> (\<exists>on. permission_switch a locked x e = Some (on, False))) \<and>
     (row_canToggle a locked x e \<longrightarrow> \<not> locked \<and> can a (OneAction (ce_action e)) \<and>
        (if entry_direct x e then can a (OneAction ''permissions:revoke'')
         else can a (OneAction ''permissions:grant'') \<and>
           \<not> isAlreadyEffectivelyGranted (effectiveGrantKeys x) (ce_action e) (ce_resource_type e)))"
  using assms
  by (auto simp: row_canToggle_def permission_switch_def Let_def ifcan_view_def authorized_view_def useCan_def
      entry_viaPolicy_def granted_entry_def)

lemma permission_toggle_allowed_witness:
  "row_canToggle (signed_in [''users:update'', ''permissions:grant'']) False
     \<lparr>da_assigned = [], da_direct = [], da_allPolicies = None, da_catalog = None\<rparr>
     \<lparr>ce_action = ''users:update'', ce_resource_type = ''users'', ce_description = []\<rparr>
   \<and> can (signed_in [''users:update'', ''permissions:grant'']) (OneAction ''permissions:grant'')"
proof -
  let ?a = "signed_in [''users:update'', ''permissions:grant'']"
  let ?x = "\<lparr>da_assigned = [], da_direct = [], da_allPolicies = None, da_catalog = None\<rparr>"
  let ?e = "\<lparr>ce_action = ''users:update'', ce_resource_type = ''users'', ce_description = []\<rparr>"
  have "isAuthenticated ?a \<noteq> None" by (simp add: signed_in_def)
  moreover have "row_canToggle ?a False ?x ?e"
    by (simp add: row_canToggle_def can_def signed_in_def entry_viaPolicy_def entry_direct_def granted_entry_def
        isAlreadyEffectivelyGranted_def hasEffectiveGrant_def effectiveGrantKeys_def buildEffectiveGrantKeySet_def)
  ultimately show ?thesis using permission_toggle_allowed [of ?a False ?x ?e] by (simp add: entry_direct_def)
qed

text \<open>The toast that reports a granted or revoked direct permission never goes away by itself. It
  inherits the unlimited duration of the loading toast it replaces: from any state of the toaster
  that its operations can reach, after the answer it is on screen, not leaving, and stays so
  however many timers fire.\<close>

theorem grant_toast_never_leaves:
  assumes "ac_toaster s = toast_run ops" "list_all timer_op later"
  shows "let (i, s1) = toggleDirect_start tr action g s;
             s2 = toggleDirect_answered tr now e action rt g i (Fulfilled u) s1;
             end = foldl (\<lambda>ts op. toast_step op ts) (ac_toaster s2) later
         in \<exists>t \<in> set (queue end). t_id t = i \<and> \<not> t_exiting t \<and> o_title t =
              permission_toast tr (if g \<noteq> None then ''permissionRevokedToast'' else ''permissionGrantedToast'') action"
proof -
  define opts where "opts = \<lparr>o_title = permission_toast tr
      (if g \<noteq> None then ''permissionRevokingToast'' else ''permissionGrantingToast'') action,
    o_description = None, o_type = Some TLoading, o_duration = Some Forever, o_action = None\<rparr>"
  have start: "toggleDirect_start tr action g s =
      (fst (create opts (ac_toaster s)), s\<lparr>ac_toaster := snd (create opts (ac_toaster s))\<rparr>)"
    by (simp add: toggleDirect_start_def opts_def Let_def case_prod_beta)
  have answered: "ac_toaster (toggleDirect_answered tr now e action rt g i (Fulfilled u) s1) =
      update_toast i (done_patch tr action g) (ac_toaster s1)" for i s1
    by (simp add: toggleDirect_answered_def access_run_def run_mutation_def)
  have "toast_inv (ac_toaster s)" "exits_below (ac_toaster s)"
    using assms(1) toast_run_inv toast_run_below by simp_all
  moreover have "o_duration opts = Some Forever" "p_duration (done_patch tr action g) = None"
    by (simp_all add: opts_def done_patch_def)
  ultimately obtain t where t: "pinned t (update_toast (fst (create opts (ac_toaster s))) (done_patch tr action g)
      (snd (create opts (ac_toaster s))))" "t_id t = fst (create opts (ac_toaster s))"
    "o_title t = p_title (done_patch tr action g)"
    using unending_update_pinned by blast
  from pinned_timers [OF assms(2) t(1)] t(2,3) show ?thesis
    unfolding start Let_def prod.case answered by (auto simp: pinned_def done_patch_def)
qed

lemma grant_toast_never_leaves_witness:
  "\<exists>t \<in> set (queue (foldl (\<lambda>ts op. toast_step op ts)
      (ac_toaster (toggleDirect_answered \<lparr>tr_exists = \<lambda>_. True, tr_text = \<lambda>k _. k\<rparr> 0 ''a@x'' ''users:update'' ''users'' None 1
         (Fulfilled ()) (snd (toggleDirect_start \<lparr>tr_exists = \<lambda>_. True, tr_text = \<lambda>k _. k\<rparr> ''users:update'' None
            \<lparr>ac_app = initial_app, ac_toaster = initial_toaster\<rparr>)))) [FireTimer 1, FireExit 1])). t_id t = 1"
proof -
  let ?tr = "\<lparr>tr_exists = \<lambda>_. True, tr_text = \<lambda>k _. k\<rparr>" and ?s = "\<lparr>ac_app = initial_app, ac_toaster = initial_toaster\<rparr>"
  have r: "ac_toaster ?s = toast_run []" by (simp add: toast_run_def)
  have l: "list_all timer_op [FireTimer 1, FireExit 1]" by simp
  have i: "fst (toggleDirect_start ?tr ''users:update'' None ?s) = 1"
    by (simp add: toggleDirect_start_def case_prod_beta create_queue(2) initial_toaster_def)
  from grant_toast_never_leaves [OF r l, of ?tr "''users:update''" None 0 "''a@x''" "''users''" "()"] i
  show ?thesis unfolding Let_def case_prod_beta by auto
qed

end
