(* ===== verification/Preferences.thy ===== *)
theory Preferences
  imports Prelude
begin

text \<open>
  The preferences kept in the browser (\<open>store/themeStore.ts\<close>, \<open>store/fontSizeStore.ts\<close>,
  \<open>store/languageStore.ts\<close>, \<open>store/appearanceStore.ts\<close>), what they do to the document, the
  favicon (\<open>theme/applyFaviconAndMetaColor.ts\<close>), the connectivity flag
  (\<open>store/networkStatusStore.ts\<close>) and the loading of languages. \<open>localStorage\<close> is a map from
  keys to strings. Each store is an instance of the interface \<open>persisted_pref\<close>: it owns one
  key, and reads back what it wrote.
\<close>

section \<open>The storage interface\<close>

type_synonym local_storage = "string \<Rightarrow> string option"

locale persisted_pref =
  fixes key :: string
    and ok :: "'v \<Rightarrow> bool"
    and load :: "local_storage \<Rightarrow> 'v"
    and save :: "'v \<Rightarrow> local_storage \<Rightarrow> local_storage"
  assumes load_save: "ok v \<Longrightarrow> load (save v st) = v"
    and save_frame: "k \<noteq> key \<Longrightarrow> save v st k = st k"
    and load_local: "st key = st' key \<Longrightarrow> load st = load st'"
begin

text \<open>Writes elsewhere are not seen.\<close>

lemma load_other:
  assumes "\<And>k. k = key \<Longrightarrow> st' k = st k" shows "load st' = load st"
  using assms by (intro load_local) simp

lemma last_write_wins: "ok w \<Longrightarrow> load (save w (save v st)) = w"
  by (rule load_save)

end

section \<open>themeStore.ts\<close>

datatype color_mode = Light | Dark

definition mode_name :: "color_mode \<Rightarrow> string" where
  "mode_name m = (case m of Light \<Rightarrow> ''light'' | Dark \<Rightarrow> ''dark'')"

definition COLOR_MODE_KEY :: string where "COLOR_MODE_KEY = ''color-mode''"

text \<open>\<open>prefers_dark\<close>: what \<open>matchMedia\<close> answers, \<open>None\<close> where it does not exist.\<close>

definition getInitialColorMode :: "bool option \<Rightarrow> local_storage \<Rightarrow> color_mode" where
  "getInitialColorMode prefers_dark st =
     (if st COLOR_MODE_KEY = Some ''light'' then Light
      else if st COLOR_MODE_KEY = Some ''dark'' then Dark
      else (case prefers_dark of None \<Rightarrow> Light | Some d \<Rightarrow> if d then Dark else Light))"

definition store_color_mode :: "color_mode \<Rightarrow> local_storage \<Rightarrow> local_storage" where
  "store_color_mode m st = st(COLOR_MODE_KEY \<mapsto> mode_name m)"

section \<open>fontSizeStore.ts\<close>

datatype font_size = Small | Medium | Large

definition FONT_SIZES :: "font_size list" where "FONT_SIZES = [Small, Medium, Large]"

definition FONT_SIZE_PERCENT :: "font_size \<Rightarrow> string" where
  "FONT_SIZE_PERCENT s = (case s of Small \<Rightarrow> ''87.5%'' | Medium \<Rightarrow> ''100%'' | Large \<Rightarrow> ''112.5%'')"

definition size_name :: "font_size \<Rightarrow> string" where
  "size_name s = (case s of Small \<Rightarrow> ''small'' | Medium \<Rightarrow> ''medium'' | Large \<Rightarrow> ''large'')"

definition FONT_SIZE_KEY :: string where "FONT_SIZE_KEY = ''font-size''"

definition getInitialFontSize :: "local_storage \<Rightarrow> font_size" where
  "getInitialFontSize st =
     (if st FONT_SIZE_KEY = Some ''small'' then Small
      else if st FONT_SIZE_KEY = Some ''medium'' then Medium
      else if st FONT_SIZE_KEY = Some ''large'' then Large else Medium)"

definition store_font_size :: "font_size \<Rightarrow> local_storage \<Rightarrow> local_storage" where
  "store_font_size s st = st(FONT_SIZE_KEY \<mapsto> size_name s)"

text \<open>\<open>FONT_SIZES.indexOf\<close>\<close>

fun index_of :: "'a \<Rightarrow> 'a list \<Rightarrow> nat" where
  "index_of x [] = 0"
| "index_of x (y # ys) = (if x = y then 0 else Suc (index_of x ys))"

definition increased :: "font_size \<Rightarrow> font_size" where
  "increased s = FONT_SIZES ! min (index_of s FONT_SIZES + 1) (length FONT_SIZES - 1)"

definition decreased :: "font_size \<Rightarrow> font_size" where
  "decreased s = FONT_SIZES ! (index_of s FONT_SIZES - 1)"

text \<open>Sizes in the order of \<open>FONT_SIZES\<close>.\<close>

instantiation font_size :: linorder
begin

definition less_eq_font_size :: "font_size \<Rightarrow> font_size \<Rightarrow> bool" where
  "less_eq_font_size a b \<longleftrightarrow> index_of a FONT_SIZES \<le> index_of b FONT_SIZES"

definition less_font_size :: "font_size \<Rightarrow> font_size \<Rightarrow> bool" where
  "less_font_size a b \<longleftrightarrow> index_of a FONT_SIZES < index_of b FONT_SIZES"

instance
proof
  fix a b c :: font_size
  show "a < b \<longleftrightarrow> a \<le> b \<and> \<not> b \<le> a" by (auto simp: less_eq_font_size_def less_font_size_def)
  show "a \<le> a" by (simp add: less_eq_font_size_def)
  show "a \<le> b \<Longrightarrow> b \<le> c \<Longrightarrow> a \<le> c" by (simp add: less_eq_font_size_def)
  show "a \<le> b \<Longrightarrow> b \<le> a \<Longrightarrow> a = b"
    by (cases a; cases b) (simp_all add: less_eq_font_size_def FONT_SIZES_def)
  show "a \<le> b \<or> b \<le> a" by (auto simp: less_eq_font_size_def)
qed

end

section \<open>languageStore.ts\<close>

datatype language = En | Hi | Mr | Gu

datatype language_mode = Plain language | Mixed language

definition lang_name :: "language \<Rightarrow> string" where
  "lang_name l = (case l of En \<Rightarrow> ''en'' | Hi \<Rightarrow> ''hi'' | Mr \<Rightarrow> ''mr'' | Gu \<Rightarrow> ''gu'')"

definition SUPPORTED_LANGUAGES :: "language list" where "SUPPORTED_LANGUAGES = [En, Hi, Mr, Gu]"

text \<open>The seven modes; English paired with itself is not one of them.\<close>

definition LANGUAGE_MODES :: "language_mode list" where
  "LANGUAGE_MODES = [Plain En, Plain Hi, Plain Mr, Plain Gu, Mixed Hi, Mixed Mr, Mixed Gu]"

definition language_mode_name :: "language_mode \<Rightarrow> string" where
  "language_mode_name m = (case m of Plain l \<Rightarrow> lang_name l | Mixed l \<Rightarrow> ''en+'' @ lang_name l)"

text \<open>The language of the chrome and of the page.\<close>

definition resolveLanguages :: "language_mode \<Rightarrow> language \<times> language" where
  "resolveLanguages m = (case m of Plain l \<Rightarrow> (l, l) | Mixed l \<Rightarrow> (En, l))"

definition LANGUAGE_KEY :: string where "LANGUAGE_KEY = ''language''"

definition stored_mode :: "string option \<Rightarrow> language_mode option" where
  "stored_mode value = (case value of None \<Rightarrow> None | Some s \<Rightarrow> find (\<lambda>m. language_mode_name m = s) LANGUAGE_MODES)"

definition getInitialMode :: "string \<Rightarrow> local_storage \<Rightarrow> language_mode" where
  "getInitialMode navigator_language st =
     (case stored_mode (st LANGUAGE_KEY) of
        Some m \<Rightarrow> m
      | None \<Rightarrow> (case find (\<lambda>l. lang_name l = slice 0 2 navigator_language) SUPPORTED_LANGUAGES of
            Some l \<Rightarrow> Plain l | None \<Rightarrow> Plain En))"

definition store_mode :: "language_mode \<Rightarrow> local_storage \<Rightarrow> local_storage" where
  "store_mode m st = st(LANGUAGE_KEY \<mapsto> language_mode_name m)"

section \<open>appearanceStore.ts, brandIcon.ts, applyFaviconAndMetaColor.ts\<close>

definition BRAND_KEY :: string where "BRAND_KEY = ''brand-color''"

definition readCached :: "local_storage \<Rightarrow> string option" where
  "readCached st = st BRAND_KEY"

definition writeCached :: "string option \<Rightarrow> local_storage \<Rightarrow> local_storage" where
  "writeCached hex st = (if truthy hex then st(BRAND_KEY \<mapsto> the hex) else st(BRAND_KEY := None))"

text \<open>The quotation mark of the SVG text.\<close>

definition dq :: string where "dq = [CHR 0x22]"

definition attr :: "string \<Rightarrow> string \<Rightarrow> string" where
  "attr name v = name @ ''='' @ dq @ v @ dq"

definition getBrandIconDataUri :: "string \<Rightarrow> string" where
  "getBrandIconDataUri hex =
     (let svg = ''<svg '' @ attr ''xmlns'' ''http://www.w3.org/2000/svg'' @ '' '' @ attr ''viewBox'' ''0 0 24 24'' @ '' '' @ attr ''fill'' ''none'' @ ''>''
        @ ''<rect '' @ attr ''width'' ''24'' @ '' '' @ attr ''height'' ''24'' @ '' '' @ attr ''rx'' ''5'' @ '' '' @ attr ''fill'' hex @ ''/>''
        @ ''<g '' @ attr ''stroke'' ''white'' @ '' '' @ attr ''stroke-width'' ''1.6'' @ '' '' @ attr ''stroke-linecap'' ''round'' @ '' ''
        @ attr ''stroke-linejoin'' ''round'' @ '' '' @ attr ''fill'' ''none'' @ ''>''
        @ ''<path '' @ attr ''d'' ''M7 19V11a5 5 0 0 1 10 0v8'' @ ''/>''
        @ ''<path '' @ attr ''d'' ''M12 19V6'' @ ''/>''
        @ ''<path '' @ attr ''d'' ''M6 19h12'' @ ''/>''
        @ ''</g>''
        @ ''<circle '' @ attr ''cx'' ''10.5'' @ '' '' @ attr ''cy'' ''14'' @ '' '' @ attr ''r'' ''.55'' @ '' '' @ attr ''fill'' ''white'' @ ''/>''
        @ ''<circle '' @ attr ''cx'' ''13.5'' @ '' '' @ attr ''cy'' ''14'' @ '' '' @ attr ''r'' ''.55'' @ '' '' @ attr ''fill'' ''white'' @ ''/>''
        @ ''</svg>''
      in ''data:image/svg+xml,'' @ encodeURIComponent svg)"

text \<open>The build's settings (\<open>core/settings.ts\<close>): \<open>env\<close> is what the build was given.\<close>

definition setting :: "string option \<Rightarrow> string option" where
  "setting env = (if truthy env then env else None)"

definition BRAND_COLOR :: "string option \<Rightarrow> string" where
  "BRAND_COLOR env = or_else env ''#b5533c''"

definition favicon_href :: "string option \<Rightarrow> string option \<Rightarrow> string" where
  "favicon_href app_favicon hex =
     nullish app_favicon (if truthy hex then getBrandIconDataUri (the hex) else ''/favicon.svg'')"

definition meta_color :: "string option \<Rightarrow> string option \<Rightarrow> string" where
  "meta_color brand_env hex = nullish hex (BRAND_COLOR brand_env)"

text \<open>\<open>currentBrandColor\<close> of \<open>theme/applyBrandCssVars.ts\<close>: the user's pick, the fork's, the default.\<close>

definition currentBrandColor :: "string option \<Rightarrow> string option \<Rightarrow> string option \<Rightarrow> string" where
  "currentBrandColor brand_env override pick = nullish pick (nullish override (BRAND_COLOR brand_env))"

section \<open>The stores together, with the document\<close>

record prefs =
  p_storage :: local_storage
  p_colorMode :: color_mode
  p_fontSize :: font_size
  p_mode :: language_mode
  p_brandColor :: "string option"
  d_dark :: bool
  d_colorScheme :: string
  d_fontSize :: string
  d_lang :: string
  d_favicon :: string
  d_meta :: string

text \<open>What the browser and the build supply.\<close>

record browser =
  b_prefers_dark :: "bool option"
  b_language :: string
  b_favicon :: "string option"
  b_brand :: "string option"

definition applyColorModeClass :: "color_mode \<Rightarrow> prefs \<Rightarrow> prefs" where
  "applyColorModeClass m p = p\<lparr>d_dark := (m = Dark), d_colorScheme := mode_name m\<rparr>"
definition applyFontSize :: "font_size \<Rightarrow> prefs \<Rightarrow> prefs" where
  "applyFontSize s p = p\<lparr>d_fontSize := FONT_SIZE_PERCENT s\<rparr>"
definition applyLang :: "language_mode \<Rightarrow> prefs \<Rightarrow> prefs" where
  "applyLang m p = p\<lparr>d_lang := lang_name (snd (resolveLanguages m))\<rparr>"
definition applyFaviconAndMetaColor :: "browser \<Rightarrow> string option \<Rightarrow> prefs \<Rightarrow> prefs" where
  "applyFaviconAndMetaColor b hex p = p\<lparr>d_favicon := favicon_href (setting (b_favicon b)) hex, d_meta := meta_color (b_brand b) hex\<rparr>"

definition setColorMode :: "color_mode \<Rightarrow> prefs \<Rightarrow> prefs" where
  "setColorMode m p = (applyColorModeClass m (p\<lparr>p_storage := store_color_mode m (p_storage p)\<rparr>))\<lparr>p_colorMode := m\<rparr>"

definition toggleColorMode :: "prefs \<Rightarrow> prefs" where
  "toggleColorMode p = (let next = (if p_colorMode p = Dark then Light else Dark) in
     (applyColorModeClass next (p\<lparr>p_storage := store_color_mode next (p_storage p)\<rparr>))\<lparr>p_colorMode := next\<rparr>)"

definition setFontSize :: "font_size \<Rightarrow> prefs \<Rightarrow> prefs" where
  "setFontSize s p = (applyFontSize s (p\<lparr>p_storage := store_font_size s (p_storage p)\<rparr>))\<lparr>p_fontSize := s\<rparr>"

definition increaseFontSize :: "prefs \<Rightarrow> prefs" where
  "increaseFontSize p = setFontSize (increased (p_fontSize p)) p"

definition decreaseFontSize :: "prefs \<Rightarrow> prefs" where
  "decreaseFontSize p = setFontSize (decreased (p_fontSize p)) p"

definition setMode :: "language_mode \<Rightarrow> prefs \<Rightarrow> prefs" where
  "setMode m p = (applyLang m (p\<lparr>p_storage := store_mode m (p_storage p)\<rparr>))\<lparr>p_mode := m\<rparr>"

definition setBrandColor :: "browser \<Rightarrow> string option \<Rightarrow> prefs \<Rightarrow> prefs" where
  "setBrandColor b hex p =
     (applyFaviconAndMetaColor b hex (p\<lparr>p_storage := writeCached hex (p_storage p)\<rparr>))\<lparr>p_brandColor := hex\<rparr>"

text \<open>Loading the page: every store reads its key and applies it.\<close>

definition boot :: "browser \<Rightarrow> local_storage \<Rightarrow> prefs" where
  "boot b st =
     (let m = getInitialColorMode (b_prefers_dark b) st; s = getInitialFontSize st;
          l = getInitialMode (b_language b) st; c = readCached st in
      \<lparr>p_storage = st, p_colorMode = m, p_fontSize = s, p_mode = l, p_brandColor = c,
       d_dark = (m = Dark), d_colorScheme = mode_name m, d_fontSize = FONT_SIZE_PERCENT s,
       d_lang = lang_name (snd (resolveLanguages l)),
       d_favicon = favicon_href (setting (b_favicon b)) c, d_meta = meta_color (b_brand b) c\<rparr>)"

datatype pref_op = SetColorMode color_mode | ToggleColorMode | SetFontSize font_size | IncreaseFontSize
  | DecreaseFontSize | SetMode language_mode | SetBrandColor "string option"

fun pref_step :: "browser \<Rightarrow> pref_op \<Rightarrow> prefs \<Rightarrow> prefs" where
  "pref_step b (SetColorMode m) p = setColorMode m p"
| "pref_step b ToggleColorMode p = toggleColorMode p"
| "pref_step b (SetFontSize s) p = setFontSize s p"
| "pref_step b IncreaseFontSize p = increaseFontSize p"
| "pref_step b DecreaseFontSize p = decreaseFontSize p"
| "pref_step b (SetMode m) p = setMode m p"
| "pref_step b (SetBrandColor hex) p = setBrandColor b hex p"

definition pref_run :: "browser \<Rightarrow> pref_op list \<Rightarrow> prefs \<Rightarrow> prefs" where
  "pref_run b ops p = foldl (\<lambda>p op. pref_step b op p) p ops"

section \<open>The stores are persisted preferences\<close>

lemmas pref_keys = COLOR_MODE_KEY_def FONT_SIZE_KEY_def LANGUAGE_KEY_def BRAND_KEY_def

interpretation theme: persisted_pref COLOR_MODE_KEY "\<lambda>_. True" "getInitialColorMode d" store_color_mode for d
  by unfold_locales (auto simp: getInitialColorMode_def store_color_mode_def mode_name_def split: color_mode.splits)

interpretation font: persisted_pref FONT_SIZE_KEY "\<lambda>_. True" getInitialFontSize store_font_size
  by unfold_locales (auto simp: getInitialFontSize_def store_font_size_def size_name_def split: font_size.splits)

lemma stored_mode_name: "m \<in> set LANGUAGE_MODES \<Longrightarrow> stored_mode (Some (language_mode_name m)) = Some m"
proof -
  have "list_all (\<lambda>m. stored_mode (Some (language_mode_name m)) = Some m) LANGUAGE_MODES"
    by (simp add: LANGUAGE_MODES_def stored_mode_def language_mode_name_def lang_name_def)
  then show "m \<in> set LANGUAGE_MODES \<Longrightarrow> ?thesis" by (simp add: list_all_iff)
qed

interpretation lang: persisted_pref LANGUAGE_KEY "\<lambda>m. m \<in> set LANGUAGE_MODES" "getInitialMode n" store_mode for n
  by unfold_locales (auto simp: getInitialMode_def store_mode_def stored_mode_name)

interpretation brand: persisted_pref BRAND_KEY "\<lambda>hex. hex \<noteq> Some []" readCached writeCached
  by unfold_locales (auto simp: readCached_def writeCached_def truthy_def split: option.splits)

text \<open>Each store leaves the keys of the others alone.\<close>

lemma other_keys:
  "getInitialFontSize (store_color_mode m st) = getInitialFontSize st"
  "getInitialMode n (store_color_mode m st) = getInitialMode n st"
  "readCached (store_color_mode m st) = readCached st"
  "getInitialColorMode d (store_font_size s st) = getInitialColorMode d st"
  "getInitialMode n (store_font_size s st) = getInitialMode n st"
  "readCached (store_font_size s st) = readCached st"
  "getInitialColorMode d (store_mode l st) = getInitialColorMode d st"
  "getInitialFontSize (store_mode l st) = getInitialFontSize st"
  "readCached (store_mode l st) = readCached st"
  "getInitialColorMode d (writeCached hex st) = getInitialColorMode d st"
  "getInitialFontSize (writeCached hex st) = getInitialFontSize st"
  "getInitialMode n (writeCached hex st) = getInitialMode n st"
  by (rule theme.load_other font.load_other lang.load_other brand.load_other;
      simp add: theme.save_frame font.save_frame lang.save_frame brand.save_frame pref_keys)+

section \<open>A reload changes nothing\<close>

definition ok_op :: "pref_op \<Rightarrow> bool" where
  "ok_op op = (case op of SetMode m \<Rightarrow> m \<in> set LANGUAGE_MODES | SetBrandColor hex \<Rightarrow> hex \<noteq> Some [] | _ \<Rightarrow> True)"

lemma boot_storage: "p_storage (boot b st) = st"
  by (simp add: boot_def Let_def)

text \<open>The states a load of the page can show: those their own storage determines.\<close>

lemma settled_fields:
  "boot b (p_storage p) = p \<longleftrightarrow>
     p_colorMode p = getInitialColorMode (b_prefers_dark b) (p_storage p) \<and> p_fontSize p = getInitialFontSize (p_storage p) \<and>
     p_mode p = getInitialMode (b_language b) (p_storage p) \<and> p_brandColor p = readCached (p_storage p) \<and>
     d_dark p = (p_colorMode p = Dark) \<and> d_colorScheme p = mode_name (p_colorMode p) \<and>
     d_fontSize p = FONT_SIZE_PERCENT (p_fontSize p) \<and> d_lang p = lang_name (snd (resolveLanguages (p_mode p))) \<and>
     d_favicon p = favicon_href (setting (b_favicon b)) (p_brandColor p) \<and> d_meta p = meta_color (b_brand b) (p_brandColor p)"
  by (cases p) (auto simp: boot_def Let_def)

lemma setColorMode_settled: "boot b (p_storage p) = p \<Longrightarrow> boot b (p_storage (setColorMode m p)) = setColorMode m p"
  unfolding settled_fields by (simp add: setColorMode_def applyColorModeClass_def other_keys theme.load_save)

lemma setFontSize_settled: "boot b (p_storage p) = p \<Longrightarrow> boot b (p_storage (setFontSize s p)) = setFontSize s p"
  unfolding settled_fields by (simp add: setFontSize_def applyFontSize_def other_keys font.load_save)

lemma setMode_settled:
  "boot b (p_storage p) = p \<Longrightarrow> l \<in> set LANGUAGE_MODES \<Longrightarrow> boot b (p_storage (setMode l p)) = setMode l p"
  unfolding settled_fields by (simp add: setMode_def applyLang_def other_keys lang.load_save)

lemma setBrandColor_settled:
  "boot b (p_storage p) = p \<Longrightarrow> hex \<noteq> Some [] \<Longrightarrow> boot b (p_storage (setBrandColor b hex p)) = setBrandColor b hex p"
  unfolding settled_fields
  by (simp add: setBrandColor_def applyFaviconAndMetaColor_def other_keys brand.load_save)

lemma toggle_is_set: "toggleColorMode p = setColorMode (if p_colorMode p = Dark then Light else Dark) p"
  by (simp add: toggleColorMode_def setColorMode_def Let_def)

lemma pref_step_settled: "boot b (p_storage p) = p \<Longrightarrow> ok_op op \<Longrightarrow> boot b (p_storage (pref_step b op p)) = pref_step b op p"
  by (cases op) (simp_all add: ok_op_def setColorMode_settled setFontSize_settled setMode_settled setBrandColor_settled
      toggle_is_set increaseFontSize_def decreaseFontSize_def)

lemma pref_run_settled:
  "boot b (p_storage p) = p \<Longrightarrow> list_all ok_op ops \<Longrightarrow> boot b (p_storage (pref_run b ops p)) = pref_run b ops p"
  by (induction ops arbitrary: p) (simp_all add: pref_run_def pref_step_settled)

section \<open>The font size steps\<close>

lemma increased_le: "s \<le> increased s" "increased s \<noteq> s \<or> s = Large" "t \<le> Large"
  by (cases s; cases t; simp add: increased_def less_eq_font_size_def FONT_SIZES_def)+

lemma decreased_le: "decreased s \<le> s" "decreased s \<noteq> s \<or> s = Small" "Small \<le> t"
  by (cases s; cases t; simp add: decreased_def less_eq_font_size_def FONT_SIZES_def)+

section \<open>networkStatusStore.ts\<close>

text \<open>\<open>onLine\<close> is \<open>None\<close> where the browser has no such flag.\<close>

definition getInitialIsOnline :: "bool option \<Rightarrow> bool" where
  "getInitialIsOnline onLine = nullish onLine True"

datatype network_event = WentOnline | WentOffline

definition network_step :: "network_event \<Rightarrow> bool \<Rightarrow> bool" where
  "network_step e isOnline = (case e of WentOnline \<Rightarrow> True | WentOffline \<Rightarrow> False)"

section \<open>Loading a language\<close>

text \<open>
  \<open>applyMode\<close> numbers its loads; a load that settles changes the language only if no newer one
  was started. A load can also fail (a chunk that cannot be fetched), which changes nothing.
  \<open>changeLanguage\<close> takes effect when it is called.
\<close>

record loader =
  l_version :: nat
  l_mode :: language_mode
  l_pending :: "(nat \<times> language) list"
  l_failed :: "nat list"
  l_active :: language
  l_revision :: nat

definition applyMode :: "language_mode \<Rightarrow> loader \<Rightarrow> loader" where
  "applyMode m s = (let v = Suc (l_version s) in
     s\<lparr>l_mode := m, l_version := v, l_pending := l_pending s @ [(v, snd (resolveLanguages m))]\<rparr>)"

definition load_settles :: "nat \<times> language \<Rightarrow> loader \<Rightarrow> loader" where
  "load_settles vl s = (let s1 = s\<lparr>l_pending := remove1 vl (l_pending s)\<rparr> in
     if fst vl = l_version s then s1\<lparr>l_active := snd vl, l_revision := Suc (l_revision s)\<rparr> else s1)"

definition load_fails :: "nat \<times> language \<Rightarrow> loader \<Rightarrow> loader" where
  "load_fails vl s = s\<lparr>l_pending := remove1 vl (l_pending s), l_failed := fst vl # l_failed s\<rparr>"

inductive load_step :: "loader \<Rightarrow> loader \<Rightarrow> bool" where
  choose: "load_step s (applyMode m s)"
| settles: "vl \<in> set (l_pending s) \<Longrightarrow> load_step s (load_settles vl s)"
| fails: "vl \<in> set (l_pending s) \<Longrightarrow> load_step s (load_fails vl s)"

inductive_cases load_stepE: "load_step s s'"

definition load_start :: "language_mode \<Rightarrow> loader" where
  "load_start m = applyMode m \<lparr>l_version = 0, l_mode = m, l_pending = [], l_failed = [], l_active = En, l_revision = 0\<rparr>"

definition loader_reachable :: "language_mode \<Rightarrow> loader \<Rightarrow> bool" where
  "loader_reachable m s \<longleftrightarrow> load_step\<^sup>*\<^sup>* (load_start m) s"

definition loader_inv :: "loader \<Rightarrow> bool" where
  "loader_inv s \<longleftrightarrow> distinct (map fst (l_pending s)) \<and> (\<forall>v\<in>set (map fst (l_pending s)) \<union> set (l_failed s). v \<le> l_version s) \<and>
     (\<forall>l. (l_version s, l) \<in> set (l_pending s) \<longrightarrow> l = snd (resolveLanguages (l_mode s))) \<and>
     (l_version s \<notin> set (map fst (l_pending s)) \<and> l_version s \<notin> set (l_failed s) \<longrightarrow>
        l_active s = snd (resolveLanguages (l_mode s)))"

lemma loader_invD:
  assumes "loader_inv s"
  shows "distinct (map fst (l_pending s))" "(v, l) \<in> set (l_pending s) \<Longrightarrow> v \<le> l_version s"
    "v \<in> set (l_failed s) \<Longrightarrow> v \<le> l_version s"
    "(l_version s, l) \<in> set (l_pending s) \<Longrightarrow> l = snd (resolveLanguages (l_mode s))"
    "l_version s \<notin> fst ` set (l_pending s) \<Longrightarrow> l_version s \<notin> set (l_failed s) \<Longrightarrow>
       l_active s = snd (resolveLanguages (l_mode s))"
proof -
  have all: "\<forall>p\<in>set (l_pending s). fst p \<le> l_version s" using assms by (simp add: loader_inv_def)
  show "distinct (map fst (l_pending s))" using assms by (simp add: loader_inv_def)
  show "(v, l) \<in> set (l_pending s) \<Longrightarrow> v \<le> l_version s" using all by fastforce
  show "v \<in> set (l_failed s) \<Longrightarrow> v \<le> l_version s" using assms by (simp add: loader_inv_def)
  show "(l_version s, l) \<in> set (l_pending s) \<Longrightarrow> l = snd (resolveLanguages (l_mode s))"
    using assms by (simp add: loader_inv_def)
  show "l_version s \<notin> fst ` set (l_pending s) \<Longrightarrow> l_version s \<notin> set (l_failed s) \<Longrightarrow>
       l_active s = snd (resolveLanguages (l_mode s))"
    using assms by (simp add: loader_inv_def)
qed

lemma loader_invI:
  assumes "distinct (map fst (l_pending s))" "\<And>v l. (v, l) \<in> set (l_pending s) \<Longrightarrow> v \<le> l_version s"
    and "\<And>v. v \<in> set (l_failed s) \<Longrightarrow> v \<le> l_version s"
    and "\<And>l. (l_version s, l) \<in> set (l_pending s) \<Longrightarrow> l = snd (resolveLanguages (l_mode s))"
    and "l_version s \<notin> fst ` set (l_pending s) \<Longrightarrow> l_version s \<notin> set (l_failed s) \<Longrightarrow>
       l_active s = snd (resolveLanguages (l_mode s))"
  shows "loader_inv s"
  using assms by (auto simp: loader_inv_def)

lemma applyMode_inv:
  assumes "loader_inv s" shows "loader_inv (applyMode m s)"
proof (rule loader_invI)
  note inv = loader_invD [OF assms]
  have fresh: "(Suc (l_version s), l) \<notin> set (l_pending s)" for l using inv(2) by fastforce
  show "distinct (map fst (l_pending (applyMode m s)))" using inv(1) fresh by (auto simp: applyMode_def Let_def)
  show "(v, l) \<in> set (l_pending (applyMode m s)) \<Longrightarrow> v \<le> l_version (applyMode m s)" for v l
    using inv(2) by (auto simp: applyMode_def Let_def intro: le_SucI)
  show "v \<in> set (l_failed (applyMode m s)) \<Longrightarrow> v \<le> l_version (applyMode m s)" for v
    using inv(3) by (auto simp: applyMode_def Let_def intro: le_SucI)
  show "(l_version (applyMode m s), l) \<in> set (l_pending (applyMode m s)) \<Longrightarrow>
      l = snd (resolveLanguages (l_mode (applyMode m s)))" for l
    using fresh by (auto simp: applyMode_def Let_def)
qed (simp add: applyMode_def Let_def)

text \<open>A load leaves the pending list, whether it arrived or failed.\<close>

lemma pending_removed:
  assumes "loader_inv s" "(v, l) \<in> set (l_pending s)"
  shows "distinct (map fst (remove1 (v, l) (l_pending s)))"
    "(w, k) \<in> set (remove1 (v, l) (l_pending s)) \<longleftrightarrow> (w, k) \<in> set (l_pending s) \<and> w \<noteq> v"
    "w \<in> fst ` set (remove1 (v, l) (l_pending s)) \<longleftrightarrow> w \<in> fst ` set (l_pending s) \<and> w \<noteq> v"
proof -
  have d: "distinct (map fst (l_pending s))" using assms(1) by (rule loader_invD)
  have "distinct (map fst xs) \<Longrightarrow> (v, l) \<in> set xs \<Longrightarrow> remove1 (v, l) xs = filter (\<lambda>p. fst p \<noteq> v) xs" for xs :: "(nat \<times> language) list"
  proof (induction xs)
    case (Cons p xs)
    have "v \<notin> fst ` set xs \<Longrightarrow> filter (\<lambda>p. fst p \<noteq> v) xs = xs" by (rule filter_True) force
    with Cons show ?case by (cases p) force
  qed simp
  from this [OF d assms(2)] have r: "remove1 (v, l) (l_pending s) = filter (\<lambda>p. fst p \<noteq> v) (l_pending s)" .
  show "distinct (map fst (remove1 (v, l) (l_pending s)))" unfolding r by (rule distinct_map_filter [OF d])
  show "(w, k) \<in> set (remove1 (v, l) (l_pending s)) \<longleftrightarrow> (w, k) \<in> set (l_pending s) \<and> w \<noteq> v" by (simp add: r)
  show "w \<in> fst ` set (remove1 (v, l) (l_pending s)) \<longleftrightarrow> w \<in> fst ` set (l_pending s) \<and> w \<noteq> v" unfolding r by force
qed

lemma load_settles_inv:
  assumes "loader_inv s" "(v, l) \<in> set (l_pending s)" shows "loader_inv (load_settles (v, l) s)"
proof -
  note inv = loader_invD [OF assms(1)] and rem = pending_removed [OF assms]
  have fields: "l_pending (load_settles (v, l) s) = remove1 (v, l) (l_pending s)" "l_version (load_settles (v, l) s) = l_version s"
    "l_mode (load_settles (v, l) s) = l_mode s" "l_failed (load_settles (v, l) s) = l_failed s"
    "l_active (load_settles (v, l) s) = (if v = l_version s then l else l_active s)"
    by (simp_all add: load_settles_def Let_def)
  have "v = l_version s \<Longrightarrow> l = snd (resolveLanguages (l_mode s))" using inv(4) assms(2) by simp
  with inv rem show ?thesis by (intro loader_invI) (auto simp: fields)
qed

lemma load_fails_inv:
  assumes "loader_inv s" "(v, l) \<in> set (l_pending s)" shows "loader_inv (load_fails (v, l) s)"
proof -
  note inv = loader_invD [OF assms(1)] and rem = pending_removed [OF assms]
  have fields: "l_pending (load_fails (v, l) s) = remove1 (v, l) (l_pending s)" "l_version (load_fails (v, l) s) = l_version s"
    "l_mode (load_fails (v, l) s) = l_mode s" "l_failed (load_fails (v, l) s) = v # l_failed s"
    "l_active (load_fails (v, l) s) = l_active s"
    by (simp_all add: load_fails_def)
  from inv rem inv(2) [OF assms(2)] show ?thesis by (intro loader_invI) (auto simp: fields)
qed

lemma load_step_inv: "load_step s s' \<Longrightarrow> loader_inv s \<Longrightarrow> loader_inv s'"
  by (erule load_stepE) (auto intro: applyMode_inv load_settles_inv load_fails_inv)

lemma loader_start_inv: "loader_inv (load_start m)"
  by (simp add: load_start_def applyMode_def Let_def loader_inv_def)

lemma loader_reachable_inv: "loader_reachable m s \<Longrightarrow> loader_inv s"
  unfolding loader_reachable_def
  by (induction rule: rtranclp_induct) (auto intro: loader_start_inv load_step_inv)

section \<open>Properties\<close>

text \<open>C36: Preferences survive a reload. Whatever sequence of choices is made (colour mode, text size,
  language, brand colour, in any order), loading the page again from the storage they left gives
  exactly the same stores and the same document; no store disturbs the key of another.\<close>

theorem preferences_survive_reload:
  assumes "list_all ok_op ops"
  shows "boot b (p_storage (pref_run b ops (boot b st))) = pref_run b ops (boot b st)"
  using pref_run_settled [OF _ assms, of b "boot b st"] by (simp add: boot_storage)

lemma preferences_survive_reload_witness:
  "let b = \<lparr>b_prefers_dark = Some True, b_language = ''en'', b_favicon = None, b_brand = None\<rparr> in
     p_fontSize (boot b (p_storage (pref_run b [SetMode (Mixed Hi), IncreaseFontSize] (boot b Map.empty)))) = Large"
proof -
  let ?b = "\<lparr>b_prefers_dark = Some True, b_language = ''en'', b_favicon = None, b_brand = None\<rparr>"
  have "list_all ok_op [SetMode (Mixed Hi), IncreaseFontSize]" by (simp add: ok_op_def LANGUAGE_MODES_def)
  from preferences_survive_reload [OF this, of ?b Map.empty] show ?thesis unfolding Let_def
    by (simp add: pref_run_def increaseFontSize_def setFontSize_def applyFontSize_def setMode_def applyLang_def boot_def Let_def
        getInitialFontSize_def increased_def FONT_SIZES_def)
qed

text \<open>C37: The page ends up in the language chosen last. However many languages are picked, and in
  whatever order their packs arrive or fail to, once the load of the last choice has arrived the
  language in effect is the page language of that choice, and a pack that arrives late never
  replaces it.\<close>

theorem last_language_wins:
  assumes "loader_reachable m0 s" "l_version s \<notin> set (l_failed s)"
  shows "(l_version s \<notin> fst ` set (l_pending s) \<longrightarrow> l_active s = snd (resolveLanguages (l_mode s))) \<and>
     (vl \<in> set (l_pending s) \<longrightarrow> l_version s \<notin> fst ` set (l_pending s) \<longrightarrow> l_active (load_settles vl s) = l_active s) \<and>
     (vl \<in> set (l_pending s) \<longrightarrow> fst vl = l_version s \<longrightarrow> l_active (load_settles vl s) = snd (resolveLanguages (l_mode s)))"
proof -
  have inv: "loader_inv s" using assms(1) by (rule loader_reachable_inv)
  then have "vl \<in> set (l_pending s) \<Longrightarrow> fst vl = l_version s \<Longrightarrow> snd vl = snd (resolveLanguages (l_mode s))"
    unfolding loader_inv_def by (metis prod.collapse)
  with inv assms(2) show ?thesis by (auto simp: loader_inv_def load_settles_def Let_def image_iff)
qed

lemma last_language_wins_witness:
  "let s = load_settles (2, Gu) (applyMode (Plain Gu) (load_start (Plain Hi))) in l_active s = Gu \<and> (1, Hi) \<in> set (l_pending s)"
proof -
  let ?s1 = "applyMode (Plain Gu) (load_start (Plain Hi))" and ?s2 = "load_settles (2, Gu) (applyMode (Plain Gu) (load_start (Plain Hi)))"
  have p: "l_pending ?s1 = [(1, Hi), (2, Gu)]" "l_version ?s1 = 2"
    by (simp_all add: load_start_def applyMode_def Let_def resolveLanguages_def)
  have "load_step (load_start (Plain Hi)) ?s1" by (rule choose)
  moreover have "load_step ?s1 ?s2" by (rule settles) (simp add: p)
  ultimately have r: "loader_reachable (Plain Hi) ?s2" unfolding loader_reachable_def
    by (blast intro: rtranclp.rtrancl_refl rtranclp.rtrancl_into_rtrancl)
  have p2: "l_pending ?s2 = [(1, Hi)]" "l_version ?s2 = 2" "l_failed ?s2 = []" "l_mode ?s2 = Plain Gu"
    using p by (simp_all add: load_settles_def Let_def) (simp_all add: load_start_def applyMode_def Let_def)
  have "l_version ?s2 \<notin> set (l_failed ?s2)" by (simp add: p2)
  note wins = last_language_wins [OF r this, of "(1, Hi)", THEN conjunct1]
  have "l_version ?s2 \<notin> fst ` set (l_pending ?s2)" unfolding p2 by simp
  with wins have "l_active ?s2 = snd (resolveLanguages (Plain Gu))" unfolding p2 by blast
  then show ?thesis by (simp add: p2 resolveLanguages_def Let_def)
qed

end
