(* ===== verification/Navigation.thy ===== *)
theory Navigation
  imports Queries
begin

text \<open>
  The pages of the application and the ways to reach them: \<open>app/App.tsx\<close> (the routes and their
  permissions, the shortcut that opens the palette), \<open>layout/app_layout/navItems.ts\<close>,
  \<open>Sidebar.tsx\<close> (merging and gating of links) and \<open>routePrefetch.ts\<close>. Icons are the names of the
  components.
\<close>

section \<open>The sidebar's items\<close>

record nav_item =
  nav_label :: string
  nav_to :: string
  nav_permission :: "action_spec option"
  nav_order :: "int option"
  nav_icon :: "string option"

definition nav :: "string \<Rightarrow> string \<Rightarrow> action_spec option \<Rightarrow> int \<Rightarrow> string \<Rightarrow> nav_item" where
  "nav label to perm order icon =
     \<lparr>nav_label = label, nav_to = to, nav_permission = perm, nav_order = Some order, nav_icon = Some icon\<rparr>"

definition NAV_ITEMS :: "nav_item list" where
  "NAV_ITEMS =
     [nav ''layout:nav.dashboard'' ''/dashboard'' None 10 ''LayoutDashboard'',
      nav ''layout:nav.users'' ''/users'' (Some (OneAction ''users:list_all'')) 20 ''Users'',
      nav ''layout:nav.policies'' ''/policies'' (Some (AnyOf [''policies:read'', ''policies:create''])) 30 ''ShieldCheck'',
      nav ''layout:nav.permissions'' ''/permissions'' (Some (OneAction ''permissions:read'')) 32 ''KeyRound'',
      nav ''layout:nav.rateLimits'' ''/rate-limits'' (Some (OneAction ''rate_limits:read'')) 35 ''Gauge'',
      nav ''layout:nav.auditLog'' ''/audit-log'' None 40 ''ScrollText'',
      nav ''layout:nav.accountSettings'' ''/account-settings'' None 50 ''Settings'']"

text \<open>
  \<open>(a.order ?? Infinity) - (b.order ?? Infinity)\<close>: two missing orders give not-a-number, which
  \<open>sort\<close> takes for zero.
\<close>

definition order_cmp :: "nav_item comparator" where
  "order_cmp a b =
     (case (nav_order a, nav_order b) of
        (Some x, Some y) \<Rightarrow> x - y
      | (Some _, None) \<Rightarrow> -1
      | (None, Some _) \<Rightarrow> 1
      | (None, None) \<Rightarrow> 0)"

definition sidebar_items :: "nav_item list option \<Rightarrow> nav_item list" where
  "sidebar_items extra =
     (case extra of None \<Rightarrow> NAV_ITEMS
      | Some xs \<Rightarrow> if xs = [] then NAV_ITEMS else js_sort order_cmp (NAV_ITEMS @ xs))"

definition link_shown :: "auth_state \<Rightarrow> nav_item \<Rightarrow> bool" where
  "link_shown s item =
     (if no_permission_needed (nav_permission item) then True
      else ifcan_view s (the (nav_permission item)) = GateChildren)"

definition sidebar_links :: "auth_state \<Rightarrow> nav_item list option \<Rightarrow> nav_item list" where
  "sidebar_links s extra = filter (link_shown s) (sidebar_items extra)"

section \<open>The routes\<close>

datatype route = Protected "action_spec option" | Public

definition APP_ROUTES :: "(string \<times> route) list" where
  "APP_ROUTES =
     [(''/'', Public), (''/dashboard'', Protected None),
      (''/users'', Protected (Some (OneAction ''users:list_all''))),
      (''/policies'', Protected (Some (AnyOf [''policies:read'', ''policies:create'']))),
      (''/permissions'', Protected (Some (OneAction ''permissions:read''))),
      (''/rate-limits'', Protected (Some (OneAction ''rate_limits:read''))),
      (''/audit-log'', Protected None), (''/account-settings'', Protected None),
      (''/login'', Public), (''/signup'', Public), (''/verify-account'', Public),
      (''/password-reset-request'', Public), (''/reset-password'', Public), (''/confirm-delete'', Public),
      (''/privacy'', Public), (''/terms'', Public), (''/not-authorized'', Public)]"

text \<open>What a path that was just navigated to shows: a page, or a redirect of the protected route.\<close>

datatype page_view = NothingYet | Page string | Redirect route_view | NotFound

definition open_path :: "auth_state \<Rightarrow> string \<Rightarrow> page_view" where
  "open_path s path =
     (if isAuthenticated s = None then NothingYet
      else case map_of APP_ROUTES path of
        None \<Rightarrow> NotFound
      | Some Public \<Rightarrow> Page path
      | Some (Protected permission) \<Rightarrow>
          (let v = snd (protected_route permission s (route_mount permission s)) in
           if v = RouteChildren then Page path else Redirect v))"

text \<open>The path of a destination, without its parameters and its fragment.\<close>

definition path_of :: "string \<Rightarrow> string" where
  "path_of to = takeWhile (\<lambda>c. c \<noteq> CHR ''?'' \<and> c \<noteq> CHR ''#'') to"

definition opens :: "auth_state \<Rightarrow> string \<Rightarrow> bool" where
  "opens s to = (open_path s (path_of to) = Page (path_of to))"

text \<open>The global shortcut of \<open>App.tsx\<close>; \<open>key\<close> is compared in lower case.\<close>

definition palette_shortcut :: "auth_state \<Rightarrow> bool \<Rightarrow> bool \<Rightarrow> string \<Rightarrow> bool \<Rightarrow> bool" where
  "palette_shortcut s metaKey ctrlKey key isOpen =
     (if isAuthenticated s \<noteq> Some True then isOpen
      else if (metaKey \<or> ctrlKey) \<and> to_lower key = ''k'' then \<not> isOpen else isOpen)"

section \<open>Prefetching\<close>

definition ROUTE_PREFETCH :: "string list" where
  "ROUTE_PREFETCH = [''/dashboard'', ''/users'', ''/policies'', ''/audit-log'', ''/account-settings'']"

record prefetcher =
  requested :: "string list"
  started :: "string list"

definition prefetchRoute :: "string \<Rightarrow> prefetcher \<Rightarrow> prefetcher" where
  "prefetchRoute to p =
     (if to \<in> set (requested p) then p
      else if to \<notin> set ROUTE_PREFETCH then p
      else p\<lparr>requested := set_add to (requested p), started := started p @ [to]\<rparr>)"

definition prefetch_failed :: "string \<Rightarrow> prefetcher \<Rightarrow> prefetcher" where
  "prefetch_failed to p = p\<lparr>requested := set_delete to (requested p)\<rparr>"

text \<open>Hovering again loads nothing; a failed load can be retried.\<close>

lemma prefetch_twice: "prefetchRoute to (prefetchRoute to p) = prefetchRoute to p"
  by (simp add: prefetchRoute_def)

lemma prefetch_retry:
  assumes "to \<in> set ROUTE_PREFETCH" "distinct (requested p)"
  shows "started (prefetchRoute to (prefetch_failed to (prefetchRoute to p))) = started (prefetchRoute to p) @ [to]"
  using assms by (simp add: prefetchRoute_def prefetch_failed_def)

section \<open>Lemmas\<close>

lemma order_comparator: "js_comparator order_cmp"
  by unfold_locales (auto simp: order_cmp_def sgn_if split: option.splits)

interpretation order: js_comparator order_cmp
  by (rule order_comparator)

lemma path_of_literal [simp]: "path_of (p @ CHR ''?'' # q) = path_of p"
  by (induction p) (auto simp: path_of_def)

lemma open_public: "isAuthenticated s \<noteq> None \<Longrightarrow> map_of APP_ROUTES path = Some Public \<Longrightarrow> open_path s path = Page path"
  by (simp add: open_path_def)

lemma route_first_render: "snd (protected_route permission s (route_mount permission s)) = RouteChildren \<longleftrightarrow> route_allowed permission s"
  by (auto simp: protected_route_def route_adjust_def route_mount_def Let_def route_allowed_def)

lemma open_protected:
  assumes "map_of APP_ROUTES path = Some (Protected permission)"
  shows "open_path s path = Page path \<longleftrightarrow> route_allowed permission s"
  using assms route_first_render [of permission s]
  by (auto simp: open_path_def Let_def route_allowed_def)

lemma link_shown_iff: "isAuthenticated s = Some True \<Longrightarrow> link_shown s item \<longleftrightarrow> route_allowed (nav_permission item) s"
  by (auto simp: link_shown_def route_allowed_def ifcan_view_def authorized_view_def useCan_def Let_def)

lemma nav_routes_all: "list_all (\<lambda>item. map_of APP_ROUTES (path_of (nav_to item)) = Some (Protected (nav_permission item))) NAV_ITEMS"
  by code_simp

lemma nav_routes: "item \<in> set NAV_ITEMS \<Longrightarrow> map_of APP_ROUTES (path_of (nav_to item)) = Some (Protected (nav_permission item))"
  using nav_routes_all by (simp add: list_all_iff)

lemma nav_items_sorted: "sorted_wrt (\<lambda>a b. order_cmp a b \<le> 0) NAV_ITEMS"
  by (simp add: NAV_ITEMS_def nav_def order_cmp_def)

text \<open>C10: The sidebar shows exactly the pages the caller can open. For a signed-in caller a built-in
  link is shown if and only if navigating to its page renders the page at once, not a redirect.\<close>

theorem sidebar_links_open:
  assumes "isAuthenticated s = Some True" "item \<in> set NAV_ITEMS"
  shows "item \<in> set (sidebar_links s None) \<longleftrightarrow> opens s (nav_to item)"
proof -
  have "opens s (nav_to item) \<longleftrightarrow> route_allowed (nav_permission item) s"
    unfolding opens_def by (rule open_protected [OF nav_routes [OF assms(2)]])
  then show ?thesis using assms(2) by (simp add: sidebar_links_def sidebar_items_def link_shown_iff [OF assms(1)])
qed

lemma sidebar_links_open_witness:
  "nav ''layout:nav.policies'' ''/policies'' (Some (AnyOf [''policies:read'', ''policies:create''])) 30 ''ShieldCheck''
     \<in> set (sidebar_links (signed_in [''policies:create'']) None) \<and> opens (signed_in [''policies:create'']) ''/policies''"
proof -
  let ?i = "nav ''layout:nav.policies'' ''/policies'' (Some (AnyOf [''policies:read'', ''policies:create''])) 30 ''ShieldCheck''"
  let ?s = "signed_in [''policies:create'']"
  have s: "isAuthenticated ?s = Some True" and i: "?i \<in> set NAV_ITEMS"
    by (simp_all add: signed_in_def auth_store_defs initial_auth_def NAV_ITEMS_def)
  have "link_shown ?s ?i" by code_simp
  with i have shown: "?i \<in> set (sidebar_links ?s None)" by (simp add: sidebar_links_def sidebar_items_def)
  with sidebar_links_open [OF s i] have "opens ?s (nav_to ?i)" by simp
  with shown show ?thesis by (simp add: nav_def)
qed

text \<open>Adding links is additive. With an application's own items the sidebar holds every built-in and
  every added item once, ordered by \<open>order\<close> with the items that have none last; items of equal order,
  and those without one, keep the sequence built-in first, then as given.\<close>

theorem sidebar_merge:
  "mset (sidebar_items (Some extra)) = mset (NAV_ITEMS @ extra)
   \<and> sorted_wrt (\<lambda>a b. case (nav_order a, nav_order b) of (Some x, Some y) \<Rightarrow> x \<le> y | (None, Some _) \<Rightarrow> False | _ \<Rightarrow> True)
        (sidebar_items (Some extra))
   \<and> (\<forall>k. filter (\<lambda>i. nav_order i = k) (sidebar_items (Some extra)) = filter (\<lambda>i. nav_order i = k) (NAV_ITEMS @ extra))"
proof -
  have items: "sidebar_items (Some extra) = js_sort order_cmp (NAV_ITEMS @ extra)"
    using order.already_sorted [OF nav_items_sorted] by (simp add: sidebar_items_def)
  have "sorted_wrt (\<lambda>a b. case (nav_order a, nav_order b) of (Some x, Some y) \<Rightarrow> x \<le> y | (None, Some _) \<Rightarrow> False | _ \<Rightarrow> True)
      (sidebar_items (Some extra))"
    unfolding items by (rule sorted_wrt_mono_rel [OF _ order.sort_sorted]) (auto simp: order_cmp_def split: option.splits)
  moreover have "filter (\<lambda>i. nav_order i = k) (sidebar_items (Some extra)) = filter (\<lambda>i. nav_order i = k) (NAV_ITEMS @ extra)" for k
  proof -
    let ?z = "\<lparr>nav_label = [], nav_to = [], nav_permission = None, nav_order = k, nav_icon = None\<rparr>"
    have eq: "(\<lambda>i. order_cmp ?z i = 0) = (\<lambda>i. nav_order i = k)"
      by (auto simp: fun_eq_iff order_cmp_def split: option.splits)
    show ?thesis unfolding items using order.sort_stable [of ?z "NAV_ITEMS @ extra"] unfolding eq .
  qed
  ultimately show ?thesis by (simp add: items)
qed

end
