(* ===== verification/TextSearch.thy ===== *)
theory TextSearch
  imports Preferences
begin

text \<open>
  \<open>translations/searchText.ts\<close>: the texts of a translation namespace as search material. A bundle
  is the parsed JSON of a namespace; what i18next answers (\<open>exists\<close>, \<open>getFixedT\<close>,
  \<open>getResourceBundle\<close>) is the record \<open>i18n\<close>, a parameter.
\<close>

section \<open>Bundles\<close>

datatype text_tree = Text string | Group "(string \<times> text_tree) list" | Items "text_tree list"

record i18n =
  tr_exists :: "language \<Rightarrow> string \<Rightarrow> bool"
  tr_layout :: "language \<Rightarrow> string \<Rightarrow> string"
  tr_bundle :: "language \<Rightarrow> string \<Rightarrow> text_tree option"

fun flattenValues :: "text_tree \<Rightarrow> string list" where
  "flattenValues (Text s) = [s]"
| "flattenValues (Group fs) = concat (map (\<lambda>f. flattenValues (snd f)) fs)"
| "flattenValues (Items xs) = concat (map flattenValues xs)"

text \<open>A missing node contributes nothing.\<close>

definition flatten_node :: "text_tree option \<Rightarrow> string list" where
  "flatten_node n = (case n of None \<Rightarrow> [] | Some b \<Rightarrow> flattenValues b)"

definition child :: "string \<Rightarrow> text_tree \<Rightarrow> text_tree option" where
  "child key b = (case b of Text s \<Rightarrow> None | Group fs \<Rightarrow> map_of fs key
     | Items xs \<Rightarrow> map_of (zip (map show_nat [0..<length xs]) xs) key)"

definition getPath :: "text_tree option \<Rightarrow> string \<Rightarrow> text_tree option" where
  "getPath obj path = foldl (\<lambda>acc key. case acc of None \<Rightarrow> None | Some b \<Rightarrow> child key b) obj (split_on CHR ''.'' path)"

definition namespaceSearchText :: "i18n \<Rightarrow> string \<Rightarrow> language \<Rightarrow> string" where
  "namespaceSearchText tr ns lang = to_lower (join '' '' (flatten_node (tr_bundle tr lang ns)))"

definition scopedSearchText :: "i18n \<Rightarrow> string \<Rightarrow> language \<Rightarrow> string list \<Rightarrow> string" where
  "scopedSearchText tr ns lang paths =
     to_lower (join '' '' (concat (map (\<lambda>path. flatten_node (getPath (tr_bundle tr lang ns) path)) paths)))"

text \<open>A text with an unresolved placeholder is not offered as a match.\<close>

definition is_match :: "string \<Rightarrow> string \<Rightarrow> bool" where
  "is_match lowerQuery s \<longleftrightarrow> contains (to_lower s) lowerQuery \<and> \<not> contains s ''{{''"

fun collectMatches :: "string \<Rightarrow> text_tree \<Rightarrow> string list \<Rightarrow> string list" where
  "collectMatches lq (Text s) out = (if is_match lq s then set_add s out else out)"
| "collectMatches lq (Group fs) out = foldl (\<lambda>out f. collectMatches lq (snd f) out) out fs"
| "collectMatches lq (Items xs) out = foldl (\<lambda>out x. collectMatches lq x out) out xs"

definition collect_node :: "string \<Rightarrow> text_tree option \<Rightarrow> string list \<Rightarrow> string list" where
  "collect_node lq n out = (case n of None \<Rightarrow> out | Some b \<Rightarrow> collectMatches lq b out)"

definition namespaceMatches :: "i18n \<Rightarrow> string \<Rightarrow> language \<Rightarrow> string \<Rightarrow> string list" where
  "namespaceMatches tr ns lang query = collect_node (to_lower query) (tr_bundle tr lang ns) []"

definition scopedMatches :: "i18n \<Rightarrow> string \<Rightarrow> language \<Rightarrow> string list \<Rightarrow> string \<Rightarrow> string list" where
  "scopedMatches tr ns lang paths query =
     foldl (\<lambda>out path. collect_node (to_lower query) (getPath (tr_bundle tr lang ns) path) out) [] paths"

section \<open>Matches are the matching texts\<close>

lemma collectMatches_add: "collectMatches lq b out = add_all (filter (is_match lq) (flattenValues b)) out"
proof (induction lq b out rule: collectMatches.induct)
  case (2 lq fs out)
  have "foldl (\<lambda>out f. collectMatches lq (snd f) out) o2 gs
      = add_all (filter (is_match lq) (concat (map (\<lambda>f. flattenValues (snd f)) gs))) o2" if "set gs \<subseteq> set fs" for gs o2
    using that by (induction gs arbitrary: o2) (auto simp: 2)
  then show ?case by simp
next
  case (3 lq xs out)
  have "foldl (\<lambda>out x. collectMatches lq x out) o2 ys
      = add_all (filter (is_match lq) (concat (map flattenValues ys))) o2" if "set ys \<subseteq> set xs" for ys o2
    using that by (induction ys arbitrary: o2) (auto simp: 3)
  then show ?case by simp
qed simp

lemma collect_node_add: "collect_node lq n out = add_all (filter (is_match lq) (flatten_node n)) out"
  by (simp add: collect_node_def flatten_node_def collectMatches_add split: option.split)

lemma namespaceMatches_eq:
  "namespaceMatches tr ns lang query = js_set (filter (is_match (to_lower query)) (flatten_node (tr_bundle tr lang ns)))"
  by (simp add: namespaceMatches_def collect_node_add js_set_def)

lemma scopedMatches_eq:
  "scopedMatches tr ns lang paths query =
     js_set (filter (is_match (to_lower query)) (concat (map (\<lambda>path. flatten_node (getPath (tr_bundle tr lang ns) path)) paths)))"
proof -
  have "foldl (\<lambda>out path. collect_node lq (getPath b path) out) o2 paths
      = add_all (filter (is_match lq) (concat (map (\<lambda>path. flatten_node (getPath b path)) paths))) o2" for lq b o2
    by (induction paths arbitrary: o2) (simp_all add: collect_node_add)
  then show ?thesis by (simp add: scopedMatches_def js_set_def)
qed

section \<open>A text that matches is found in the joined text\<close>

lemma to_lower_contains: "contains s q \<Longrightarrow> contains (to_lower s) (to_lower q)"
  by (metis contains_iff to_lower_append)

lemma match_in_joined:
  assumes "s \<in> set texts" "is_match lq s"
  shows "contains (to_lower (join '' '' texts)) lq"
  using assms to_lower_contains [OF contains_join [OF assms(1), of "'' ''"]]
  by (auto simp: is_match_def intro: contains_trans)

end
