(* ===== verification/CommandPalette.thy ===== *)
theory CommandPalette
  imports Navigation TextSearch
begin

text \<open>
  The quick-jump palette: its searchable items (\<open>layout/command_palette/searchItems.ts\<close>), the result
  groups and their ranking (\<open>CommandPaletteResults.ts\<close>), the dialog with its keyboard navigation
  (\<open>CommandPalette.tsx\<close>) and the group headers of the list (\<open>CommandPaletteResultsList.tsx\<close>).
\<close>

section \<open>Searchable items\<close>

record search_item =
  si_label :: string
  si_detail :: "string option"
  si_group :: string
  si_matchKeys :: "string list option"
  si_scope :: "(string \<times> string list) option"
  si_to :: string
  si_permission :: "action_spec option"
  si_icon :: "string option"

definition settings_item :: "string \<Rightarrow> string list \<Rightarrow> string \<Rightarrow> search_item" where
  "settings_item tab paths icon =
     \<lparr>si_label = ''account_settings:tabs.'' @ tab, si_detail = None, si_group = ''account_settings:pageTitle'',
      si_matchKeys = None, si_scope = (if paths = [] then None else Some (''account_settings'', paths)),
      si_to = ''/account-settings?tab='' @ tab, si_permission = None, si_icon = Some icon\<rparr>"

definition audit_item :: "string \<Rightarrow> string \<Rightarrow> string \<Rightarrow> string \<Rightarrow> string \<Rightarrow> action_spec option \<Rightarrow> search_item" where
  "audit_item tab scope_tab path category scope permission =
     \<lparr>si_label = ''audit_log:'' @ tab, si_detail = Some (''audit_log:'' @ scope_tab), si_group = ''audit_log:page.title'',
      si_matchKeys = None, si_scope = Some (''audit_log'', [tab, scope_tab, path]),
      si_to = ''/audit-log?category='' @ category @ ''&scope='' @ scope, si_permission = permission,
      si_icon = Some ''ScrollText''\<rparr>"

definition SEARCH_ITEMS :: "search_item list" where
  "SEARCH_ITEMS =
     [settings_item ''password'' [''tabs.password'', ''changePassword''] ''KeyRound'',
      settings_item ''passkeys'' [''tabs.passkeys'', ''passkeys''] ''Fingerprint'',
      settings_item ''profile'' [''tabs.profile'', ''profileName''] ''IdCard'',
      settings_item ''status'' [''tabs.status'', ''accountStatus''] ''ShieldCheck'',
      settings_item ''appearance'' [''tabs.appearance'', ''appearance''] ''Palette'',
      settings_item ''legal'' [] ''Scale'',
      settings_item ''danger'' [''tabs.danger'', ''deleteAccount''] ''Trash2'',
      \<lparr>si_label = ''dashboard:activeSessionsCard.heading'', si_detail = None, si_group = ''layout:nav.dashboard'',
       si_matchKeys = None, si_scope = Some (''dashboard'', [''activeSessionsCard'', ''parseUserAgent'']),
       si_to = ''/dashboard'', si_permission = None, si_icon = Some ''Laptop''\<rparr>,
      audit_item ''tabs.authorizationDecisions'' ''tabs.myActivity'' ''authorization'' ''authorization'' ''mine'' None,
      audit_item ''tabs.authorizationDecisions'' ''tabs.allUsers'' ''authorization'' ''authorization'' ''all''
        (Some (OneAction ''policies:read'')),
      audit_item ''tabs.securityEvents'' ''tabs.myActivity'' ''security'' ''security'' ''mine'' None,
      audit_item ''tabs.securityEvents'' ''tabs.allUsers'' ''security'' ''security'' ''all''
        (Some (OneAction ''security_audit:read''))]"

definition PAGE_CONTENT_NAMESPACES :: "(string \<times> string list) list" where
  "PAGE_CONTENT_NAMESPACES =
     [(''/dashboard'', [''dashboard'']), (''/users'', [''users'']), (''/policies'', [''policies'']),
      (''/permissions'', [''permissions'']), (''/rate-limits'', [''rate_limits'']),
      (''/audit-log'', [''audit_log'']), (''/account-settings'', [''account_settings''])]"

definition content_namespaces :: "string \<Rightarrow> string list" where
  "content_namespaces to = nullish (map_of PAGE_CONTENT_NAMESPACES to) []"

section \<open>Results\<close>

definition USER_RESULTS_LIMIT :: nat where "USER_RESULTS_LIMIT = 5"
definition POLICY_RESULTS_LIMIT :: nat where "POLICY_RESULTS_LIMIT = 5"
definition TEXT_MATCH_RESULTS_LIMIT :: nat where "TEXT_MATCH_RESULTS_LIMIT = 20"

definition ROUTE_ICONS :: "(string \<times> string) list" where
  "ROUTE_ICONS = [(''/dashboard'', ''LayoutDashboard''), (''/users'', ''Users''), (''/policies'', ''ShieldCheck''),
     (''/audit-log'', ''ScrollText''), (''/account-settings'', ''Settings'')]"

datatype result_kind = KPage | KContent | KMatch | KUser | KPolicy

record result =
  r_kind :: result_kind
  r_to :: string
  r_label :: string
  r_sublabel :: "string option"
  r_icon :: "string option"

definition GROUP_LABEL_KEY :: "result_kind \<Rightarrow> string" where
  "GROUP_LABEL_KEY k = (case k of KPage \<Rightarrow> ''commandPalette.pagesGroup'' | KContent \<Rightarrow> ''commandPalette.featuresGroup''
     | KMatch \<Rightarrow> ''commandPalette.matchesGroup'' | KUser \<Rightarrow> ''commandPalette.usersGroup''
     | KPolicy \<Rightarrow> ''commandPalette.policiesGroup'')"

text \<open>
  What one render works with: the caller, the translations and the chrome's language, the app's own
  items, and the data the three queries hold.
\<close>

record palette_env =
  e_auth :: auth_state
  e_tr :: i18n
  e_lang :: language
  e_extraNav :: "nav_item list option"
  e_extraSearch :: "search_item list option"
  e_catalog :: "catalog_entry list option"
  e_users :: "managed_user list option"
  e_policies :: "policy list option"

definition resolveLabel :: "palette_env \<Rightarrow> string \<Rightarrow> string" where
  "resolveLabel e label =
     (if tr_exists (e_tr e) (e_lang e) label then tr_layout (e_tr e) (e_lang e) label else label)"

definition offered :: "palette_env \<Rightarrow> action_spec option \<Rightarrow> bool" where
  "offered e permission \<longleftrightarrow> no_permission_needed permission \<or> can (e_auth e) (the permission)"

definition all_nav_items :: "palette_env \<Rightarrow> nav_item list" where
  "all_nav_items e = filter (\<lambda>item. offered e (nav_permission item)) (NAV_ITEMS @ nullish (e_extraNav e) [])"

definition all_search_items :: "palette_env \<Rightarrow> search_item list" where
  "all_search_items e = filter (\<lambda>item. offered e (si_permission item)) (SEARCH_ITEMS @ nullish (e_extraSearch e) [])"

definition page_icon :: "nav_item \<Rightarrow> string option" where
  "page_icon item = (case nav_icon item of Some i \<Rightarrow> Some i | None \<Rightarrow> map_of ROUTE_ICONS (nav_to item))"

definition page_entry :: "palette_env \<Rightarrow> nav_item \<Rightarrow> result \<times> string" where
  "page_entry e item =
     (let label = resolveLabel e (nav_label item) in
      (\<lparr>r_kind = KPage, r_to = nav_to item, r_label = label, r_sublabel = None, r_icon = page_icon item\<rparr>,
       to_lower (join '' '' (label # map (\<lambda>ns. namespaceSearchText (e_tr e) ns (e_lang e)) (content_namespaces (nav_to item))))))"

definition pageIndex :: "palette_env \<Rightarrow> (result \<times> string) list" where
  "pageIndex e = map (page_entry e) (all_nav_items e)"

definition filteredPages :: "palette_env \<Rightarrow> string \<Rightarrow> result list" where
  "filteredPages e q =
     (if q = [] then map fst (pageIndex e)
      else map fst (filter (\<lambda>p. contains (snd p) q) (pageIndex e)))"

definition middle_dot :: string where "middle_dot = [CHR '' '', CHR 0xB7, CHR '' '']"

definition content_entry :: "palette_env \<Rightarrow> search_item \<Rightarrow> result \<times> string" where
  "content_entry e item =
     (let label = resolveLabel e (si_label item);
          group = resolveLabel e (si_group item);
          detail = (if truthy (si_detail item) then Some (resolveLabel e (the (si_detail item))) else None);
          scopeText = (case si_scope item of Some sc \<Rightarrow> scopedSearchText (e_tr e) (fst sc) (e_lang e) (snd sc) | None \<Rightarrow> [])
      in
      (\<lparr>r_kind = KContent, r_to = si_to item, r_label = label,
        r_sublabel = Some (if truthy detail then group @ middle_dot @ the detail else group), r_icon = si_icon item\<rparr>,
       to_lower (join '' '' ([label, nullish detail [], group, scopeText] @ map (resolveLabel e) (nullish (si_matchKeys item) [])))))"

definition contentIndex :: "palette_env \<Rightarrow> (result \<times> string) list" where
  "contentIndex e = map (content_entry e) (all_search_items e)"

definition filteredContent :: "palette_env \<Rightarrow> string \<Rightarrow> result list" where
  "filteredContent e q =
     (if q = [] then [] else map fst (filter (\<lambda>p. contains (snd p) q) (contentIndex e)))"

text \<open>The loop with its set of seen keys and its list of results.\<close>

definition match_result :: "string \<times> string \<times> string \<times> string option \<Rightarrow> result" where
  "match_result m = (case m of (to, txt, sub, icon) \<Rightarrow>
     \<lparr>r_kind = KMatch, r_to = to, r_label = txt, r_sublabel = Some sub, r_icon = icon\<rparr>)"

definition pushMatch :: "string list \<times> result list \<Rightarrow> string \<times> string \<times> string \<times> string option \<Rightarrow> string list \<times> result list" where
  "pushMatch st m =
     (case st of (seen, results) \<Rightarrow>
      case m of (to, txt, sub, icon) \<Rightarrow>
        let key = to @ '' '' @ txt in
        if key \<in> set seen then (seen, results) else (set_add key seen, results @ [match_result m]))"

definition nav_matches :: "palette_env \<Rightarrow> string \<Rightarrow> nav_item \<Rightarrow> (string \<times> string \<times> string \<times> string option) list" where
  "nav_matches e q item =
     concat (map (\<lambda>ns. map (\<lambda>txt. (nav_to item, txt, resolveLabel e (nav_label item), page_icon item))
                           (namespaceMatches (e_tr e) ns (e_lang e) q))
       (content_namespaces (nav_to item)))"

definition search_matches :: "palette_env \<Rightarrow> string \<Rightarrow> search_item \<Rightarrow> (string \<times> string \<times> string \<times> string option) list" where
  "search_matches e q item =
     (case si_scope item of None \<Rightarrow> []
      | Some sc \<Rightarrow> map (\<lambda>txt. (si_to item, txt, resolveLabel e (si_group item), si_icon item))
                      (scopedMatches (e_tr e) (fst sc) (e_lang e) (snd sc) q))"

definition textMatches :: "palette_env \<Rightarrow> string \<Rightarrow> result list" where
  "textMatches e q =
     (if q = [] then []
      else take TEXT_MATCH_RESULTS_LIMIT (snd (foldl pushMatch ([], [])
        (concat (map (nav_matches e q) (all_nav_items e)) @ concat (map (search_matches e q) (all_search_items e))))))"

definition canViewPermissions :: "palette_env \<Rightarrow> bool" where
  "canViewPermissions e = can (e_auth e) (OneAction ''permissions:read'')"

definition permission_text :: "catalog_entry \<Rightarrow> string" where
  "permission_text c = to_lower (ce_action c @ '' '' @ ce_resource_type c @ '' '' @ ce_description c)"

definition permission_result :: "palette_env \<Rightarrow> catalog_entry \<Rightarrow> result" where
  "permission_result e c =
     \<lparr>r_kind = KMatch, r_to = ''/permissions?search='' @ encodeURIComponent (ce_action c),
      r_label = ce_action c @ middle_dot @ ce_resource_type c,
      r_sublabel = Some (resolveLabel e ''layout:nav.permissions''), r_icon = Some ''KeyRound''\<rparr>"

definition push_permission :: "palette_env \<Rightarrow> string \<Rightarrow> string list \<times> result list \<Rightarrow> catalog_entry \<Rightarrow> string list \<times> result list" where
  "push_permission e q st c =
     (case st of (seen, results) \<Rightarrow>
      if \<not> contains (permission_text c) q then (seen, results)
      else let key = ce_action c @ '':'' @ ce_resource_type c in
        if key \<in> set seen then (seen, results)
        else (set_add key seen, results @ [permission_result e c]))"

definition permissionMatches :: "palette_env \<Rightarrow> string \<Rightarrow> result list" where
  "permissionMatches e q =
     (case e_catalog e of None \<Rightarrow> []
      | Some catalog \<Rightarrow>
         if q = [] \<or> \<not> canViewPermissions e then []
         else take TEXT_MATCH_RESULTS_LIMIT (snd (foldl (push_permission e q) ([], []) catalog)))"

definition canSearchUsers :: "palette_env \<Rightarrow> bool" where
  "canSearchUsers e = can (e_auth e) (OneAction ''users:list_all'')"

definition user_result :: "managed_user \<Rightarrow> result" where
  "user_result u = \<lparr>r_kind = KUser, r_to = ''/users?search='' @ encodeURIComponent (mu_email u), r_label = mu_name u,
     r_sublabel = Some (mu_email u), r_icon = Some ''Users''\<rparr>"

definition filteredUsers :: "palette_env \<Rightarrow> string \<Rightarrow> result list" where
  "filteredUsers e trimmedQuery =
     map user_result (if canSearchUsers e \<and> trimmedQuery \<noteq> [] then nullish (e_users e) [] else [])"

definition canSearchPolicies :: "palette_env \<Rightarrow> bool" where
  "canSearchPolicies e = can (e_auth e) (OneAction ''policies:read'')"

definition policy_result :: "palette_env \<Rightarrow> policy \<Rightarrow> result" where
  "policy_result e p = \<lparr>r_kind = KPolicy, r_to = ''/policies?search='' @ encodeURIComponent (pol_name p), r_label = pol_name p,
     r_sublabel = Some (or_else (pol_description p) (resolveLabel e ''layout:nav.policies'')), r_icon = Some ''ShieldCheck''\<rparr>"

definition filteredPolicies :: "palette_env \<Rightarrow> string \<Rightarrow> result list" where
  "filteredPolicies e trimmedQuery =
     map (policy_result e) (if canSearchPolicies e \<and> trimmedQuery \<noteq> [] then nullish (e_policies e) [] else [])"

text \<open>The three queries of the palette.\<close>

definition search_users_params :: "string \<Rightarrow> list_users_params" where
  "search_users_params term =
     \<lparr>lu_limit = None, lu_offset = None, lu_search = Some term, lu_role = None, lu_is_verified = None, lu_status = None,
      lu_policy = None, lu_permission = None, lu_permission_source = None, lu_sort_by = None, lu_sort_dir = None,
      lu_last_login = None, lu_last_login_from = None, lu_last_login_to = None\<rparr>"

definition palette_queries :: "palette_env \<Rightarrow> string \<Rightarrow> query list" where
  "palette_queries e trimmedQuery =
     [usePermissionCatalogQuery (canViewPermissions e),
      useUsersQuery 1 USER_RESULTS_LIMIT (search_users_params trimmedQuery)
        (canSearchUsers e \<and> trimmedQuery \<noteq> []),
      usePoliciesListQuery 1 POLICY_RESULTS_LIMIT
        (no_list_policies_params\<lparr>lp_search := Some trimmedQuery, lp_sort_by := Some ''name'', lp_sort_dir := Some Asc\<rparr>)
        (canSearchPolicies e \<and> trimmedQuery \<noteq> [])]"

section \<open>Ranking\<close>

text \<open>The query \<open>q\<close> is in lower case.\<close>

definition relevance :: "string \<Rightarrow> result \<Rightarrow> int" where
  "relevance q r =
     (let label = to_lower (r_label r);
          sublabel = (case r_sublabel r of None \<Rightarrow> [] | Some t \<Rightarrow> to_lower t) in
      if label = q then 0
      else if starts_with label q then 1
      else if contains label q then 2
      else if contains sublabel q then 3 else 4)"

definition kindPriority :: "result_kind \<Rightarrow> int" where
  "kindPriority k = (case k of KPage \<Rightarrow> 0 | KContent \<Rightarrow> 1 | KMatch \<Rightarrow> 2 | KPolicy \<Rightarrow> 3 | KUser \<Rightarrow> 4)"

text \<open>A candidate with its relevance and its position.\<close>

type_synonym ranked = "result \<times> int \<times> nat"

definition ranked_list :: "string \<Rightarrow> result list \<Rightarrow> ranked list" where
  "ranked_list q candidates = map (\<lambda>(r, i). (r, relevance q r, i)) (zip candidates [0..<length candidates])"

definition ranked_kind :: "ranked \<Rightarrow> result_kind" where "ranked_kind x = r_kind (fst x)"
definition ranked_rel :: "ranked \<Rightarrow> int" where "ranked_rel x = fst (snd x)"
definition ranked_index :: "ranked \<Rightarrow> nat" where "ranked_index x = snd (snd x)"

definition best_relevance :: "ranked list \<Rightarrow> int" where
  "best_relevance g = Min (set (map ranked_rel g))"

definition group_cmp :: "ranked list comparator" where
  "group_cmp = then_by (\<lambda>a b. best_relevance a - best_relevance b)
     (\<lambda>a b. kindPriority (ranked_kind (hd a)) - kindPriority (ranked_kind (hd b)))"

definition item_cmp :: "ranked comparator" where
  "item_cmp = then_by (\<lambda>a b. ranked_rel a - ranked_rel b) (\<lambda>a b. int (ranked_index a) - int (ranked_index b))"

definition rank_results :: "string \<Rightarrow> result list \<Rightarrow> result list" where
  "rank_results q candidates =
     concat (map (\<lambda>g. map fst (js_sort item_cmp g))
       (js_sort group_cmp (om_values (group_list ranked_kind (ranked_list q candidates)))))"

definition candidates :: "palette_env \<Rightarrow> string \<Rightarrow> result list" where
  "candidates e trimmedQuery =
     (let q = to_lower trimmedQuery in
      filteredPages e q @ filteredContent e q @ textMatches e q @ permissionMatches e q
      @ filteredPolicies e trimmedQuery @ filteredUsers e trimmedQuery)"

definition palette_results :: "palette_env \<Rightarrow> string \<Rightarrow> result list" where
  "palette_results e trimmedQuery = rank_results (to_lower trimmedQuery) (candidates e trimmedQuery)"

definition kindCount :: "result list \<Rightarrow> nat" where
  "kindCount filtered = length (js_set (map r_kind filtered))"

text \<open>The rows of the list before which the header of their group is shown.\<close>

definition isFirstOfKind :: "result list \<Rightarrow> nat \<Rightarrow> bool" where
  "isFirstOfKind filtered i \<longleftrightarrow>
     kindCount filtered > 1 \<and> (i = 0 \<or> r_kind (filtered ! (i - 1)) \<noteq> r_kind (filtered ! i))"

definition group_headers :: "result list \<Rightarrow> string list" where
  "group_headers filtered =
     map (\<lambda>i. GROUP_LABEL_KEY (r_kind (filtered ! i))) (filter (isFirstOfKind filtered) [0..<length filtered])"

section \<open>The dialog\<close>

record palette =
  pt_query :: string
  pt_debounced :: string
  pt_active :: nat
  pt_prevIsOpen :: bool
  pt_prevQuery :: string

definition palette_mount :: "bool \<Rightarrow> palette" where
  "palette_mount isOpen = \<lparr>pt_query = [], pt_debounced = [], pt_active = 0, pt_prevIsOpen = isOpen, pt_prevQuery = []\<rparr>"

text \<open>One render: the two adjustments made while rendering.\<close>

definition palette_render :: "bool \<Rightarrow> palette \<Rightarrow> palette" where
  "palette_render isOpen p =
     (let p1 = (if isOpen \<noteq> pt_prevIsOpen p
                then (let p0 = p\<lparr>pt_prevIsOpen := isOpen\<rparr> in if isOpen then p0\<lparr>pt_query := [], pt_active := 0\<rparr> else p0)
                else p)
      in if pt_query p1 \<noteq> pt_prevQuery p1 then p1\<lparr>pt_prevQuery := pt_query p1, pt_active := 0\<rparr> else p1)"

definition type_query :: "string \<Rightarrow> palette \<Rightarrow> palette" where
  "type_query v p = p\<lparr>pt_query := v\<rparr>"

text \<open>\<open>useDebouncedValue\<close>: the timer runs once the value has been the same for 300 ms.\<close>

definition debounce_fires :: "palette \<Rightarrow> palette" where
  "debounce_fires p = p\<lparr>pt_debounced := pt_query p\<rparr>"

definition shown_query :: "palette \<Rightarrow> string" where
  "shown_query p = trim (pt_debounced p)"

definition arrow_down :: "nat \<Rightarrow> palette \<Rightarrow> palette" where
  "arrow_down n p = p\<lparr>pt_active := (if n = 0 then 0 else (pt_active p + 1) mod n)\<rparr>"

text \<open>\<open>%\<close> keeps the sign of its left operand, which is not negative here: \<open>i - 1 + n\<close> with \<open>n\<close> at least 1.\<close>

definition arrow_up :: "nat \<Rightarrow> palette \<Rightarrow> palette" where
  "arrow_up n p = p\<lparr>pt_active := (if n = 0 then 0 else (pt_active p + n - 1) mod n)\<rparr>"

definition enter_target :: "result list \<Rightarrow> palette \<Rightarrow> string option" where
  "enter_target filtered p = (if pt_active p < length filtered then Some (r_to (filtered ! pt_active p)) else None)"

definition hover_row :: "nat \<Rightarrow> palette \<Rightarrow> palette" where
  "hover_row i p = p\<lparr>pt_active := i\<rparr>"

section \<open>Lemmas on the ranking\<close>

interpretation group_order: js_comparator group_cmp
  unfolding group_cmp_def by (intro js_comparator_then_by by_key.js_comparator_axioms)

interpretation item_order: js_comparator item_cmp
  unfolding item_cmp_def by (intro js_comparator_then_by by_key.js_comparator_axioms)

lemma ranked_list_nth:
  "i < length cs \<Longrightarrow> ranked_list q cs ! i = (cs ! i, relevance q (cs ! i), i)"
  by (simp add: ranked_list_def)

lemma length_ranked_list [simp]: "length (ranked_list q cs) = length cs"
  by (simp add: ranked_list_def)

lemma map_fst_ranked [simp]: "map fst (ranked_list q cs) = cs"
  by (rule nth_equalityI) (simp_all add: ranked_list_nth)

lemma ranked_list_rel: "x \<in> set (ranked_list q cs) \<Longrightarrow> ranked_rel x = relevance q (fst x)"
  by (auto simp: ranked_list_def ranked_rel_def)

lemma ranked_list_index: "sorted_wrt (\<lambda>x y. ranked_index x < ranked_index y) (ranked_list q cs)"
  by (simp add: sorted_wrt_iff_nth_less ranked_list_nth ranked_index_def)

text \<open>Items come in the order of their positions, so the tie-break by position is stability.\<close>

lemma insert_item_rel:
  "\<forall>y\<in>set ys. ranked_index x < ranked_index y \<Longrightarrow>
     insert_cmp item_cmp x ys = insert_cmp (\<lambda>a b. ranked_rel a - ranked_rel b) x ys"
  by (induction ys) (auto simp: item_cmp_def then_by_def)

lemma sort_item_rel:
  "sorted_wrt (\<lambda>x y. ranked_index x < ranked_index y) g \<Longrightarrow>
     js_sort item_cmp g = js_sort (\<lambda>a b. ranked_rel a - ranked_rel b) g"
proof (induction g)
  case (Cons x g)
  then have "\<forall>y\<in>set (js_sort (\<lambda>a b. ranked_rel a - ranked_rel b) g). ranked_index x < ranked_index y" by simp
  from insert_item_rel [OF this] Cons show ?case by (simp add: js_sort_def)
qed simp

text \<open>The results of one kind: the candidates of that kind, by relevance.\<close>

definition sorted_kind :: "string \<Rightarrow> result list \<Rightarrow> result_kind \<Rightarrow> result list" where
  "sorted_kind q cs k = js_sort (\<lambda>a b. relevance q a - relevance q b) (filter (\<lambda>r. r_kind r = k) cs)"

lemma insert_cmp_map:
  "(\<And>y. y \<in> set ys \<Longrightarrow> c (f x) (f y) = d x y) \<Longrightarrow> map f (insert_cmp d x ys) = insert_cmp c (f x) (map f ys)"
  by (induction ys) auto

lemma js_sort_map:
  "(\<And>x y. x \<in> set xs \<Longrightarrow> y \<in> set xs \<Longrightarrow> c (f x) (f y) = d x y) \<Longrightarrow> map f (js_sort d xs) = js_sort c (map f xs)"
proof (induction xs)
  case (Cons x xs)
  then have "map f (insert_cmp d x (js_sort d xs)) = insert_cmp c (f x) (map f (js_sort d xs))"
    by (intro insert_cmp_map) simp
  with Cons show ?case by (simp add: js_sort_def)
qed simp

lemma sorted_group:
  "map fst (js_sort item_cmp (filter (\<lambda>x. ranked_kind x = k) (ranked_list q cs))) = sorted_kind q cs k"
proof -
  let ?g = "filter (\<lambda>x. ranked_kind x = k) (ranked_list q cs)"
  have "js_sort item_cmp ?g = js_sort (\<lambda>a b. ranked_rel a - ranked_rel b) ?g"
    by (rule sort_item_rel) (rule sorted_wrt_filter [OF ranked_list_index])
  moreover have "map fst (js_sort (\<lambda>a b. ranked_rel a - ranked_rel b) ?g)
      = js_sort (\<lambda>a b. relevance q a - relevance q b) (map fst ?g)"
    by (rule js_sort_map) (auto simp: ranked_list_rel)
  moreover have "map fst ?g = filter (\<lambda>r. r_kind r = k) cs"
  proof -
    have "map fst ?g = filter (\<lambda>r. r_kind r = k) (map fst (ranked_list q cs))"
      unfolding filter_map o_def ranked_kind_def ..
    then show ?thesis by simp
  qed
  ultimately show ?thesis by (simp add: sorted_kind_def)
qed

lemma sorted_kind_set: "set (sorted_kind q cs k) = {r \<in> set cs. r_kind r = k}"
  by (simp add: sorted_kind_def)

lemma sorted_kind_sorted: "sorted (map (relevance q) (sorted_kind q cs k))"
  using by_key.sort_sorted [of "relevance q" "filter (\<lambda>r. r_kind r = k) cs"]
  by (simp add: sorted_kind_def sorted_wrt_map)

lemma sorted_kind_stable:
  "filter (\<lambda>r. relevance q r = d) (sorted_kind q cs k) = filter (\<lambda>r. r_kind r = k \<and> relevance q r = d) cs"
proof (cases "\<exists>z. relevance q z = d")
  case True
  then obtain z where z: "relevance q z = d" by blast
  have eq: "(\<lambda>r. relevance q z - relevance q r = 0) = (\<lambda>r. relevance q r = d)" using z by auto
  have "filter (\<lambda>r. relevance q z - relevance q r = 0) (sorted_kind q cs k)
      = filter (\<lambda>r. relevance q z - relevance q r = 0) (filter (\<lambda>r. r_kind r = k) cs)"
    unfolding sorted_kind_def by (rule by_key.sort_stable)
  then show ?thesis unfolding eq by (simp add: conj_commute)
next
  case False
  then show ?thesis by (auto intro: filter_False)
qed

text \<open>The kinds that occur, in the order in which their groups are shown.\<close>

definition kind_best :: "string \<Rightarrow> result list \<Rightarrow> result_kind \<Rightarrow> int" where
  "kind_best q cs k = Min (relevance q ` {r \<in> set cs. r_kind r = k})"

definition kind_order :: "string \<Rightarrow> result list \<Rightarrow> result_kind list" where
  "kind_order q cs =
     map (\<lambda>g. ranked_kind (hd g)) (js_sort group_cmp (om_values (group_list ranked_kind (ranked_list q cs))))"

lemma ranked_groups:
  assumes "g \<in> set (js_sort group_cmp (om_values (group_list ranked_kind (ranked_list q cs))))"
  shows "g \<noteq> []" "g = filter (\<lambda>x. ranked_kind x = ranked_kind (hd g)) (ranked_list q cs)"
    "best_relevance g = kind_best q cs (ranked_kind (hd g))"
proof -
  from assms obtain k where k: "k \<in> ranked_kind ` set (ranked_list q cs)"
    and g: "g = filter (\<lambda>x. ranked_kind x = k) (ranked_list q cs)" by (auto simp: group_list_values)
  from k obtain x where "x \<in> set g" "ranked_kind x = k" by (auto simp: g)
  then show ne: "g \<noteq> []" by auto
  then have "hd g \<in> set g" by simp
  then have hd: "ranked_kind (hd g) = k" using g by auto
  with g show eq: "g = filter (\<lambda>x. ranked_kind x = ranked_kind (hd g)) (ranked_list q cs)" by simp
  have "ranked_rel ` set g = relevance q ` {r \<in> set cs. r_kind r = k}"
  proof -
    have "ranked_rel ` set g = (\<lambda>x. relevance q (fst x)) ` set g"
      by (rule image_cong) (auto simp: g ranked_list_rel)
    also have "\<dots> = relevance q ` (fst ` {x \<in> set (ranked_list q cs). r_kind (fst x) = k})"
      by (simp add: g ranked_kind_def image_image)
    also have "fst ` {x \<in> set (ranked_list q cs). r_kind (fst x) = k} = {r \<in> fst ` set (ranked_list q cs). r_kind r = k}" by auto
    also have "fst ` set (ranked_list q cs) = set cs" by (metis map_fst_ranked list.set_map)
    finally show ?thesis .
  qed
  then show "best_relevance g = kind_best q cs (ranked_kind (hd g))"
    by (simp add: best_relevance_def kind_best_def hd)
qed

lemma rank_results_kinds: "rank_results q cs = concat (map (sorted_kind q cs) (kind_order q cs))"
proof -
  let ?gs = "js_sort group_cmp (om_values (group_list ranked_kind (ranked_list q cs)))"
  have "map (\<lambda>g. map fst (js_sort item_cmp g)) ?gs = map (\<lambda>g. sorted_kind q cs (ranked_kind (hd g))) ?gs"
  proof (rule map_cong [OF refl])
    fix g assume "g \<in> set ?gs"
    from ranked_groups(2) [OF this] show "map fst (js_sort item_cmp g) = sorted_kind q cs (ranked_kind (hd g))"
      by (metis sorted_group)
  qed
  then have "concat (map (\<lambda>g. map fst (js_sort item_cmp g)) ?gs)
      = concat (map (\<lambda>g. sorted_kind q cs (ranked_kind (hd g))) ?gs)" by (rule arg_cong)
  then show ?thesis unfolding rank_results_def kind_order_def map_map o_def .
qed

lemma kind_order_set: "set (kind_order q cs) = r_kind ` set cs"
proof -
  have "set (kind_order q cs) = (\<lambda>g. ranked_kind (hd g)) ` set (om_values (group_list ranked_kind (ranked_list q cs)))"
    by (simp add: kind_order_def)
  also have "\<dots> = ranked_kind ` set (ranked_list q cs)"
  proof -
    have "ranked_kind (hd (filter (\<lambda>x. ranked_kind x = k) xs)) = k" if "k \<in> ranked_kind ` set xs" for k xs
    proof -
      from that have "filter (\<lambda>x. ranked_kind x = k) xs \<noteq> []" by (auto simp: filter_empty_conv)
      then show ?thesis using hd_in_set [of "filter (\<lambda>x. ranked_kind x = k) xs"] by auto
    qed
    then show ?thesis by (force simp: group_list_values image_image)
  qed
  also have "\<dots> = r_kind ` (fst ` set (ranked_list q cs))" by (simp add: ranked_kind_def image_image)
  also have "fst ` set (ranked_list q cs) = set cs" by (metis map_fst_ranked list.set_map)
  finally show ?thesis .
qed

lemma kind_order_distinct: "distinct (kind_order q cs)"
proof -
  have "distinct (map (\<lambda>g. ranked_kind (hd g)) (om_values (group_list ranked_kind (ranked_list q cs))))"
  proof -
    have "map (\<lambda>g. ranked_kind (hd g)) (om_values (group_list ranked_kind xs)) = js_set (map ranked_kind xs)" for xs
      unfolding group_list_values map_map o_def
    proof (rule map_idI)
      fix k assume "k \<in> set (js_set (map ranked_kind xs))"
      then have "filter (\<lambda>x. ranked_kind x = k) xs \<noteq> []" by (auto simp: filter_empty_conv)
      then show "ranked_kind (hd (filter (\<lambda>x. ranked_kind x = k) xs)) = k"
        using hd_in_set [of "filter (\<lambda>x. ranked_kind x = k) xs"] by auto
    qed
    then show ?thesis by simp
  qed
  moreover have "mset (kind_order q cs)
      = mset (map (\<lambda>g. ranked_kind (hd g)) (om_values (group_list ranked_kind (ranked_list q cs))))"
    by (simp add: kind_order_def)
  ultimately show ?thesis by (metis mset_eq_imp_distinct_iff)
qed

text \<open>The groups come by their best relevance, then by the fixed priority of the kinds.\<close>

lemma kindPriority_inj: "kindPriority k = kindPriority l \<longleftrightarrow> k = l"
  by (cases k; cases l) (simp_all add: kindPriority_def)

lemma distinct_sorted_wrt: "distinct xs \<longleftrightarrow> sorted_wrt (\<noteq>) xs"
  by (induction xs) auto

lemma kind_order_sorted:
  "sorted_wrt (\<lambda>k l. kind_best q cs k < kind_best q cs l
      \<or> (kind_best q cs k = kind_best q cs l \<and> kindPriority k < kindPriority l)) (kind_order q cs)"
proof -
  let ?gs = "js_sort group_cmp (om_values (group_list ranked_kind (ranked_list q cs)))"
  have "sorted_wrt (\<lambda>a b. group_cmp a b \<le> 0) ?gs" by (rule group_order.sort_sorted)
  then have "sorted_wrt (\<lambda>a b. kind_best q cs (ranked_kind (hd a)) < kind_best q cs (ranked_kind (hd b))
      \<or> (kind_best q cs (ranked_kind (hd a)) = kind_best q cs (ranked_kind (hd b))
          \<and> kindPriority (ranked_kind (hd a)) \<le> kindPriority (ranked_kind (hd b)))) ?gs"
  proof (rule sorted_wrt_mono_rel [rotated])
    fix a b assume ab: "a \<in> set ?gs" "b \<in> set ?gs" and le: "group_cmp a b \<le> 0"
    have "best_relevance a < best_relevance b \<or> (best_relevance a = best_relevance b
        \<and> kindPriority (ranked_kind (hd a)) \<le> kindPriority (ranked_kind (hd b)))"
      using le unfolding group_cmp_def then_by_def by (simp split: if_splits)
    then show "kind_best q cs (ranked_kind (hd a)) < kind_best q cs (ranked_kind (hd b))
        \<or> (kind_best q cs (ranked_kind (hd a)) = kind_best q cs (ranked_kind (hd b))
          \<and> kindPriority (ranked_kind (hd a)) \<le> kindPriority (ranked_kind (hd b)))"
      unfolding ranked_groups(3) [OF ab(1)] ranked_groups(3) [OF ab(2)] .
  qed
  then have "sorted_wrt (\<lambda>k l. kind_best q cs k < kind_best q cs l
      \<or> (kind_best q cs k = kind_best q cs l \<and> kindPriority k \<le> kindPriority l)) (kind_order q cs)"
    by (simp add: kind_order_def sorted_wrt_map)
  moreover have "sorted_wrt (\<noteq>) (kind_order q cs)"
    using kind_order_distinct [of q cs] by (simp add: distinct_sorted_wrt)
  ultimately show ?thesis
    by (simp add: sorted_wrt_iff_nth_less) (metis kindPriority_inj order_le_imp_less_or_eq)
qed

text \<open>Nothing is lost or shown twice.\<close>

lemma mset_kinds:
  assumes "distinct ks" "set ks = r_kind ` set cs"
  shows "mset (concat (map (sorted_kind q cs) ks)) = mset cs"
proof -
  have "mset (concat (map (sorted_kind q cs) ks)) = mset (concat (map (\<lambda>k. filter (\<lambda>r. r_kind r = k) cs) ks))"
    by (induction ks) (simp_all add: sorted_kind_def)
  also have "\<dots> = mset cs" by (rule mset_filter_partition [OF assms])
  finally show ?thesis .
qed

lemma rank_results_mset: "mset (rank_results q cs) = mset cs"
  unfolding rank_results_kinds by (rule mset_kinds [OF kind_order_distinct kind_order_set])

lemma rank_results_set [simp]: "set (rank_results q cs) = set cs"
  by (metis rank_results_mset set_mset_mset)

lemma filter_kinds:
  "distinct ks \<Longrightarrow> filter (\<lambda>r. r_kind r = k) (concat (map (sorted_kind q cs) ks))
     = (if k \<in> set ks then sorted_kind q cs k else [])"
proof (induction ks)
  case (Cons l ks)
  have "filter (\<lambda>r. r_kind r = k) (sorted_kind q cs l) = (if k = l then sorted_kind q cs l else [])"
    by (auto simp: sorted_kind_set intro!: filter_True filter_False)
  with Cons show ?case by auto
qed simp

lemma rank_results_filter: "filter (\<lambda>r. r_kind r = k) (rank_results q cs) = sorted_kind q cs k"
proof -
  have "set (sorted_kind q cs k) = {}" if "k \<notin> r_kind ` set cs"
    using that by (auto simp: sorted_kind_set)
  then have "k \<notin> r_kind ` set cs \<Longrightarrow> sorted_kind q cs k = []" by simp
  then show ?thesis unfolding rank_results_kinds
    by (simp add: filter_kinds [OF kind_order_distinct] kind_order_set)
qed

section \<open>Group headers\<close>

lemma remdups_adj_run: "ys = [] \<or> hd ys \<noteq> k \<Longrightarrow> remdups_adj (replicate (Suc n) k @ ys) = k # remdups_adj ys"
  by (induction n) (cases ys; simp)+

lemma remdups_adj_blocks:
  assumes "distinct ks" "\<And>k. k \<in> set ks \<Longrightarrow> g k \<noteq> [] \<and> (\<forall>x\<in>set (g k). f x = k)"
  shows "remdups_adj (map f (concat (map g ks))) = ks"
  using assms
proof (induction ks)
  case (Cons k ks)
  let ?ys = "map f (concat (map g ks))"
  have "map f (g k) = replicate (length (g k)) k" using Cons.prems(2) [of k] by (intro replicate_eqI) auto
  moreover obtain n where "length (g k) = Suc n" using Cons.prems(2) [of k] by (cases "g k") auto
  ultimately have run: "map f (g k) = replicate (Suc n) k" by simp
  have "?ys = [] \<or> hd ?ys \<noteq> k"
  proof (cases ks)
    case (Cons l ls)
    with Cons.prems(2) [of l] have "g l \<noteq> []" "f (hd (g l)) = l" by auto
    with Cons \<open>distinct (k # ks)\<close> show ?thesis by (auto simp: hd_append hd_map)
  qed simp
  then have "remdups_adj (map f (g k) @ ?ys) = k # remdups_adj ?ys" unfolding run by (rule remdups_adj_run)
  with Cons show ?case by simp
qed simp

lemma remdups_adj_snoc: "remdups_adj (xs @ [x]) = (if xs \<noteq> [] \<and> last xs = x then remdups_adj xs else remdups_adj xs @ [x])"
  by (induction xs rule: remdups_adj.induct) auto

lemma run_starts: "map ((!) xs) (filter (\<lambda>i. i = 0 \<or> xs ! (i - 1) \<noteq> xs ! i) [0..<length xs]) = remdups_adj xs"
proof (induction xs rule: rev_induct)
  case (snoc x xs)
  let ?z = "xs @ [x]" and ?P = "\<lambda>xs i. i = 0 \<or> xs ! (i - 1) \<noteq> xs ! i"
  have eq: "filter (?P ?z) [0..<length xs] = filter (?P xs) [0..<length xs]"
    by (rule filter_cong) (auto simp: nth_append)
  have "map ((!) ?z) (filter (?P xs) [0..<length xs]) = map ((!) xs) (filter (?P xs) [0..<length xs])"
    by (rule map_cong) (auto simp: nth_append)
  then have front: "map ((!) ?z) (filter (?P ?z) [0..<length xs]) = remdups_adj xs" unfolding eq snoc .
  have rear: "map ((!) ?z) (filter (?P ?z) [length xs]) = (if xs \<noteq> [] \<and> last xs = x then [] else [x])"
    by (cases "xs = []") (auto simp: nth_append last_conv_nth)
  have whole: "[0..<length ?z] = [0..<length xs] @ [length xs]" by simp
  show ?case unfolding whole filter_append map_append front rear by (simp add: remdups_adj_snoc)
qed simp

lemma ranked_runs: "remdups_adj (map r_kind (rank_results q cs)) = kind_order q cs"
  unfolding rank_results_kinds
proof (rule remdups_adj_blocks [OF kind_order_distinct])
  fix k assume "k \<in> set (kind_order q cs)"
  then obtain r where "r \<in> set cs" "r_kind r = k" by (auto simp: kind_order_set)
  then have "r \<in> set (sorted_kind q cs k)" by (simp add: sorted_kind_set)
  then have "sorted_kind q cs k \<noteq> []" by (metis empty_iff empty_set)
  then show "sorted_kind q cs k \<noteq> [] \<and> (\<forall>x\<in>set (sorted_kind q cs k). r_kind x = k)"
    by (auto simp: sorted_kind_set)
qed

lemma kindCount_ranked: "kindCount (rank_results q cs) = length (kind_order q cs)"
proof -
  have "card (set (js_set (map r_kind (rank_results q cs)))) = card (set (kind_order q cs))"
    by (simp add: kind_order_set)
  then show ?thesis
    by (simp only: kindCount_def distinct_card [OF distinct_js_set] distinct_card [OF kind_order_distinct])
qed

lemma ranked_headers:
  "group_headers (rank_results q cs) =
     (if length (kind_order q cs) > 1 then map GROUP_LABEL_KEY (kind_order q cs) else [])"
proof (cases "kindCount (rank_results q cs) > 1")
  case True
  let ?ks = "map r_kind (rank_results q cs)"
  have "group_headers (rank_results q cs) = map (\<lambda>i. GROUP_LABEL_KEY (r_kind (rank_results q cs ! i)))
      (filter (\<lambda>i. i = 0 \<or> r_kind (rank_results q cs ! (i - 1)) \<noteq> r_kind (rank_results q cs ! i)) [0..<length (rank_results q cs)])"
  proof -
    have "isFirstOfKind (rank_results q cs)
        = (\<lambda>i. i = 0 \<or> r_kind (rank_results q cs ! (i - 1)) \<noteq> r_kind (rank_results q cs ! i))"
      using True by (simp add: isFirstOfKind_def fun_eq_iff)
    then show ?thesis by (simp only: group_headers_def)
  qed
  also have "\<dots> = map GROUP_LABEL_KEY (map ((!) ?ks) (filter (\<lambda>i. i = 0 \<or> ?ks ! (i - 1) \<noteq> ?ks ! i) [0..<length ?ks]))"
    unfolding map_map length_map by (intro map_cong filter_cong) (auto simp: less_imp_diff_less)
  finally show ?thesis using True unfolding run_starts ranked_runs kindCount_ranked by simp
next
  case False
  then show ?thesis by (simp add: group_headers_def isFirstOfKind_def kindCount_ranked)
qed

section \<open>Destinations\<close>

lemma routes_eval:
  "map_of APP_ROUTES ''/dashboard'' = Some (Protected None)"
  "map_of APP_ROUTES ''/audit-log'' = Some (Protected None)"
  "map_of APP_ROUTES ''/account-settings'' = Some (Protected None)"
  "map_of APP_ROUTES ''/users'' = Some (Protected (Some (OneAction ''users:list_all'')))"
  "map_of APP_ROUTES ''/permissions'' = Some (Protected (Some (OneAction ''permissions:read'')))"
  "map_of APP_ROUTES ''/policies'' = Some (Protected (Some (AnyOf [''policies:read'', ''policies:create''])))"
  by code_simp+

lemma offered_allowed: "isAuthenticated (e_auth e) = Some True \<Longrightarrow> offered e p \<longleftrightarrow> route_allowed p (e_auth e)"
  by (simp add: offered_def route_allowed_def)

lemma opens_iff: "map_of APP_ROUTES (path_of to) = Some (Protected p) \<Longrightarrow> opens s to \<longleftrightarrow> route_allowed p s"
  by (simp add: opens_def open_protected)

lemma search_item_paths: "list_all (\<lambda>i. path_of (si_to i) \<in> {''/dashboard'', ''/audit-log'', ''/account-settings''}) SEARCH_ITEMS"
  by code_simp

lemma result_paths:
  "path_of (''/permissions?search='' @ x) = ''/permissions''"
  "path_of (''/users?search='' @ x) = ''/users''"
  "path_of (''/policies?search='' @ x) = ''/policies''"
  by (simp_all add: path_of_def)

lemma pushMatch_results:
  "r \<in> set (snd (foldl pushMatch st ms)) \<Longrightarrow> r \<in> set (snd st) \<or> r \<in> match_result ` set ms"
proof (induction ms arbitrary: st)
  case (Cons m ms)
  have "r \<in> set (snd (pushMatch st m)) \<Longrightarrow> r \<in> set (snd st) \<or> r = match_result m"
    by (cases st; cases m) (auto simp: pushMatch_def Let_def split: if_splits)
  with Cons show ?case by fastforce
qed simp

lemma textMatches_from:
  assumes "r \<in> set (textMatches e q)"
  shows "r_kind r = KMatch \<and>
    ((\<exists>item\<in>set (all_nav_items e). r_to r = nav_to item \<and> q \<noteq> [] \<and>
        (\<exists>ns\<in>set (content_namespaces (nav_to item)). r_label r \<in> set (namespaceMatches (e_tr e) ns (e_lang e) q)))
     \<or> (\<exists>item\<in>set (all_search_items e). r_to r = si_to item \<and> q \<noteq> [] \<and>
        (\<exists>sc. si_scope item = Some sc \<and> r_label r \<in> set (scopedMatches (e_tr e) (fst sc) (e_lang e) (snd sc) q))))"
proof -
  from assms have q: "q \<noteq> []" by (auto simp: textMatches_def)
  let ?ms = "concat (map (nav_matches e q) (all_nav_items e)) @ concat (map (search_matches e q) (all_search_items e))"
  from assms q have "r \<in> set (snd (foldl pushMatch ([], []) ?ms))"
    by (auto simp: textMatches_def simp del: foldl_append dest: in_set_takeD)
  from pushMatch_results [OF this] have "r \<in> match_result ` set ?ms" by (simp del: set_append set_concat)
  then obtain m where r: "r = match_result m" and m: "m \<in> set ?ms" by (rule imageE)
  from m consider item where "item \<in> set (all_nav_items e)" "m \<in> set (nav_matches e q item)"
    | item where "item \<in> set (all_search_items e)" "m \<in> set (search_matches e q item)" by auto
  then show ?thesis
  proof cases
    case 1
    then show ?thesis using q r by (fastforce simp: nav_matches_def match_result_def)
  next
    case 2
    then show ?thesis using q r by (fastforce simp: search_matches_def match_result_def split: option.splits)
  qed
qed

lemma push_permission_results:
  "r \<in> set (snd (foldl (push_permission e q) st cs)) \<Longrightarrow> r \<in> set (snd st) \<or> r \<in> permission_result e ` set cs"
proof (induction cs arbitrary: st)
  case (Cons c cs)
  have "r \<in> set (snd (push_permission e q st c)) \<Longrightarrow> r \<in> set (snd st) \<or> r = permission_result e c"
    by (cases st) (auto simp: push_permission_def Let_def split: if_splits)
  with Cons show ?case by fastforce
qed simp

lemma permissionMatches_from:
  assumes "r \<in> set (permissionMatches e q)" shows "canViewPermissions e \<and> (\<exists>c. r = permission_result e c)"
  using assms by (auto simp: permissionMatches_def split: option.splits if_splits dest!: in_set_takeD dest: push_permission_results)

section \<open>Every result leads somewhere the caller can go\<close>

text \<open>The app's own items are well gated when those it offers open.\<close>

definition extras_open :: "palette_env \<Rightarrow> bool" where
  "extras_open e \<longleftrightarrow>
     (\<forall>item\<in>set (nullish (e_extraNav e) []). offered e (nav_permission item) \<longrightarrow> opens (e_auth e) (nav_to item)) \<and>
     (\<forall>item\<in>set (nullish (e_extraSearch e) []). offered e (si_permission item) \<longrightarrow> opens (e_auth e) (si_to item))"

lemma nav_item_opens:
  assumes "isAuthenticated (e_auth e) = Some True" "extras_open e" "item \<in> set (all_nav_items e)"
  shows "opens (e_auth e) (nav_to item)"
proof (cases "item \<in> set NAV_ITEMS")
  case True
  with assms show ?thesis
    by (auto simp: all_nav_items_def opens_iff [OF nav_routes [OF True]] simp flip: offered_allowed)
next
  case False
  with assms show ?thesis by (auto simp: all_nav_items_def extras_open_def)
qed

lemma search_item_opens:
  assumes "isAuthenticated (e_auth e) = Some True" "extras_open e" "item \<in> set (all_search_items e)"
  shows "opens (e_auth e) (si_to item)"
proof (cases "item \<in> set SEARCH_ITEMS")
  case True
  then have "path_of (si_to item) \<in> {''/dashboard'', ''/audit-log'', ''/account-settings''}"
    using search_item_paths by (simp only: list_all_iff)
  then have "map_of APP_ROUTES (path_of (si_to item)) = Some (Protected None)" using routes_eval by auto
  from opens_iff [OF this] assms(1) show ?thesis by (simp add: route_allowed_def no_permission_needed_def)
next
  case False
  with assms show ?thesis by (auto simp: all_search_items_def extras_open_def)
qed

lemma data_results_open:
  assumes "isAuthenticated (e_auth e) = Some True"
  shows "canViewPermissions e \<Longrightarrow> opens (e_auth e) (r_to (permission_result e c))"
    "canSearchUsers e \<Longrightarrow> opens (e_auth e) (r_to (user_result u))"
    "canSearchPolicies e \<Longrightarrow> opens (e_auth e) (r_to (policy_result e p))"
proof -
  let ?s = "e_auth e"
  have paths: "path_of (r_to (permission_result e c)) = ''/permissions''" "path_of (r_to (user_result u)) = ''/users''"
    "path_of (r_to (policy_result e p)) = ''/policies''"
    by (simp_all only: permission_result_def user_result_def policy_result_def result.simps result_paths)
  show "canViewPermissions e \<Longrightarrow> opens ?s (r_to (permission_result e c))"
    using opens_iff [of "r_to (permission_result e c)" "Some (OneAction ''permissions:read'')" ?s] assms routes_eval(5)
    by (simp add: paths route_allowed_def canViewPermissions_def)
  show "canSearchUsers e \<Longrightarrow> opens ?s (r_to (user_result u))"
    using opens_iff [of "r_to (user_result u)" "Some (OneAction ''users:list_all'')" ?s] assms routes_eval(4)
    by (simp add: paths route_allowed_def canSearchUsers_def)
  show "canSearchPolicies e \<Longrightarrow> opens ?s (r_to (policy_result e p))"
    using opens_iff [of "r_to (policy_result e p)" "Some (AnyOf [''policies:read'', ''policies:create''])" ?s] assms routes_eval(6)
    by (simp add: paths route_allowed_def canSearchPolicies_def can_any)
qed

lemma filteredPages_from: "r \<in> set (filteredPages e q) \<Longrightarrow> \<exists>item\<in>set (all_nav_items e). r = fst (page_entry e item)"
  by (auto simp: filteredPages_def pageIndex_def split: if_splits)

lemma filteredContent_from: "r \<in> set (filteredContent e q) \<Longrightarrow> \<exists>item\<in>set (all_search_items e). r = fst (content_entry e item)"
  by (auto simp: filteredContent_def contentIndex_def split: if_splits)

text \<open>C11: The palette offers no destination its caller cannot open. Every result of every group, for
  any query, leads to a route whose protection lets the caller in at once; the app's own items are
  assumed to carry the permission of their page. User and policy rows, and the texts of the
  permission catalogue, appear only for a caller who may list them.\<close>

theorem palette_offers_openable:
  assumes "isAuthenticated (e_auth e) = Some True" "extras_open e" "r \<in> set (palette_results e query)"
  shows "opens (e_auth e) (r_to r) \<and> (r_kind r = KUser \<longrightarrow> canSearchUsers e) \<and> (r_kind r = KPolicy \<longrightarrow> canSearchPolicies e)"
proof -
  let ?q = "to_lower query"
  from assms(3) consider "r \<in> set (filteredPages e ?q)" | "r \<in> set (filteredContent e ?q)" | "r \<in> set (textMatches e ?q)"
    | "r \<in> set (permissionMatches e ?q)" | "r \<in> set (filteredPolicies e query)" | "r \<in> set (filteredUsers e query)"
    unfolding palette_results_def by (auto simp: candidates_def Let_def)
  then show ?thesis
  proof cases
    case 1
    from filteredPages_from [OF this] nav_item_opens [OF assms(1,2)] show ?thesis
      by (auto simp: page_entry_def Let_def)
  next
    case 2
    from filteredContent_from [OF this] search_item_opens [OF assms(1,2)] show ?thesis
      by (auto simp: content_entry_def Let_def)
  next
    case 3
    from textMatches_from [OF this] nav_item_opens [OF assms(1,2)] search_item_opens [OF assms(1,2)] show ?thesis
      by force
  next
    case 4
    from permissionMatches_from [OF this] data_results_open(1) [OF assms(1)] show ?thesis
      by (auto simp: permission_result_def)
  next
    case 5
    then obtain p where "canSearchPolicies e" "r = policy_result e p" by (auto simp: filteredPolicies_def split: if_splits)
    with data_results_open(3) [OF assms(1), of p] show ?thesis by (simp add: policy_result_def)
  next
    case 6
    then obtain u where "canSearchUsers e" "r = user_result u" by (auto simp: filteredUsers_def split: if_splits)
    with data_results_open(2) [OF assms(1), of u] show ?thesis by (simp add: user_result_def)
  qed
qed

text \<open>A caller and an environment without translations, for the examples.\<close>

definition plain_env :: "string list \<Rightarrow> (string \<Rightarrow> text_tree option) \<Rightarrow> palette_env" where
  "plain_env perms bundles =
     \<lparr>e_auth = signed_in perms, e_tr = \<lparr>tr_exists = (\<lambda>_ _. False), tr_layout = (\<lambda>_ k. k), tr_bundle = (\<lambda>_. bundles)\<rparr>,
      e_lang = En, e_extraNav = None, e_extraSearch = None, e_catalog = None, e_users = None, e_policies = None\<rparr>"

lemma palette_offers_openable_witness:
  "opens (signed_in []) ''/account-settings''"
proof -
  let ?e = "plain_env [] (\<lambda>_. None)"
  let ?item = "nav ''layout:nav.accountSettings'' ''/account-settings'' None 50 ''Settings''"
  have auth: "isAuthenticated (e_auth ?e) = Some True" by (simp add: plain_env_def signed_in_def auth_store_defs initial_auth_def)
  have extras: "extras_open ?e" by (simp add: extras_open_def plain_env_def nullish_def)
  have "?item \<in> set (all_nav_items ?e)"
    by (simp add: all_nav_items_def NAV_ITEMS_def nav_def offered_def no_permission_needed_def)
  then have "fst (page_entry ?e ?item) \<in> set (palette_results ?e [])"
    by (simp add: palette_results_def candidates_def Let_def filteredPages_def pageIndex_def to_lower_def)
  from palette_offers_openable [OF auth extras this, THEN conjunct1]
  show ?thesis by (simp add: page_entry_def Let_def nav_def plain_env_def)
qed

text \<open>The ranking of the palette. Whatever the candidates, the list shows each of them once; the
  results of one kind are together, sorted by relevance, and equally relevant ones keep their order;
  the groups are ordered by their best relevance, ties by the fixed priority of the kinds; and with
  two kinds or more each group has exactly one header, in this order.\<close>

theorem palette_ranked:
  "mset (palette_results e query) = mset (candidates e query)
   \<and> (\<forall>k d. sorted (map (relevance (to_lower query)) (filter (\<lambda>r. r_kind r = k) (palette_results e query)))
        \<and> filter (\<lambda>r. r_kind r = k \<and> relevance (to_lower query) r = d) (palette_results e query)
          = filter (\<lambda>r. r_kind r = k \<and> relevance (to_lower query) r = d) (candidates e query))
   \<and> distinct (remdups_adj (map r_kind (palette_results e query)))
   \<and> sorted_wrt (\<lambda>k l. kind_best (to_lower query) (candidates e query) k < kind_best (to_lower query) (candidates e query) l
        \<or> (kind_best (to_lower query) (candidates e query) k = kind_best (to_lower query) (candidates e query) l
            \<and> kindPriority k < kindPriority l)) (remdups_adj (map r_kind (palette_results e query)))
   \<and> group_headers (palette_results e query) =
       (if kindCount (palette_results e query) > 1
        then map GROUP_LABEL_KEY (remdups_adj (map r_kind (palette_results e query))) else [])"
proof -
  let ?q = "to_lower query" and ?cs = "candidates e query"
  have kinds: "sorted (map (relevance ?q) (filter (\<lambda>r. r_kind r = k) (rank_results ?q ?cs)))" for k
    unfolding rank_results_filter by (rule sorted_kind_sorted)
  have stable: "filter (\<lambda>r. r_kind r = k \<and> relevance ?q r = d) (rank_results ?q ?cs)
      = filter (\<lambda>r. r_kind r = k \<and> relevance ?q r = d) ?cs" for k d
  proof -
    have "filter (\<lambda>r. relevance ?q r = d) (filter (\<lambda>r. r_kind r = k) (rank_results ?q ?cs))
        = filter (\<lambda>r. r_kind r = k \<and> relevance ?q r = d) ?cs"
      unfolding rank_results_filter by (rule sorted_kind_stable)
    then show ?thesis by (simp add: conj_commute)
  qed
  show ?thesis unfolding palette_results_def ranked_runs ranked_headers kindCount_ranked
    using kinds stable by (simp add: rank_results_mset kind_order_distinct kind_order_sorted)
qed

lemma lower_join_contains:
  assumes "w \<in> set ws" "contains w q" "to_lower q = q"
  shows "contains (to_lower (join sep ws)) q"
proof -
  from assms(1) have "contains (join sep ws) w" by (rule contains_join)
  then have "contains (join sep ws) q" using assms(2) by (rule contains_trans)
  then have "contains (to_lower (join sep ws)) (to_lower q)" by (rule to_lower_contains)
  then show ?thesis by (simp only: assms(3))
qed

text \<open>An item whose text contains the query is listed.\<close>

lemma page_listed: "item \<in> set (all_nav_items e) \<Longrightarrow> contains (snd (page_entry e item)) q \<Longrightarrow> fst (page_entry e item) \<in> set (filteredPages e q)"
  by (auto simp: filteredPages_def pageIndex_def)

lemma content_listed: "item \<in> set (all_search_items e) \<Longrightarrow> q \<noteq> [] \<Longrightarrow> contains (snd (content_entry e item)) q \<Longrightarrow>
    fst (content_entry e item) \<in> set (filteredContent e q)"
  by (auto simp: filteredContent_def contentIndex_def)

lemma entry_to [simp]: "r_to (fst (page_entry e item)) = nav_to item" "r_to (fst (content_entry e i)) = si_to i"
  by (simp_all add: page_entry_def content_entry_def Let_def)

text \<open>A text match is a match, on a page that is listed. Every row of the group of texts shows a
  text that contains the query, ignoring case, and no unresolved placeholder, and its destination is
  also among the page or feature results.\<close>

theorem text_match_is_listed:
  assumes "r \<in> set (textMatches e (to_lower query))"
  shows "contains (to_lower (r_label r)) (to_lower query) \<and> \<not> contains (r_label r) ''{{'' \<and>
    (\<exists>p\<in>set (filteredPages e (to_lower query) @ filteredContent e (to_lower query)). r_to p = r_to r)"
proof -
  let ?q = "to_lower query"
  from textMatches_from [OF assms] consider
    (nav) item ns where "item \<in> set (all_nav_items e)" "r_to r = nav_to item" "?q \<noteq> []" "ns \<in> set (content_namespaces (nav_to item))"
      "r_label r \<in> set (namespaceMatches (e_tr e) ns (e_lang e) ?q)"
  | (search) item sc where "item \<in> set (all_search_items e)" "r_to r = si_to item" "?q \<noteq> []" "si_scope item = Some sc"
      "r_label r \<in> set (scopedMatches (e_tr e) (fst sc) (e_lang e) (snd sc) ?q)" by blast
  then show ?thesis
  proof cases
    case nav
    then have m: "is_match ?q (r_label r)" "r_label r \<in> set (flatten_node (tr_bundle (e_tr e) (e_lang e) ns))"
      by (simp_all add: namespaceMatches_eq)
    from match_in_joined [OF m(2,1)] have "contains (namespaceSearchText (e_tr e) ns (e_lang e)) ?q"
      by (simp add: namespaceSearchText_def)
    moreover have "namespaceSearchText (e_tr e) ns (e_lang e) \<in> set (resolveLabel e (nav_label item) #
        map (\<lambda>ns. namespaceSearchText (e_tr e) ns (e_lang e)) (content_namespaces (nav_to item)))" using nav(4) by simp
    ultimately have "contains (snd (page_entry e item)) ?q"
      unfolding page_entry_def Let_def snd_conv by (intro lower_join_contains [rotated]) simp_all
    from page_listed [OF nav(1) this] m nav(2) show ?thesis
      by (auto simp: is_match_def intro!: bexI [of _ "fst (page_entry e item)"])
  next
    case search
    let ?texts = "concat (map (\<lambda>path. flatten_node (getPath (tr_bundle (e_tr e) (e_lang e) (fst sc)) path)) (snd sc))"
    from search have m: "is_match ?q (r_label r)" "r_label r \<in> set ?texts" by (simp_all add: scopedMatches_eq)
    from match_in_joined [OF m(2,1)] have "contains (scopedSearchText (e_tr e) (fst sc) (e_lang e) (snd sc)) ?q"
      by (simp add: scopedSearchText_def)
    then have "contains (snd (content_entry e item)) ?q" unfolding content_entry_def Let_def snd_conv search(4) option.case
      by (intro lower_join_contains [where w = "scopedSearchText (e_tr e) (fst sc) (e_lang e) (snd sc)"]) simp_all
    from content_listed [OF search(1,3) this] m search(2) show ?thesis
      by (auto simp: is_match_def intro!: bexI [of _ "fst (content_entry e item)"])
  qed
qed

lemma pushMatch_first: "\<exists>ys. snd (foldl pushMatch (seen, r # rs) ms) = r # ys"
proof (induction ms arbitrary: seen rs)
  case (Cons m ms)
  have "\<exists>seen' rs'. pushMatch (seen, r # rs) m = (seen', r # rs')"
    by (cases m) (simp add: pushMatch_def Let_def)
  with Cons show ?case by auto
qed simp

lemma textMatches_first:
  assumes "q \<noteq> []" "all_nav_items e = i # is" "nav_matches e q i = m # ms"
  shows "match_result m \<in> set (textMatches e q)"
proof -
  obtain a b c d where m: "m = (a, b, c, d)" by (cases m)
  let ?rest = "ms @ concat (map (nav_matches e q) is) @ concat (map (search_matches e q) (all_search_items e))"
  have "pushMatch ([], []) m = ([a @ '' '' @ b], [match_result m])"
    by (simp add: m pushMatch_def Let_def set_add_def)
  then have "snd (foldl pushMatch ([], []) (m # ?rest)) = snd (foldl pushMatch ([a @ '' '' @ b], [match_result m]) ?rest)"
    by (simp only: foldl_Cons)
  with pushMatch_first obtain ys where ys: "snd (foldl pushMatch ([], []) (m # ?rest)) = match_result m # ys" by metis
  have "textMatches e q = take 20 (snd (foldl pushMatch ([], []) (m # ?rest)))"
    using assms(1) unfolding textMatches_def TEXT_MATCH_RESULTS_LIMIT_def assms(2) list.map concat.simps assms(3)
    by (simp del: foldl_append foldl_Cons)
  then show ?thesis unfolding ys by simp
qed

lemma text_match_is_listed_witness:
  "\<exists>p\<in>set (filteredPages (plain_env [] [''dashboard'' \<mapsto> Text ''Hello'']) ''hell''
      @ filteredContent (plain_env [] [''dashboard'' \<mapsto> Text ''Hello'']) ''hell''). r_to p = ''/dashboard''"
proof -
  let ?e = "plain_env [] [''dashboard'' \<mapsto> Text ''Hello'']"
  let ?item = "nav ''layout:nav.dashboard'' ''/dashboard'' None 10 ''LayoutDashboard''"
  let ?q = "to_lower ''Hell''"
  have q: "?q \<noteq> []" by simp
  have items: "all_nav_items ?e = ?item # tl (all_nav_items ?e)"
    by (simp add: all_nav_items_def NAV_ITEMS_def nav_def offered_def no_permission_needed_def)
  have "nav_matches ?e ?q ?item = [(''/dashboard'', ''Hello'', ''layout:nav.dashboard'', Some ''LayoutDashboard'')]"
    by code_simp
  from textMatches_first [OF q items this]
  have "match_result (''/dashboard'', ''Hello'', ''layout:nav.dashboard'', Some ''LayoutDashboard'') \<in> set (textMatches ?e (to_lower ''Hell''))" .
  from text_match_is_listed [OF this, THEN conjunct2, THEN conjunct2] have
    "\<exists>p\<in>set (filteredPages ?e (to_lower ''Hell'') @ filteredContent ?e (to_lower ''Hell'')). r_to p = ''/dashboard''"
    unfolding match_result_def prod.case result.simps .
  moreover have "to_lower ''Hell'' = ''hell''" by code_simp
  ultimately show ?thesis by (simp only:)
qed

section \<open>The keyboard\<close>

text \<open>The arrows stay inside the list and undo each other.\<close>

lemma arrows_cycle:
  assumes "pt_active p < n"
  shows "pt_active (arrow_down n p) < n" "pt_active (arrow_up n p) < n"
    "arrow_up n (arrow_down n p) = p" "arrow_down n (arrow_up n p) = p"
proof -
  show "pt_active (arrow_down n p) < n" "pt_active (arrow_up n p) < n"
    using assms by (auto simp: arrow_down_def arrow_up_def)
  have down: "(pt_active p + 1) mod n = (if pt_active p = n - 1 then 0 else pt_active p + 1)"
    using assms by auto
  have up: "(pt_active p + n - 1) mod n = (if pt_active p = 0 then n - 1 else pt_active p - 1)"
    using assms by (cases "pt_active p") auto
  have "((if pt_active p = n - 1 then 0 else pt_active p + 1) + n - 1) mod n = pt_active p"
    using assms by auto
  then show "arrow_up n (arrow_down n p) = p" using assms by (simp add: arrow_up_def arrow_down_def down del: One_nat_def)
  have "((if pt_active p = 0 then n - 1 else pt_active p - 1) + 1) mod n = pt_active p"
    using assms by auto
  then show "arrow_down n (arrow_up n p) = p" using assms by (simp add: arrow_up_def arrow_down_def up del: One_nat_def)
qed

definition first_target :: "result list \<Rightarrow> string option" where
  "first_target rs = (case rs of [] \<Rightarrow> None | r # _ \<Rightarrow> Some (r_to r))"

lemma enter_first: "pt_active p = 0 \<Longrightarrow> enter_target rs p = first_target rs"
  by (cases rs) (simp_all add: enter_target_def first_target_def)

text \<open>Enter acts on the results that are shown, which lag the input by the debounce. Typing resets
  the highlight at once, but until the timer has run Enter opens the first result of the previous
  query, and after closing and opening the palette again, with an empty input, the first result of
  the query of the last time. Once the timer has run it opens the first result of the text typed.\<close>

theorem enter_uses_shown_results:
  assumes "pt_prevIsOpen p" "pt_prevQuery p = pt_query p" "v \<noteq> pt_query p"
  shows "(let p' = palette_render True (type_query v p) in
      enter_target (palette_results e (shown_query p')) p' = first_target (palette_results e (shown_query p))
      \<and> enter_target (palette_results e (shown_query (debounce_fires p'))) (debounce_fires p') = first_target (palette_results e (trim v)))
    \<and> (let p' = palette_render True (palette_render False p) in
      pt_query p' = [] \<and> enter_target (palette_results e (shown_query p')) p' = first_target (palette_results e (shown_query p)))"
  using assms by (simp add: palette_render_def type_query_def debounce_fires_def shown_query_def enter_first Let_def)

lemma enter_uses_shown_results_witness:
  "let p = palette_mount True; p' = palette_render True (type_query ''users'' p) in
     enter_target (palette_results (plain_env [] (\<lambda>_. None)) (shown_query p')) p'
       = first_target (palette_results (plain_env [] (\<lambda>_. None)) [])"
  using enter_uses_shown_results [of "palette_mount True" "''users''" "plain_env [] (\<lambda>_. None)", THEN conjunct1]
  by (simp add: palette_mount_def Let_def shown_query_def trim_def trim_start_def trim_end_def)

end
