(* ===== verification/PageTabs.thy ===== *)
theory PageTabs
  imports Navigation
begin

text \<open>
  The two pages whose tabs can be linked to: \<open>audit_log/AuditLogPage.tsx\<close> (category and scope) and
  \<open>account_settings/AccountSettingsPage.tsx\<close>, with their session stores. The tab root itself is a
  library component; the code uses it uncontrolled: it takes its value from \<open>defaultValue\<close> when it
  is mounted, a changed \<open>key\<close> mounts it anew, and choosing another tab changes the value and calls
  \<open>onValueChange\<close>.
\<close>

section \<open>AuditLogPage.tsx\<close>

text \<open>The page reads the parameters of the URL and the session store.\<close>

record audit_page =
  au_url :: "(string \<times> string) list"
  au_category :: "string option"
  au_scope :: "string option"

definition initialCategory :: "audit_page \<Rightarrow> string" where
  "initialCategory p = nullish (map_of (au_url p) ''category'') (nullish (au_category p) ''authorization'')"

definition requestedScope :: "audit_page \<Rightarrow> string" where
  "requestedScope p = nullish (map_of (au_url p) ''scope'') (nullish (au_scope p) ''mine'')"

definition canReadAllPolicies :: "auth_state \<Rightarrow> bool" where
  "canReadAllPolicies s = useCan s (OneAction ''policies:read'') None"

definition canReadAllSecurity :: "auth_state \<Rightarrow> bool" where
  "canReadAllSecurity s = useCan s (OneAction ''security_audit:read'') None"

definition initialScope :: "auth_state \<Rightarrow> audit_page \<Rightarrow> string" where
  "initialScope s p =
     (if requestedScope p \<noteq> ''all''
         \<or> (if initialCategory p = ''authorization'' then canReadAllPolicies s else canReadAllSecurity s)
      then requestedScope p else ''mine'')"

definition setCategory :: "string \<Rightarrow> audit_page \<Rightarrow> audit_page" where
  "setCategory v p = p\<lparr>au_category := Some v, au_url := url_set ''category'' v (au_url p)\<rparr>"

definition setScope :: "string \<Rightarrow> audit_page \<Rightarrow> audit_page" where
  "setScope v p = p\<lparr>au_scope := Some v, au_url := url_set ''scope'' v (au_url p)\<rparr>"

text \<open>\<open>AllUsersTabTrigger\<close>: the scopes one can choose in a category.\<close>

definition scope_triggers :: "auth_state \<Rightarrow> string \<Rightarrow> string list" where
  "scope_triggers s permission = ''mine'' # (if useCan s (OneAction permission) None then [''all''] else [])"

datatype audit_panel = MyAuthorizationLog | AllAuthorizationLog | MySecurityLog | AllSecurityLog

definition category_panel :: "auth_state \<Rightarrow> string \<Rightarrow> string \<Rightarrow> audit_panel \<Rightarrow> audit_panel \<Rightarrow> audit_panel option" where
  "category_panel s permission scope mine all =
     (if scope = ''mine'' then Some mine
      else if scope = ''all'' \<and> ifcan_view s (OneAction permission) = GateChildren then Some all else None)"

text \<open>The section that is shown; none when no tab has the value.\<close>

definition audit_view :: "auth_state \<Rightarrow> audit_page \<Rightarrow> audit_panel option" where
  "audit_view s p =
     (if initialCategory p = ''authorization'' then
        category_panel s ''policies:read'' (initialScope s p) MyAuthorizationLog AllAuthorizationLog
      else if initialCategory p = ''security'' then
        category_panel s ''security_audit:read'' (initialScope s p) MySecurityLog AllSecurityLog
      else None)"

text \<open>The labels announced for the view.\<close>

definition activeCategoryLabel :: "audit_page \<Rightarrow> string" where
  "activeCategoryLabel p = (if initialCategory p = ''security'' then ''tabs.securityEvents'' else ''tabs.authorizationDecisions'')"

definition activeScopeLabel :: "auth_state \<Rightarrow> audit_page \<Rightarrow> string" where
  "activeScopeLabel s p = (if initialScope s p = ''all'' then ''tabs.allUsers'' else ''tabs.myActivity'')"

text \<open>Reloading keeps the URL only, coming back through the sidebar keeps the store only.\<close>

definition reload_audit :: "audit_page \<Rightarrow> audit_page" where
  "reload_audit p = p\<lparr>au_category := None, au_scope := None\<rparr>"

definition revisit_audit :: "audit_page \<Rightarrow> audit_page" where
  "revisit_audit p = p\<lparr>au_url := []\<rparr>"

lemma useCan_ifcan: "useCan s a None \<longleftrightarrow> ifcan_view s a = GateChildren"
  using can_established [of s a] by (auto simp: useCan_def ifcan_view_def authorized_view_def Let_def)

text \<open>C35: The audit log never shows a management section without its permission, and a link never
  leads to an empty page. A link to either scope of either category opens exactly that section, or the
  caller's own one when the permission of the other is missing; and whatever the URL and the store say,
  a section about all users is shown only with the permission of its category.\<close>

theorem audit_links:
  "((c = ''authorization'' \<or> c = ''security'') \<and> (sc = ''mine'' \<or> sc = ''all'') \<longrightarrow>
     audit_view s \<lparr>au_url = [(''category'', c), (''scope'', sc)], au_category = c0, au_scope = sc0\<rparr> =
       Some (if c = ''authorization''
             then (if sc = ''all'' \<and> canReadAllPolicies s then AllAuthorizationLog else MyAuthorizationLog)
             else (if sc = ''all'' \<and> canReadAllSecurity s then AllSecurityLog else MySecurityLog)))
   \<and> (audit_view s p = Some AllAuthorizationLog \<longrightarrow> canReadAllPolicies s)
   \<and> (audit_view s p = Some AllSecurityLog \<longrightarrow> canReadAllSecurity s)"
  by (auto simp: audit_view_def initialCategory_def requestedScope_def initialScope_def nullish_def
      category_panel_def canReadAllPolicies_def canReadAllSecurity_def useCan_ifcan split: if_splits)

lemma audit_links_witness:
  "audit_view (signed_in [''policies:read'']) \<lparr>au_url = [(''category'', ''security''), (''scope'', ''all'')], au_category = None, au_scope = None\<rparr>
     = Some MySecurityLog"
proof -
  have "\<not> canReadAllSecurity (signed_in [''policies:read''])" by code_simp
  with audit_links [of "''security''" "''all''" "signed_in [''policies:read'']" None None, THEN conjunct1] show ?thesis by simp
qed

text \<open>What a reload keeps. Choosing a category writes it to the URL and to the store, so the category
  survives a reload and a later visit. The scope does not always: choosing a category leaves the scope
  in the store only when it came from there, and then a reload shows the caller's own activity again.
  The requested scope survives the reload if and only if it is in the URL or is the default.\<close>

theorem audit_reload:
  "initialCategory (reload_audit (setCategory v p)) = v \<and> initialCategory (revisit_audit (setCategory v p)) = v
   \<and> requestedScope (reload_audit (setScope w p)) = w \<and> requestedScope (revisit_audit (setScope w p)) = w
   \<and> requestedScope (setCategory v p) = requestedScope p \<and> initialCategory (setScope w p) = initialCategory p
   \<and> (requestedScope (reload_audit (setCategory v p)) = requestedScope p \<longleftrightarrow>
        map_of (au_url p) ''scope'' \<noteq> None \<or> nullish (au_scope p) ''mine'' = ''mine'')"
proof -
  have "requestedScope (reload_audit (setCategory v p)) = requestedScope p \<longleftrightarrow>
      map_of (au_url p) ''scope'' \<noteq> None \<or> nullish (au_scope p) ''mine'' = ''mine''"
    by (cases "map_of (au_url p) ''scope''")
      (auto simp: requestedScope_def reload_audit_def setCategory_def map_of_url_set nullish_def)
  then show ?thesis
    by (simp add: initialCategory_def requestedScope_def reload_audit_def revisit_audit_def setCategory_def setScope_def
        map_of_url_set nullish_def)
qed

section \<open>AccountSettingsPage.tsx\<close>

definition SETTINGS_TABS :: "string list" where
  "SETTINGS_TABS = [''profile'', ''password'', ''passkeys'', ''status'', ''appearance'', ''legal'', ''danger'']"

text \<open>
  \<open>sp_key\<close> and \<open>sp_selected\<close> are the tab root's: the key it was mounted with and the tab its strip
  marks. \<open>sp_stored\<close> is the session store's, which outlives the page.
\<close>

record settings_page =
  sp_key :: "string option"
  sp_selected :: string
  sp_active :: string
  sp_visited :: "string list"
  sp_stored :: "string option"
  sp_nameDirty :: bool
  sp_passwordDirty :: bool

definition initialTab :: "string option \<Rightarrow> string option \<Rightarrow> string" where
  "initialTab deepLinkTab storedTab = nullish deepLinkTab (nullish storedTab ''profile'')"

definition settings_mount :: "string option \<Rightarrow> string option \<Rightarrow> settings_page" where
  "settings_mount deepLinkTab stored =
     (let tab = initialTab deepLinkTab stored in
      \<lparr>sp_key = deepLinkTab, sp_selected = tab, sp_active = tab, sp_visited = [tab], sp_stored = stored,
       sp_nameDirty = False, sp_passwordDirty = False\<rparr>)"

text \<open>A render with the URL's tab: a new key mounts the tab root anew, the page's own state stays.\<close>

definition settings_render :: "string option \<Rightarrow> settings_page \<Rightarrow> settings_page" where
  "settings_render deepLinkTab p =
     (if deepLinkTab \<noteq> sp_key p
      then p\<lparr>sp_key := deepLinkTab, sp_selected := initialTab deepLinkTab (sp_stored p)\<rparr> else p)"

definition handleTabChange :: "string \<Rightarrow> settings_page \<Rightarrow> settings_page" where
  "handleTabChange v p =
     p\<lparr>sp_active := v, sp_stored := Some v,
       sp_visited := (if v \<in> set (sp_visited p) then sp_visited p else set_add v (sp_visited p))\<rparr>"

definition click_tab :: "string \<Rightarrow> settings_page \<Rightarrow> settings_page" where
  "click_tab v p = (if v = sp_selected p then p else handleTabChange v (p\<lparr>sp_selected := v\<rparr>))"

text \<open>The panels that are mounted and not hidden, among the tabs there are.\<close>

definition panels_shown :: "string list \<Rightarrow> settings_page \<Rightarrow> string list" where
  "panels_shown tabs p = filter (\<lambda>v. v \<in> set (sp_visited p) \<and> sp_active p = v) tabs"

text \<open>\<open>useUnsavedChangesWarning\<close>: whether leaving the page asks for confirmation.\<close>

definition leave_warning :: "settings_page \<Rightarrow> bool" where
  "leave_warning p = (if sp_nameDirty p \<or> sp_passwordDirty p then True else False)"

definition tabs_agree :: "settings_page \<Rightarrow> bool" where
  "tabs_agree p \<longleftrightarrow> sp_selected p = sp_active p \<and> sp_active p \<in> set (sp_visited p)"

lemma tabs_agree_mount: "tabs_agree (settings_mount d st)"
  by (simp add: tabs_agree_def settings_mount_def Let_def)

lemma tabs_agree_click: "tabs_agree p \<Longrightarrow> tabs_agree (click_tab v p)"
  by (simp add: tabs_agree_def click_tab_def handleTabChange_def)

lemma tabs_agree_clicks: "tabs_agree p \<Longrightarrow> tabs_agree (foldl (\<lambda>p v. click_tab v p) p vs)"
  by (induction vs arbitrary: p) (simp_all add: tabs_agree_click)

lemma clicks_key: "sp_key (foldl (\<lambda>p v. click_tab v p) p vs) = sp_key p"
  by (induction vs arbitrary: p) (simp_all add: click_tab_def handleTabChange_def)

lemma visited_stays: "v \<in> set (sp_visited p) \<Longrightarrow> v \<in> set (sp_visited (click_tab w p)) \<and> v \<in> set (sp_visited (settings_render d p))"
  by (simp add: click_tab_def handleTabChange_def settings_render_def)

lemma panels_of_agree: "tabs_agree p \<Longrightarrow> distinct tabs \<Longrightarrow> panels_shown tabs p = (if sp_selected p \<in> set tabs then [sp_selected p] else [])"
proof -
  assume a: "tabs_agree p" and d: "distinct tabs"
  have "filter (\<lambda>v. x = v) xs = (if x \<in> set xs then [x] else [])" if "distinct xs" for x and xs :: "string list"
    using that by (induction xs) auto
  moreover have "panels_shown tabs p = filter (\<lambda>v. sp_selected p = v) tabs"
    unfolding panels_shown_def using a by (intro filter_cong) (auto simp: tabs_agree_def)
  ultimately show ?thesis using d by simp
qed

text \<open>A link to a settings tab works from outside the page only. Opened by a link, the page shows the
  linked tab, and whatever tabs are then clicked, the panel shown is the one the strip marks. A link to
  another tab followed while the page is open moves the mark only: the panel stays the old one, and
  clicking the marked tab does not bring up its panel. A link followed a second time does nothing.\<close>

theorem settings_links:
  assumes "distinct tabs" "d \<in> set tabs" "d' \<noteq> d"
    and p: "p = foldl (\<lambda>p v. click_tab v p) (settings_mount (Some d) stored) vs" and vs: "set vs \<subseteq> set tabs"
  shows "panels_shown tabs p = [sp_selected p] \<and> sp_selected (settings_mount (Some d) stored) = d
    \<and> sp_selected (settings_render (Some d') p) = d' \<and> panels_shown tabs (settings_render (Some d') p) = [sp_selected p]
    \<and> click_tab d' (settings_render (Some d') p) = settings_render (Some d') p
    \<and> settings_render (Some d) p = p"
proof -
  have agree: "tabs_agree p" unfolding p by (intro tabs_agree_clicks tabs_agree_mount)
  have key: "sp_key p = Some d" unfolding p clicks_key by (simp add: settings_mount_def Let_def)
  have "sp_selected q \<in> set tabs \<Longrightarrow> sp_selected (foldl (\<lambda>p v. click_tab v p) q vs) \<in> set tabs" for q
    using vs by (induction vs arbitrary: q) (auto simp: click_tab_def handleTabChange_def)
  then have selected: "sp_selected p \<in> set tabs" unfolding p using assms(2)
    by (simp add: settings_mount_def Let_def initialTab_def nullish_def)
  have shown: "panels_shown tabs p = [sp_selected p]" using panels_of_agree [OF agree assms(1)] selected by simp
  have "panels_shown tabs (settings_render (Some d') p) = panels_shown tabs p"
    by (simp add: panels_shown_def settings_render_def)
  with shown key assms(3) show ?thesis
    by (simp add: settings_render_def settings_mount_def click_tab_def initialTab_def nullish_def Let_def)
qed

lemma settings_links_witness:
  "panels_shown SETTINGS_TABS (settings_render (Some ''passkeys'') (settings_mount (Some ''password'') None)) = [''password'']"
proof -
  have "distinct SETTINGS_TABS" "''password'' \<in> set SETTINGS_TABS" "''passkeys'' \<noteq> ''password''"
    "set [] \<subseteq> set SETTINGS_TABS" by (simp_all add: SETTINGS_TABS_def)
  then have "panels_shown SETTINGS_TABS (settings_render (Some ''passkeys'') (settings_mount (Some ''password'') None))
      = [sp_selected (settings_mount (Some ''password'') None)]"
    using settings_links [of SETTINGS_TABS "''password''" "''passkeys''" "settings_mount (Some ''password'') None" None "[]"] by simp
  then show ?thesis by (simp add: settings_mount_def Let_def initialTab_def nullish_def)
qed

end
