(* ===== verification/Formatting.thy ===== *)
theory Formatting
  imports Preferences
begin

text \<open>
  Numbers, dates and names as the interface shows them: \<open>translations/numerals.ts\<close>,
  \<open>monthNames.ts\<close>, \<open>timeOfDay.ts\<close>, \<open>ui/dates/dateFormatters.ts\<close>, \<open>ui/display/initialsFor.ts\<close>,
  \<open>active_sessions/parseUserAgent.ts\<close>. Native digits and month names need code units above 255,
  so these texts are lists of code units. The local time zone and the locale data of \<open>Intl\<close> are
  parameters.
\<close>

section \<open>numerals.ts\<close>

text \<open>The digit maps: the ten digits of each script are consecutive code units from the zero given.\<close>

definition digit_zero :: "language \<Rightarrow> nat option" where
  "digit_zero lang = (case lang of En \<Rightarrow> None | Hi \<Rightarrow> Some 2406 | Mr \<Rightarrow> Some 2406 | Gu \<Rightarrow> Some 2790)"

definition map_digit :: "nat \<Rightarrow> nat \<Rightarrow> nat" where
  "map_digit zero c = (if 48 \<le> c \<and> c \<le> 57 then zero + (c - 48) else c)"

datatype shown_value = Number int | Words ustring

definition string_of :: "shown_value \<Rightarrow> ustring" where
  "string_of v = (case v of Number n \<Rightarrow> codes (show_int n) | Words u \<Rightarrow> u)"

definition formatNumber :: "shown_value option \<Rightarrow> language \<Rightarrow> ustring" where
  "formatNumber value lang =
     (case value of None \<Rightarrow> codes ''-''
      | Some v \<Rightarrow> (case digit_zero lang of None \<Rightarrow> string_of v | Some z \<Rightarrow> map (map_digit z) (string_of v)))"

section \<open>monthNames.ts and timeOfDay.ts\<close>

definition MONTH_NAMES_SHORT :: "language \<Rightarrow> ustring list" where
  "MONTH_NAMES_SHORT lang = (case lang of
       En \<Rightarrow>
          map codes [''Jan'', ''Feb'', ''Mar'', ''Apr'', ''May'', ''Jun'', ''Jul'', ''Aug'', ''Sep'', ''Oct'', ''Nov'', ''Dec'']
     | Hi \<Rightarrow>
          [[2332, 2344], [2347, 2364, 2352], [2350, 2366, 2352, 2381, 2330], [2309, 2346, 2381, 2352, 2376, 2354],
           [2350, 2312], [2332, 2370, 2344], [2332, 2369, 2354], [2309, 2327], [2360, 2367, 2340],
           [2309, 2325, 2381, 2340, 2370], [2344, 2357], [2342, 2367, 2360]]
     | Mr \<Rightarrow>
          [[2332, 2366, 2344, 2375], [2347, 2375, 2348, 2381, 2352, 2369], [2350, 2366, 2352, 2381, 2330],
           [2319, 2346, 2381, 2352, 2367], [2350, 2375], [2332, 2370, 2344], [2332, 2369, 2354, 2376], [2321, 2327],
           [2360, 2346, 2381, 2335, 2375, 2306], [2321, 2325, 2381, 2335, 2379],
           [2344, 2379, 2357, 2381, 2361, 2375, 2306], [2337, 2367, 2360, 2375, 2306]]
     | Gu \<Rightarrow>
          [[2716, 2750, 2728], [2731, 2759, 2732], [2734, 2750, 2736, 2765, 2714], [2703, 2730, 2765, 2736, 2751],
           [2734, 2759], [2716, 2754, 2728], [2716, 2753, 2738, 2750], [2705, 2711], [2744, 2730, 2765, 2719, 2759],
           [2705, 2709, 2765, 2719, 2763], [2728, 2741, 2759], [2721, 2751, 2744, 2759]])"

definition monthNameShort :: "nat \<Rightarrow> language \<Rightarrow> ustring" where
  "monthNameShort monthIndex lang = MONTH_NAMES_SHORT lang ! monthIndex"

text \<open>
  What the code reads of a \<open>Date\<close> in the local time zone. \<open>clock\<close> is \<open>Intl\<close>'s text for the time of
  day in the language's locale.
\<close>

record local_date =
  ld_day :: nat
  ld_month :: nat
  ld_year :: int
  ld_hour :: nat
  ld_minute :: nat

type_synonym clock = "language \<Rightarrow> local_date \<Rightarrow> ustring"

definition formatHourMinute :: "clock \<Rightarrow> local_date \<Rightarrow> language \<Rightarrow> ustring" where
  "formatHourMinute clk d lang = formatNumber (Some (Words (clk lang d))) lang"

section \<open>dateFormatters.ts\<close>

definition day_month_year :: "local_date \<Rightarrow> language \<Rightarrow> ustring" where
  "day_month_year d lang =
     codes (pad2 (ld_day d)) @ codes '' '' @ monthNameShort (ld_month d) lang @ codes '' '' @ codes (show_int (ld_year d))"

definition formatMemberSince :: "local_date \<Rightarrow> language \<Rightarrow> ustring" where
  "formatMemberSince d lang = formatNumber (Some (Words (day_month_year d lang))) lang"

definition formatDateTime :: "clock \<Rightarrow> local_date \<Rightarrow> language \<Rightarrow> ustring" where
  "formatDateTime clk d lang =
     formatNumber (Some (Words (day_month_year d lang @ codes '', '' @ formatHourMinute clk d lang))) lang"

definition formatTimeOnly :: "clock \<Rightarrow> local_date \<Rightarrow> language \<Rightarrow> ustring" where
  "formatTimeOnly clk d lang = formatHourMinute clk d lang"

text \<open>\<open>long\<close>: \<open>Intl\<close>'s long date in the locale of the language.\<close>

definition LONG_DATE_LOCALES :: "language \<Rightarrow> string" where
  "LONG_DATE_LOCALES lang = (case lang of En \<Rightarrow> ''en-GB'' | Hi \<Rightarrow> ''hi-IN'' | Mr \<Rightarrow> ''mr-IN'' | Gu \<Rightarrow> ''gu-IN'')"

definition formatLongDate :: "(string \<Rightarrow> local_date \<Rightarrow> ustring) \<Rightarrow> local_date \<Rightarrow> language \<Rightarrow> ustring" where
  "formatLongDate long d lang = formatNumber (Some (Words (long (LONG_DATE_LOCALES lang) d))) lang"

definition RELATIVE_UNITS :: "(string \<times> int) list" where
  "RELATIVE_UNITS =
     [(''year'', 365 * 24 * 60 * 60), (''month'', 30 * 24 * 60 * 60), (''week'', 7 * 24 * 60 * 60),
      (''day'', 24 * 60 * 60), (''hour'', 60 * 60), (''minute'', 60)]"

text \<open>\<open>Math.floor\<close> of a quotient of integers, not below zero; times are in milliseconds.\<close>

definition elapsed_seconds :: "int \<Rightarrow> int \<Rightarrow> int" where
  "elapsed_seconds now time = max 0 ((now - time) div 1000)"

text \<open>The unit and the amount that are handed to \<open>Intl.RelativeTimeFormat\<close>.\<close>

definition relative_amount :: "int \<Rightarrow> int \<times> string" where
  "relative_amount seconds =
     (case find (\<lambda>u. seconds \<ge> snd u) RELATIVE_UNITS of
        Some u \<Rightarrow> (- (seconds div snd u), fst u)
      | None \<Rightarrow> (0, ''second''))"

definition formatRelativeTime :: "(language \<Rightarrow> int \<times> string \<Rightarrow> ustring) \<Rightarrow> int \<Rightarrow> language \<Rightarrow> int \<Rightarrow> ustring" where
  "formatRelativeTime rtf time lang now =
     formatNumber (Some (Words (rtf lang (relative_amount (elapsed_seconds now time))))) lang"

section \<open>initialsFor.ts\<close>

definition initialsFor :: "string option \<Rightarrow> string option \<Rightarrow> string" where
  "initialsFor name email =
     (let trimmed = (case name of None \<Rightarrow> [] | Some n \<Rightarrow> trim n);
          source = (if trimmed \<noteq> [] then trimmed
                    else case email of None \<Rightarrow> [] | Some e \<Rightarrow> hd (split_on CHR ''@'' e)) in
      if source = [] then []
      else concat (map (\<lambda>part. case part of [] \<Rightarrow> [] | c # _ \<Rightarrow> upper_char c) (take 2 (split_ws source))))"

section \<open>parseUserAgent.ts\<close>

text \<open>\<open>/pattern/i.test(ua)\<close> for a literal pattern in lower case.\<close>

definition ua_has :: "string \<Rightarrow> string \<Rightarrow> bool" where
  "ua_has pat ua \<longleftrightarrow> contains (to_lower ua) pat"

definition browser_of :: "string \<Rightarrow> string option" where
  "browser_of ua =
     (if ua_has ''edg/'' ua then Some ''Edge''
      else if ua_has ''opr/'' ua \<or> ua_has ''opera'' ua then Some ''Opera''
      else if ua_has ''chrome'' ua \<or> ua_has ''crios'' ua then Some ''Chrome''
      else if ua_has ''firefox'' ua \<or> ua_has ''fxios'' ua then Some ''Firefox''
      else if ua_has ''safari'' ua then Some ''Safari'' else None)"

definition os_of :: "string \<Rightarrow> string option" where
  "os_of ua =
     (if ua_has ''windows'' ua then Some ''Windows''
      else if ua_has ''iphone'' ua \<or> ua_has ''ipad'' ua \<or> ua_has ''ipod'' ua then Some ''iOS''
      else if ua_has ''mac os x'' ua then Some ''macOS''
      else if ua_has ''android'' ua then Some ''Android''
      else if ua_has ''linux'' ua then Some ''Linux'' else None)"

text \<open>\<open>tr\<close> translates a key with the parameters given.\<close>

definition parseUserAgent :: "(string \<Rightarrow> (string \<times> string) list \<Rightarrow> string) \<Rightarrow> string option \<Rightarrow> string" where
  "parseUserAgent tr userAgent =
     (if \<not> truthy userAgent then tr ''dashboard:parseUserAgent.unknownDevice'' []
      else let ua = the userAgent in
        tr ''dashboard:parseUserAgent.deviceLabel''
          [(''browser'', nullish (browser_of ua) (tr ''dashboard:parseUserAgent.unknownBrowser'' [])),
           (''os'', nullish (os_of ua) (tr ''dashboard:parseUserAgent.unknownOS'' []))])"

datatype device_category = Mobile | Tablet | Desktop

definition deviceCategoryFor :: "string option \<Rightarrow> device_category" where
  "deviceCategoryFor userAgent =
     (if \<not> truthy userAgent then Desktop
      else let ua = the userAgent in
        if ua_has ''ipad'' ua \<or> ua_has ''tablet'' ua then Tablet
        else if ua_has ''mobi'' ua \<or> ua_has ''iphone'' ua \<or> ua_has ''ipod'' ua \<or> ua_has ''android'' ua then Mobile
        else Desktop)"

section \<open>Lemmas\<close>

lemma map_digit_idem: "z \<noteq> 0 \<Longrightarrow> z > 57 \<Longrightarrow> map_digit z (map_digit z c) = map_digit z c"
  by (cases "48 \<le> c \<and> c \<le> 57") (auto simp: map_digit_def)

lemma formatNumber_idem [simp]:
  "formatNumber (Some (Words (formatNumber (Some v) lang))) lang = formatNumber (Some v) lang"
  by (cases lang) (simp_all add: formatNumber_def digit_zero_def string_of_def map_digit_idem)

lemma formatNumber_append:
  "formatNumber (Some (Words (u @ v))) lang = formatNumber (Some (Words u)) lang @ formatNumber (Some (Words v)) lang"
  by (cases lang) (simp_all add: formatNumber_def digit_zero_def string_of_def)

lemma length_formatNumber: "length (formatNumber (Some (Words u)) lang) = length u"
  by (cases lang) (simp_all add: formatNumber_def digit_zero_def string_of_def)

text \<open>Reading the digits back.\<close>

definition ascii_digit :: "language \<Rightarrow> nat \<Rightarrow> nat" where
  "ascii_digit lang c = (case digit_zero lang of None \<Rightarrow> c
     | Some z \<Rightarrow> if z \<le> c \<and> c \<le> z + 9 then 48 + (c - z) else c)"

definition plain_text :: "ustring \<Rightarrow> bool" where
  "plain_text u \<longleftrightarrow> list_all (\<lambda>c. c < 256) u"

lemma ascii_map_digit: "c < 256 \<Longrightarrow> digit_zero lang = Some z \<Longrightarrow> ascii_digit lang (map_digit z c) = c"
  by (cases lang) (auto simp: ascii_digit_def digit_zero_def map_digit_def)

lemma read_formatNumber: "plain_text u \<Longrightarrow> map (ascii_digit lang) (formatNumber (Some (Words u)) lang) = u"
proof (cases "digit_zero lang")
  case None
  then have "map (ascii_digit lang) u = u" by (induction u) (simp_all add: ascii_digit_def)
  with None show ?thesis by (simp add: formatNumber_def string_of_def)
next
  case (Some z)
  assume "plain_text u"
  then have "map (ascii_digit lang) (map (map_digit z) u) = u"
    using Some by (induction u) (simp_all add: plain_text_def ascii_map_digit)
  with Some show ?thesis by (simp add: formatNumber_def string_of_def)
qed

lemma codes_plain: "plain_text (codes s)"
  by (simp add: plain_text_def codes_def list_all_iff ucode_def)

lemma codes_inj: "codes s = codes t \<longleftrightarrow> s = t"
proof
  assume "codes s = codes t"
  then have "map char_of (codes s) = (map char_of (codes t) :: string)" by simp
  then show "s = t" by (simp add: codes_def ucode_def o_def)
qed simp

text \<open>A date and its time are formatted part by part.\<close>

lemma formatDateTime_parts:
  "formatDateTime clk d lang = formatMemberSince d lang @ codes '', '' @ formatTimeOnly clk d lang"
proof -
  have "formatNumber (Some (Words (codes '', ''))) lang = codes '', ''"
    by (cases lang) (simp_all add: formatNumber_def digit_zero_def string_of_def map_digit_def codes_def ucode_def)
  then show ?thesis
    by (simp add: formatDateTime_def formatMemberSince_def formatTimeOnly_def formatHourMinute_def formatNumber_append)
qed

section \<open>Properties\<close>

text \<open>C38: Localised numerals lose nothing. In every language a number is shown with the digits of its
  decimal form, one for one, so that reading the digits back gives that form, different numbers look
  different, and formatting a text that is already localised changes nothing, which is what makes the
  repeated formatting of dates with times harmless.\<close>

theorem numerals_roundtrip:
  "map (ascii_digit lang) (formatNumber (Some (Number n)) lang) = codes (show_int n)
   \<and> (formatNumber (Some (Number m)) lang = formatNumber (Some (Number n)) lang \<longleftrightarrow> m = n)
   \<and> formatNumber (Some (Words (formatNumber v lang))) lang = formatNumber v lang
   \<and> formatDateTime clk d lang = formatMemberSince d lang @ codes '', '' @ formatTimeOnly clk d lang"
proof -
  have number: "formatNumber (Some (Number k)) lang = formatNumber (Some (Words (codes (show_int k)))) lang" for k
    by (simp add: formatNumber_def string_of_def split: option.split)
  have reading: "map (ascii_digit lang) (formatNumber (Some (Number k)) lang) = codes (show_int k)" for k
    unfolding number by (rule read_formatNumber [OF codes_plain])
  then have "formatNumber (Some (Number m)) lang = formatNumber (Some (Number n)) lang \<Longrightarrow> m = n"
    by (metis codes_inj show_int_inject)
  moreover have "formatNumber (Some (Words (formatNumber None lang))) lang = formatNumber None lang"
    by (cases lang) (simp_all add: formatNumber_def digit_zero_def string_of_def map_digit_def codes_def ucode_def)
  then have "formatNumber (Some (Words (formatNumber v lang))) lang = formatNumber v lang" by (cases v) simp_all
  ultimately show ?thesis using reading formatDateTime_parts by auto
qed

definition unit_max :: "string \<Rightarrow> int" where
  "unit_max u = (if u = ''month'' then 12 else if u = ''week'' then 4 else if u = ''day'' then 6
     else if u = ''hour'' then 23 else 59)"

text \<open>A relative time is never in the future and never absurd. The amount is zero seconds within
  the first minute; after that it counts the largest unit that fits, at least one and rounded down, and
  at most 59 minutes, 23 hours, 6 days, 4 weeks or 12 months.\<close>

theorem relative_time_bounds:
  "(let s = elapsed_seconds now time; r = relative_amount s in
     if s < 60 then r = (0, ''second'')
     else (\<exists>U. (snd r, U) \<in> set RELATIVE_UNITS \<and> - fst r \<ge> 1 \<and> - fst r * U \<le> s \<and> s < (- fst r + 1) * U
            \<and> (snd r = ''year'' \<or> - fst r \<le> unit_max (snd r))))"
proof -
  define s where "s = elapsed_seconds now time"
  have div: "1 \<le> s div U \<and> s div U * U \<le> s \<and> s < (s div U + 1) * U" if "0 < U" "U \<le> s" for U :: int
  proof -
    have eq: "s div U * U + s mod U = s" by (rule div_mult_mod_eq)
    have "0 \<le> s mod U" "s mod U < U" using that(1) by simp_all
    moreover have "1 \<le> s div U" using that by (simp add: pos_imp_zdiv_pos_iff int_one_le_iff_zero_less)
    ultimately show ?thesis using eq unfolding distrib_right mult_1 by linarith
  qed
  consider "s < 60" | "60 \<le> s" "s < 3600" | "3600 \<le> s" "s < 86400" | "86400 \<le> s" "s < 604800"
    | "604800 \<le> s" "s < 2592000" | "2592000 \<le> s" "s < 31536000" | "31536000 \<le> s" by linarith
  then have "if s < 60 then relative_amount s = (0, ''second'')
     else (\<exists>U. (snd (relative_amount s), U) \<in> set RELATIVE_UNITS \<and> - fst (relative_amount s) \<ge> 1
            \<and> - fst (relative_amount s) * U \<le> s \<and> s < (- fst (relative_amount s) + 1) * U
            \<and> (snd (relative_amount s) = ''year'' \<or> - fst (relative_amount s) \<le> unit_max (snd (relative_amount s))))"
  proof cases
    case 1
    then show ?thesis by (simp add: relative_amount_def RELATIVE_UNITS_def)
  next
    case 2
    then show ?thesis using div [of 60] by (auto simp: relative_amount_def RELATIVE_UNITS_def unit_max_def)
  next
    case 3
    then show ?thesis using div [of 3600] by (auto simp: relative_amount_def RELATIVE_UNITS_def unit_max_def)
  next
    case 4
    then show ?thesis using div [of 86400] by (auto simp: relative_amount_def RELATIVE_UNITS_def unit_max_def)
  next
    case 5
    then show ?thesis using div [of 604800] by (auto simp: relative_amount_def RELATIVE_UNITS_def unit_max_def)
  next
    case 6
    then show ?thesis using div [of 2592000] by (auto simp: relative_amount_def RELATIVE_UNITS_def unit_max_def)
  next
    case 7
    then show ?thesis using div [of 31536000] by (auto simp: relative_amount_def RELATIVE_UNITS_def unit_max_def)
  qed
  then show ?thesis unfolding s_def Let_def .
qed

text \<open>What the device label makes of a browser that names itself in another way than \<open>Edg/\<close>, and of
  a tablet that does not say so.\<close>

lemma edge_mobile: "browser_of ''Mozilla/5.0 (Linux; Android 10) Chrome/120.0 Mobile Safari/537.36 EdgA/120.0'' = Some ''Chrome''"
  by code_simp

lemma android_tablet: "deviceCategoryFor (Some ''Mozilla/5.0 (Linux; Android 13; SM-X700) Chrome/120.0 Safari/537.36'') = Mobile"
  by code_simp

lemma device_of_os: "truthy ua \<Longrightarrow> os_of (the ua) = Some ''Android'' \<Longrightarrow> deviceCategoryFor ua \<noteq> Desktop"
  by (auto simp: os_of_def deviceCategoryFor_def Let_def split: if_splits)

end
