(* ===== verification/AuditLog.thy ===== *)
theory AuditLog
  imports Complex_Main Formatting PageTabs Selection
begin

text \<open>
  The two audit logs: the time range and its request parameters (\<open>audit_log/auditLogListConfig.ts\<close>,
  \<open>ui/filters/TimeRangeControl.tsx\<close>), the filters, chips and queries of the four sections
  (\<open>security_log/*Section.tsx\<close>, \<open>authorization_log/*Section.tsx\<close> and their filter bars), the details
  drawer that steps through the log, the event types, the description of an access change
  (\<open>securityAccessChangeDetails.ts\<close>) and the numbers of the sign-in chart (\<open>LoginTrendChart.tsx\<close>).
\<close>

section \<open>Time ranges\<close>

definition AUDIT_PAGE_SIZE :: nat where "AUDIT_PAGE_SIZE = 25"

definition totalPagesFor :: "nat \<Rightarrow> nat" where
  "totalPagesFor n = max 1 (ceil_div n AUDIT_PAGE_SIZE)"

definition log_bool_filter :: "string \<Rightarrow> bool option" where
  "log_bool_filter value = (if value = [] then None else Some (value = ''true''))"

datatype time_range = Last7 | Last14 | Last30 | Last90 | Custom

definition TIME_RANGE_PRESETS :: "time_range list" where
  "TIME_RANGE_PRESETS = [Last7, Last14, Last30, Last90]"

definition preset_days :: "time_range \<Rightarrow> int" where
  "preset_days r = (case r of Last7 \<Rightarrow> 7 | Last14 \<Rightarrow> 14 | Last30 \<Rightarrow> 30 | Last90 \<Rightarrow> 90 | Custom \<Rightarrow> 14)"

record range_state =
  rs_range :: time_range
  rs_from :: string
  rs_to :: string

definition DEFAULT_TIME_RANGE_STATE :: range_state where
  "DEFAULT_TIME_RANGE_STATE = \<lparr>rs_range = Last14, rs_from = [], rs_to = []\<rparr>"

definition isTimeRangeActive :: "range_state \<Rightarrow> bool" where
  "isTimeRangeActive st =
     (if rs_range st = Custom then rs_from st \<noteq> [] \<and> rs_to st \<noteq> [] else rs_range st \<noteq> Last14)"

text \<open>
  The calendar of the local time zone, in milliseconds: local midnight of a \<open>yyyy-mm-dd\<close> text, start
  and end of the day of an instant; and the ISO text of an instant.
\<close>

record calendar =
  midnight :: "string \<Rightarrow> int"
  startOfDay :: "int \<Rightarrow> int"
  endOfDay :: "int \<Rightarrow> int"
  iso :: "int \<Rightarrow> string"

record range_params =
  rp_from :: "string option"
  rp_to :: "string option"
  rp_days :: int

definition DAY_MS :: int where "DAY_MS = 86400000"

text \<open>\<open>Math.round\<close> of a quotient: half is rounded up.\<close>

definition round_div :: "int \<Rightarrow> int \<Rightarrow> int" where
  "round_div a b = (2 * a + b) div (2 * b)"

definition timeRangeToApiParams :: "calendar \<Rightarrow> range_state \<Rightarrow> int \<Rightarrow> range_params" where
  "timeRangeToApiParams cal st nowMs =
     (if rs_range st = Custom \<and> rs_from st \<noteq> [] \<and> rs_to st \<noteq> []
      then (let from = midnight cal (rs_from st); to = midnight cal (rs_to st);
                days = max 1 (min 90 (round_div (to - from) DAY_MS + 1)) in
            \<lparr>rp_from = Some (iso cal (startOfDay cal from)), rp_to = Some (iso cal (endOfDay cal to)), rp_days = days\<rparr>)
      else (let days = preset_days (if rs_range st = Custom then Last14 else rs_range st);
                from = nowMs - (days - 1) * DAY_MS in
            \<lparr>rp_from = Some (iso cal (startOfDay cal from)), rp_to = Some (iso cal nowMs), rp_days = days\<rparr>))"

definition timeRangeLabel :: "(string \<Rightarrow> (string \<times> string) list \<Rightarrow> string) \<Rightarrow> range_state \<Rightarrow> string" where
  "timeRangeLabel tr st =
     (if rs_range st = Custom \<and> rs_from st \<noteq> [] \<and> rs_to st \<noteq> []
      then (if rs_from st = rs_to st then rs_from st
            else tr ''shared.timeRange.rangeText'' [(''from'', rs_from st), (''to'', rs_to st)])
      else tr (''shared.timeRange.preset_'' @ show_int (preset_days (rs_range st))) [])"

text \<open>
  \<open>useTimeRangeParams\<close>: \<open>nowMs\<close> is the instant of the first render; the result is computed from the
  current range, so it is the same as long as the range is.
\<close>

definition useTimeRangeParams :: "calendar \<Rightarrow> int \<Rightarrow> range_state \<Rightarrow> range_params" where
  "useTimeRangeParams cal mountedMs st = timeRangeToApiParams cal st mountedMs"

subsection \<open>TimeRangeControl.tsx\<close>

record range_control =
  rc_open :: bool
  rc_from :: string
  rc_to :: string

definition or_today :: "string \<Rightarrow> string \<Rightarrow> string" where
  "or_today s today = (if s = [] then today else s)"

definition rc_mount :: "string \<Rightarrow> range_state \<Rightarrow> range_control" where
  "rc_mount today v = \<lparr>rc_open = False, rc_from = or_today (rs_from v) today, rc_to = or_today (rs_to v) today\<rparr>"

definition rc_set_open :: "string \<Rightarrow> range_state \<Rightarrow> bool \<Rightarrow> range_control \<Rightarrow> range_control" where
  "rc_set_open today v nxt c =
     (if nxt then c\<lparr>rc_open := nxt, rc_from := or_today (rs_from v) today, rc_to := or_today (rs_to v) today\<rparr>
      else c\<lparr>rc_open := nxt\<rparr>)"

definition selectPreset :: "time_range \<Rightarrow> range_control \<Rightarrow> range_control \<times> range_state" where
  "selectPreset p c = (c\<lparr>rc_open := False\<rparr>, \<lparr>rs_range = p, rs_from = [], rs_to = []\<rparr>)"

definition apply_enabled :: "range_control \<Rightarrow> bool" where
  "apply_enabled c \<longleftrightarrow> \<not> (rc_from c = [] \<or> rc_to c = [] \<or> rc_from c > rc_to c)"

text \<open>The button does nothing while it is disabled.\<close>

definition applyCustomRange :: "range_control \<Rightarrow> (range_control \<times> range_state) option" where
  "applyCustomRange c =
     (if apply_enabled c
      then Some (c\<lparr>rc_open := False\<rparr>, \<lparr>rs_range = Custom, rs_from = rc_from c, rs_to = rc_to c\<rparr>) else None)"

section \<open>Security event types\<close>

definition SECURITY_EVENT_TYPES :: "string list" where
  "SECURITY_EVENT_TYPES =
     [''login'', ''logout'', ''logout_all'', ''session_revoked'', ''signup'', ''oauth2_login_success'',
      ''password_reset_requested'', ''password_reset_confirmed'', ''account_verification_requested'',
      ''account_verified'', ''account_locked'', ''login_ip_locked'', ''login_account_cooldown'',
      ''rate_limit_exceeded'', ''refresh_token_reuse_detected'', ''account_deleted'', ''account_purged'',
      ''account_reactivated'', ''policy_assigned'', ''policy_revoked'', ''policy_action_revoked'',
      ''permission_granted'', ''permission_revoked'', ''user_role_changed'', ''passkey_login'',
      ''passkey_step_up'', ''passkey_registered'', ''passkey_registration_failure'', ''passkey_renamed'',
      ''passkey_removed'']"

definition SECURITY_EVENT_TYPE_GROUPS :: "(string \<times> string list) list" where
  "SECURITY_EVENT_TYPE_GROUPS =
     [(''signIn'', [''login'', ''oauth2_login_success'', ''login_ip_locked'', ''login_account_cooldown'',
         ''rate_limit_exceeded'', ''refresh_token_reuse_detected'']),
      (''sessions'', [''logout'', ''logout_all'', ''session_revoked'']),
      (''account'', [''signup'', ''account_verification_requested'', ''account_verified'', ''account_locked'',
         ''account_deleted'', ''account_purged'', ''account_reactivated'']),
      (''passkeys'', [''passkey_login'', ''passkey_step_up'', ''passkey_registered'', ''passkey_registration_failure'',
         ''passkey_renamed'', ''passkey_removed'']),
      (''password'', [''password_reset_requested'', ''password_reset_confirmed'']),
      (''accessChanges'', [''policy_assigned'', ''policy_revoked'', ''policy_action_revoked'', ''permission_granted'',
         ''permission_revoked'', ''user_role_changed''])]"

definition humanizeSecurityEventType :: "string \<Rightarrow> string" where
  "humanizeSecurityEventType value =
     (let label = trim (blank_seps value) in if label \<noteq> [] then capitalize label else value)"

text \<open>Every event type is offered in exactly one group of the filter.\<close>

lemma event_groups_partition:
  "distinct (concat (map snd SECURITY_EVENT_TYPE_GROUPS)) \<and> distinct SECURITY_EVENT_TYPES
   \<and> set (concat (map snd SECURITY_EVENT_TYPE_GROUPS)) = set SECURITY_EVENT_TYPES"
proof -
  have "distinct (concat (map snd SECURITY_EVENT_TYPE_GROUPS))" "distinct SECURITY_EVENT_TYPES" by code_simp+
  moreover have "list_all (\<lambda>x. x \<in> set SECURITY_EVENT_TYPES) (concat (map snd SECURITY_EVENT_TYPE_GROUPS))"
    "list_all (\<lambda>x. x \<in> set (concat (map snd SECURITY_EVENT_TYPE_GROUPS))) SECURITY_EVENT_TYPES" by code_simp+
  ultimately show ?thesis unfolding list_all_iff by blast
qed

section \<open>The security sections\<close>

text \<open>
  The session store of a section, \<open>search\<close> staying empty in the section about one's own activity, and
  the chips of its filter bar: a key, a label and what clearing the chip does.
\<close>

record security_filters =
  sf_search :: string
  sf_event :: string
  sf_ip :: string
  sf_success :: string
  sf_sort :: sort_state
  sf_range :: range_state

definition default_log_sort :: sort_state where
  "default_log_sort = \<lparr>s_key = ''created_at'', s_direction = Descending\<rparr>"

definition security_defaults :: security_filters where
  "security_defaults = \<lparr>sf_search = [], sf_event = [], sf_ip = [], sf_success = [], sf_sort = default_log_sort,
     sf_range = DEFAULT_TIME_RANGE_STATE\<rparr>"

definition log_dir :: "direction \<Rightarrow> sort_dir" where
  "log_dir d = (case d of Ascending \<Rightarrow> Asc | Descending \<Rightarrow> Desc)"

definition security_toggleSort :: "string \<Rightarrow> security_filters \<Rightarrow> security_filters" where
  "security_toggleSort key f = f\<lparr>sf_sort := nextSortState (sf_sort f) key\<rparr>"

text \<open>The parameters of the table's query, from the debounced search and address.\<close>

definition security_params :: "string \<Rightarrow> string \<Rightarrow> range_params \<Rightarrow> security_filters \<Rightarrow> security_list_params" where
  "security_params debouncedSearch debouncedIp rp f =
     no_security_params\<lparr>bl_search := Some debouncedSearch, bl_event_type := or_undefined (sf_event f),
       bl_ip_address := or_undefined debouncedIp, bl_success := log_bool_filter (sf_success f),
       bl_sort_by := Some (s_key (sf_sort f)), bl_sort_dir := Some (log_dir (s_direction (sf_sort f))),
       bl_from := rp_from rp, bl_to := rp_to rp\<rparr>"

definition all_security_queries :: "string \<Rightarrow> string \<Rightarrow> range_params \<Rightarrow> security_filters \<Rightarrow> nat \<Rightarrow> query list" where
  "all_security_queries debouncedSearch debouncedIp rp f page =
     [useSecurityAuditLogQuery page AUDIT_PAGE_SIZE (security_params debouncedSearch debouncedIp rp f),
      useLoginTrendQuery (nat (rp_days rp)) (Some debouncedSearch) (rp_from rp) (rp_to rp)]"

definition my_security_queries :: "string \<Rightarrow> range_params \<Rightarrow> security_filters \<Rightarrow> nat \<Rightarrow> query list" where
  "my_security_queries debouncedIp rp f page =
     [useMySecurityAuditLogQuery page AUDIT_PAGE_SIZE ((security_params [] debouncedIp rp f)\<lparr>bl_search := None\<rparr>),
      useMyLoginTrendQuery (nat (rp_days rp)) (rp_from rp) (rp_to rp)]"

record 'f chip =
  ch_key :: string
  ch_label :: string
  ch_clear :: "'f \<Rightarrow> 'f"

definition hasNonRangeFilters :: "security_filters \<Rightarrow> bool" where
  "hasNonRangeFilters f \<longleftrightarrow> sf_search f \<noteq> [] \<or> sf_event f \<noteq> [] \<or> sf_ip f \<noteq> [] \<or> sf_success f \<noteq> []"

definition isRangeActive :: "range_state \<Rightarrow> bool" where
  "isRangeActive st \<longleftrightarrow> rs_range st \<noteq> Last14 \<or> (rs_range st = Custom \<and> rs_from st \<noteq> [] \<and> rs_to st \<noteq> [])"

definition security_clearAll :: "security_filters \<Rightarrow> security_filters" where
  "security_clearAll f = f\<lparr>sf_search := [], sf_event := [], sf_ip := [], sf_success := [],
     sf_range := DEFAULT_TIME_RANGE_STATE\<rparr>"

type_synonym log_tr = "string \<Rightarrow> (string \<times> string) list \<Rightarrow> string"

text \<open>\<open>label_default\<close>: the translation of a key, or the text given where there is none.\<close>

definition security_chips :: "log_tr \<Rightarrow> (string \<Rightarrow> string \<Rightarrow> string) \<Rightarrow> security_filters \<Rightarrow> security_filters chip list" where
  "security_chips tr label_default f =
     (if isRangeActive (sf_range f) then [\<lparr>ch_key = ''range'', ch_label = timeRangeLabel tr (sf_range f),
          ch_clear = (\<lambda>f. f\<lparr>sf_range := DEFAULT_TIME_RANGE_STATE\<rparr>)\<rparr>] else [])
     @ (if sf_search f \<noteq> [] then [\<lparr>ch_key = ''search'', ch_label = sf_search f, ch_clear = (\<lambda>f. f\<lparr>sf_search := []\<rparr>)\<rparr>] else [])
     @ (if sf_event f \<noteq> [] then [\<lparr>ch_key = ''eventType'',
          ch_label = label_default (''security.filterBar.eventLabels.'' @ sf_event f) (humanizeSecurityEventType (sf_event f)),
          ch_clear = (\<lambda>f. f\<lparr>sf_event := []\<rparr>)\<rparr>] else [])
     @ (if sf_ip f \<noteq> [] then [\<lparr>ch_key = ''ip'', ch_label = sf_ip f, ch_clear = (\<lambda>f. f\<lparr>sf_ip := []\<rparr>)\<rparr>] else [])
     @ (if sf_success f \<noteq> [] then [\<lparr>ch_key = ''success'',
          ch_label = tr (''security.results.'' @ (if sf_success f = ''true'' then ''success'' else ''failed'')) [],
          ch_clear = (\<lambda>f. f\<lparr>sf_success := []\<rparr>)\<rparr>] else [])"

definition clear_all_chips :: "'f chip list \<Rightarrow> 'f \<Rightarrow> 'f" where
  "clear_all_chips chips f = foldl (\<lambda>f c. ch_clear c f) f chips"

text \<open>The key of the message of an empty table, and whether it offers the last ninety days.\<close>

definition security_empty_message :: "security_filters \<Rightarrow> string" where
  "security_empty_message f =
     (if \<not> hasNonRangeFilters f then ''security.emptyRange''
      else if sf_search f \<noteq> [] then ''security.emptySearch'' else ''security.emptyFiltered'')"

datatype empty_action = ShowLast90Days | ClearFilters | NoAction

definition security_empty_action :: "range_params \<Rightarrow> security_filters \<Rightarrow> empty_action" where
  "security_empty_action rp f =
     (if \<not> hasNonRangeFilters f then (if rp_days rp < 90 then ShowLast90Days else NoAction)
      else ClearFilters)"

definition show_last_90 :: "security_filters \<Rightarrow> security_filters" where
  "show_last_90 f = f\<lparr>sf_range := \<lparr>rs_range = Last90, rs_from = [], rs_to = []\<rparr>\<rparr>"

text \<open>The range states that the control and the chips can produce.\<close>

definition range_ok :: "range_state \<Rightarrow> bool" where
  "range_ok st \<longleftrightarrow> (if rs_range st = Custom then rs_from st \<noteq> [] \<and> rs_to st \<noteq> [] \<and> rs_from st \<le> rs_to st
     else rs_from st = [] \<and> rs_to st = [])"

lemma range_ok_reached:
  "range_ok DEFAULT_TIME_RANGE_STATE" "p \<noteq> Custom \<Longrightarrow> range_ok (snd (selectPreset p c))"
  "applyCustomRange c = Some (c', st) \<Longrightarrow> range_ok st"
  by (auto simp: range_ok_def DEFAULT_TIME_RANGE_STATE_def selectPreset_def applyCustomRange_def apply_enabled_def
      not_less split: if_splits)

lemma range_ok_default: "range_ok st \<Longrightarrow> \<not> isRangeActive st \<longleftrightarrow> st = DEFAULT_TIME_RANGE_STATE"
  by (auto simp: range_ok_def isRangeActive_def DEFAULT_TIME_RANGE_STATE_def split: if_splits)

lemma isRangeActive_ok: "range_ok st \<Longrightarrow> isRangeActive st = isTimeRangeActive st"
  by (auto simp: range_ok_def isRangeActive_def isTimeRangeActive_def split: if_splits)

section \<open>The authorization sections\<close>

record authz_filters =
  af_search :: string
  af_action :: string
  af_resourceType :: string
  af_allowed :: string
  af_sort :: sort_state
  af_range :: range_state

definition authz_defaults :: authz_filters where
  "authz_defaults = \<lparr>af_search = [], af_action = [], af_resourceType = [], af_allowed = [], af_sort = default_log_sort,
     af_range = DEFAULT_TIME_RANGE_STATE\<rparr>"

definition authz_params :: "string \<Rightarrow> range_params \<Rightarrow> authz_filters \<Rightarrow> authz_list_params" where
  "authz_params debouncedSearch rp f =
     no_authz_params\<lparr>bl_search := Some debouncedSearch, bl_action := or_undefined (af_action f),
       bl_resource_type := or_undefined (af_resourceType f), bl_allowed := log_bool_filter (af_allowed f),
       bl_sort_by := Some (s_key (af_sort f)), bl_sort_dir := Some (log_dir (s_direction (af_sort f))),
       bl_from := rp_from rp, bl_to := rp_to rp\<rparr>"

definition all_authz_query :: "string \<Rightarrow> range_params \<Rightarrow> authz_filters \<Rightarrow> nat \<Rightarrow> query" where
  "all_authz_query debouncedSearch rp f page =
     useAuthorizationAuditLogQuery page AUDIT_PAGE_SIZE (authz_params debouncedSearch rp f)"

definition my_authz_query :: "range_params \<Rightarrow> authz_filters \<Rightarrow> nat \<Rightarrow> query" where
  "my_authz_query rp f page =
     useMyAuthorizationAuditLogQuery page AUDIT_PAGE_SIZE ((authz_params [] rp f)\<lparr>bl_search := None\<rparr>)"

text \<open>The picker: an action sets the action only, the header of a group the type and no action.\<close>

definition setAction :: "string \<Rightarrow> authz_filters \<Rightarrow> authz_filters" where
  "setAction v f = f\<lparr>af_action := v\<rparr>"

definition onSelectGroup :: "string \<Rightarrow> authz_filters \<Rightarrow> authz_filters" where
  "onSelectGroup groupKey f = setAction [] (f\<lparr>af_resourceType := groupKey\<rparr>)"

definition authz_clearAll :: "authz_filters \<Rightarrow> authz_filters" where
  "authz_clearAll f = f\<lparr>af_search := [], af_action := [], af_resourceType := [], af_allowed := [],
     af_range := DEFAULT_TIME_RANGE_STATE\<rparr>"

text \<open>\<open>fmt\<close>: the labels of an action and of a resource type.\<close>

definition authz_chips :: "log_tr \<Rightarrow> (string \<Rightarrow> string) \<Rightarrow> authz_filters \<Rightarrow> authz_filters chip list" where
  "authz_chips tr fmt f =
     (if isRangeActive (af_range f) then [\<lparr>ch_key = ''range'', ch_label = timeRangeLabel tr (af_range f),
          ch_clear = (\<lambda>f. f\<lparr>af_range := DEFAULT_TIME_RANGE_STATE\<rparr>)\<rparr>] else [])
     @ (if af_search f \<noteq> [] then [\<lparr>ch_key = ''search'', ch_label = af_search f, ch_clear = (\<lambda>f. f\<lparr>af_search := []\<rparr>)\<rparr>] else [])
     @ (if af_action f \<noteq> [] then [\<lparr>ch_key = ''action'', ch_label = fmt (af_action f), ch_clear = setAction []\<rparr>]
        else if af_resourceType f \<noteq> [] then [\<lparr>ch_key = ''resourceType'', ch_label = fmt (af_resourceType f),
          ch_clear = (\<lambda>f. f\<lparr>af_resourceType := []\<rparr>)\<rparr>] else [])
     @ (if af_allowed f \<noteq> [] then [\<lparr>ch_key = ''allowed'',
          ch_label = tr (''authorization.results.'' @ (if af_allowed f = ''true'' then ''allowed'' else ''denied'')) [],
          ch_clear = (\<lambda>f. f\<lparr>af_allowed := []\<rparr>)\<rparr>] else [])"

text \<open>The picker's groups: the actions whose name starts with the type, no empty group.\<close>

definition AUTHORIZATION_RESOURCE_TYPES :: "string list" where
  "AUTHORIZATION_RESOURCE_TYPES = [''users'', ''policies'', ''permissions'', ''security_audit'', ''rate_limits'', ''*'']"

definition actionGroups :: "string list option \<Rightarrow> string list option \<Rightarrow> (string \<times> string list) list" where
  "actionGroups extraActions extraResourceTypes =
     (let allActions = map snd PERMISSIONS @ nullish extraActions [];
          resourceTypes = AUTHORIZATION_RESOURCE_TYPES @ nullish extraResourceTypes [] in
      filter (\<lambda>g. snd g \<noteq> [])
        (map (\<lambda>rt. (rt, filter (\<lambda>a. starts_with a (rt @ '':'')) allActions)) resourceTypes))"

section \<open>The details drawer\<close>

text \<open>
  One entry is open: its position in the whole log, and the entry last put in by hand. The page of the
  table is the section's. \<open>data\<close> is what the query holds for that page, rows and total.
\<close>

record 'e drawer =
  dr_page :: nat
  dr_index :: "nat option"
  dr_entry :: "'e option"

type_synonym 'e log_data = "('e list \<times> nat) option"

definition row_at :: "'e log_data \<Rightarrow> nat \<Rightarrow> 'e option" where
  "row_at data i = (case data of None \<Rightarrow> None | Some (rows, n) \<Rightarrow> if i < length rows then Some (rows ! i) else None)"

definition page_of_index :: "nat \<Rightarrow> nat" where
  "page_of_index g = g div AUDIT_PAGE_SIZE + 1"

text \<open>\<open>fresh_data\<close>: the query is neither fetching nor showing a placeholder.\<close>

definition drawerEntry :: "'e log_data \<Rightarrow> bool \<Rightarrow> 'e drawer \<Rightarrow> 'e option" where
  "drawerEntry data fresh_data d =
     (case dr_index d of
        Some g \<Rightarrow> (if page_of_index g = dr_page d \<and> fresh_data
                   then (case row_at data (g mod AUDIT_PAGE_SIZE) of Some e \<Rightarrow> Some e | None \<Rightarrow> dr_entry d)
                   else dr_entry d)
      | None \<Rightarrow> dr_entry d)"

definition onRowClick :: "('e \<Rightarrow> int) \<Rightarrow> 'e log_data \<Rightarrow> 'e \<Rightarrow> 'e drawer \<Rightarrow> 'e drawer" where
  "onRowClick id_of data row d =
     (case data of None \<Rightarrow> d
      | Some (rows, n) \<Rightarrow>
         (case find (\<lambda>i. id_of (rows ! i) = id_of row) [0..<length rows] of
            None \<Rightarrow> d
          | Some i \<Rightarrow> d\<lparr>dr_entry := Some row, dr_index := Some ((dr_page d - 1) * AUDIT_PAGE_SIZE + i)\<rparr>))"

definition closeDrawer :: "'e drawer \<Rightarrow> 'e drawer" where
  "closeDrawer d = d\<lparr>dr_entry := None, dr_index := None\<rparr>"

definition go_to :: "'e log_data \<Rightarrow> nat \<Rightarrow> 'e drawer \<Rightarrow> 'e drawer" where
  "go_to data g d =
     (let d1 = d\<lparr>dr_index := Some g\<rparr> in
      if page_of_index g \<noteq> dr_page d then d1\<lparr>dr_page := page_of_index g\<rparr>
      else d1\<lparr>dr_entry := (case row_at data (g mod AUDIT_PAGE_SIZE) of Some e \<Rightarrow> Some e | None \<Rightarrow> dr_entry d)\<rparr>)"

definition canGoPrevious :: "'e drawer \<Rightarrow> bool" where
  "canGoPrevious d = (case dr_index d of None \<Rightarrow> False | Some g \<Rightarrow> g > 0)"

definition canGoNext :: "'e log_data \<Rightarrow> 'e drawer \<Rightarrow> bool" where
  "canGoNext data d = (case (dr_index d, data) of (Some g, Some (rows, n)) \<Rightarrow> int g < int n - 1 | _ \<Rightarrow> False)"

definition onPrevious :: "'e log_data \<Rightarrow> 'e drawer \<Rightarrow> 'e drawer" where
  "onPrevious data d =
     (case dr_index d of None \<Rightarrow> d | Some g \<Rightarrow> if g = 0 then d else go_to data (g - 1) d)"

definition onNext :: "'e log_data \<Rightarrow> 'e drawer \<Rightarrow> 'e drawer" where
  "onNext data d =
     (case (dr_index d, data) of
        (Some g, Some (rows, n)) \<Rightarrow> if int g \<ge> int n - 1 then d else go_to data (Suc g) d
      | _ \<Rightarrow> d)"

text \<open>A filter chosen in the drawer closes it.\<close>

definition onFilterUser :: "string \<Rightarrow> security_filters \<times> 'e drawer \<Rightarrow> security_filters \<times> 'e drawer" where
  "onFilterUser email st = ((fst st)\<lparr>sf_search := email\<rparr>, closeDrawer (snd st))"
definition onFilterIp :: "string \<Rightarrow> security_filters \<times> 'e drawer \<Rightarrow> security_filters \<times> 'e drawer" where
  "onFilterIp ip st = ((fst st)\<lparr>sf_ip := ip\<rparr>, closeDrawer (snd st))"
definition onFilterEvent :: "string \<Rightarrow> security_filters \<times> 'e drawer \<Rightarrow> security_filters \<times> 'e drawer" where
  "onFilterEvent ev st = ((fst st)\<lparr>sf_event := ev\<rparr>, closeDrawer (snd st))"
definition onFilterAction :: "string \<Rightarrow> authz_filters \<times> 'e drawer \<Rightarrow> authz_filters \<times> 'e drawer" where
  "onFilterAction a st = (setAction a (fst st), closeDrawer (snd st))"

section \<open>Descriptions of access changes\<close>

definition stringValue :: "json option \<Rightarrow> string option" where
  "stringValue v = (case v of Some (JStr s) \<Rightarrow> if trim s \<noteq> [] then Some s else None | _ \<Rightarrow> None)"

definition meta :: "security_log_entry \<Rightarrow> string \<Rightarrow> string option" where
  "meta entry key = (case sl_event_metadata entry of None \<Rightarrow> None | Some m \<Rightarrow> stringValue (map_of m key))"

text \<open>The fields of each event: who did it, and the rest with the keys of their labels.\<close>

definition change_fields :: "string \<Rightarrow> (string \<times> (string \<times> string) list) option" where
  "change_fields event =
     (if event = ''policy_assigned'' then Some (''assigned_by'', [(''security.drawer.policy'', ''policy_name'')])
      else if event = ''policy_revoked'' then Some (''revoked_by'', [(''security.drawer.policy'', ''policy_name'')])
      else if event = ''policy_action_revoked'' then
        Some (''revoked_by'', [(''security.drawer.policy'', ''policy_name''), (''security.drawer.action'', ''action'')])
      else if event = ''permission_granted'' then
        Some (''granted_by'', [(''security.drawer.action'', ''action''), (''security.drawer.resourceType'', ''resource_type'')])
      else if event = ''permission_revoked'' then
        Some (''revoked_by'', [(''security.drawer.action'', ''action''), (''security.drawer.resourceType'', ''resource_type'')])
      else if event = ''user_role_changed'' then
        Some (''changed_by'', [(''security.drawer.oldRole'', ''old_role''), (''security.drawer.newRole'', ''new_role'')])
      else None)"

definition change_field :: "security_log_entry \<Rightarrow> string \<Rightarrow> string \<Rightarrow> (string \<times> string) list" where
  "change_field entry label key = (case meta entry key of None \<Rightarrow> [] | Some v \<Rightarrow> [(label, v)])"

definition securityAccessChangeDetails :: "security_log_entry \<Rightarrow> log_tr \<Rightarrow> (string \<times> string) list" where
  "securityAccessChangeDetails entry tr =
     (if sl_event_metadata entry = None then []
      else case change_fields (sl_event_type entry) of
        None \<Rightarrow> []
      | Some (actor, fs) \<Rightarrow>
          (if truthy (sl_user_email entry) then [(tr ''security.drawer.targetUser'' [], the (sl_user_email entry))] else [])
          @ change_field entry (tr ''security.drawer.actor'' []) actor
          @ concat (map (\<lambda>f. change_field entry (tr (fst f) []) (snd f)) fs))"

text \<open>The sentence of each event: its key and its parameters with the metadata they come from.\<close>

definition change_sentence :: "string \<Rightarrow> (string \<times> (string \<times> string) list) option" where
  "change_sentence event =
     (if event = ''policy_assigned'' then Some (''security.details.policyAssigned'', [(''policyName'', ''policy_name''), (''actor'', ''assigned_by'')])
      else if event = ''policy_revoked'' then Some (''security.details.policyRevoked'', [(''policyName'', ''policy_name''), (''actor'', ''revoked_by'')])
      else if event = ''policy_action_revoked'' then
        Some (''security.details.policyActionRevoked'', [(''action'', ''action''), (''policyName'', ''policy_name''), (''actor'', ''revoked_by'')])
      else if event = ''permission_granted'' then
        Some (''security.details.permissionGranted'', [(''action'', ''action''), (''resourceType'', ''resource_type''), (''actor'', ''granted_by'')])
      else if event = ''permission_revoked'' then
        Some (''security.details.permissionRevoked'', [(''action'', ''action''), (''resourceType'', ''resource_type''), (''actor'', ''revoked_by'')])
      else if event = ''user_role_changed'' then
        Some (''security.details.roleChanged'', [(''oldRole'', ''old_role''), (''newRole'', ''new_role''), (''actor'', ''changed_by'')])
      else None)"

definition securityAccessChangeSummary :: "security_log_entry \<Rightarrow> log_tr \<Rightarrow> string option" where
  "securityAccessChangeSummary entry tr =
     (if securityAccessChangeDetails entry tr = [] then None
      else case change_sentence (sl_event_type entry) of
        None \<Rightarrow> None
      | Some (key, ps) \<Rightarrow> Some (tr key (map (\<lambda>p. (fst p, nullish (meta entry (snd p)) ''-'')) ps)))"

section \<open>The sign-in chart\<close>

record trend_point =
  tp_date :: string
  tp_success :: nat
  tp_failure :: nat

text \<open>\<open>10 ** Math.floor(Math.log10(value))\<close>, on counts.\<close>

fun magnitude :: "nat \<Rightarrow> nat" where
  "magnitude v = (if v < 10 then 1 else 10 * magnitude (v div 10))"

declare magnitude.simps [simp del]

text \<open>A residual of 2.5 only occurs with a magnitude of at least ten, so the result is a whole number.\<close>

definition niceMax :: "nat \<Rightarrow> nat" where
  "niceMax value =
     (if value \<le> 1 then 2
      else if value \<le> 5 then value
      else let m = magnitude value in
        if value \<le> m then m else if value \<le> 2 * m then 2 * m
        else if 2 * value \<le> 5 * m then (5 * m) div 2
        else if value \<le> 5 * m then 5 * m else 10 * m)"

datatype chart_mode = AllAttempts | FailedOnly

definition point_total :: "trend_point \<Rightarrow> nat" where
  "point_total p = tp_success p + tp_failure p"

definition chart_value :: "chart_mode \<Rightarrow> trend_point \<Rightarrow> nat" where
  "chart_value mode p = (case mode of FailedOnly \<Rightarrow> tp_failure p | AllAttempts \<Rightarrow> point_total p)"

definition rawMax :: "chart_mode \<Rightarrow> trend_point list \<Rightarrow> nat" where
  "rawMax mode ps = Max (set (1 # map (chart_value mode) ps))"

definition CHART_HEIGHT :: rat where
  "CHART_HEIGHT = 130"

definition plotHeight :: rat where
  "plotHeight = CHART_HEIGHT - 12"

text \<open>The heights as exact quotients; the code's are their floating-point approximations.\<close>

definition barHeight :: "chart_mode \<Rightarrow> trend_point list \<Rightarrow> trend_point \<Rightarrow> rat" where
  "barHeight mode ps p = of_nat (chart_value mode p) / of_nat (niceMax (rawMax mode ps)) * plotHeight"

definition failureHeight :: "chart_mode \<Rightarrow> trend_point list \<Rightarrow> trend_point \<Rightarrow> rat" where
  "failureHeight mode ps p =
     (if mode = FailedOnly then barHeight mode ps p
      else if point_total p = 0 then 0
      else of_nat (tp_failure p) / of_nat (point_total p) * barHeight mode ps p)"

definition successHeight :: "chart_mode \<Rightarrow> trend_point list \<Rightarrow> trend_point \<Rightarrow> rat" where
  "successHeight mode ps p =
     (if mode = FailedOnly then 0 else barHeight mode ps p - failureHeight mode ps p)"

definition totalSuccess :: "trend_point list \<Rightarrow> nat" where
  "totalSuccess ps = sum_list (map tp_success ps)"

definition totalFailure :: "trend_point list \<Rightarrow> nat" where
  "totalFailure ps = sum_list (map tp_failure ps)"

definition failureRate :: "trend_point list \<Rightarrow> int" where
  "failureRate ps =
     (let attempts = totalSuccess ps + totalFailure ps in
      if attempts = 0 then 0 else round_div (int (totalFailure ps) * 100) (int attempts))"

definition worstDay :: "trend_point list \<Rightarrow> trend_point" where
  "worstDay ps = foldl (\<lambda>worst d. if tp_failure d > tp_failure worst then d else worst) (hd ps) ps"

definition labelStride :: "trend_point list \<Rightarrow> nat" where
  "labelStride ps = (if length ps > 60 then 7 else if length ps > 30 then 3 else if length ps > 14 then 2 else 1)"

definition label_shown :: "trend_point list \<Rightarrow> nat option \<Rightarrow> nat \<Rightarrow> bool" where
  "label_shown ps hovered i \<longleftrightarrow> i mod labelStride ps = 0 \<or> hovered = Some i"

datatype chart_state = ChartLoading | ChartError string | ChartEmpty | ChartTable | ChartBars

definition chart_view :: "bool \<Rightarrow> bool \<Rightarrow> string option \<Rightarrow> trend_point list option \<Rightarrow> bool \<Rightarrow> chart_state" where
  "chart_view isLoading isError message data table =
     (if isLoading then ChartLoading
      else if isError then ChartError (nullish message ''security.failedToLoadTrend'')
      else if data = None \<or> data = Some [] then ChartEmpty
      else if table then ChartTable else ChartBars)"

section \<open>Properties of the time range and the filters\<close>

lemma round_div_near: "0 < b \<Longrightarrow> - b \<le> 2 * d \<Longrightarrow> 2 * d < b \<Longrightarrow> round_div (k * b + d) b = k"
  unfolding round_div_def by (rule int_div_pos_eq [of _ _ _ "2 * d + b"]) (auto simp: algebra_simps)

text \<open>C34: The day count of the sign-in chart is in the bounds of its endpoint and is the number of days
  picked. For every state of the control it lies between 1 and 90; a preset gives its own number; and
  for a custom range it is the number of calendar days from the first to the last, both included, cut to
  those bounds, even when daylight saving makes some of the days an hour shorter or longer.\<close>

theorem time_range_bounds:
  assumes "midnight cal (rs_to st) - midnight cal (rs_from st) = k * DAY_MS + d" "\<bar>d\<bar> < DAY_MS div 2"
  shows "1 \<le> rp_days (timeRangeToApiParams cal st0 now) \<and> rp_days (timeRangeToApiParams cal st0 now) \<le> 90
    \<and> (rs_range st0 \<noteq> Custom \<longrightarrow> rp_days (timeRangeToApiParams cal st0 now) = preset_days (rs_range st0))
    \<and> (isTimeRangeActive st \<and> rs_range st = Custom \<longrightarrow> rp_days (timeRangeToApiParams cal st now) = max 1 (min 90 (k + 1)))"
proof -
  have "1 \<le> preset_days r \<and> preset_days r \<le> 90" for r by (cases r) (simp_all add: preset_days_def)
  then have bounds: "1 \<le> rp_days (timeRangeToApiParams cal st0 now) \<and> rp_days (timeRangeToApiParams cal st0 now) \<le> 90"
    by (simp add: timeRangeToApiParams_def Let_def)
  have "round_div (midnight cal (rs_to st) - midnight cal (rs_from st)) DAY_MS = k"
    unfolding assms(1) by (rule round_div_near) (use assms(2) in \<open>auto simp: DAY_MS_def\<close>)
  then have "isTimeRangeActive st \<and> rs_range st = Custom \<longrightarrow> rp_days (timeRangeToApiParams cal st now) = max 1 (min 90 (k + 1))"
    by (simp add: timeRangeToApiParams_def isTimeRangeActive_def Let_def)
  with bounds show ?thesis by (simp add: timeRangeToApiParams_def Let_def)
qed

definition utc_like :: calendar where
  "utc_like = \<lparr>midnight = (\<lambda>s. if s = ''2026-03-28'' then 0 else 3 * DAY_MS - 3600000), startOfDay = (\<lambda>t. t), endOfDay = (\<lambda>t. t), iso = (\<lambda>t. [])\<rparr>"

lemma time_range_bounds_witness:
  "rp_days (timeRangeToApiParams utc_like \<lparr>rs_range = Custom, rs_from = ''2026-03-28'', rs_to = ''2026-03-31''\<rparr> 0) = 4"
proof -
  let ?st = "\<lparr>rs_range = Custom, rs_from = ''2026-03-28'', rs_to = ''2026-03-31''\<rparr>"
  have "midnight utc_like (rs_to ?st) - midnight utc_like (rs_from ?st) = 3 * DAY_MS + (- 3600000)" by (simp add: utc_like_def)
  moreover have "\<bar>- 3600000\<bar> < DAY_MS div 2" by (simp add: DAY_MS_def)
  ultimately have "isTimeRangeActive ?st \<and> rs_range ?st = Custom \<longrightarrow>
      rp_days (timeRangeToApiParams utc_like ?st 0) = max 1 (min 90 (3 + 1))"
    using time_range_bounds [of utc_like ?st 3 "- 3600000" DEFAULT_TIME_RANGE_STATE 0] by blast
  then show ?thesis by (simp add: isTimeRangeActive_def)
qed

text \<open>The chips of the security log are its filters. Each active filter has one chip, clearing every
  chip is the same as clearing all filters, and there is no chip exactly when there is nothing to clear;
  the request is then restricted by the default time range alone.\<close>

theorem security_chips_complete:
  assumes "range_ok (sf_range f)"
  shows "clear_all_chips (security_chips tr ld f) f = security_clearAll f
    \<and> (security_chips tr ld f = [] \<longleftrightarrow> security_clearAll f = f) \<and> distinct (map ch_key (security_chips tr ld f))
    \<and> (security_chips tr ld f = [] \<longrightarrow>
        security_params (sf_search f) (sf_ip f) rp f =
          (security_params [] [] rp security_defaults)\<lparr>bl_sort_by := Some (s_key (sf_sort f)), bl_sort_dir := Some (log_dir (s_direction (sf_sort f)))\<rparr>)"
proof (intro conjI)
  note range = range_ok_default [OF assms]
  show "clear_all_chips (security_chips tr ld f) f = security_clearAll f"
    using range by (cases f) (simp add: clear_all_chips_def security_chips_def security_clearAll_def)
  show "security_chips tr ld f = [] \<longleftrightarrow> security_clearAll f = f"
    using range by (cases f) (auto simp: security_chips_def security_clearAll_def)
  show "distinct (map ch_key (security_chips tr ld f))" by (simp add: security_chips_def)
  show "security_chips tr ld f = [] \<longrightarrow> security_params (sf_search f) (sf_ip f) rp f =
      (security_params [] [] rp security_defaults)\<lparr>bl_sort_by := Some (s_key (sf_sort f)), bl_sort_dir := Some (log_dir (s_direction (sf_sort f)))\<rparr>"
    by (simp add: security_chips_def security_params_def security_defaults_def no_security_params_def split: if_splits)
qed

lemma security_chips_complete_witness:
  "map ch_key (security_chips (\<lambda>k _. k) (\<lambda>k d. d) (security_defaults\<lparr>sf_ip := ''10.0.0.1''\<rparr>)) = [''ip''] \<and>
   clear_all_chips (security_chips (\<lambda>k _. k) (\<lambda>k d. d) (security_defaults\<lparr>sf_ip := ''10.0.0.1''\<rparr>)) (security_defaults\<lparr>sf_ip := ''10.0.0.1''\<rparr>)
     = security_defaults"
proof -
  let ?f = "security_defaults\<lparr>sf_ip := ''10.0.0.1''\<rparr>"
  have "range_ok (sf_range ?f)" by (simp add: security_defaults_def range_ok_def DEFAULT_TIME_RANGE_STATE_def)
  from security_chips_complete [OF this, THEN conjunct1, of "\<lambda>k _. k" "\<lambda>k d. d"]
  show ?thesis by (simp add: security_clearAll_def security_chips_def security_defaults_def isRangeActive_def DEFAULT_TIME_RANGE_STATE_def)
qed

text \<open>A resource type can filter the decisions without being shown. After choosing the header of a
  group and then an action of any group, the request asks for both, no chip stands for the resource
  type, and clearing every chip shown leaves it in force.\<close>

theorem hidden_resource_filter:
  assumes "a \<noteq> []" "rt \<noteq> []" "f' = setAction a (onSelectGroup rt f)"
  shows "bl_action (authz_params s rp f') = Some a \<and> bl_resource_type (authz_params s rp f') = Some rt
    \<and> ''resourceType'' \<notin> ch_key ` set (authz_chips tr fmt f')
    \<and> af_resourceType (clear_all_chips (authz_chips tr fmt f') f') = rt \<and> af_resourceType (authz_clearAll f') = []"
  using assms by (simp add: setAction_def onSelectGroup_def authz_params_def no_authz_params_def or_undefined_def
      authz_chips_def clear_all_chips_def authz_clearAll_def)

lemma hidden_resource_filter_witness:
  "let f' = setAction ''policies:read'' (onSelectGroup ''users'' authz_defaults);
       p = authz_params [] (timeRangeToApiParams utc_like DEFAULT_TIME_RANGE_STATE 0) f' in
   bl_action p = Some ''policies:read'' \<and> bl_resource_type p = Some ''users''"
  using hidden_resource_filter [of "''policies:read''" "''users''" _ authz_defaults, OF _ _ refl] by simp

section \<open>Properties of the drawer\<close>

text \<open>The server's answer for a page of the log that matches the filters.\<close>

definition log_page :: "'e list \<Rightarrow> nat \<Rightarrow> 'e log_data" where
  "log_page entries p = Some (take AUDIT_PAGE_SIZE (drop ((p - 1) * AUDIT_PAGE_SIZE) entries), length entries)"

definition drawer_at :: "'e list \<Rightarrow> nat \<Rightarrow> 'e drawer \<Rightarrow> bool" where
  "drawer_at entries g d \<longleftrightarrow> dr_index d = Some g \<and> g < length entries \<and> dr_page d = page_of_index g"

lemma row_of_log:
  assumes "g < length entries" shows "row_at (log_page entries (page_of_index g)) (g mod AUDIT_PAGE_SIZE) = Some (entries ! g)"
proof -
  have split: "(page_of_index g - 1) * AUDIT_PAGE_SIZE + g mod AUDIT_PAGE_SIZE = g"
    by (simp add: page_of_index_def AUDIT_PAGE_SIZE_def)
  have m: "g mod AUDIT_PAGE_SIZE < AUDIT_PAGE_SIZE" by (simp add: AUDIT_PAGE_SIZE_def)
  have le: "(page_of_index g - 1) * AUDIT_PAGE_SIZE \<le> length entries" using assms split by linarith
  have "g mod AUDIT_PAGE_SIZE < length (drop ((page_of_index g - 1) * AUDIT_PAGE_SIZE) entries)"
    using assms split le by simp
  then show ?thesis using m le split by (simp add: row_at_def log_page_def nth_drop)
qed

lemma drawer_shows: "drawer_at entries g d \<Longrightarrow> drawerEntry (log_page entries (dr_page d)) True d = Some (entries ! g)"
  using row_of_log [of g entries] by (simp add: drawer_at_def drawerEntry_def)

lemma go_to_at: "g < length entries \<Longrightarrow> drawer_at entries g (go_to data g d)"
  by (simp add: drawer_at_def go_to_def Let_def)

text \<open>C33: Stepping through the details walks the log. The drawer is a cursor on the whole matching log:
  once the page of its position has loaded it shows the entry at that position, whatever page that is;
  next and previous move it by one, across page boundaries too, are enabled exactly inside the log, and
  undo each other. Only while the page is being fetched does it show the entry put in last, which after
  a step to another page is not the one of its position.\<close>

theorem drawer_walks_log:
  assumes "drawer_at entries g d" "data = log_page entries (dr_page d)"
  shows "drawerEntry data True d = Some (entries ! g) \<and> drawerEntry data False d = dr_entry d
    \<and> (canGoNext data d \<longleftrightarrow> Suc g < length entries) \<and> (canGoPrevious d \<longleftrightarrow> 0 < g)
    \<and> (Suc g < length entries \<longrightarrow> drawer_at entries (Suc g) (onNext data d)) \<and> (\<not> Suc g < length entries \<longrightarrow> onNext data d = d)
    \<and> (0 < g \<longrightarrow> drawer_at entries (g - 1) (onPrevious data d)) \<and> (g = 0 \<longrightarrow> onPrevious data d = d)
    \<and> (page_of_index (Suc g) \<noteq> page_of_index g \<longrightarrow> dr_entry (onNext data d) = dr_entry d)"
proof -
  have i: "dr_index d = Some g" "g < length entries" "dr_page d = page_of_index g" using assms(1) by (simp_all add: drawer_at_def)
  have data: "data = Some (fst (the data), length entries)" by (simp add: assms(2) log_page_def)
  have nx: "onNext data d = (if Suc g < length entries then go_to data (Suc g) d else d)"
    unfolding onNext_def i(1) by (subst (1) data) auto
  have gn: "canGoNext data d \<longleftrightarrow> Suc g < length entries"
    unfolding canGoNext_def i(1) by (subst data) auto
  have "page_of_index (Suc g) \<noteq> page_of_index g \<longrightarrow> dr_entry (go_to data (Suc g) d) = dr_entry d"
    by (simp add: go_to_def Let_def i(3))
  moreover have "drawerEntry data True d = Some (entries ! g)" unfolding assms(2) by (rule drawer_shows [OF assms(1)])
  moreover have "drawerEntry data False d = dr_entry d" by (simp add: drawerEntry_def i)
  moreover have "canGoPrevious d \<longleftrightarrow> 0 < g" by (simp add: canGoPrevious_def i)
  moreover have "0 < g \<longrightarrow> drawer_at entries (g - 1) (onPrevious data d)" "g = 0 \<longrightarrow> onPrevious data d = d"
    using i(2) by (auto simp: onPrevious_def i(1) intro!: go_to_at)
  moreover have "Suc g < length entries \<longrightarrow> drawer_at entries (Suc g) (onNext data d)" "\<not> Suc g < length entries \<longrightarrow> onNext data d = d"
    unfolding nx by (auto intro!: go_to_at)
  ultimately show ?thesis unfolding nx gn by simp
qed

lemma drawer_walks_log_witness:
  "drawerEntry (log_page [0..<30] 2) True (onNext (log_page [0..<30] 1) \<lparr>dr_page = 1, dr_index = Some 24, dr_entry = Some 24\<rparr>) = Some (25::nat)"
proof -
  let ?d = "\<lparr>dr_page = 1, dr_index = Some 24, dr_entry = Some 24\<rparr> :: nat drawer" and ?log = "[0..<30] :: nat list"
  have at: "drawer_at ?log 24 ?d" by (simp add: drawer_at_def page_of_index_def AUDIT_PAGE_SIZE_def)
  have "Suc 24 < length ?log" by simp
  then have at': "drawer_at ?log 25 (onNext (log_page ?log 1) ?d)"
    using drawer_walks_log [OF at refl] by simp
  then have "dr_page (onNext (log_page ?log 1) ?d) = page_of_index 25" by (simp only: drawer_at_def)
  also have "page_of_index 25 = 2" by (simp add: page_of_index_def AUDIT_PAGE_SIZE_def)
  finally have page: "dr_page (onNext (log_page ?log 1) ?d) = 2" .
  from drawer_shows [OF at'] have "drawerEntry (log_page ?log 2) True (onNext (log_page ?log 1) ?d) = Some (?log ! 25)"
    unfolding page .
  then show ?thesis by simp
qed

section \<open>Properties of the descriptions and the chart\<close>

lemma stringValue_nonblank: "stringValue v = Some s \<Longrightarrow> trim s \<noteq> []"
  by (auto simp: stringValue_def split: option.splits json.splits if_splits)

lemma change_tables: "change_fields e = None \<longleftrightarrow> change_sentence e = None"
  by (simp add: change_fields_def change_sentence_def)

text \<open>Access changes are described exactly when something is known of them. An entry has a summary
  if and only if it has details; it has none without metadata and for every event that is not a change
  of access; and no detail other than the address of the account is blank.\<close>

theorem access_change_described:
  "(securityAccessChangeSummary entry tr = None \<longleftrightarrow> securityAccessChangeDetails entry tr = [])
   \<and> (sl_event_metadata entry = None \<or> change_fields (sl_event_type entry) = None \<longrightarrow> securityAccessChangeDetails entry tr = [])
   \<and> (\<forall>p\<in>set (securityAccessChangeDetails entry tr). trim (snd p) \<noteq> [] \<or> Some (snd p) = sl_user_email entry)"
proof -
  have "securityAccessChangeDetails entry tr \<noteq> [] \<longrightarrow> change_fields (sl_event_type entry) \<noteq> None"
    by (auto simp: securityAccessChangeDetails_def split: if_splits option.splits)
  then have "securityAccessChangeSummary entry tr = None \<longleftrightarrow> securityAccessChangeDetails entry tr = []"
    using change_tables [of "sl_event_type entry"]
    by (auto simp: securityAccessChangeSummary_def split: option.splits)
  moreover have nonblank: "(a, b) \<in> set (change_field entry l k) \<Longrightarrow> trim b \<noteq> []" for a b l k
    by (auto simp: change_field_def meta_def stringValue_nonblank split: option.splits)
  have "\<forall>p\<in>set (securityAccessChangeDetails entry tr). trim (snd p) \<noteq> [] \<or> Some (snd p) = sl_user_email entry"
    by (auto simp: securityAccessChangeDetails_def truthy_def split: if_splits option.splits dest: nonblank)
  ultimately show ?thesis by (auto simp: securityAccessChangeDetails_def)
qed

lemma magnitude_bounds: "1 \<le> magnitude v \<and> (1 \<le> v \<longrightarrow> magnitude v \<le> v) \<and> v < 10 * magnitude v"
proof (induction v rule: magnitude.induct)
  case (1 v)
  then show ?case by (subst (1 2 3) magnitude.simps) auto
qed

lemma magnitude_even: "10 \<le> v \<Longrightarrow> even (magnitude v)"
  by (subst magnitude.simps) simp

lemma niceMax_bounds: "1 \<le> v \<Longrightarrow> v \<le> niceMax v \<and> niceMax v \<le> 2 * v"
proof -
  assume v: "1 \<le> v"
  have m: "1 \<le> magnitude v" "magnitude v \<le> v" "v < 10 * magnitude v" using magnitude_bounds [of v] v by auto
  show ?thesis using v m by (auto simp: niceMax_def Let_def)
qed

lemma rawMax_bounds: "1 \<le> rawMax mode ps" "p \<in> set ps \<Longrightarrow> chart_value mode p \<le> rawMax mode ps"
  unfolding rawMax_def by (rule Max_ge; simp)+

text \<open>No bar of the sign-in chart leaves the plot. The top of the scale is at least the highest value
  and at most twice it; so every bar is between zero and the height of the plot, its two parts are not
  negative and make up the bar, and the failure rate is a percentage.\<close>

theorem chart_bounds:
  assumes "p \<in> set ps"
  shows "chart_value mode p \<le> niceMax (rawMax mode ps) \<and> niceMax (rawMax mode ps) \<le> 2 * rawMax mode ps
    \<and> 0 \<le> barHeight mode ps p \<and> barHeight mode ps p \<le> plotHeight
    \<and> 0 \<le> failureHeight mode ps p \<and> 0 \<le> successHeight mode ps p
    \<and> failureHeight mode ps p + successHeight mode ps p = barHeight mode ps p
    \<and> 0 \<le> failureRate ps \<and> failureRate ps \<le> 100"
proof -
  let ?top = "niceMax (rawMax mode ps)" and ?v = "chart_value mode p"
  have top: "rawMax mode ps \<le> ?top" "?top \<le> 2 * rawMax mode ps" "1 \<le> rawMax mode ps"
    using niceMax_bounds [OF rawMax_bounds(1), of mode ps] rawMax_bounds(1) by auto
  with rawMax_bounds(2) [OF assms] have v: "?v \<le> ?top" "0 < ?top" by (auto intro: le_trans)
  have plot: "0 \<le> plotHeight" by (simp add: plotHeight_def CHART_HEIGHT_def)
  have share: "0 \<le> (of_nat ?v :: rat) / of_nat ?top" "(of_nat ?v :: rat) / of_nat ?top \<le> 1" using v by simp_all
  have bar: "0 \<le> barHeight mode ps p" "barHeight mode ps p \<le> plotHeight"
    using mult_nonneg_nonneg [OF share(1) plot] mult_right_mono [OF share(2) plot] unfolding barHeight_def mult_1 by blast+
  have part: "0 \<le> failureHeight mode ps p \<and> failureHeight mode ps p \<le> barHeight mode ps p"
  proof (cases "mode = FailedOnly \<or> point_total p = 0")
    case True
    then show ?thesis using bar(1) by (auto simp: failureHeight_def)
  next
    case False
    then have "tp_failure p \<le> point_total p" "0 < point_total p" by (simp_all add: point_total_def)
    then have q: "0 \<le> (of_nat (tp_failure p) :: rat) / of_nat (point_total p)" "(of_nat (tp_failure p) :: rat) / of_nat (point_total p) \<le> 1"
      by simp_all
    have "failureHeight mode ps p = of_nat (tp_failure p) / of_nat (point_total p) * barHeight mode ps p"
      using False by (simp add: failureHeight_def)
    then show ?thesis using mult_nonneg_nonneg [OF q(1) bar(1)] mult_right_mono [OF q(2) bar(1)] unfolding mult_1 by metis
  qed
  have rate: "0 \<le> failureRate ps \<and> failureRate ps \<le> 100"
  proof (cases "totalSuccess ps + totalFailure ps = 0")
    case False
    define f n where "f = int (totalFailure ps)" and "n = int (totalSuccess ps + totalFailure ps)"
    have fn: "0 \<le> f" "f \<le> n" "0 < n" using False by (auto simp: f_def n_def)
    have "(2 * (f * 100) + n) div (2 * n) \<le> (201 * n) div (2 * n)" using fn by (intro zdiv_mono1) auto
    also have "(201 * n) div (2 * n) = 100" using fn by simp
    finally have "(2 * (f * 100) + n) div (2 * n) \<le> 100" .
    moreover have "0 \<le> (2 * (f * 100) + n) div (2 * n)" using fn by (simp add: pos_imp_zdiv_nonneg_iff)
    ultimately show ?thesis using False by (simp add: failureRate_def round_div_def Let_def f_def n_def)
  qed (simp add: failureRate_def)
  have "0 \<le> successHeight mode ps p" "failureHeight mode ps p + successHeight mode ps p = barHeight mode ps p"
    using part by (auto simp: successHeight_def failureHeight_def)
  with v(1) top(2) bar part rate show ?thesis by blast
qed

lemma chart_bounds_witness:
  "barHeight AllAttempts [\<lparr>tp_date = ''2026-01-01'', tp_success = 12, tp_failure = 5\<rparr>] \<lparr>tp_date = ''2026-01-01'', tp_success = 12, tp_failure = 5\<rparr> \<le> 118"
proof -
  let ?p = "\<lparr>tp_date = ''2026-01-01'', tp_success = 12, tp_failure = 5\<rparr>"
  have "?p \<in> set [?p]" by simp
  from chart_bounds [OF this, of AllAttempts] have "barHeight AllAttempts [?p] ?p \<le> plotHeight" by blast
  also have "plotHeight = 118" by (simp add: plotHeight_def CHART_HEIGHT_def)
  finally show ?thesis .
qed

text \<open>The worst day is the earliest of those with the most failures.\<close>

lemma worstDay_fold:
  "\<forall>d\<in>set ps. tp_failure d \<le> tp_failure (foldl (\<lambda>w d. if tp_failure d > tp_failure w then d else w) w0 ps)"
  "tp_failure w0 \<le> tp_failure (foldl (\<lambda>w d. if tp_failure d > tp_failure w then d else w) w0 ps)"
proof (induction ps arbitrary: w0)
  case (Cons p ps)
  {
    case 1
    show ?case using Cons [of "if tp_failure p > tp_failure w0 then p else w0"] by (auto split: if_splits)
  next
    case 2
    show ?case using Cons(2) [of "if tp_failure p > tp_failure w0 then p else w0"] by (auto split: if_splits)
  }
qed simp_all

lemma worstDay_most: "d \<in> set ps \<Longrightarrow> tp_failure d \<le> tp_failure (worstDay ps)"
  unfolding worstDay_def using worstDay_fold(1) [of ps "hd ps"] by blast

end
