(* ===== verification/Widgets.thy ===== *)
theory Widgets
  imports Selection
begin

text \<open>
  The stateful widgets the pages share: the page numbers (\<open>ui/navigation/Pagination.tsx\<close>), the rows,
  checkboxes and headers of a table (\<open>ui/DataTable/*.tsx\<close>), the searchable picker
  (\<open>ui/filters/GroupedSearchSelect.tsx\<close>), the segmented control and its keyboard
  (\<open>SegmentedControl.tsx\<close>), and the confirmation dialog (\<open>ui/feedback/ConfirmDialog.tsx\<close>).
  The markup is not modelled; a handler is the change of state or the callback it calls.
\<close>

section \<open>Pagination.tsx\<close>

datatype page_item = PageNo int | Ellipsis

text \<open>The loop \<open>for (let p = start; p <= end; p++)\<close> pushes the numbers of \<open>[start..end]\<close>.\<close>

definition buildPageList :: "int \<Rightarrow> int \<Rightarrow> int \<Rightarrow> page_item list" where
  "buildPageList page pages siblingCount =
     (let start = max 2 (page - siblingCount); stop = min (pages - 1) (page + siblingCount) in
      [PageNo 1] @ (if start > 2 then [Ellipsis] else []) @ map PageNo [start..stop]
      @ (if stop < pages - 1 then [Ellipsis] else []) @ (if pages > 1 then [PageNo pages] else []))"

definition pagination :: "int \<Rightarrow> int \<Rightarrow> page_item list" where
  "pagination page pages = buildPageList page (max 1 pages) 1"

definition prev_page :: "int \<Rightarrow> int option" where
  "prev_page page = (if page \<le> 1 then None else Some (page - 1))"

definition next_page :: "int \<Rightarrow> int \<Rightarrow> int option" where
  "next_page page pages = (if page \<ge> pages then None else Some (page + 1))"

section \<open>DataTable.tsx, DataTableRow.tsx, DataTableSortableHeader.tsx\<close>

datatype table_view = TableSkeleton | TableError string | TableEmpty string | TableRows

text \<open>\<open>tr\<close> gives the default texts of the table.\<close>

definition table_view ::
  "(string \<Rightarrow> string) \<Rightarrow> bool \<Rightarrow> bool \<Rightarrow> string option \<Rightarrow> string option \<Rightarrow> 'r list option \<Rightarrow> table_view" where
  "table_view tr isLoading isError errorMessage emptyMessage rows =
     (if isLoading then TableSkeleton
      else if isError then TableError (nullish errorMessage (tr ''failedToLoadData''))
      else if rows = None \<or> rows = Some [] then TableEmpty (nullish emptyMessage (tr ''noDataAvailable''))
      else TableRows)"

text \<open>What the page passes to its table; \<open>opensRows\<close> says whether there is an \<open>onRowClick\<close>.\<close>

record 'k table_props =
  selectable :: bool
  rowClickSelects :: bool
  opensRows :: bool
  disabledKeys :: "'k list"

datatype row_effect = NoEffect | ToggleRow | OpenRow

definition clickToSelectActive :: "'k table_props \<Rightarrow> 'k \<Rightarrow> bool" where
  "clickToSelectActive p k \<longleftrightarrow> selectable p \<and> rowClickSelects p \<and> k \<notin> set (disabledKeys p)"

text \<open>\<open>interactive\<close>: the click hit a control inside the row.\<close>

definition handleRowClick :: "'k table_props \<Rightarrow> 'k \<Rightarrow> bool \<Rightarrow> row_effect" where
  "handleRowClick p k interactive =
     (if \<not> clickToSelectActive p k \<and> \<not> opensRows p then NoEffect
      else if interactive then NoEffect
      else if clickToSelectActive p k then ToggleRow
      else OpenRow)"

definition handleRowKeyDown :: "'k table_props \<Rightarrow> bool \<Rightarrow> string \<Rightarrow> row_effect" where
  "handleRowKeyDown p interactive key =
     (if \<not> opensRows p \<or> interactive then NoEffect
      else if key \<noteq> ''Enter'' \<and> key \<noteq> '' '' then NoEffect
      else OpenRow)"

definition row_checked :: "'k table_props \<Rightarrow> 'k list \<Rightarrow> 'k \<Rightarrow> bool" where
  "row_checked p sel k \<longleftrightarrow> k \<notin> set (disabledKeys p) \<and> k \<in> set sel"

definition row_checkbox :: "'k table_props \<Rightarrow> 'k \<Rightarrow> row_effect" where
  "row_checkbox p k = (if k \<in> set (disabledKeys p) then NoEffect else ToggleRow)"

datatype header_check = Checked | Indeterminate | Unchecked

definition header_checkbox :: "'k list \<Rightarrow> 'k list \<Rightarrow> header_check" where
  "header_checkbox keys sel =
     (if isAllSelected keys sel then Checked else if isSomeSelected keys sel then Indeterminate else Unchecked)"

definition row_number :: "nat \<Rightarrow> nat \<Rightarrow> nat" where
  "row_number startIndex rowIndex = startIndex + rowIndex + 1"

definition ariaSortFor :: "bool \<Rightarrow> string \<Rightarrow> sort_state option \<Rightarrow> string option" where
  "ariaSortFor sortable key st =
     (if \<not> sortable then None
      else case st of None \<Rightarrow> Some ''none''
      | Some s \<Rightarrow> if s_key s \<noteq> key then Some ''none''
          else Some (if s_direction s = Ascending then ''ascending'' else ''descending''))"

text \<open>Clicking a header, or Enter and Space on it; \<open>None\<close> when the column does not sort.\<close>

definition header_key :: "bool \<Rightarrow> string \<Rightarrow> string \<Rightarrow> string option" where
  "header_key sortable key pressed =
     (if sortable \<and> (pressed = ''Enter'' \<or> pressed = '' '') then Some key else None)"

text \<open>What a user can do with the rows on screen, and the selection it leaves.\<close>

datatype 'k table_op = ClickRow 'k bool | ClickCheckbox 'k | ClickHeaderCheckbox

fun table_step :: "'k table_props \<Rightarrow> 'k list \<Rightarrow> 'k table_op \<Rightarrow> 'k list \<Rightarrow> 'k list" where
  "table_step p onScreen (ClickRow k interactive) sel =
     (if k \<in> set onScreen \<and> handleRowClick p k interactive = ToggleRow then toggleRow k sel else sel)"
| "table_step p onScreen (ClickCheckbox k) sel =
     (if selectable p \<and> k \<in> set onScreen \<and> row_checkbox p k = ToggleRow then toggleRow k sel else sel)"
| "table_step p onScreen ClickHeaderCheckbox sel =
     (if selectable p then toggleAll (allKeysOnScreen (\<lambda>k. k) (disabledKeys p) (Some onScreen)) sel else sel)"

lemma toggleRow_set: "set (toggleRow k sel) = (if k \<in> set sel then set sel - {k} else insert k (set sel))"
  by (auto simp: toggleRow_def)

text \<open>A disabled row never enters the selection, and nothing off the screen does.\<close>

lemma table_step_keeps:
  "x \<in> set (table_step p onScreen op sel) \<Longrightarrow> x \<in> set sel \<or> (x \<in> set onScreen \<and> x \<notin> set (disabledKeys p))"
  by (cases op)
    (auto simp: toggleRow_set toggleAll_set handleRowClick_def clickToSelectActive_def row_checkbox_def allKeysOnScreen_def
      nullish_def split: if_splits)

section \<open>GroupedSearchSelect.tsx\<close>

record gs_option =
  gs_value :: string
  gs_label :: string
  gs_sublabel :: "string option"

record gs_group =
  gg_key :: string
  gg_label :: string
  gg_options :: "gs_option list"

record picker =
  pk_open :: bool
  pk_query :: string
  pk_highlighted :: int

definition picker_mount :: picker where
  "picker_mount = \<lparr>pk_open = False, pk_query = [], pk_highlighted = -1\<rparr>"

definition selectedOption :: "gs_group list \<Rightarrow> string \<Rightarrow> gs_option option" where
  "selectedOption groups v = find (\<lambda>x. gs_value x = v) (concat (map gg_options groups))"

definition triggerLabel :: "gs_group list \<Rightarrow> string \<Rightarrow> string \<Rightarrow> string \<Rightarrow> string" where
  "triggerLabel groups allValue allLabel v =
     (if v = allValue then allLabel
      else case selectedOption groups v of None \<Rightarrow> allLabel | Some x \<Rightarrow> gs_label x)"

definition option_matches :: "string \<Rightarrow> gs_option \<Rightarrow> bool" where
  "option_matches q x \<longleftrightarrow> contains (to_lower (gs_label x)) q \<or> contains (to_lower (gs_value x)) q
     \<or> (case gs_sublabel x of None \<Rightarrow> False | Some t \<Rightarrow> contains (to_lower t) q)"

definition filteredGroups :: "gs_group list \<Rightarrow> picker \<Rightarrow> gs_group list" where
  "filteredGroups groups s =
     (let q = to_lower (trim (pk_query s)) in
      if q = [] then groups
      else filter (\<lambda>g. gg_options g \<noteq> []) (map (\<lambda>g. g\<lparr>gg_options := filter (option_matches q) (gg_options g)\<rparr>) groups))"

definition flatOptions :: "gs_group list \<Rightarrow> picker \<Rightarrow> gs_option list" where
  "flatOptions groups s = concat (map gg_options (filteredGroups groups s))"

definition picker_set_open :: "bool \<Rightarrow> picker \<Rightarrow> picker" where
  "picker_set_open v s = s\<lparr>pk_open := v, pk_query := [], pk_highlighted := -1\<rparr>"

definition picker_type :: "string \<Rightarrow> picker \<Rightarrow> picker" where
  "picker_type q s = s\<lparr>pk_query := q, pk_highlighted := -1\<rparr>"

text \<open>\<open>selectAndClose\<close>: the value handed to \<open>onChange\<close> and the state left.\<close>

definition selectAndClose :: "string \<Rightarrow> picker \<Rightarrow> string option \<times> picker" where
  "selectAndClose v s = (Some v, s\<lparr>pk_open := False, pk_query := []\<rparr>)"

definition picker_down :: "gs_group list \<Rightarrow> picker \<Rightarrow> picker" where
  "picker_down groups s = s\<lparr>pk_highlighted := min (pk_highlighted s + 1) (int (length (flatOptions groups s)) - 1)\<rparr>"

definition picker_up :: "picker \<Rightarrow> picker" where
  "picker_up s = s\<lparr>pk_highlighted := max (pk_highlighted s - 1) 0\<rparr>"

definition picker_hover :: "nat \<Rightarrow> picker \<Rightarrow> picker" where
  "picker_hover i s = s\<lparr>pk_highlighted := int i\<rparr>"

definition highlighted_option :: "gs_group list \<Rightarrow> picker \<Rightarrow> gs_option option" where
  "highlighted_option groups s =
     (if 0 \<le> pk_highlighted s \<and> pk_highlighted s < int (length (flatOptions groups s))
      then Some (flatOptions groups s ! nat (pk_highlighted s)) else None)"

definition picker_enter :: "gs_group list \<Rightarrow> picker \<Rightarrow> string option \<times> picker" where
  "picker_enter groups s =
     (case highlighted_option groups s of None \<Rightarrow> (None, s) | Some x \<Rightarrow> selectAndClose (gs_value x) s)"

definition picker_escape :: "picker \<Rightarrow> picker" where
  "picker_escape s = s\<lparr>pk_open := False\<rparr>"

text \<open>Choosing a whole group: its key is handed to \<open>onSelectGroup\<close>.\<close>

definition picker_group :: "string \<Rightarrow> picker \<Rightarrow> string option \<times> picker" where
  "picker_group k s = (Some k, s\<lparr>pk_open := False, pk_query := []\<rparr>)"

datatype picker_op = SetOpen bool | TypeQuery string | Down | Up | Hover nat | Escape | Enter | Pick string | PickGroup string

text \<open>A row that can be hovered or clicked is one on screen.\<close>

fun picker_step :: "gs_group list \<Rightarrow> picker_op \<Rightarrow> picker \<Rightarrow> picker" where
  "picker_step groups (SetOpen v) s = picker_set_open v s"
| "picker_step groups (TypeQuery q) s = picker_type q s"
| "picker_step groups Down s = picker_down groups s"
| "picker_step groups Up s = picker_up s"
| "picker_step groups (Hover i) s = (if i < length (flatOptions groups s) then picker_hover i s else s)"
| "picker_step groups Escape s = picker_escape s"
| "picker_step groups Enter s = snd (picker_enter groups s)"
| "picker_step groups (Pick v) s = snd (selectAndClose v s)"
| "picker_step groups (PickGroup k) s = snd (picker_group k s)"

section \<open>SegmentedControl.tsx\<close>

text \<open>\<open>activateByKeyboard\<close>: the option that a key on the \<open>index\<close>th of \<open>n\<close> buttons selects.\<close>

definition activateByKeyboard :: "nat \<Rightarrow> string \<Rightarrow> nat \<Rightarrow> nat option" where
  "activateByKeyboard n key index =
     (let nextIndex = (if key = ''ArrowRight'' \<or> key = ''ArrowDown'' then (index + 1) mod n
          else if key = ''ArrowLeft'' \<or> key = ''ArrowUp'' then (index + n - 1) mod n
          else if key = ''Home'' then 0 else if key = ''End'' then n - 1 else index)
      in if nextIndex \<noteq> index then Some nextIndex else None)"

lemma activate_in_range: "index < n \<Longrightarrow> activateByKeyboard n key index = Some i \<Longrightarrow> i < n \<and> i \<noteq> index"
  by (auto simp: activateByKeyboard_def Let_def split: if_splits)

lemma arrows_undo:
  assumes "index < n" "activateByKeyboard n ''ArrowRight'' index = Some i"
  shows "activateByKeyboard n ''ArrowLeft'' i = Some index"
proof -
  from assms have i: "i = (index + 1) mod n" "i \<noteq> index" by (auto simp: activateByKeyboard_def Let_def split: if_splits)
  have "((index + 1) mod n + n - 1) mod n = index"
    using assms(1) by (cases "index + 1 = n") (auto simp: mod_add_self2)
  with i show ?thesis by (simp add: activateByKeyboard_def Let_def)
qed

section \<open>ConfirmDialog.tsx\<close>

record confirm_text =
  ct_title :: string
  ct_description :: string
  ct_confirmLabel :: "string option"

text \<open>The text shown: the last one it was open with.\<close>

definition confirm_render :: "bool \<Rightarrow> confirm_text \<Rightarrow> confirm_text \<Rightarrow> confirm_text" where
  "confirm_render isOpen current shown = (if isOpen \<and> shown \<noteq> current then current else shown)"

definition confirm_button_label :: "(string \<Rightarrow> string) \<Rightarrow> confirm_text \<Rightarrow> string" where
  "confirm_button_label tr shown = nullish (ct_confirmLabel shown) (tr ''confirm'')"

definition confirm_enabled :: "bool \<Rightarrow> bool \<Rightarrow> bool" where
  "confirm_enabled confirmDisabled isLoading \<longleftrightarrow> \<not> (confirmDisabled \<or> isLoading)"

text \<open>While it closes the dialog keeps the text it was opened with, whatever its caller clears.\<close>

lemma confirm_text_frozen: "foldl (\<lambda>s c. confirm_render False c s) (confirm_render True c0 s0) cs = c0"
proof -
  have "foldl (\<lambda>s c. confirm_render False c s) c0 cs = c0" by (induction cs) (simp_all add: confirm_render_def)
  then show ?thesis by (simp add: confirm_render_def)
qed

section \<open>Properties\<close>

text \<open>
  A list of page numbers without holes: two numbers side by side are consecutive, an ellipsis between two
  stands for at least one page that is left out, and it neither begins nor ends the list.
\<close>

fun no_holes :: "page_item list \<Rightarrow> bool" where
  "no_holes (PageNo a # PageNo b # xs) = (b = a + 1 \<and> no_holes (PageNo b # xs))"
| "no_holes (PageNo a # Ellipsis # PageNo b # xs) = (a + 1 < b \<and> no_holes (PageNo b # xs))"
| "no_holes [PageNo a] = True"
| "no_holes xs = False"

lemma no_holes_run: "no_holes (map PageNo [a..a + int n] @ xs) = no_holes (PageNo (a + int n) # xs)"
proof (induction n arbitrary: a)
  case (Suc n)
  have "[a..a + int (Suc n)] = a # [a + 1..(a + 1) + int n]" by (subst upto_rec1) (simp_all add: algebra_simps)
  moreover have "[a + 1..(a + 1) + int n] = (a + 1) # [a + 1 + 1..(a + 1) + int n]" by (rule upto_rec1) simp
  ultimately show ?case using Suc [of "a + 1"] by (simp add: algebra_simps)
qed simp

lemma no_holes_upto: "a \<le> b \<Longrightarrow> no_holes (map PageNo [a..b] @ xs) = no_holes (PageNo b # xs)"
  using no_holes_run [of a "nat (b - a)" xs] by simp

lemma no_holes_before: "a \<le> b \<Longrightarrow>
    no_holes (PageNo c # map PageNo [a..b] @ xs) = (a = c + 1 \<and> no_holes (map PageNo [a..b] @ xs))"
  by (simp add: upto_rec1 [of a b])

lemma no_holes_before_gap: "a \<le> b \<Longrightarrow>
    no_holes (PageNo c # Ellipsis # map PageNo [a..b] @ xs) = (c + 1 < a \<and> no_holes (map PageNo [a..b] @ xs))"
  by (simp add: upto_rec1 [of a b])

lemma pagination_no_holes: "1 \<le> page \<Longrightarrow> page \<le> pages \<Longrightarrow> no_holes (pagination page pages)"
proof -
  assume r: "1 \<le> page" "page \<le> pages"
  define start where "start = max 2 (page - 1)"
  define stop where "stop = min (pages - 1) (page + 1)"
  have list: "pagination page pages = PageNo 1 # (if start > 2 then [Ellipsis] else []) @ map PageNo [start..stop]
      @ (if stop < pages - 1 then [Ellipsis] else []) @ (if pages > 1 then [PageNo pages] else [])"
    using r by (simp add: pagination_def buildPageList_def Let_def start_def stop_def)
  show ?thesis
  proof (cases "start \<le> stop")
    case True
    then have "1 < pages" "start = 2 \<or> 2 < start" "stop = pages - 1 \<or> stop < pages - 1"
      unfolding start_def stop_def using r by auto
    with True show ?thesis unfolding list
      by (auto simp: no_holes_before no_holes_before_gap no_holes_upto)
  next
    case False
    then have "pages \<le> 2" unfolding start_def stop_def using r by (auto simp: max_def min_def split: if_splits)
    with r have "pages = 1 \<and> page = 1 \<or> pages = 2 \<and> page = 1 \<or> pages = 2 \<and> page = 2" by linarith
    then show ?thesis by (elim disjE conjE) (simp_all, code_simp+)
  qed
qed

text \<open>The page numbers under a table lead everywhere. For a page in range the list starts with the
  first page and ends with the last, shows the page itself and its neighbours, never skips a page
  without an ellipsis and never shows an ellipsis for nothing, and has at most seven entries however many
  pages there are; and the buttons beside it lead to pages in range.\<close>

theorem pagination_complete:
  assumes "1 \<le> page" "page \<le> pages"
  shows "hd (pagination page pages) = PageNo 1 \<and> last (pagination page pages) = PageNo pages
    \<and> no_holes (pagination page pages)
    \<and> (\<forall>d\<in>{-1, 0, 1}. 1 \<le> page + d \<and> page + d \<le> pages \<longrightarrow> PageNo (page + d) \<in> set (pagination page pages))
    \<and> length (pagination page pages) \<le> 7
    \<and> (\<forall>q. prev_page page = Some q \<or> next_page page pages = Some q \<longrightarrow> 1 \<le> q \<and> q \<le> pages)"
proof -
  let ?l = "pagination page pages"
  have list: "?l = PageNo 1 # (if max 2 (page - 1) > 2 then [Ellipsis] else [])
      @ map PageNo [max 2 (page - 1)..min (pages - 1) (page + 1)]
      @ (if min (pages - 1) (page + 1) < pages - 1 then [Ellipsis] else []) @ (if pages > 1 then [PageNo pages] else [])"
    using assms by (simp add: pagination_def buildPageList_def Let_def)
  have first: "hd ?l = PageNo 1" unfolding list by simp
  have "page = 1 \<and> pages = 1 \<or> 1 < pages" using assms by auto
  then have "last ?l = PageNo pages"
  proof
    assume "page = 1 \<and> pages = 1"
    then show ?thesis by (simp only:) code_simp
  next
    assume "1 < pages"
    then show ?thesis unfolding list by simp
  qed
  moreover have "PageNo (page + d) \<in> set ?l" if "d \<in> {-1, 0, 1}" "1 \<le> page + d" "page + d \<le> pages" for d
  proof -
    have "page + d = 1 \<or> page + d = pages \<or> (max 2 (page - 1) \<le> page + d \<and> page + d \<le> min (pages - 1) (page + 1))"
      using that by auto
    then show ?thesis unfolding list using assms by auto
  qed
  moreover have "length ?l \<le> 7"
  proof -
    let ?run = "[max 2 (page - 1)..min (pages - 1) (page + 1)]"
    have "length ?run \<le> 3" by simp
    moreover have "length ?l \<le> 4 + length ?run" unfolding list by (simp del: length_upto)
    ultimately show ?thesis by linarith
  qed
  moreover have "\<forall>q. prev_page page = Some q \<or> next_page page pages = Some q \<longrightarrow> 1 \<le> q \<and> q \<le> pages"
    using assms by (auto simp: prev_page_def next_page_def)
  ultimately show ?thesis using first pagination_no_holes [OF assms] by blast
qed

lemma pagination_complete_witness:
  "pagination 20 40 = [PageNo 1, Ellipsis, PageNo 19, PageNo 20, PageNo 21, Ellipsis, PageNo 40]
   \<and> no_holes (pagination 20 40)"
proof -
  have "pagination 20 40 = [PageNo 1, Ellipsis, PageNo 19, PageNo 20, PageNo 21, Ellipsis, PageNo 40]" by code_simp
  with pagination_complete [of 20 40] show ?thesis by simp
qed

text \<open>A page number that is out of range (rows were deleted meanwhile) is not in the list.\<close>

lemma pagination_out_of_range: "pagination 5 1 = [PageNo 1, Ellipsis]" "prev_page 5 = Some 4" "next_page 5 1 = None"
  by code_simp+

lemma flatOptions_offered:
  "x \<in> set (flatOptions groups s) \<Longrightarrow>
     x \<in> set (concat (map gg_options groups)) \<and> (trim (pk_query s) = [] \<or> option_matches (to_lower (trim (pk_query s))) x)"
  by (auto simp: flatOptions_def filteredGroups_def Let_def to_lower_def split: if_splits)

definition highlight_ok :: "gs_group list \<Rightarrow> picker \<Rightarrow> bool" where
  "highlight_ok groups s \<longleftrightarrow>
     - 1 \<le> pk_highlighted s \<and> (pk_highlighted s \<le> 0 \<or> pk_highlighted s < int (length (flatOptions groups s)))"

lemma flat_unfiltered_longer:
  "length (flatOptions groups s) \<le> length (flatOptions groups (s'\<lparr>pk_query := []\<rparr>))"
proof -
  have "length (concat (map gg_options (filter (\<lambda>g. gg_options g \<noteq> []) (map (\<lambda>g. g\<lparr>gg_options := filter P (gg_options g)\<rparr>) groups))))
      \<le> length (concat (map gg_options groups))" for P
    by (induction groups) (auto intro: le_trans [OF length_filter_le] add_mono)
  then show ?thesis by (simp add: flatOptions_def filteredGroups_def Let_def to_lower_def trim_def trim_start_def trim_end_def)
qed

lemma flatOptions_cong: "pk_query s = pk_query s' \<Longrightarrow> flatOptions groups s = flatOptions groups s'"
  by (simp add: flatOptions_def filteredGroups_def)

lemma picker_step_ok: "highlight_ok groups s \<Longrightarrow> highlight_ok groups (picker_step groups op s)"
proof -
  assume ok: "highlight_ok groups s"
  have same: "highlight_ok groups (s\<lparr>pk_open := v\<rparr>)" for v
    using ok flatOptions_cong [of "s\<lparr>pk_open := v\<rparr>" s groups] by (simp add: highlight_ok_def)
  have closed: "highlight_ok groups (s\<lparr>pk_open := False, pk_query := []\<rparr>)"
    using ok flat_unfiltered_longer [of groups s "s\<lparr>pk_open := False\<rparr>"] by (auto simp: highlight_ok_def)
  have moved: "highlight_ok groups (s\<lparr>pk_highlighted := h\<rparr>)"
    if "- 1 \<le> h" "h \<le> 0 \<or> h < int (length (flatOptions groups s))" for h
    using that flatOptions_cong [of "s\<lparr>pk_highlighted := h\<rparr>" s groups] by (simp add: highlight_ok_def)
  have low: "- 1 \<le> pk_highlighted s" using ok by (simp add: highlight_ok_def)
  show ?thesis
  proof (cases op)
    case Down
    have "highlight_ok groups (picker_down groups s)" unfolding picker_down_def by (rule moved) (use low in auto)
    with Down show ?thesis by simp
  next
    case Up
    have "highlight_ok groups (picker_up s)" unfolding picker_up_def
      by (rule moved) (use ok in \<open>auto simp: highlight_ok_def\<close>)
    with Up show ?thesis by simp
  next
    case (Hover i)
    then show ?thesis using ok moved by (auto simp: picker_hover_def)
  next
    case Enter
    then show ?thesis using ok closed by (auto simp: picker_enter_def selectAndClose_def split: option.splits)
  next
    case (SetOpen v)
    then show ?thesis by (simp add: picker_set_open_def highlight_ok_def)
  next
    case (TypeQuery q)
    then show ?thesis by (simp add: picker_type_def highlight_ok_def)
  qed (use same closed in \<open>simp_all add: picker_escape_def selectAndClose_def picker_group_def\<close>)
qed

definition picker_run :: "gs_group list \<Rightarrow> picker_op list \<Rightarrow> picker" where
  "picker_run groups ops = foldl (\<lambda>s op. picker_step groups op s) picker_mount ops"

lemma picker_run_ok: "highlight_ok groups (picker_run groups ops)"
proof -
  have "highlight_ok groups s \<Longrightarrow> highlight_ok groups (foldl (\<lambda>s op. picker_step groups op s) s ops)" for s
    by (induction ops arbitrary: s) (simp_all add: picker_step_ok)
  moreover have "highlight_ok groups picker_mount" by (simp add: highlight_ok_def picker_mount_def)
  ultimately show ?thesis by (simp add: picker_run_def)
qed

text \<open>The searchable picker only ever picks what it offers. After any sequence of typing, arrow keys,
  hovering, choosing, opening and closing, Enter picks a value exactly when a row is highlighted and
  there are rows, and then an option that the caller passed and that matches the text typed; right after
  typing nothing is highlighted, so Enter does nothing, and after one arrow down it picks the first
  match.\<close>

theorem picker_picks_offered:
  "(let s = picker_run groups ops in
     (fst (picker_enter groups s) \<noteq> None \<longleftrightarrow> 0 \<le> pk_highlighted s \<and> flatOptions groups s \<noteq> [])
     \<and> (\<forall>v. fst (picker_enter groups s) = Some v \<longrightarrow>
          (\<exists>x\<in>set (concat (map gg_options groups)). gs_value x = v
             \<and> (trim (pk_query s) = [] \<or> option_matches (to_lower (trim (pk_query s))) x)))
     \<and> fst (picker_enter groups (picker_type q s)) = None
     \<and> fst (picker_enter groups (picker_down groups (picker_type q s))) =
         (case flatOptions groups (picker_type q s) of [] \<Rightarrow> None | x # _ \<Rightarrow> Some (gs_value x)))"
proof -
  define s where "s = picker_run groups ops"
  have ok: "highlight_ok groups s" unfolding s_def by (rule picker_run_ok)
  then have "highlighted_option groups s \<noteq> None \<longleftrightarrow> 0 \<le> pk_highlighted s \<and> flatOptions groups s \<noteq> []"
    by (auto simp: highlight_ok_def highlighted_option_def)
  then have 1: "fst (picker_enter groups s) \<noteq> None \<longleftrightarrow> 0 \<le> pk_highlighted s \<and> flatOptions groups s \<noteq> []"
    by (auto simp: picker_enter_def selectAndClose_def split: option.splits)
  have 2: "\<exists>x\<in>set (concat (map gg_options groups)). gs_value x = v
      \<and> (trim (pk_query s) = [] \<or> option_matches (to_lower (trim (pk_query s))) x)"
    if "fst (picker_enter groups s) = Some v" for v
  proof -
    from that obtain x where "highlighted_option groups s = Some x" "gs_value x = v"
      by (auto simp: picker_enter_def selectAndClose_def split: option.splits)
    then have "x \<in> set (flatOptions groups s)" "gs_value x = v" by (auto simp: highlighted_option_def split: if_splits)
    then show ?thesis using flatOptions_offered [of x groups s] by blast
  qed
  have 3: "fst (picker_enter groups (picker_type q s)) = None"
    by (simp add: picker_enter_def highlighted_option_def picker_type_def)
  let ?d = "picker_down groups (picker_type q s)"
  have "flatOptions groups ?d = flatOptions groups (picker_type q s)"
    by (rule flatOptions_cong) (simp add: picker_down_def)
  then have 4: "fst (picker_enter groups ?d) = (case flatOptions groups (picker_type q s) of [] \<Rightarrow> None | x # _ \<Rightarrow> Some (gs_value x))"
    by (auto simp: picker_enter_def highlighted_option_def picker_down_def picker_type_def selectAndClose_def
        split: list.splits option.splits)
  from 1 2 3 4 show ?thesis unfolding s_def Let_def by blast
qed

lemma picker_picks_offered_witness:
  "(let gs = [\<lparr>gg_key = ''g'', gg_label = ''G'', gg_options =
       [\<lparr>gs_value = ''login'', gs_label = ''Login'', gs_sublabel = None\<rparr>,
        \<lparr>gs_value = ''logout'', gs_label = ''Logout'', gs_sublabel = None\<rparr>]\<rparr>] in
     fst (picker_enter gs (picker_run gs [SetOpen True, TypeQuery ''OUT'', Down])) = Some ''logout'')
   \<and> fst (picker_enter [] (picker_type ''x'' (picker_run [] []))) = None"
  using picker_picks_offered [of "[]" "[]" "''x''", unfolded Let_def, THEN conjunct2, THEN conjunct2, THEN conjunct1]
  by (intro conjI) (code_simp, simp)

end
