(* ===== verification/ActiveSessions.thy ===== *)
theory ActiveSessions
  imports AuthFlows Toaster Widgets Formatting
begin

text \<open>
  The table of the caller's sessions on the dashboard (\<open>active_sessions/ActiveSessionsCard.tsx\<close>,
  \<open>activeSessionsTable.tsx\<close>): ending one session, several, or all of them. It composes the
  session queries and mutations, the sign-out flows, the row selection of the table and the toaster.
  The server's answers and the lists it sends are steps of the environment.
\<close>

section \<open>State\<close>

text \<open>What the card asks the server for, and the requests that makes.\<close>

datatype session_call = LogoutThis | LogoutEverywhere | RevokeOne int | RevokeMany "int list"

definition session_requests :: "session_call \<Rightarrow> request list" where
  "session_requests c = (case c of LogoutThis \<Rightarrow> [logoutApi] | LogoutEverywhere \<Rightarrow> [logoutAllApi]
     | RevokeOne i \<Rightarrow> [revokeSessionApi i] | RevokeMany ids \<Rightarrow> map revokeSessionApi ids)"

text \<open>The card, the application and the toaster around it, and the calls made so far. The fields named
  \<open>pending\<close> are the mutations' states, with the sessions a pending revocation is about.\<close>

record sessions_card =
  sc_app :: app
  sc_toaster :: toaster
  sc_path :: string
  sc_sessions :: "session_read list option"
  sc_selected :: "int list"
  sc_rowClickSelects :: bool
  sc_ending :: "session_read option"
  sc_lastEnding :: "session_read option"
  sc_bulkEnding :: bool
  sc_logoutAllConfirm :: bool
  sc_pendingRevoke :: "int option"
  sc_pendingBulk :: "int list option"
  sc_pendingLogout :: bool
  sc_pendingLogoutAll :: bool
  sc_calls :: "session_call list"

definition card_mount :: "app \<Rightarrow> toaster \<Rightarrow> sessions_card" where
  "card_mount app ts = \<lparr>sc_app = app, sc_toaster = ts, sc_path = ''/dashboard'', sc_sessions = None,
     sc_selected = [], sc_rowClickSelects = False, sc_ending = None, sc_lastEnding = None, sc_bulkEnding = False,
     sc_logoutAllConfirm = False, sc_pendingRevoke = None, sc_pendingBulk = None, sc_pendingLogout = False,
     sc_pendingLogoutAll = False, sc_calls = []\<rparr>"

definition rows_of :: "sessions_card \<Rightarrow> session_read list" where
  "rows_of c = nullish (sc_sessions c) []"

definition currentSessionId :: "sessions_card \<Rightarrow> int option" where
  "currentSessionId c = map_option se_id (find se_is_current (rows_of c))"

definition disabledSessionKeys :: "sessions_card \<Rightarrow> int list" where
  "disabledSessionKeys c = (case currentSessionId c of None \<Rightarrow> [] | Some i \<Rightarrow> [i])"

text \<open>The props of the table; there is nothing to select with a single session.\<close>

definition sessions_table :: "sessions_card \<Rightarrow> int table_props" where
  "sessions_table c = \<lparr>selectable = (length (rows_of c) > 1), rowClickSelects = sc_rowClickSelects c,
     opensRows = False, disabledKeys = disabledSessionKeys c\<rparr>"

text \<open>The session that the dialog's text is about, also while it closes.\<close>

definition dialogSession :: "sessions_card \<Rightarrow> session_read option" where
  "dialogSession c = (case sc_ending c of Some s \<Rightarrow> Some s | None \<Rightarrow> sc_lastEnding c)"

definition card_render :: "sessions_card \<Rightarrow> sessions_card" where
  "card_render c = (case sc_ending c of None \<Rightarrow> c
     | Some s \<Rightarrow> if sc_ending c \<noteq> sc_lastEnding c then c\<lparr>sc_lastEnding := Some s\<rparr> else c)"

section \<open>Handlers\<close>

definition card_toast :: "string \<Rightarrow> kind \<Rightarrow> sessions_card \<Rightarrow> sessions_card" where
  "card_toast title k c =
     c\<lparr>sc_toaster := snd (create \<lparr>o_title = title, o_description = None, o_type = Some k, o_duration = None, o_action = None\<rparr>
        (sc_toaster c))\<rparr>"

definition handleConfirm :: "sessions_card \<Rightarrow> sessions_card" where
  "handleConfirm c = (case sc_ending c of
       None \<Rightarrow> c
     | Some s \<Rightarrow>
         if se_is_current s
         then c\<lparr>sc_calls := sc_calls c @ [LogoutThis], sc_pendingLogout := True, sc_ending := None\<rparr>
         else c\<lparr>sc_calls := sc_calls c @ [RevokeOne (se_id s)], sc_pendingRevoke := Some (se_id s)\<rparr>)"

text \<open>The answer to the revocation under way.\<close>

definition revoke_answered :: "translator \<Rightarrow> unit outcome \<Rightarrow> sessions_card \<Rightarrow> sessions_card" where
  "revoke_answered tr answer c = (case sc_pendingRevoke c of
       None \<Rightarrow> c
     | Some i \<Rightarrow>
         (let (r, app') = run_mutation tr (useRevokeSessionMutation tr i) answer (sc_app c);
              c1 = c\<lparr>sc_app := app', sc_pendingRevoke := None\<rparr>;
              c2 = (case r of
                  Inr _ \<Rightarrow> card_toast (tr_text tr ''activeSessionsCard.sessionEndedToast'' []) TSuccess c1
                | Inl msg \<Rightarrow> card_toast msg TError c1)
          in c2\<lparr>sc_ending := None\<rparr>))"

definition handleBulkConfirm :: "sessions_card \<Rightarrow> sessions_card" where
  "handleBulkConfirm c = c\<lparr>sc_calls := sc_calls c @ [RevokeMany (sc_selected c)], sc_pendingBulk := Some (sc_selected c)\<rparr>"

definition bulk_toast :: "translator \<Rightarrow> session_revoke_result list \<Rightarrow> string \<times> kind" where
  "bulk_toast tr results =
     (let errorCount = length (filter (\<lambda>r. \<not> sr_ok r) results); successCount = length results - errorCount in
      if errorCount = 0
      then (tr_text tr ''activeSessionsCard.bulkEndSuccessToast'' [(''count'', JNum (int successCount))], TSuccess)
      else (tr_text tr ''activeSessionsCard.bulkEndPartialToast''
              [(''success'', JNum (int successCount)), (''error'', JNum (int errorCount))], TWarning))"

definition bulk_answered :: "translator \<Rightarrow> (nat \<Rightarrow> unit outcome) \<Rightarrow> sessions_card \<Rightarrow> sessions_card" where
  "bulk_answered tr answer c = (case sc_pendingBulk c of
       None \<Rightarrow> c
     | Some ids \<Rightarrow>
         (let (results, app') = useBulkRevokeSessionsMutation tr ids answer (sc_app c);
              c1 = c\<lparr>sc_app := app', sc_pendingBulk := None\<rparr>;
              (title, k) = bulk_toast tr results
          in (card_toast title k c1)\<lparr>sc_selected := [], sc_bulkEnding := False\<rparr>))"

text \<open>Signing out: whatever the answer, the page goes to the sign-in page.\<close>

definition logout_answered :: "translator \<Rightarrow> int \<Rightarrow> unit outcome \<Rightarrow> sessions_card \<Rightarrow> sessions_card" where
  "logout_answered tr now answer c =
     c\<lparr>sc_app := snd (run_mutation tr (useLogoutMutation now) answer (sc_app c)), sc_pendingLogout := False, sc_path := ''/login''\<rparr>"

definition confirm_logout_all :: "sessions_card \<Rightarrow> sessions_card" where
  "confirm_logout_all c =
     c\<lparr>sc_calls := sc_calls c @ [LogoutEverywhere], sc_pendingLogoutAll := True, sc_logoutAllConfirm := False\<rparr>"

definition logoutAll_answered :: "translator \<Rightarrow> int \<Rightarrow> unit outcome \<Rightarrow> sessions_card \<Rightarrow> sessions_card" where
  "logoutAll_answered tr now answer c =
     c\<lparr>sc_app := snd (run_mutation tr (useLogoutAllMutation now) answer (sc_app c)), sc_pendingLogoutAll := False,
       sc_path := ''/login''\<rparr>"

text \<open>\<open>activeSessionsTable.tsx\<close>: which row's button shows a spinner, and the place of a session.\<close>

definition row_loading :: "sessions_card \<Rightarrow> session_read \<Rightarrow> bool" where
  "row_loading c s \<longleftrightarrow> (se_is_current s \<and> sc_pendingLogout c)
     \<or> (\<not> se_is_current s \<and> sc_pendingRevoke c = Some (se_id s))"

datatype place = CityAndCountry string string | Place string | NoPlace

definition session_place :: "session_read \<Rightarrow> place" where
  "session_place s =
     (if truthy (se_city s) \<and> truthy (se_country s) then CityAndCountry (the (se_city s)) (the (se_country s))
      else (let p = (case se_city s of Some x \<Rightarrow> Some x | None \<Rightarrow> se_country s) in
            if truthy p then Place (the p) else NoPlace))"

section \<open>Steps\<close>

text \<open>Everything that can happen to the card. A dialog's buttons work while it is open and its request is
  not under way; it can be closed at any time. The row buttons and the table act on the rows on screen.\<close>

datatype card_op = Loaded "session_read list" | TableOp "int table_op" | ToggleSelectMode | ClearSelection
  | AskEnd nat | ConfirmEnd | CancelEnd | RevokeAnswer "unit outcome" | LogoutAnswer "unit outcome"
  | AskBulk | ConfirmBulk | CancelBulk | BulkAnswer "nat \<Rightarrow> unit outcome"
  | AskAll | ConfirmAll | CancelAll | LogoutAllAnswer "unit outcome" | RenderCard

fun card_step :: "translator \<Rightarrow> int \<Rightarrow> card_op \<Rightarrow> sessions_card \<Rightarrow> sessions_card" where
  "card_step tr now (Loaded xs) c = c\<lparr>sc_sessions := Some xs\<rparr>"
| "card_step tr now (TableOp t) c =
     c\<lparr>sc_selected := table_step (sessions_table c) (map se_id (rows_of c)) t (sc_selected c)\<rparr>"
| "card_step tr now ToggleSelectMode c = c\<lparr>sc_rowClickSelects := \<not> sc_rowClickSelects c\<rparr>"
| "card_step tr now ClearSelection c = c\<lparr>sc_selected := []\<rparr>"
| "card_step tr now (AskEnd i) c = (if i < length (rows_of c) then c\<lparr>sc_ending := Some (rows_of c ! i)\<rparr> else c)"
| "card_step tr now ConfirmEnd c =
     (case sc_ending c of None \<Rightarrow> c
      | Some s \<Rightarrow> if confirm_enabled False (if se_is_current s then sc_pendingLogout c else sc_pendingRevoke c \<noteq> None)
          then handleConfirm c else c)"
| "card_step tr now CancelEnd c = c\<lparr>sc_ending := None\<rparr>"
| "card_step tr now (RevokeAnswer a) c = revoke_answered tr a c"
| "card_step tr now (LogoutAnswer a) c = (if sc_pendingLogout c then logout_answered tr now a c else c)"
| "card_step tr now AskBulk c =
     (if length (rows_of c) > 1 \<and> sc_selected c \<noteq> [] then c\<lparr>sc_bulkEnding := True\<rparr> else c)"
| "card_step tr now ConfirmBulk c =
     (if sc_bulkEnding c \<and> confirm_enabled False (sc_pendingBulk c \<noteq> None) then handleBulkConfirm c else c)"
| "card_step tr now CancelBulk c = c\<lparr>sc_bulkEnding := False\<rparr>"
| "card_step tr now (BulkAnswer a) c = bulk_answered tr a c"
| "card_step tr now AskAll c = c\<lparr>sc_logoutAllConfirm := True\<rparr>"
| "card_step tr now ConfirmAll c =
     (if sc_logoutAllConfirm c \<and> confirm_enabled False (sc_pendingLogoutAll c) then confirm_logout_all c else c)"
| "card_step tr now CancelAll c = c\<lparr>sc_logoutAllConfirm := False\<rparr>"
| "card_step tr now (LogoutAllAnswer a) c = (if sc_pendingLogoutAll c then logoutAll_answered tr now a c else c)"
| "card_step tr now RenderCard c = card_render c"

definition card_run :: "translator \<Rightarrow> int \<Rightarrow> card_op list \<Rightarrow> sessions_card \<Rightarrow> sessions_card" where
  "card_run tr now ops c = foldl (\<lambda>c op. card_step tr now op c) c ops"

section \<open>Properties\<close>

text \<open>What the server's list says: it contains the caller's own session, and marks that one only.\<close>

definition own_session_marked :: "int \<Rightarrow> session_read list \<Rightarrow> bool" where
  "own_session_marked cur xs \<longleftrightarrow> list_ex se_is_current xs \<and> list_all (\<lambda>s. se_is_current s = (se_id s = cur)) xs"

definition load_ok :: "int \<Rightarrow> card_op \<Rightarrow> bool" where
  "load_ok cur op = (case op of Loaded xs \<Rightarrow> own_session_marked cur xs | _ \<Rightarrow> True)"

definition spares :: "int \<Rightarrow> session_call \<Rightarrow> bool" where
  "spares cur call = (case call of RevokeOne i \<Rightarrow> i \<noteq> cur | RevokeMany ids \<Rightarrow> cur \<notin> set ids | _ \<Rightarrow> True)"

definition card_inv :: "int \<Rightarrow> sessions_card \<Rightarrow> bool" where
  "card_inv cur c \<longleftrightarrow> (sc_sessions c = None \<or> own_session_marked cur (rows_of c)) \<and> cur \<notin> set (sc_selected c)
     \<and> (\<forall>s. sc_ending c = Some s \<longrightarrow> se_is_current s = (se_id s = cur)) \<and> list_all (spares cur) (sc_calls c)"

lemma card_toast_simps [simp]:
  "sc_sessions (card_toast x k c) = sc_sessions c" "sc_selected (card_toast x k c) = sc_selected c"
  "sc_ending (card_toast x k c) = sc_ending c" "sc_calls (card_toast x k c) = sc_calls c"
  "sc_pendingRevoke (card_toast x k c) = sc_pendingRevoke c" "sc_pendingBulk (card_toast x k c) = sc_pendingBulk c"
  "sc_bulkEnding (card_toast x k c) = sc_bulkEnding c"
  by (simp_all add: card_toast_def)

lemma current_disabled: "own_session_marked cur (rows_of c) \<Longrightarrow> disabledSessionKeys c = [cur]"
proof -
  assume ok: "own_session_marked cur (rows_of c)"
  then obtain s where s: "find se_is_current (rows_of c) = Some s"
    by (cases "find se_is_current (rows_of c)") (auto simp: own_session_marked_def find_None_iff list_ex_iff)
  then have "s \<in> set (rows_of c)" "se_is_current s" by (auto simp: find_Some_iff)
  with ok have "se_id s = cur" by (auto simp: own_session_marked_def list_all_iff)
  with s show ?thesis by (simp add: disabledSessionKeys_def currentSessionId_def)
qed

lemma table_op_spares:
  assumes "card_inv cur c"
  shows "cur \<notin> set (table_step (sessions_table c) (map se_id (rows_of c)) t (sc_selected c))"
proof
  assume "cur \<in> set (table_step (sessions_table c) (map se_id (rows_of c)) t (sc_selected c))"
  from table_step_keeps [OF this] assms
  have on: "cur \<in> se_id ` set (rows_of c)" "cur \<notin> set (disabledSessionKeys c)"
    by (auto simp: card_inv_def sessions_table_def)
  then have "sc_sessions c \<noteq> None" by (cases "sc_sessions c") (auto simp: rows_of_def nullish_def)
  with assms have "disabledSessionKeys c = [cur]" by (intro current_disabled) (simp add: card_inv_def)
  with on show False by simp
qed

lemma card_step_inv:
  assumes "card_inv cur c" "load_ok cur op"
  shows "card_inv cur (card_step tr now op c)"
proof (cases op)
  case (TableOp t)
  with assms(1) table_op_spares [OF assms(1), of t] show ?thesis by (simp add: card_inv_def rows_of_def)
next
  case (AskEnd i)
  have "se_is_current (rows_of c ! i) = (se_id (rows_of c ! i) = cur)" if "i < length (rows_of c)"
  proof -
    from that have "sc_sessions c \<noteq> None" by (cases "sc_sessions c") (auto simp: rows_of_def nullish_def)
    with assms(1) that show ?thesis by (simp add: card_inv_def own_session_marked_def list_all_length)
  qed
  with AskEnd assms(1) show ?thesis by (simp add: card_inv_def rows_of_def)
next
  case ConfirmEnd
  with assms(1) show ?thesis
    by (auto simp: card_inv_def handleConfirm_def rows_of_def spares_def split: option.splits)
next
  case (RevokeAnswer a)
  with assms(1) show ?thesis
    by (auto simp: card_inv_def revoke_answered_def rows_of_def Let_def split: option.splits sum.splits prod.splits)
next
  case (BulkAnswer a)
  with assms(1) show ?thesis
    by (auto simp: card_inv_def bulk_answered_def rows_of_def Let_def split: option.splits prod.splits)
qed (use assms in \<open>auto simp: card_inv_def load_ok_def rows_of_def nullish_def handleBulkConfirm_def spares_def
    confirm_logout_all_def logout_answered_def logoutAll_answered_def card_render_def split: option.splits\<close>)

lemma card_run_inv: "card_inv cur c \<Longrightarrow> list_all (load_ok cur) ops \<Longrightarrow> card_inv cur (card_run tr now ops c)"
  unfolding card_run_def by (induction ops arbitrary: c) (simp_all add: card_step_inv)

text \<open>C12: The card never asks the server to revoke the session it runs in. Whatever sessions are ticked,
  row by row or all at once, whatever dialogs are opened, confirmed and closed, and in whatever order the
  lists and the answers arrive, no single and no bulk revocation names the caller's own session: that one
  is ended by the ordinary sign-out only. What is relied on of the server is that its lists contain the
  caller's own session and mark no other as current.\<close>

theorem own_session_never_revoked:
  assumes "list_all (load_ok cur) ops"
  shows "revokeSessionApi cur \<notin> set (concat (map session_requests (sc_calls (card_run tr now ops (card_mount app ts)))))"
proof -
  have "card_inv cur (card_mount app ts)" by (simp add: card_inv_def card_mount_def)
  from card_run_inv [OF this assms] have "list_all (spares cur) (sc_calls (card_run tr now ops (card_mount app ts)))"
    by (simp add: card_inv_def)
  moreover have "spares cur call \<Longrightarrow> revokeSessionApi cur \<notin> set (session_requests call)" for call
    by (cases call) (auto simp: spares_def session_requests_def revokeSessionApi_inject, simp_all add: revokeSessionApi_def
        logoutApi_def logoutAllApi_def delete_req_def post_req_def)
  ultimately show ?thesis by (auto simp: list_all_iff)
qed

definition example_session :: "int \<Rightarrow> bool \<Rightarrow> session_read" where
  "example_session i current = \<lparr>se_id = i, se_ip_address = None, se_city = None, se_country = None, se_user_agent = None,
     se_created_at = [], se_last_used_at = [], se_is_current = current\<rparr>"

definition plain_tr :: translator where
  "plain_tr = \<lparr>tr_exists = \<lambda>_. False, tr_text = \<lambda>k _. k\<rparr>"

lemma own_session_never_revoked_witness:
  "(let ops = [Loaded [example_session 1 True, example_session 2 False], TableOp ClickHeaderCheckbox,
        TableOp (ClickCheckbox 1), AskBulk, ConfirmBulk, AskEnd 0, ConfirmEnd];
      c = card_run plain_tr 0 ops (card_mount initial_app initial_toaster)
    in sc_calls c = [RevokeMany [2], LogoutThis]
       \<and> revokeSessionApi 1 \<notin> set (concat (map session_requests (sc_calls c))))"
proof -
  let ?ops = "[Loaded [example_session 1 True, example_session 2 False], TableOp ClickHeaderCheckbox,
        TableOp (ClickCheckbox 1), AskBulk, ConfirmBulk, AskEnd 0, ConfirmEnd]"
  have "list_all (load_ok 1) ?ops" by code_simp
  note own_session_never_revoked [OF this, of plain_tr 0 initial_app initial_toaster]
  moreover have "sc_calls (card_run plain_tr 0 ?ops (card_mount initial_app initial_toaster)) = [RevokeMany [2], LogoutThis]"
    by code_simp
  ultimately show ?thesis by (simp add: Let_def)
qed

text \<open>A session that was ended by its own button stays ticked. When the session whose revocation is under
  way was selected, the answer and the new list, which no longer has it, leave the selection as it is:
  \<open>Log out selected\<close> then asks the server to revoke the ended session again.\<close>

theorem ended_session_stays_selected:
  assumes "sc_pendingRevoke c = Some i" "i \<in> set (sc_selected c)" "i \<notin> set (map se_id xs)"
    and "1 < length xs" "sc_pendingBulk c = None"
  shows "let c' = card_run tr now [RevokeAnswer (Fulfilled ()), Loaded xs, AskBulk, ConfirmBulk] c in
    i \<notin> set (map se_id (rows_of c')) \<and> revokeSessionApi i \<in> set (session_requests (last (sc_calls c')))
    \<and> sc_calls c' = sc_calls c @ [RevokeMany (sc_selected c)]"
proof -
  let ?c1 = "card_step tr now (RevokeAnswer (Fulfilled ())) c"
  have c1: "sc_selected ?c1 = sc_selected c" "sc_calls ?c1 = sc_calls c" "sc_pendingBulk ?c1 = None"
    using assms(1,5) by (simp_all add: revoke_answered_def run_mutation_def Let_def)
  have "sc_selected c \<noteq> []" using assms(2) by auto
  with c1 assms(2-4) show ?thesis
    by (auto simp: card_run_def Let_def rows_of_def nullish_def confirm_enabled_def handleBulkConfirm_def session_requests_def)
qed

lemma ended_session_stays_selected_witness:
  "(let c = card_run plain_tr 0 [Loaded [example_session 1 True, example_session 2 False, example_session 3 False],
        TableOp (ClickCheckbox 2), AskEnd 1, ConfirmEnd] (card_mount initial_app initial_toaster);
      c' = card_run plain_tr 0 [RevokeAnswer (Fulfilled ()), Loaded [example_session 1 True, example_session 3 False],
        AskBulk, ConfirmBulk] c
    in sc_calls c' = [RevokeOne 2, RevokeMany [2]])"
proof -
  let ?c = "card_run plain_tr 0 [Loaded [example_session 1 True, example_session 2 False, example_session 3 False],
        TableOp (ClickCheckbox 2), AskEnd 1, ConfirmEnd] (card_mount initial_app initial_toaster)"
  let ?xs = "[example_session 1 True, example_session 3 False]"
  have sel: "sc_selected ?c = [2]" "sc_calls ?c = [RevokeOne 2]" "sc_pendingRevoke ?c = Some 2" "sc_pendingBulk ?c = None"
    by code_simp+
  have "2 \<in> set (sc_selected ?c)" by (simp only: sel) simp
  moreover have "2 \<notin> set (map se_id ?xs)" "1 < length ?xs" by code_simp+
  note facts = calculation this
  have "sc_calls (card_run plain_tr 0 [RevokeAnswer (Fulfilled ()), Loaded ?xs, AskBulk, ConfirmBulk] ?c)
      = sc_calls ?c @ [RevokeMany (sc_selected ?c)]"
    using ended_session_stays_selected [OF sel(3) facts sel(4), of plain_tr 0] by (simp only: Let_def)
  then show ?thesis by (simp only: Let_def sel append.simps)
qed

text \<open>The answer about one session closes the dialog about another. A dialog can be closed while its
  revocation is under way and the next session's opened; whatever the server answers, its arrival closes
  the dialog that is open by then, and the second session is not ended.\<close>

theorem answer_closes_next_dialog:
  assumes "sc_ending c = Some s" "\<not> se_is_current s" "sc_pendingRevoke c = None"
    and "j < length (rows_of c)" "rows_of c ! j \<noteq> s"
  shows "sc_ending (card_run tr now [ConfirmEnd, CancelEnd, AskEnd j] c) = Some (rows_of c ! j)
    \<and> sc_ending (card_run tr now [ConfirmEnd, CancelEnd, AskEnd j, RevokeAnswer a] c) = None
    \<and> sc_calls (card_run tr now [ConfirmEnd, CancelEnd, AskEnd j, ConfirmEnd, RevokeAnswer a] c)
        = sc_calls c @ RevokeOne (se_id s) # (if se_is_current (rows_of c ! j) \<and> \<not> sc_pendingLogout c then [LogoutThis] else [])"
  using assms
  by (auto simp: card_run_def confirm_enabled_def handleConfirm_def rows_of_def revoke_answered_def Let_def
      split: option.splits sum.splits prod.splits)

lemma answer_closes_next_dialog_witness:
  "sc_ending (card_run plain_tr 0 [Loaded [example_session 1 True, example_session 2 False, example_session 3 False],
      AskEnd 1, ConfirmEnd, CancelEnd, AskEnd 2, RevokeAnswer (Fulfilled ())] (card_mount initial_app initial_toaster)) = None"
proof -
  let ?c = "card_run plain_tr 0 [Loaded [example_session 1 True, example_session 2 False, example_session 3 False], AskEnd 1]
      (card_mount initial_app initial_toaster)"
  have rows: "rows_of ?c = [example_session 1 True, example_session 2 False, example_session 3 False]"
    and pend: "sc_pendingRevoke ?c = None" and ending: "sc_ending ?c = Some (example_session 2 False)"
    by code_simp+
  have "\<not> se_is_current (example_session 2 False)" by code_simp
  moreover have "2 < length (rows_of ?c)" "rows_of ?c ! 2 \<noteq> example_session 2 False"
    unfolding rows by code_simp+
  note facts = calculation this
  note answer_closes_next_dialog [OF ending facts(1) pend facts(2,3), of plain_tr 0 "Fulfilled ()", THEN conjunct2, THEN conjunct1]
  then show ?thesis by (simp only: card_run_def foldl.simps)
qed

text \<open>Every way of signing out ends signed out and on the sign-in page, whatever the server answers: a
  refused or failed sign-out, of this device or of all, is no exception.\<close>

theorem sign_out_always_leaves:
  assumes "sc_pendingLogout c" "sc_pendingLogoutAll c'"
  shows "(let d = card_step tr now (LogoutAnswer a) c in sc_path d = ''/login'' \<and> signed_out (sc_app d))
    \<and> (let d = card_step tr now (LogoutAllAnswer a) c' in sc_path d = ''/login'' \<and> signed_out (sc_app d))"
proof -
  have "signed_out (clearMyAccountSessionCaches now s)" for s
    by (simp add: clearMyAccountSessionCaches_def signed_out_def auth_store_defs)
  then show ?thesis using assms
    by (cases a) (simp_all add: logout_answered_def logoutAll_answered_def run_mutation_def useLogoutMutation_def
        useLogoutAllMutation_def Let_def)
qed

lemma sign_out_always_leaves_witness:
  "sc_path (card_step plain_tr 0 (LogoutAnswer (Rejected (OtherError [])))
     (card_run plain_tr 0 [Loaded [example_session 1 True], AskEnd 0, ConfirmEnd] (card_mount initial_app initial_toaster)))
   = ''/login''"
proof -
  have "sc_pendingLogout (card_run plain_tr 0 [Loaded [example_session 1 True], AskEnd 0, ConfirmEnd] (card_mount initial_app initial_toaster))"
    "sc_pendingLogoutAll (card_run plain_tr 0 [AskAll, ConfirmAll] (card_mount initial_app initial_toaster))"
    by code_simp+
  from sign_out_always_leaves [OF this, of plain_tr 0 "Rejected (OtherError [])"] show ?thesis by (simp add: Let_def)
qed

end
