(* ===== verification/RateLimits.thy ===== *)
theory RateLimits
  imports Queries Toaster Widgets Formatting
begin

text \<open>
  The page of live rate-limit counters (\<open>rate_limits/\<close>): the filters with their tiles and chips, the
  display of identifiers, the client-side sort of \<open>sortRateLimitEntries.ts\<close>, and the reset of a counter
  behind a dialog (\<open>RateLimitsPage.tsx\<close>). The rendering of React is a step of its own where a handler
  depends on what was last rendered.
\<close>

section \<open>rateLimitIdentifier.ts\<close>

record identifier_display =
  id_text :: ustring
  id_full :: string
  id_isDigest :: bool

definition SHORT_DIGEST_LENGTH :: nat where
  "SHORT_DIGEST_LENGTH = 12"

text \<open>\<open>/^[0-9a-f]{64}$/\<close>\<close>

definition is_digest :: "string \<Rightarrow> bool" where
  "is_digest s \<longleftrightarrow> length s = 64 \<and>
     list_all (\<lambda>c. (48 \<le> ucode c \<and> ucode c \<le> 57) \<or> (97 \<le> ucode c \<and> ucode c \<le> 102)) s"

definition describeIdentifier :: "rate_limit_entry \<Rightarrow> identifier_display" where
  "describeIdentifier e =
     (if truthy (rl_identifier_label e)
      then (let l = the (rl_identifier_label e) in \<lparr>id_text = codes l, id_full = l, id_isDigest = False\<rparr>)
      else if is_digest (rl_identifier e)
      then \<lparr>id_text = codes (take SHORT_DIGEST_LENGTH (rl_identifier e)) @ [8230], id_full = rl_identifier e, id_isDigest = True\<rparr>
      else \<lparr>id_text = codes (rl_identifier e), id_full = rl_identifier e, id_isDigest = False\<rparr>)"

section \<open>sortRateLimitEntries.ts\<close>

datatype sort_value = SText ustring | SNumber int | SInfinity

definition SORT_VALUE :: "string \<Rightarrow> (rate_limit_entry \<Rightarrow> sort_value) option" where
  "SORT_VALUE key = map_of
     [(''endpoint'', \<lambda>e. SText (codes (rl_endpoint e))), (''scope'', \<lambda>e. SText (codes (scope_name (rl_scope e)))),
      (''identifier'', \<lambda>e. SText (id_text (describeIdentifier e))), (''requests'', \<lambda>e. SNumber (int (rl_count e))),
      (''resets_at'', \<lambda>e. case rl_resets_in_seconds e of None \<Rightarrow> SInfinity | Some s \<Rightarrow> SNumber s)] key"

text \<open>The operator \<open><\<close> on two strings compares code units, on two numbers their values.\<close>

fun text_less :: "ustring \<Rightarrow> ustring \<Rightarrow> bool" where
  "text_less xs [] = False"
| "text_less [] (y # ys) = True"
| "text_less (x # xs) (y # ys) = (x < y \<or> (x = y \<and> text_less xs ys))"

fun value_less :: "sort_value \<Rightarrow> sort_value \<Rightarrow> bool" where
  "value_less (SText a) (SText b) = text_less a b"
| "value_less (SNumber a) (SNumber b) = (a < b)"
| "value_less (SNumber a) SInfinity = True"
| "value_less _ _ = False"

definition entry_cmp :: "(rate_limit_entry \<Rightarrow> sort_value) \<Rightarrow> direction \<Rightarrow> rate_limit_entry comparator" where
  "entry_cmp getValue dir a b =
     (let d = (if dir = Ascending then 1 else -1); va = getValue a; vb = getValue b in
      if value_less va vb then -1 * d else if value_less vb va then 1 * d else 0)"

definition sortRateLimitEntries :: "rate_limit_entry list \<Rightarrow> sort_state \<Rightarrow> rate_limit_entry list" where
  "sortRateLimitEntries entries st =
     (case SORT_VALUE (s_key st) of None \<Rightarrow> entries
      | Some getValue \<Rightarrow> js_sort (entry_cmp getValue (s_direction st)) entries)"

section \<open>rateLimitEndpoints.ts, rateLimitsListConfig.ts, rateLimitsUiStore.ts\<close>

definition RATE_LIMIT_ENDPOINTS :: "string list" where
  "RATE_LIMIT_ENDPOINTS =
     [''login'', ''login_lock'', ''signup'', ''oauth2_login'', ''oauth2_callback'', ''get_current_user'', ''logout'',
      ''logout_all'', ''list_sessions'', ''revoke_session'', ''password_reset_request'', ''password_reset_confirm'',
      ''verify_account'', ''verify_account_request'', ''account_delete_confirm'', ''passkey_login'',
      ''passkey_management'', ''passkey_step_up'', ''passkey_step_up_google'']"

definition rl_totalPagesFor :: "nat \<Rightarrow> nat \<Rightarrow> nat" where
  "rl_totalPagesFor n pageSize = max 1 (ceil_div n pageSize)"

datatype rl_kind = KindAll | AtLimit | LoginLockouts

text \<open>The scope filter: none is the placeholder for all.\<close>

record rl_filters =
  rf_endpoint :: string
  rf_identifier :: string
  rf_scope :: "rl_scope option"
  rf_sort :: sort_state
  rf_kind :: rl_kind

definition rl_defaults :: rl_filters where
  "rl_defaults = \<lparr>rf_endpoint = [], rf_identifier = [], rf_scope = None,
     rf_sort = \<lparr>s_key = ''endpoint'', s_direction = Ascending\<rparr>, rf_kind = KindAll\<rparr>"

section \<open>RateLimitsPage.tsx: filters\<close>

definition RL_PAGE_SIZE :: nat where
  "RL_PAGE_SIZE = 10"

definition setEndpoint :: "string \<Rightarrow> rl_filters \<Rightarrow> rl_filters" where
  "setEndpoint v f = f\<lparr>rf_endpoint := v,
     rf_kind := (if v = ''login_lock'' then LoginLockouts else if rf_kind f = LoginLockouts then KindAll else rf_kind f)\<rparr>"

definition setIdentifier :: "string \<Rightarrow> rl_filters \<Rightarrow> rl_filters" where
  "setIdentifier v f = f\<lparr>rf_identifier := v\<rparr>"

definition setScope :: "rl_scope option \<Rightarrow> rl_filters \<Rightarrow> rl_filters" where
  "setScope v f = f\<lparr>rf_scope := v\<rparr>"

definition rl_toggleSort :: "string \<Rightarrow> rl_filters \<Rightarrow> rl_filters" where
  "rl_toggleSort k f = f\<lparr>rf_sort := nextSortState (rf_sort f) k\<rparr>"

definition onFilterTotal :: "rl_filters \<Rightarrow> rl_filters" where
  "onFilterTotal f = f\<lparr>rf_endpoint := [], rf_identifier := [], rf_scope := None, rf_kind := KindAll\<rparr>"

definition onFilterAtLimit :: "rl_filters \<Rightarrow> rl_filters" where
  "onFilterAtLimit f = f\<lparr>rf_endpoint := [], rf_identifier := [], rf_scope := None,
     rf_kind := (if rf_kind f = AtLimit then KindAll else AtLimit)\<rparr>"

definition onFilterLoginLockouts :: "rl_filters \<Rightarrow> rl_filters" where
  "onFilterLoginLockouts f =
     (let active = (rf_kind f = LoginLockouts) in
      f\<lparr>rf_kind := (if active then KindAll else LoginLockouts), rf_endpoint := (if active then [] else ''login_lock''),
        rf_identifier := [], rf_scope := None\<rparr>)"

text \<open>\<open>RateLimitsFilterBar.tsx\<close>: the scope buttons toggle, the chips, and clearing them all.\<close>

definition pick_scope :: "rl_scope option \<Rightarrow> rl_filters \<Rightarrow> rl_filters" where
  "pick_scope v f = setScope (if rf_scope f = v then None else v) f"

definition rl_chips :: "rl_filters \<Rightarrow> string list" where
  "rl_chips f = (if rf_endpoint f \<noteq> [] then [''endpoint''] else []) @ (if rf_identifier f \<noteq> [] then [''identifier''] else [])
     @ (if rf_scope f \<noteq> None then [''scope''] else [])"

definition clear_chip :: "string \<Rightarrow> rl_filters \<Rightarrow> rl_filters" where
  "clear_chip key f = (if key = ''endpoint'' then setEndpoint [] f else if key = ''identifier'' then setIdentifier [] f
     else if key = ''scope'' then setScope None f else f)"

definition onClearAll :: "rl_filters \<Rightarrow> rl_filters" where
  "onClearAll f = setScope None (setIdentifier [] (setEndpoint [] f))"

definition hasFilters :: "rl_filters \<Rightarrow> bool" where
  "hasFilters f \<longleftrightarrow> rf_endpoint f \<noteq> [] \<or> rf_identifier f \<noteq> [] \<or> rf_scope f \<noteq> None \<or> rf_kind f \<noteq> KindAll"

definition kind_param :: "rl_kind \<Rightarrow> string option" where
  "kind_param k = (case k of KindAll \<Rightarrow> None | AtLimit \<Rightarrow> Some ''at_limit'' | LoginLockouts \<Rightarrow> Some ''login_lockouts'')"

definition rl_query_filters :: "string \<Rightarrow> rl_filters \<Rightarrow> list_rate_limits_params" where
  "rl_query_filters debouncedIdentifier f =
     \<lparr>lr_page = None, lr_scope = rf_scope f, lr_endpoint = or_undefined (rf_endpoint f),
      lr_identifier = or_undefined debouncedIdentifier, lr_page_size = None, lr_kind = kind_param (rf_kind f),
      lr_sort_by = Some (if s_key (rf_sort f) = ''requests'' then ''count'' else s_key (rf_sort f)),
      lr_sort_dir = Some (if s_direction (rf_sort f) = Ascending then Asc else Desc)\<rparr>"

definition rl_kind_name :: "rl_kind \<Rightarrow> string" where
  "rl_kind_name k = (case k of KindAll \<Rightarrow> ''all'' | AtLimit \<Rightarrow> ''at_limit'' | LoginLockouts \<Rightarrow> ''login_lockouts'')"

definition rl_reset_key :: "string \<Rightarrow> rl_filters \<Rightarrow> string" where
  "rl_reset_key debouncedIdentifier f =
     join ''|'' [rf_endpoint f, debouncedIdentifier, (case rf_scope f of None \<Rightarrow> [] | Some s \<Rightarrow> scope_name s),
       rl_kind_name (rf_kind f)]"

definition rl_queries :: "string \<Rightarrow> rl_filters \<Rightarrow> nat \<Rightarrow> query list" where
  "rl_queries debouncedIdentifier f page =
     [useRateLimitsQuery page RL_PAGE_SIZE (rl_query_filters debouncedIdentifier f), useRateLimitsSummaryQuery]"

text \<open>\<open>RateLimitsStatsCard.tsx\<close>: the tile shown pressed.\<close>

definition pressed_tile :: "rl_filters \<Rightarrow> string" where
  "pressed_tile f = rl_kind_name (rf_kind f)"

text \<open>\<open>rateLimitsColumns.tsx\<close>: the counter is marked when the limit is reached; resetting needs its action.\<close>

definition at_limit_marked :: "rate_limit_entry \<Rightarrow> bool" where
  "at_limit_marked e \<longleftrightarrow> rl_count e \<ge> rl_limit e"

definition reset_offered :: "auth_state \<Rightarrow> bool" where
  "reset_offered s \<longleftrightarrow> ifcan_view s (OneAction ''rate_limits:reset'') = GateChildren"

datatype rl_op = SetEndpoint string | SetIdentifier string | PickScope "rl_scope option" | ToggleSort string
  | FilterTotal | FilterAtLimit | FilterLoginLockouts | ClearChip string | ClearAll

fun rl_step :: "rl_op \<Rightarrow> rl_filters \<Rightarrow> rl_filters" where
  "rl_step (SetEndpoint v) = setEndpoint v"
| "rl_step (SetIdentifier v) = setIdentifier v"
| "rl_step (PickScope v) = pick_scope v"
| "rl_step (ToggleSort k) = rl_toggleSort k"
| "rl_step FilterTotal = onFilterTotal"
| "rl_step FilterAtLimit = onFilterAtLimit"
| "rl_step FilterLoginLockouts = onFilterLoginLockouts"
| "rl_step (ClearChip k) = clear_chip k"
| "rl_step ClearAll = onClearAll"

definition rl_run :: "rl_op list \<Rightarrow> rl_filters" where
  "rl_run ops = foldl (\<lambda>f op. rl_step op f) rl_defaults ops"

section \<open>RateLimitsPage.tsx: the reset\<close>

text \<open>
  \<open>rd_entry\<close> is the state; \<open>rd_rendered\<close> and \<open>rd_isPending\<close> are what the handlers of the last render
  closed over. An entry carries the identity of its row object, which the effect compares. \<open>rd_inFlight\<close>
  are the keys of the requests under way, \<open>rd_sent\<close> those of all requests made.
\<close>

record reset_dialog =
  rd_entry :: "(nat \<times> rate_limit_entry) option"
  rd_rendered :: "(nat \<times> rate_limit_entry) option"
  rd_isPending :: bool
  rd_guard :: bool
  rd_inFlight :: "string list"
  rd_sent :: "string list"
  rd_app :: app
  rd_toaster :: toaster

definition rd_mount :: "app \<Rightarrow> toaster \<Rightarrow> reset_dialog" where
  "rd_mount app ts = \<lparr>rd_entry = None, rd_rendered = None, rd_isPending = False, rd_guard = False, rd_inFlight = [],
     rd_sent = [], rd_app = app, rd_toaster = ts\<rparr>"

definition requestReset :: "nat \<times> rate_limit_entry \<Rightarrow> reset_dialog \<Rightarrow> reset_dialog" where
  "requestReset e s = s\<lparr>rd_entry := Some e\<rparr>"

definition handleConfirmReset :: "reset_dialog \<Rightarrow> reset_dialog" where
  "handleConfirmReset s =
     (case rd_rendered s of None \<Rightarrow> s
      | Some e \<Rightarrow> if rd_guard s \<or> rd_isPending s then s
          else s\<lparr>rd_guard := True, rd_inFlight := rd_inFlight s @ [rl_key (snd e)], rd_sent := rd_sent s @ [rl_key (snd e)]\<rparr>)"

definition cancelReset :: "reset_dialog \<Rightarrow> reset_dialog" where
  "cancelReset s = s\<lparr>rd_entry := None\<rparr>"

text \<open>A render and the effect that depends on \<open>resettingEntry\<close>.\<close>

definition renderReset :: "reset_dialog \<Rightarrow> reset_dialog" where
  "renderReset s = s\<lparr>rd_rendered := rd_entry s, rd_isPending := (rd_inFlight s \<noteq> []),
     rd_guard := (if rd_entry s \<noteq> rd_rendered s then False else rd_guard s)\<rparr>"

definition reset_toast :: "string \<Rightarrow> kind \<Rightarrow> reset_dialog \<Rightarrow> reset_dialog" where
  "reset_toast title k s =
     s\<lparr>rd_toaster := snd (create \<lparr>o_title = title, o_description = None, o_type = Some k, o_duration = None, o_action = None\<rparr>
        (rd_toaster s))\<rparr>"

definition reset_answered :: "translator \<Rightarrow> unit outcome \<Rightarrow> reset_dialog \<Rightarrow> reset_dialog" where
  "reset_answered tr answer s = (case rd_inFlight s of
       [] \<Rightarrow> s
     | k # ks \<Rightarrow>
         (let (r, app') = run_mutation tr (useResetRateLimitMutation k) answer (rd_app s);
              s1 = s\<lparr>rd_app := app', rd_inFlight := ks\<rparr>;
              s2 = (case r of
                  Inr _ \<Rightarrow> reset_toast (tr_text tr ''page.resetToast'' []) TSuccess s1
                | Inl msg \<Rightarrow> reset_toast (case answer of
                      Rejected e \<Rightarrow> if isForbiddenError e then tr_text tr ''page.resetForbidden'' [] else msg
                    | Fulfilled _ \<Rightarrow> msg) TError s1)
          in s2\<lparr>rd_entry := None\<rparr>))"

datatype reset_op = RequestReset nat rate_limit_entry | ConfirmReset | CancelReset | RenderReset | ResetAnswer "unit outcome"

fun reset_step :: "translator \<Rightarrow> reset_op \<Rightarrow> reset_dialog \<Rightarrow> reset_dialog" where
  "reset_step tr (RequestReset n e) s = requestReset (n, e) s"
| "reset_step tr ConfirmReset s = handleConfirmReset s"
| "reset_step tr CancelReset s = cancelReset s"
| "reset_step tr RenderReset s = renderReset s"
| "reset_step tr (ResetAnswer a) s = reset_answered tr a s"

definition reset_run :: "translator \<Rightarrow> reset_op list \<Rightarrow> reset_dialog \<Rightarrow> reset_dialog" where
  "reset_run tr ops s = foldl (\<lambda>s op. reset_step tr op s) s ops"

section \<open>Properties\<close>

text \<open>The tile of login lockouts and the endpoint filter never disagree. Whatever sequence of endpoint
  choices, scopes, searches, tiles, chips and clearing leads to the filters, the view of login lockouts is
  chosen if and only if the endpoint filter names them, and exactly then the query asks for both; and
  pressing the total's tile leaves no filter.\<close>

theorem lockout_tile_matches_endpoint:
  "(rf_kind (rl_run ops) = LoginLockouts \<longleftrightarrow> rf_endpoint (rl_run ops) = ''login_lock'')
   \<and> (let p = rl_query_filters q (rl_run ops) in
        lr_kind p = Some ''login_lockouts'' \<longleftrightarrow> lr_endpoint p = Some ''login_lock'')
   \<and> \<not> hasFilters (onFilterTotal (rl_run ops))"
proof -
  let ?ok = "\<lambda>f. rf_kind f = LoginLockouts \<longleftrightarrow> rf_endpoint f = ''login_lock''"
  have "?ok f \<Longrightarrow> ?ok (rl_step op f)" for op f
    by (cases op) (auto simp: setEndpoint_def setIdentifier_def setScope_def pick_scope_def rl_toggleSort_def onFilterTotal_def
        onFilterAtLimit_def onFilterLoginLockouts_def clear_chip_def onClearAll_def Let_def)
  then have "?ok f \<Longrightarrow> ?ok (foldl (\<lambda>f op. rl_step op f) f ops)" for f by (induction ops arbitrary: f) simp_all
  moreover have "?ok rl_defaults" by (simp add: rl_defaults_def)
  ultimately have ok: "?ok (rl_run ops)" unfolding rl_run_def by blast
  then have "lr_kind (rl_query_filters q (rl_run ops)) = Some ''login_lockouts''
      \<longleftrightarrow> lr_endpoint (rl_query_filters q (rl_run ops)) = Some ''login_lock''"
    by (auto simp: rl_query_filters_def kind_param_def or_undefined_def split: rl_kind.splits)
  with ok show ?thesis by (simp add: Let_def hasFilters_def onFilterTotal_def)
qed

text \<open>The chips clear what they stand for and together everything but the tile of counters at their limit.\<close>

lemma rl_clear_all: "rl_chips (onClearAll f) = [] \<and> (hasFilters (onClearAll f) \<longleftrightarrow> rf_kind f = AtLimit)"
  by (cases "rf_kind f") (auto simp: onClearAll_def setEndpoint_def setIdentifier_def setScope_def rl_chips_def hasFilters_def)

text \<open>The page is reset exactly when a filter that reaches the query changes; the sort is not one of them.\<close>

lemma scope_name_no_bar: "CHR ''|'' \<notin> set (scope_name s)"
  by (cases s) (simp_all add: scope_name_def)

lemma last_bar_split:
  assumes "CHR ''|'' \<notin> set k" "CHR ''|'' \<notin> set k'" "xs @ CHR ''|'' # k = ys @ CHR ''|'' # k'"
  shows "xs = ys \<and> k = k'"
proof -
  have "takeWhile (\<lambda>c. c \<noteq> CHR ''|'') (rev (xs @ CHR ''|'' # k)) = rev k" if "CHR ''|'' \<notin> set k" for xs k
  proof -
    have "takeWhile (\<lambda>c. c \<noteq> CHR ''|'') (rev k @ CHR ''|'' # rev xs) = rev k @ takeWhile (\<lambda>c. c \<noteq> CHR ''|'') (CHR ''|'' # rev xs)"
      by (rule takeWhile_append2) (use that in auto)
    then show ?thesis by simp
  qed
  with assms have "rev k = rev k'" by metis
  with assms(3) show ?thesis by simp
qed

lemma first_bar_split:
  assumes "CHR ''|'' \<notin> set e" "CHR ''|'' \<notin> set e'" "e @ CHR ''|'' # xs = e' @ CHR ''|'' # ys"
  shows "e = e' \<and> xs = ys"
  using last_bar_split [of "rev e" "rev e'" "rev xs" "rev ys"] assms by (metis append.assoc append_Cons append_Nil rev.simps(2) rev_append rev_rev_ident set_rev)

text \<open>The rate-limit table returns to its first page exactly when a filter changes. For filters whose
  endpoint is one of those offered, the key that resets the page is the same if and only if the endpoint,
  the searched identifier, the scope and the tile are the same, even when the identifier contains the
  separator; so none of these changes is missed, and changing the sort keeps the page.\<close>

theorem page_reset_key_exact:
  assumes "rf_endpoint f \<in> set ([] # RATE_LIMIT_ENDPOINTS)" "rf_endpoint g \<in> set ([] # RATE_LIMIT_ENDPOINTS)"
  shows "(rl_reset_key q f = rl_reset_key r g \<longleftrightarrow>
      rf_endpoint f = rf_endpoint g \<and> q = r \<and> rf_scope f = rf_scope g \<and> rf_kind f = rf_kind g)
    \<and> usePageResetOn (rl_reset_key q (rl_toggleSort k f)) \<lparr>pg_page = n, pg_prevResetKey = rl_reset_key q f\<rparr>
        = \<lparr>pg_page = n, pg_prevResetKey = rl_reset_key q f\<rparr>"
proof -
  have no_bar: "CHR ''|'' \<notin> set e" if "e \<in> set ([] # RATE_LIMIT_ENDPOINTS)" for e
  proof -
    have "list_all (\<lambda>e. CHR ''|'' \<notin> set e) ([] # RATE_LIMIT_ENDPOINTS)" by code_simp
    with that show ?thesis unfolding list_all_iff by blast
  qed
  let ?sc = "\<lambda>f. case rf_scope f of None \<Rightarrow> [] | Some s \<Rightarrow> scope_name s"
  have key: "rl_reset_key q f = rf_endpoint f @ CHR ''|'' # (q @ CHR ''|'' # ?sc f) @ CHR ''|'' # rl_kind_name (rf_kind f)" for q f
    by (simp add: rl_reset_key_def)
  have nb: "CHR ''|'' \<notin> set (?sc f)" "CHR ''|'' \<notin> set (rl_kind_name (rf_kind f))" for f
    by (auto simp: scope_name_no_bar rl_kind_name_def split: option.splits rl_kind.splits)
  have kind_inj: "rl_kind_name (rf_kind f) = rl_kind_name (rf_kind g) \<longleftrightarrow> rf_kind f = rf_kind g"
    by (auto simp: rl_kind_name_def split: rl_kind.splits)
  have scope_inj: "?sc f = ?sc g \<longleftrightarrow> rf_scope f = rf_scope g"
    by (auto simp: scope_name_def split: option.splits rl_scope.splits)
  have "rl_reset_key q f = rl_reset_key r g \<longleftrightarrow>
      rf_endpoint f = rf_endpoint g \<and> q = r \<and> rf_scope f = rf_scope g \<and> rf_kind f = rf_kind g"
  proof
    assume "rl_reset_key q f = rl_reset_key r g"
    then have 1: "rf_endpoint f = rf_endpoint g"
      "(q @ CHR ''|'' # ?sc f) @ CHR ''|'' # rl_kind_name (rf_kind f) = (r @ CHR ''|'' # ?sc g) @ CHR ''|'' # rl_kind_name (rf_kind g)"
      using first_bar_split [OF no_bar [OF assms(1)] no_bar [OF assms(2)]] unfolding key by blast+
    then have 2: "q @ CHR ''|'' # ?sc f = r @ CHR ''|'' # ?sc g" "rf_kind f = rf_kind g"
      using last_bar_split [OF nb(2) nb(2)] kind_inj by blast+
    then have "q = r" "rf_scope f = rf_scope g" using last_bar_split [OF nb(1) nb(1)] scope_inj by blast+
    with 1 2 show "rf_endpoint f = rf_endpoint g \<and> q = r \<and> rf_scope f = rf_scope g \<and> rf_kind f = rf_kind g" by blast
  qed (simp add: rl_reset_key_def)
  then show ?thesis by (simp add: rl_toggleSort_def rl_reset_key_def usePageResetOn_def)
qed

lemma page_reset_key_exact_witness:
  "rl_reset_key ''a|ip'' rl_defaults \<noteq> rl_reset_key ''a'' (rl_defaults\<lparr>rf_scope := Some ScopeIp\<rparr>)"
proof -
  have e: "rf_endpoint rl_defaults \<in> set ([] # RATE_LIMIT_ENDPOINTS)"
    "rf_endpoint (rl_defaults\<lparr>rf_scope := Some ScopeIp\<rparr>) \<in> set ([] # RATE_LIMIT_ENDPOINTS)"
    by (simp_all add: rl_defaults_def)
  from page_reset_key_exact [OF e, of "''a|ip''" "''a''" "[]" 1] show ?thesis by (simp add: rl_defaults_def)
qed

definition reset_inv :: "reset_dialog \<Rightarrow> bool" where
  "reset_inv s \<longleftrightarrow> length (rd_inFlight s) \<le> 1 \<and> (rd_inFlight s \<noteq> [] \<longrightarrow> rd_guard s \<or> rd_isPending s)
     \<and> (rd_guard s \<longrightarrow> rd_rendered s \<noteq> None)"

lemma reset_toast_simps [simp]:
  "rd_inFlight (reset_toast x k s) = rd_inFlight s" "rd_sent (reset_toast x k s) = rd_sent s"
  "rd_guard (reset_toast x k s) = rd_guard s" "rd_isPending (reset_toast x k s) = rd_isPending s"
  "rd_rendered (reset_toast x k s) = rd_rendered s"
  by (simp_all add: reset_toast_def)

lemma reset_answered_simps [simp]:
  "rd_inFlight (reset_answered tr a s) = tl (rd_inFlight s)" "rd_sent (reset_answered tr a s) = rd_sent s"
  "rd_guard (reset_answered tr a s) = rd_guard s" "rd_isPending (reset_answered tr a s) = rd_isPending s"
  "rd_rendered (reset_answered tr a s) = rd_rendered s"
  "rd_entry (reset_answered tr a s) = (if rd_inFlight s = [] then rd_entry s else None)"
  by (auto simp: reset_answered_def Let_def split: list.splits prod.splits sum.splits)

lemma reset_step_inv: "reset_inv s \<Longrightarrow> reset_inv (reset_step tr op s)"
  by (cases op) (auto simp: reset_inv_def requestReset_def handleConfirmReset_def cancelReset_def renderReset_def
      split: option.splits)

lemma reset_run_inv: "reset_inv (reset_run tr ops (rd_mount app ts))"
proof -
  have "reset_inv s \<Longrightarrow> reset_inv (foldl (\<lambda>s op. reset_step tr op s) s ops)" for s
    by (induction ops arbitrary: s) (simp_all add: reset_step_inv)
  moreover have "reset_inv (rd_mount app ts)" by (simp add: reset_inv_def rd_mount_def)
  ultimately show ?thesis by (simp add: reset_run_def)
qed

text \<open>C13: A reset is requested once. However the clicks on the confirm button, on the rows, on cancel, the
  renders and the answers follow one another, there is never more than one reset under way, also when the
  button is clicked again before the page was rendered; and the guard never locks the button: once a
  request was answered, the next entry chosen can be reset.\<close>

theorem one_reset_in_flight:
  "let s = reset_run tr ops (rd_mount app ts) in
     length (rd_inFlight s) \<le> 1
     \<and> handleConfirmReset (handleConfirmReset s) = handleConfirmReset s
     \<and> (rd_inFlight s \<noteq> [] \<longrightarrow>
          rd_sent (reset_run tr [ResetAnswer a, RenderReset, RequestReset n e, RenderReset, ConfirmReset] s)
            = rd_sent s @ [rl_key e])"
proof -
  define s where "s = reset_run tr ops (rd_mount app ts)"
  have inv: "reset_inv s" unfolding s_def by (rule reset_run_inv)
  then have one: "length (rd_inFlight s) \<le> 1" by (simp add: reset_inv_def)
  have twice: "handleConfirmReset (handleConfirmReset s) = handleConfirmReset s"
    by (auto simp: handleConfirmReset_def split: option.splits)
  have "rd_sent (reset_run tr [ResetAnswer a, RenderReset, RequestReset n e, RenderReset, ConfirmReset] s) = rd_sent s @ [rl_key e]"
    if busy: "rd_inFlight s \<noteq> []"
  proof -
    from one busy have empty: "tl (rd_inFlight s) = []" by (cases "rd_inFlight s") auto
    define s1 where "s1 = renderReset (reset_answered tr a s)"
    have s1: "rd_rendered s1 = None" "rd_guard s1 = False" "rd_isPending s1 = False" "rd_inFlight s1 = []" "rd_sent s1 = rd_sent s"
      using inv busy empty by (auto simp: s1_def renderReset_def reset_inv_def)
    then show ?thesis
      by (simp add: reset_run_def flip: s1_def) (simp add: requestReset_def renderReset_def handleConfirmReset_def)
  qed
  with one twice show ?thesis unfolding s_def Let_def by blast
qed

definition example_entry :: "string \<Rightarrow> int option \<Rightarrow> rate_limit_entry" where
  "example_entry k r = \<lparr>rl_key = k, rl_endpoint = ''login'', rl_scope = ScopeIp, rl_identifier = ''10.0.0.1'',
     rl_identifier_label = None, rl_count = 3, rl_limit = 5, rl_resets_in_seconds = r\<rparr>"

lemma one_reset_in_flight_witness:
  "(let s = reset_run \<lparr>tr_exists = \<lambda>_. False, tr_text = \<lambda>k _. k\<rparr>
        [RequestReset 0 (example_entry ''a'' None), RenderReset, ConfirmReset, ConfirmReset] (rd_mount initial_app initial_toaster)
    in rd_inFlight s = [''a''] \<and> rd_sent (reset_run \<lparr>tr_exists = \<lambda>_. False, tr_text = \<lambda>k _. k\<rparr>
        [ResetAnswer (Rejected (OtherError [])), RenderReset, RequestReset 1 (example_entry ''b'' None), RenderReset, ConfirmReset] s)
      = [''a'', ''b''])"
proof -
  let ?tr = "\<lparr>tr_exists = \<lambda>_. False, tr_text = \<lambda>k _. k\<rparr>"
  let ?ops = "[RequestReset 0 (example_entry ''a'' None), RenderReset, ConfirmReset, ConfirmReset]"
  let ?s = "reset_run ?tr ?ops (rd_mount initial_app initial_toaster)"
  have s: "rd_inFlight ?s = [''a'']" "rd_sent ?s = [''a'']" by code_simp+
  have "rl_key (example_entry ''b'' None) = ''b''" by (simp add: example_entry_def)
  with s one_reset_in_flight [of ?tr ?ops initial_app initial_toaster "Rejected (OtherError [])" 1 "example_entry ''b'' None",
      unfolded Let_def, THEN conjunct2, THEN conjunct2]
  show ?thesis unfolding Let_def by simp
qed

text \<open>The comparator is consistent for every column, as its values are all texts or all numbers.\<close>

lemma text_less_asym: "text_less a b \<Longrightarrow> \<not> text_less b a"
  by (induction a b rule: text_less.induct) auto

lemma text_less_trans: "\<not> text_less b a \<Longrightarrow> \<not> text_less c b \<Longrightarrow> \<not> text_less c a"
proof (induction a arbitrary: b c)
  case Nil
  then show ?case by (cases c) auto
next
  case (Cons x xs)
  then obtain y ys where b: "b = y # ys" by (cases b) auto
  with Cons.prems obtain z zs where c: "c = z # zs" by (cases c) auto
  from Cons.prems b c have "x \<le> y" "y \<le> z" by auto
  with Cons b c show ?case by auto
qed

fun is_text :: "sort_value \<Rightarrow> bool" where
  "is_text (SText _) = True"
| "is_text _ = False"

lemma value_less_asym: "value_less a b \<Longrightarrow> \<not> value_less b a"
  by (cases "(a, b)" rule: value_less.cases) (auto dest: text_less_asym)

lemma value_less_trans:
  "is_text a = is_text b \<Longrightarrow> is_text b = is_text c \<Longrightarrow> \<not> value_less b a \<Longrightarrow> \<not> value_less c b \<Longrightarrow> \<not> value_less c a"
  by (cases a; cases b; cases c) (auto dest: text_less_trans)

lemma sort_values_alike: "SORT_VALUE key = Some gv \<Longrightarrow> is_text (gv a) = is_text (gv b)"
  by (auto simp: SORT_VALUE_def split: if_splits option.splits)

definition entry_le :: "(rate_limit_entry \<Rightarrow> sort_value) \<Rightarrow> direction \<Rightarrow> rate_limit_entry \<Rightarrow> rate_limit_entry \<Rightarrow> bool" where
  "entry_le gv dir a b = (if dir = Ascending then \<not> value_less (gv b) (gv a) else \<not> value_less (gv a) (gv b))"

lemma entry_cmp_le: "entry_cmp gv dir a b \<le> 0 \<longleftrightarrow> entry_le gv dir a b"
  by (auto simp: entry_cmp_def entry_le_def Let_def dest: value_less_asym)

lemma entry_comparator:
  assumes "SORT_VALUE key = Some gv"
  shows "js_comparator (entry_cmp gv dir)"
proof
  show "sgn (entry_cmp gv dir b a) = - sgn (entry_cmp gv dir a b)" for a b
    by (auto simp: entry_cmp_def Let_def dest: value_less_asym)
  show "entry_cmp gv dir a c \<le> 0" if "entry_cmp gv dir a b \<le> 0" "entry_cmp gv dir b c \<le> 0" for a b c
    using that value_less_trans [of "gv a" "gv b" "gv c"] value_less_trans [of "gv c" "gv b" "gv a"]
      sort_values_alike [OF assms]
    by (auto simp: entry_cmp_le entry_le_def split: if_splits)
qed

interpretation by_reset_time: js_comparator
  "entry_cmp (\<lambda>e. case rl_resets_in_seconds e of None \<Rightarrow> SInfinity | Some s \<Rightarrow> SNumber s) dir" for dir
  by (rule entry_comparator [of "''resets_at''"]) (simp add: SORT_VALUE_def)

lemma text_less_total: "\<not> text_less a b \<Longrightarrow> \<not> text_less b a \<Longrightarrow> a = b"
proof (induction a arbitrary: b)
  case Nil
  then show ?case by (cases b) auto
next
  case (Cons x xs)
  then obtain y ys where "b = y # ys" by (cases b) auto
  with Cons show ?case by auto
qed

lemma value_less_total: "is_text a = is_text b \<Longrightarrow> \<not> value_less a b \<Longrightarrow> \<not> value_less b a \<Longrightarrow> a = b"
  by (cases a; cases b) (auto dest: text_less_total)

lemma value_less_irrefl: "\<not> value_less a a"
  using value_less_asym by blast

lemma entry_cmp_zero: "SORT_VALUE key = Some gv \<Longrightarrow> entry_cmp gv dir x e = 0 \<longleftrightarrow> gv e = gv x"
  using value_less_total [of "gv x" "gv e"] sort_values_alike [of key gv x e]
  by (auto simp: entry_cmp_def Let_def value_less_irrefl)

lemma sorted_by_reset_time:
  "sorted_wrt (entry_le (\<lambda>e. case rl_resets_in_seconds e of None \<Rightarrow> SInfinity | Some s \<Rightarrow> SNumber s) dir)
     (sortRateLimitEntries es \<lparr>s_key = ''resets_at'', s_direction = dir\<rparr>)"
  using by_reset_time.sort_sorted [of dir es]
  by (simp add: sortRateLimitEntries_def SORT_VALUE_def entry_cmp_le)

text \<open>Sorting the counters rearranges them and nothing else. The result is a permutation of the entries in the
  order of the column, with equal entries in their original order; a key that no column has leaves the
  list alone; and by reset time the counters that never expire come last ascending and first descending.\<close>

theorem entries_sorted:
  "mset (sortRateLimitEntries es st) = mset es
   \<and> (case SORT_VALUE (s_key st) of None \<Rightarrow> sortRateLimitEntries es st = es
      | Some gv \<Rightarrow> sorted_wrt (entry_le gv (s_direction st)) (sortRateLimitEntries es st)
          \<and> filter (\<lambda>e. gv e = gv x) (sortRateLimitEntries es st) = filter (\<lambda>e. gv e = gv x) es)
   \<and> sorted_wrt (\<lambda>a b. rl_resets_in_seconds a = None \<longrightarrow> rl_resets_in_seconds b = None)
       (sortRateLimitEntries es \<lparr>s_key = ''resets_at'', s_direction = Ascending\<rparr>)
   \<and> sorted_wrt (\<lambda>a b. rl_resets_in_seconds b = None \<longrightarrow> rl_resets_in_seconds a = None)
       (sortRateLimitEntries es \<lparr>s_key = ''resets_at'', s_direction = Descending\<rparr>)"
proof (intro conjI)
  show "mset (sortRateLimitEntries es st) = mset es" by (simp add: sortRateLimitEntries_def split: option.split)
  show "case SORT_VALUE (s_key st) of None \<Rightarrow> sortRateLimitEntries es st = es
      | Some gv \<Rightarrow> sorted_wrt (entry_le gv (s_direction st)) (sortRateLimitEntries es st)
          \<and> filter (\<lambda>e. gv e = gv x) (sortRateLimitEntries es st) = filter (\<lambda>e. gv e = gv x) es"
  proof (cases "SORT_VALUE (s_key st)")
    case (Some gv)
    note cmp = entry_comparator [OF Some, of "s_direction st"]
    show ?thesis
      using js_comparator.sort_sorted [OF cmp, of es] js_comparator.sort_stable [OF cmp, of x es]
      by (simp add: sortRateLimitEntries_def Some entry_cmp_le entry_cmp_zero [OF Some])
  qed (simp add: sortRateLimitEntries_def)
  show "sorted_wrt (\<lambda>a b. rl_resets_in_seconds a = None \<longrightarrow> rl_resets_in_seconds b = None)
      (sortRateLimitEntries es \<lparr>s_key = ''resets_at'', s_direction = Ascending\<rparr>)"
    by (rule sorted_wrt_mono_rel [OF _ sorted_by_reset_time]) (auto simp: entry_le_def split: option.splits)
  show "sorted_wrt (\<lambda>a b. rl_resets_in_seconds b = None \<longrightarrow> rl_resets_in_seconds a = None)
      (sortRateLimitEntries es \<lparr>s_key = ''resets_at'', s_direction = Descending\<rparr>)"
    by (rule sorted_wrt_mono_rel [OF _ sorted_by_reset_time]) (auto simp: entry_le_def split: option.splits)
qed

end
