(* ===== verification/Urls.thy ===== *)
theory Urls
  imports Prelude
begin

text \<open>
  The query strings the pages exchange. A link is built with \<open>encodeURIComponent\<close> (theory \<open>Prelude\<close>)
  and read by the router's \<open>URLSearchParams\<close>: the part after the question mark is cut at the ampersands,
  each piece at its first equals sign, and both sides are percent-decoded as UTF-8. The reader is
  partial here: it gives no result for a text with characters the strings of the model do not have.
\<close>

section \<open>URLSearchParams\<close>

definition hex_value :: "char \<Rightarrow> nat option" where
  "hex_value c = (let n = ucode c in
     if 48 \<le> n \<and> n \<le> 57 then Some (n - 48)
     else if 65 \<le> n \<and> n \<le> 70 then Some (n - 55)
     else if 97 \<le> n \<and> n \<le> 102 then Some (n - 87) else None)"

definition utf8_bytes :: "char \<Rightarrow> nat list" where
  "utf8_bytes c = (let n = ucode c in if n < 128 then [n] else [192 + n div 64, 128 + n mod 64])"

text \<open>The bytes of a percent-encoded text: a plus is a space, and a percent sign that starts no escape
  stands for itself.\<close>

fun percent_bytes :: "string \<Rightarrow> nat list" where
  "percent_bytes [] = []"
| "percent_bytes (c # s) =
     (if c = CHR ''%'' then
        (case s of
           h # l # r \<Rightarrow> (case (hex_value h, hex_value l) of
               (Some a, Some b) \<Rightarrow> (16 * a + b) # percent_bytes r
             | _ \<Rightarrow> ucode c # percent_bytes s)
         | _ \<Rightarrow> ucode c # percent_bytes s)
      else (if c = CHR ''+'' then [32] else utf8_bytes c) @ percent_bytes s)"

fun utf8_text :: "nat list \<Rightarrow> string option" where
  "utf8_text [] = Some []"
| "utf8_text (b # bs) =
     (if b < 128 then map_option ((#) (char_of b)) (utf8_text bs)
      else (case bs of
          c # cs \<Rightarrow> if (b = 194 \<or> b = 195) \<and> 128 \<le> c \<and> c < 192
                     then map_option ((#) (char_of ((b - 192) * 64 + (c - 128)))) (utf8_text cs) else None
        | [] \<Rightarrow> None))"

definition url_decode :: "string \<Rightarrow> string option" where
  "url_decode s = utf8_text (percent_bytes s)"

definition pair_of :: "string \<Rightarrow> (string \<times> string) option" where
  "pair_of s = (let k = takeWhile (\<lambda>c. c \<noteq> CHR ''='') s; v = drop (Suc (length k)) s in
     case (url_decode k, url_decode v) of (Some k', Some v') \<Rightarrow> Some (k', v') | _ \<Rightarrow> None)"

fun all_some :: "'a option list \<Rightarrow> 'a list option" where
  "all_some [] = Some []"
| "all_some (None # xs) = None"
| "all_some (Some x # xs) = map_option ((#) x) (all_some xs)"

definition parse_query :: "string \<Rightarrow> (string \<times> string) list option" where
  "parse_query q = all_some (map pair_of (filter (\<lambda>p. p \<noteq> []) (split_on (CHR ''&'') q)))"

text \<open>What the router reads from a link: its path, and the parameters after the question mark.\<close>

definition follow_link :: "string \<Rightarrow> (string \<times> (string \<times> string) list) option" where
  "follow_link href =
     (let p = takeWhile (\<lambda>c. c \<noteq> CHR ''?'') href in
      map_option (Pair p) (parse_query (drop (Suc (length p)) href)))"

text \<open>A query written by a template literal.\<close>

definition query_pair :: "string \<times> string \<Rightarrow> string" where
  "query_pair kv = fst kv @ ''='' @ encodeURIComponent (snd kv)"

definition link_to :: "string \<Rightarrow> (string \<times> string) list \<Rightarrow> string" where
  "link_to path kvs = path @ ''?'' @ join ''&'' (map query_pair kvs)"

section \<open>Links are read back\<close>

lemma hex_value_digit: "d < 16 \<Longrightarrow> hex_value (hex_digit d) = Some d"
  by (auto simp: hex_value_def hex_digit_def Let_def ucode_char_of)

lemma percent_bytes_percent: "n < 256 \<Longrightarrow> percent_bytes (percent n @ s) = n # percent_bytes s"
  by (simp add: percent_def hex_value_digit)

lemma unreserved_plain: "unreserved c \<Longrightarrow> c \<noteq> CHR ''%'' \<and> c \<noteq> CHR ''+'' \<and> ucode c < 128"
  by (auto simp: unreserved_def Let_def ucode_def)

lemma percent_bytes_char: "percent_bytes (encode_char c @ s) = utf8_bytes c @ percent_bytes s"
proof (cases "unreserved c")
  case True
  then show ?thesis using unreserved_plain [of c] by (simp add: encode_char_def utf8_bytes_def Let_def)
next
  case False
  have "ucode c div 64 < 4" by (rule less_mult_imp_div_less) (use ucode_less [of c] in simp)
  moreover have "ucode c mod 64 < 64" by simp
  ultimately have "192 + ucode c div 64 < 256" "128 + ucode c mod 64 < 256" by linarith+
  then show ?thesis using False
    by (auto simp: encode_char_def utf8_bytes_def Let_def percent_bytes_percent simp del: percent_bytes.simps)
qed

lemma percent_bytes_encode: "percent_bytes (encodeURIComponent s) = concat (map utf8_bytes s)"
  by (induction s) (simp_all add: encodeURIComponent_def percent_bytes_char del: percent_bytes.simps(2))

lemma char_of_ucode: "char_of (ucode c) = c"
  by (simp add: ucode_def)

lemma utf8_text_char: "utf8_text (utf8_bytes c @ bs) = map_option ((#) c) (utf8_text bs)"
proof (cases "ucode c < 128")
  case True
  then show ?thesis by (simp add: utf8_bytes_def Let_def char_of_ucode)
next
  case False
  have b: "ucode c div 64 = 2 \<or> ucode c div 64 = 3" using False ucode_less [of c] by linarith
  have "ucode c mod 64 < 64" by simp
  moreover have "(192 + ucode c div 64 - 192) * 64 + (128 + ucode c mod 64 - 128) = ucode c" by simp
  ultimately show ?thesis using False b
    by (auto simp: utf8_bytes_def Let_def char_of_ucode)
qed

lemma url_decode_encode [simp]: "url_decode (encodeURIComponent s) = Some s"
  unfolding url_decode_def percent_bytes_encode by (induction s) (simp_all add: utf8_text_char)

lemma url_decode_plain: "list_all unreserved s \<Longrightarrow> url_decode s = Some s"
proof -
  assume "list_all unreserved s"
  then have "encodeURIComponent s = s"
    by (induction s) (simp_all add: encodeURIComponent_def encode_char_def)
  then show ?thesis using url_decode_encode [of s] by simp
qed

lemma encode_no_delimiter: "c \<in> {CHR ''&'', CHR ''='', CHR ''?''} \<Longrightarrow> c \<notin> set (encodeURIComponent s)"
proof -
  assume c: "c \<in> {CHR ''&'', CHR ''='', CHR ''?''}"
  have digit: "hex_digit d \<noteq> c" if "d < 16" for d
  proof -
    have "ucode (hex_digit d) = (if d < 10 then 48 + d else 55 + d)" using that by (simp add: hex_digit_def ucode_char_of)
    moreover have "ucode c \<in> {38, 61, 63}" using c by (auto simp: ucode_def)
    ultimately show ?thesis using that by (auto split: if_splits)
  qed
  have pct: "c \<notin> set (percent n)" if "n < 256" for n
  proof -
    have "n div 16 < 16" "n mod 16 < 16" using that by linarith+
    then show ?thesis using digit [of "n div 16"] digit [of "n mod 16"] c by (auto simp: percent_def eq_commute)
  qed
  have "c \<notin> set (encode_char d)" for d
  proof (cases "unreserved d")
    case True
    have "\<not> unreserved c" using c by (auto simp: unreserved_def Let_def ucode_def)
    with True show ?thesis by (auto simp: encode_char_def Let_def)
  next
    case False
    have "192 + ucode d div 64 < 256" "128 + ucode d mod 64 < 256" using ucode_less [of d] by linarith+
    with False show ?thesis using pct [of "ucode d"] pct [of "192 + ucode d div 64"] pct [of "128 + ucode d mod 64"]
      by (auto simp: encode_char_def Let_def)
  qed
  then show ?thesis by (auto simp: encodeURIComponent_def)
qed

lemma pair_of_query:
  assumes "list_all unreserved k"
  shows "pair_of (query_pair (k, v)) = Some (k, v)"
proof -
  have "CHR ''='' \<notin> set k" using assms by (auto simp: list_all_iff unreserved_def Let_def ucode_def)
  then have "takeWhile (\<lambda>c. c \<noteq> CHR ''='') (k @ ''='' @ encodeURIComponent v) = k"
    by (simp add: takeWhile_append)
  then show ?thesis using url_decode_plain [OF assms] by (simp add: pair_of_def query_pair_def Let_def)
qed

lemma query_pair_no_amp: "list_all unreserved k \<Longrightarrow> CHR ''&'' \<notin> set (query_pair (k, v))"
  using encode_no_delimiter [of "CHR ''&''" v] by (auto simp: query_pair_def list_all_iff unreserved_def Let_def ucode_def)

lemma all_some_map: "list_all (\<lambda>x. f x = Some (g x)) xs \<Longrightarrow> all_some (map f xs) = Some (map g xs)"
  by (induction xs) simp_all

lemma parse_query_join:
  assumes "list_all (\<lambda>kv. list_all unreserved (fst kv)) kvs"
  shows "parse_query (join ''&'' (map query_pair kvs)) = Some kvs"
proof (cases "kvs = []")
  case False
  have amp: "\<forall>s\<in>set (map query_pair kvs). CHR ''&'' \<notin> set s"
    using assms query_pair_no_amp by (fastforce simp: list_all_iff)
  have "filter (\<lambda>p. p \<noteq> []) (map query_pair kvs) = map query_pair kvs"
    by (simp add: filter_id_conv query_pair_def)
  moreover have "all_some (map (pair_of \<circ> query_pair) kvs) = Some (map id kvs)"
    by (rule all_some_map) (use assms in \<open>auto simp: list_all_iff pair_of_query\<close>)
  ultimately show ?thesis using False
    by (simp add: parse_query_def split_on_join_segs [OF _ amp] del: map_map) simp
qed (simp add: parse_query_def)

text \<open>Following a link that was built from a path and parameters reads back both.\<close>

lemma follow_link_to:
  assumes "CHR ''?'' \<notin> set path" "list_all (\<lambda>kv. list_all unreserved (fst kv)) kvs"
  shows "follow_link (link_to path kvs) = Some (path, kvs)"
proof -
  have "takeWhile (\<lambda>c. c \<noteq> CHR ''?'') (link_to path kvs) = path"
    using assms(1) by (simp add: link_to_def takeWhile_append)
  then show ?thesis using parse_query_join [OF assms(2)] by (simp add: follow_link_def link_to_def Let_def)
qed

end
