(* ===== verification/Permissions.thy ===== *)
theory Permissions
  imports Urls UsersPage PolicyText CommandPalette
begin

text \<open>
  The catalog of permissions: \<open>permissions/PermissionsPage.tsx\<close> with its store, its filter bar, the
  list of groups, the tiles, the columns and the details dialog. A page is its local search, the
  debounced one and the store; the catalog and the usage are the queries' results. The texts a locale
  shows are left out; what is shown, counted, enabled and linked is modelled.
\<close>

section \<open>permissionsUiStore.ts\<close>

datatype quick_filter = QAll | QDestructive | QPolicy | QDirect | QUnused

record permissions_ui =
  pui_search :: string
  pui_resourceType :: string
  pui_quickFilter :: quick_filter
  pui_expandedTypes :: "string list"

definition initial_permissions_ui :: permissions_ui where
  "initial_permissions_ui = \<lparr>pui_search = [], pui_resourceType = ALL_VALUE, pui_quickFilter = QAll, pui_expandedTypes = []\<rparr>"

section \<open>PermissionsPage.tsx\<close>

record permissions_page =
  px_search :: string
  px_debounced :: string
  px_ui :: permissions_ui
  px_viewing :: "catalog_entry option"

record usage_query =
  uq_data :: "permission_usage list option"
  uq_isLoading :: bool
  uq_isError :: bool

definition px_mount :: "permissions_ui \<Rightarrow> (string \<times> string) list \<Rightarrow> permissions_page" where
  "px_mount ui url_params =
     (let s = nullish (map_of url_params ''search'') (pui_search ui) in
      \<lparr>px_search = s, px_debounced = s, px_ui = ui, px_viewing = None\<rparr>)"

definition px_update :: "(permissions_ui \<Rightarrow> permissions_ui) \<Rightarrow> permissions_page \<Rightarrow> permissions_page" where
  "px_update f p = p\<lparr>px_ui := f (px_ui p)\<rparr>"

definition px_setSearch :: "string \<Rightarrow> permissions_page \<Rightarrow> permissions_page" where
  "px_setSearch v p = px_update (\<lambda>u. u\<lparr>pui_search := v\<rparr>) (p\<lparr>px_search := v\<rparr>)"

definition px_setResourceType :: "string \<Rightarrow> permissions_page \<Rightarrow> permissions_page" where
  "px_setResourceType v = px_update (\<lambda>u. u\<lparr>pui_resourceType := v\<rparr>)"

definition px_setQuickFilter :: "quick_filter \<Rightarrow> permissions_page \<Rightarrow> permissions_page" where
  "px_setQuickFilter v = px_update (\<lambda>u. u\<lparr>pui_quickFilter := v\<rparr>)"

definition px_debounce :: "permissions_page \<Rightarrow> permissions_page" where
  "px_debounce p = p\<lparr>px_debounced := px_search p\<rparr>"

definition usageReady :: "usage_query \<Rightarrow> bool" where
  "usageReady uq \<longleftrightarrow> \<not> uq_isLoading uq \<and> \<not> uq_isError uq"

definition effectiveQuickFilter :: "usage_query \<Rightarrow> permissions_page \<Rightarrow> quick_filter" where
  "effectiveQuickFilter uq p =
     (let q = pui_quickFilter (px_ui p) in if usageReady uq \<or> q = QAll \<or> q = QDestructive then q else QAll)"

text \<open>The effect that gives up a filter on holders while they are not known.\<close>

definition px_effect :: "usage_query \<Rightarrow> permissions_page \<Rightarrow> permissions_page" where
  "px_effect uq p =
     (let q = pui_quickFilter (px_ui p) in
      if \<not> usageReady uq \<and> (q = QPolicy \<or> q = QDirect \<or> q = QUnused) then px_setQuickFilter QAll p else p)"

text \<open>\<open>new Map(usage.map(...))\<close>: of several records of an action the last one counts.\<close>

definition usageFor :: "usage_query \<Rightarrow> string \<Rightarrow> permission_usage option" where
  "usageFor uq action = map_of (rev (map (\<lambda>u. (pg_action u, u)) (nullish (uq_data uq) []))) action"

definition has_policy_use :: "permission_usage option \<Rightarrow> bool" where
  "has_policy_use u = (case u of None \<Rightarrow> False | Some v \<Rightarrow> length (pg_policies v) > 0)"
definition has_direct_use :: "permission_usage option \<Rightarrow> bool" where
  "has_direct_use u = (case u of None \<Rightarrow> False | Some v \<Rightarrow> pg_direct_grant_count v > 0)"
definition has_no_use :: "permission_usage option \<Rightarrow> bool" where
  "has_no_use u = (case u of None \<Rightarrow> False | Some v \<Rightarrow> pg_total_user_count v = 0)"

definition matchesQuickFilter :: "usage_query \<Rightarrow> quick_filter \<Rightarrow> catalog_entry \<Rightarrow> bool" where
  "matchesQuickFilter uq q e = (case q of
       QAll \<Rightarrow> True
     | QDestructive \<Rightarrow> isDestructiveAction (ce_action e)
     | QPolicy \<Rightarrow> has_policy_use (usageFor uq (ce_action e))
     | QDirect \<Rightarrow> has_direct_use (usageFor uq (ce_action e))
     | QUnused \<Rightarrow> has_no_use (usageFor uq (ce_action e)))"

definition entry_listed :: "usage_query \<Rightarrow> permissions_page \<Rightarrow> catalog_entry \<Rightarrow> bool" where
  "entry_listed uq p e =
     (let query = to_lower (trim (px_debounced p)); q = effectiveQuickFilter uq p in
      if pui_resourceType (px_ui p) \<noteq> ALL_VALUE \<and> ce_resource_type e \<noteq> pui_resourceType (px_ui p) then False
      else if uq_isLoading uq \<and> q \<noteq> QAll \<and> q \<noteq> QDestructive then False
      else if \<not> matchesQuickFilter uq q e then False
      else if query = [] then True
      else contains (to_lower (ce_action e)) query \<or> contains (to_lower (ce_description e)) query
           \<or> contains (to_lower (ce_resource_type e)) query)"

definition filtered_entries ::
  "(string \<Rightarrow> string \<Rightarrow> int) \<Rightarrow> catalog_entry list option \<Rightarrow> usage_query \<Rightarrow> permissions_page \<Rightarrow> catalog_entry list" where
  "filtered_entries lc catalog uq p =
     js_sort (\<lambda>a b. lc (ce_action a) (ce_action b)) (filter (entry_listed uq p) (nullish catalog []))"

text \<open>\<open>groupByResourceType\<close> on catalog entries.\<close>

definition entry_groups :: "catalog_entry list \<Rightarrow> (string, catalog_entry list) omap" where
  "entry_groups es = group_list ce_resource_type es"

definition px_hasSearchOrFilters :: "usage_query \<Rightarrow> permissions_page \<Rightarrow> bool" where
  "px_hasSearchOrFilters uq p \<longleftrightarrow>
     px_search p \<noteq> [] \<or> pui_resourceType (px_ui p) \<noteq> ALL_VALUE \<or> effectiveQuickFilter uq p \<noteq> QAll"

definition px_clearAllFilters :: "permissions_page \<Rightarrow> permissions_page" where
  "px_clearAllFilters p = px_setQuickFilter QAll (px_setResourceType ALL_VALUE (px_setSearch [] p))"

definition toggleTypeExpanded :: "string \<Rightarrow> permissions_page \<Rightarrow> permissions_page" where
  "toggleTypeExpanded ty = px_update (\<lambda>u. u\<lparr>pui_expandedTypes := toggle_member ty (pui_expandedTypes u)\<rparr>)"

definition px_allOpen :: "(string, catalog_entry list) omap \<Rightarrow> usage_query \<Rightarrow> permissions_page \<Rightarrow> bool" where
  "px_allOpen groups uq p \<longleftrightarrow> groups \<noteq> [] \<and>
     list_all (\<lambda>ty. ty \<in> set (pui_expandedTypes (px_ui p)) \<or> px_hasSearchOrFilters uq p) (om_keys groups)"

definition px_noneOpen :: "usage_query \<Rightarrow> permissions_page \<Rightarrow> bool" where
  "px_noneOpen uq p \<longleftrightarrow> pui_expandedTypes (px_ui p) = [] \<and> \<not> px_hasSearchOrFilters uq p"

definition px_expandAll :: "(string, catalog_entry list) omap \<Rightarrow> permissions_page \<Rightarrow> permissions_page" where
  "px_expandAll groups = px_update (\<lambda>u. u\<lparr>pui_expandedTypes := om_keys groups\<rparr>)"

definition px_collapseAll :: "permissions_page \<Rightarrow> permissions_page" where
  "px_collapseAll = px_update (\<lambda>u. u\<lparr>pui_expandedTypes := []\<rparr>)"

definition in_type :: "catalog_entry list option \<Rightarrow> permissions_page \<Rightarrow> catalog_entry list" where
  "in_type catalog p = (let base = nullish catalog [] in
     if pui_resourceType (px_ui p) = ALL_VALUE then base
     else filter (\<lambda>e. ce_resource_type e = pui_resourceType (px_ui p)) base)"

definition quickFilterCounts :: "catalog_entry list option \<Rightarrow> usage_query \<Rightarrow> permissions_page \<Rightarrow> quick_filter \<Rightarrow> nat" where
  "quickFilterCounts catalog uq p q = (let inType = in_type catalog p in case q of
       QAll \<Rightarrow> length inType
     | QDestructive \<Rightarrow> length (filter (\<lambda>e. isDestructiveAction (ce_action e)) inType)
     | QPolicy \<Rightarrow> length (filter (\<lambda>e. has_policy_use (usageFor uq (ce_action e))) inType)
     | QDirect \<Rightarrow> length (filter (\<lambda>e. has_direct_use (usageFor uq (ce_action e))) inType)
     | QUnused \<Rightarrow> length (filter (\<lambda>e. has_no_use (usageFor uq (ce_action e))) inType))"

datatype stat_tile = TileTotal | TileDestructive | TileUnused

definition activeStatTile :: "usage_query \<Rightarrow> permissions_page \<Rightarrow> stat_tile option" where
  "activeStatTile uq p =
     (if effectiveQuickFilter uq p = QDestructive then Some TileDestructive
      else if effectiveQuickFilter uq p = QUnused then Some TileUnused
      else if \<not> px_hasSearchOrFilters uq p then Some TileTotal else None)"

text \<open>A tile toggles its filter in the store; a button of the filter bar compares with the effective one.\<close>

definition tile_click :: "stat_tile \<Rightarrow> permissions_page \<Rightarrow> permissions_page" where
  "tile_click tile p = (case tile of
       TileTotal \<Rightarrow> px_clearAllFilters p
     | TileDestructive \<Rightarrow> px_setQuickFilter (if pui_quickFilter (px_ui p) = QDestructive then QAll else QDestructive) p
     | TileUnused \<Rightarrow> px_setQuickFilter (if pui_quickFilter (px_ui p) = QUnused then QAll else QUnused) p)"

datatype catalog_shown = CatalogLoading | CatalogFailed bool | CatalogEmpty bool | CatalogGroups "(string, catalog_entry list) omap"

text \<open>The body of the page; the flags say whether access was refused and whether filters are active.\<close>

definition catalog_view ::
  "bool \<Rightarrow> api_error option \<Rightarrow> (string, catalog_entry list) omap \<Rightarrow> usage_query \<Rightarrow> permissions_page \<Rightarrow> catalog_shown" where
  "catalog_view isLoading failure groups uq p =
     (if isLoading then CatalogLoading
      else case failure of
        Some e \<Rightarrow> CatalogFailed (isForbiddenError e)
      | None \<Rightarrow> if groups = [] then CatalogEmpty (px_hasSearchOrFilters uq p) else CatalogGroups groups)"

section \<open>PermissionsFilterBar.tsx\<close>

definition resourceTypeCounts :: "catalog_entry list option \<Rightarrow> (string, nat) omap" where
  "resourceTypeCounts catalog =
     foldl (\<lambda>m e. om_set (ce_resource_type e) (nullish (om_get m (ce_resource_type e)) 0 + 1) m) [] (nullish catalog [])"

text \<open>\<open>[...keys()].sort()\<close>: by code units.\<close>

definition catalog_type_options :: "catalog_entry list option \<Rightarrow> (string \<times> nat) list" where
  "catalog_type_options catalog = (let counts = resourceTypeCounts catalog in
     map (\<lambda>ty. (ty, nullish (om_get counts ty) 0)) (js_sort code_order (om_keys counts)))"

definition QUICK_FILTERS :: "quick_filter list" where
  "QUICK_FILTERS = [QAll, QDestructive, QPolicy, QDirect, QUnused]"

text \<open>The buttons: the count shown (none while it is not known) and whether the button works.\<close>

definition quick_filter_button ::
  "catalog_entry list option \<Rightarrow> usage_query \<Rightarrow> bool \<Rightarrow> permissions_page \<Rightarrow> quick_filter \<Rightarrow> nat option \<times> bool" where
  "quick_filter_button catalog uq catalogError p q =
     (let unknown = (q \<noteq> QAll \<and> q \<noteq> QDestructive \<and> (uq_isLoading uq \<or> uq_isError uq)) in
      (if unknown then None else Some (quickFilterCounts catalog uq p q), \<not> (catalogError \<or> unknown)))"

definition quick_filter_click ::
  "catalog_entry list option \<Rightarrow> usage_query \<Rightarrow> bool \<Rightarrow> quick_filter \<Rightarrow> permissions_page \<Rightarrow> permissions_page" where
  "quick_filter_click catalog uq catalogError next p =
     (if snd (quick_filter_button catalog uq catalogError p next)
      then px_setQuickFilter (if effectiveQuickFilter uq p = next then QAll else next) p else p)"

datatype px_chip = ChipSearch | ChipResourceType | ChipQuickFilter

definition px_chips :: "usage_query \<Rightarrow> bool \<Rightarrow> permissions_page \<Rightarrow> px_chip list" where
  "px_chips uq catalogError p = (if catalogError then [] else
     (if px_search p \<noteq> [] then [ChipSearch] else []) @ (if pui_resourceType (px_ui p) \<noteq> ALL_VALUE then [ChipResourceType] else [])
     @ (if effectiveQuickFilter uq p \<noteq> QAll then [ChipQuickFilter] else []))"

definition px_clear_chip :: "px_chip \<Rightarrow> permissions_page \<Rightarrow> permissions_page" where
  "px_clear_chip c = (case c of ChipSearch \<Rightarrow> px_setSearch [] | ChipResourceType \<Rightarrow> px_setResourceType ALL_VALUE
     | ChipQuickFilter \<Rightarrow> px_setQuickFilter QAll)"

section \<open>PermissionGroupList.tsx\<close>

definition group_expanded :: "usage_query \<Rightarrow> permissions_page \<Rightarrow> string \<Rightarrow> bool" where
  "group_expanded uq p ty \<longleftrightarrow> px_hasSearchOrFilters uq p \<or> ty \<in> set (pui_expandedTypes (px_ui p))"

definition group_counts :: "usage_query \<Rightarrow> catalog_entry list \<Rightarrow> nat \<times> nat option \<times> nat" where
  "group_counts uq entries =
     (length (filter (\<lambda>e. isDestructiveAction (ce_action e)) entries),
      (if uq_isError uq then None else Some (length (filter (\<lambda>e. has_policy_use (usageFor uq (ce_action e))) entries))),
      length entries)"

text \<open>\<open>permissionTableColumns.tsx\<close>: the holders of one action.\<close>

datatype held_cell = HeldUnavailable | HeldPending | HeldNone | HeldCounts nat nat nat

definition held_by_cell :: "usage_query \<Rightarrow> catalog_entry \<Rightarrow> held_cell" where
  "held_by_cell uq e =
     (if uq_isError uq then HeldUnavailable
      else case usageFor uq (ce_action e) of
        None \<Rightarrow> HeldPending
      | Some u \<Rightarrow> if pg_total_user_count u = 0 then HeldNone
          else HeldCounts (pg_total_user_count u) (pg_direct_grant_count u) (length (pg_policies u)))"

section \<open>PermissionsStatsCard.tsx\<close>

definition unused_actions :: "catalog_entry list option \<Rightarrow> usage_query \<Rightarrow> nat option" where
  "unused_actions catalog uq = (case catalog of
       Some entries \<Rightarrow> if uq_isError uq then None else
         Some (length (filter (\<lambda>e. (case usageFor uq (ce_action e) of None \<Rightarrow> 0 | Some u \<Rightarrow> pg_total_user_count u) = 0) entries))
     | None \<Rightarrow> None)"

text \<open>The value of a tile, and whether it can be pressed; the tile of resource types never can.\<close>

definition tile_value :: "catalog_entry list option \<Rightarrow> bool \<Rightarrow> usage_query \<Rightarrow> stat_tile \<Rightarrow> nat option" where
  "tile_value catalog catalogError uq tile =
     (if catalogError \<or> catalog = None then None
      else case tile of
        TileTotal \<Rightarrow> map_option length catalog
      | TileDestructive \<Rightarrow> map_option (\<lambda>es. length (filter (\<lambda>e. isDestructiveAction (ce_action e)) es)) catalog
      | TileUnused \<Rightarrow> if uq_isError uq \<or> uq_data uq = None then None else unused_actions catalog uq)"

definition tile_enabled :: "catalog_entry list option \<Rightarrow> bool \<Rightarrow> bool \<Rightarrow> usage_query \<Rightarrow> stat_tile \<Rightarrow> bool" where
  "tile_enabled catalog catalogLoading catalogError uq tile \<longleftrightarrow>
     \<not> (catalogError \<or> catalog = None) \<and> \<not> catalogLoading
     \<and> (tile = TileUnused \<longrightarrow> \<not> (uq_isError uq \<or> uq_data uq = None) \<and> \<not> uq_isLoading uq)"

definition resource_types_value :: "catalog_entry list option \<Rightarrow> bool \<Rightarrow> nat option" where
  "resource_types_value catalog catalogError =
     (if catalogError then None else map_option (\<lambda>es. length (js_set (map ce_resource_type es))) catalog)"

section \<open>PermissionDetailsDialog.tsx\<close>

datatype 'a held_view = HoldersLoading | HoldersUnavailable | HoldersUnknown | HoldersNobody | Holders 'a

definition holder_href :: "catalog_entry \<Rightarrow> string \<Rightarrow> string" where
  "holder_href e source = ''/users?permission='' @ encodeURIComponent (ce_action e) @ ''&permission_source='' @ source"

text \<open>The two counts with the link of each, if it has one.\<close>

definition holder_tiles :: "auth_state \<Rightarrow> catalog_entry \<Rightarrow> permission_usage \<Rightarrow> (nat \<times> string option) list" where
  "holder_tiles s e u =
     (let canListUsers = useCan s (OneAction ''users:list_all'') None in
      map (\<lambda>(n, source). (n, if canListUsers \<and> n > 0 then Some (holder_href e source) else None))
        [(pg_policy_user_count u, ''policy''), (pg_direct_grant_count u, ''direct'')])"

definition details_holders ::
  "auth_state \<Rightarrow> usage_query \<Rightarrow> catalog_entry \<Rightarrow> (nat \<times> string option) list held_view" where
  "details_holders s uq e =
     (if uq_isLoading uq then HoldersLoading
      else if uq_isError uq then HoldersUnavailable
      else case usageFor uq (ce_action e) of
        None \<Rightarrow> HoldersUnknown
      | Some u \<Rightarrow> if pg_total_user_count u = 0 then HoldersNobody else Holders (holder_tiles s e u))"

text \<open>The policies that grant the action, and whether their rows link to the policies.\<close>

definition details_policies ::
  "auth_state \<Rightarrow> usage_query \<Rightarrow> catalog_entry \<Rightarrow> ((string \<times> nat) \<times> string option) list held_view" where
  "details_policies s uq e =
     (if uq_isLoading uq then HoldersLoading
      else if uq_isError uq then HoldersUnavailable
      else case usageFor uq (ce_action e) of
        None \<Rightarrow> HoldersUnknown
      | Some u \<Rightarrow> if pg_policies u = [] then HoldersNobody
          else Holders (map (\<lambda>p. (p, if useCan s (OneAction ''policies:read'') None then Some ''/policies'' else None))
                 (pg_policies u)))"

section \<open>What the page promises\<close>

lemma listed_in_type: "entry_listed uq p e \<Longrightarrow>
   pui_resourceType (px_ui p) = ALL_VALUE \<or> ce_resource_type e = pui_resourceType (px_ui p)"
  by (auto simp: entry_listed_def Let_def split: if_splits)

lemma effective_ready: "effectiveQuickFilter uq p \<noteq> QAll \<Longrightarrow> effectiveQuickFilter uq p \<noteq> QDestructive \<Longrightarrow> usageReady uq"
  by (auto simp: effectiveQuickFilter_def Let_def split: if_splits)

lemma entry_listed_iff: "entry_listed uq p e \<longleftrightarrow>
   (pui_resourceType (px_ui p) = ALL_VALUE \<or> ce_resource_type e = pui_resourceType (px_ui p))
   \<and> matchesQuickFilter uq (effectiveQuickFilter uq p) e
   \<and> (let query = to_lower (trim (px_debounced p)) in
        contains (to_lower (ce_action e)) query \<or> contains (to_lower (ce_description e)) query
        \<or> contains (to_lower (ce_resource_type e)) query)"
proof -
  have none: "to_lower [] = []" by (simp add: to_lower_def)
  show ?thesis using effective_ready [of uq p] by (auto simp: entry_listed_def usageReady_def Let_def none)
qed

lemma quickFilterCounts_matches:
  "quickFilterCounts catalog uq p q = length (filter (matchesQuickFilter uq q) (in_type catalog p))"
  by (cases q) (simp_all add: quickFilterCounts_def matchesQuickFilter_def [abs_def] Let_def)

lemma group_list_member: "(k, g) \<in> set (group_list f xs) \<Longrightarrow> g \<noteq> [] \<and> (\<forall>x\<in>set g. f x = k)"
proof -
  assume "(k, g) \<in> set (group_list f xs)"
  then obtain x where "x \<in> set xs" "f x = k" "g = filter (\<lambda>x. f x = k) xs" by (auto simp: group_list_in_set)
  then have "x \<in> set g" "\<forall>x\<in>set g. f x = k" by auto
  then show ?thesis by auto
qed

text \<open>The number on a quick filter is the number of rows it shows. While nothing is searched for, the
  rows listed under the filter in effect are as many as its count says; and whatever is searched for, the
  groups shown hold exactly the rows listed, each under its own resource type, no type twice.\<close>

theorem quick_filter_counts_exact:
  "(trim (px_debounced p) = [] \<longrightarrow>
      length (filtered_entries lc catalog uq p) = quickFilterCounts catalog uq p (effectiveQuickFilter uq p))
   \<and> (let groups = entry_groups (filtered_entries lc catalog uq p) in
        mset (concat (om_values groups)) = mset (filter (entry_listed uq p) (nullish catalog []))
        \<and> distinct (om_keys groups) \<and> (\<forall>(ty, es)\<in>set groups. es \<noteq> [] \<and> (\<forall>e\<in>set es. ce_resource_type e = ty)))"
proof -
  have "length (filter (entry_listed uq p) (nullish catalog [])) = quickFilterCounts catalog uq p (effectiveQuickFilter uq p)"
    if "trim (px_debounced p) = []"
  proof -
    have "filter (entry_listed uq p) (nullish catalog []) =
        filter (matchesQuickFilter uq (effectiveQuickFilter uq p)) (in_type catalog p)"
      using that by (auto simp: in_type_def entry_listed_iff Let_def to_lower_def conj_commute intro!: filter_cong)
    then show ?thesis by (simp add: quickFilterCounts_matches)
  qed
  then show ?thesis
    by (auto simp: filtered_entries_def entry_groups_def group_list_mset Let_def dest!: group_list_member)
qed

lemma quick_filter_counts_exact_witness:
  "length (filtered_entries code_order (Some [\<lparr>ce_action = ''users:delete_any'', ce_resource_type = ''user'', ce_description = []\<rparr>,
      \<lparr>ce_action = ''users:read'', ce_resource_type = ''user'', ce_description = []\<rparr>])
      \<lparr>uq_data = None, uq_isLoading = True, uq_isError = False\<rparr>
      (px_setQuickFilter QDestructive (px_mount initial_permissions_ui []))) = 1"
proof -
  let ?p = "px_setQuickFilter QDestructive (px_mount initial_permissions_ui [])"
  let ?c = "Some [\<lparr>ce_action = ''users:delete_any'', ce_resource_type = ''user'', ce_description = []\<rparr>,
      \<lparr>ce_action = ''users:read'', ce_resource_type = ''user'', ce_description = []\<rparr>]"
  let ?u = "\<lparr>uq_data = None, uq_isLoading = True, uq_isError = False\<rparr>"
  have t: "trim (px_debounced ?p) = []" by code_simp
  have "quickFilterCounts ?c ?u ?p (effectiveQuickFilter ?u ?p) = 1" by code_simp
  with quick_filter_counts_exact [of ?p code_order ?c ?u, THEN conjunct1] t show ?thesis by simp
qed

text \<open>While a search or a filter is active every group is open, and neither the header of a group nor
  "collapse all", which is enabled then, closes one; what they change is seen when the search is cleared.\<close>

lemma collapse_without_effect:
  assumes "px_hasSearchOrFilters uq p"
  shows "\<not> px_noneOpen uq p \<and> group_expanded uq (px_collapseAll p) ty \<and> group_expanded uq (toggleTypeExpanded ty p) ty"
  using assms by (simp add: px_noneOpen_def group_expanded_def px_collapseAll_def toggleTypeExpanded_def px_update_def
      px_hasSearchOrFilters_def effectiveQuickFilter_def)

text \<open>The tile of unused actions counts the actions nobody holds and those the usage does not know; its
  filter lists the former only.\<close>

lemma unused_tile_count:
  assumes "uq_isError uq = False" "pui_resourceType (px_ui p) = ALL_VALUE"
  shows "unused_actions (Some entries) uq = Some (quickFilterCounts (Some entries) uq p QUnused
     + length (filter (\<lambda>e. usageFor uq (ce_action e) = None) entries))"
proof -
  have "length (filter (\<lambda>e. (case usageFor uq (ce_action e) of None \<Rightarrow> 0 | Some u \<Rightarrow> pg_total_user_count u) = 0) es)
      = length (filter (\<lambda>e. has_no_use (usageFor uq (ce_action e))) es)
        + length (filter (\<lambda>e. usageFor uq (ce_action e) = None) es)" for es
    by (induction es) (auto simp: has_no_use_def split: option.splits)
  then show ?thesis using assms by (simp add: unused_actions_def quickFilterCounts_def in_type_def nullish_def)
qed

text \<open>The chips stand for the filters in effect, and clearing them all leaves none.\<close>

lemma px_chips_exact:
  "px_chips uq False p = [] \<longleftrightarrow> \<not> px_hasSearchOrFilters uq p"
  "\<not> px_hasSearchOrFilters uq (px_clearAllFilters p)"
  by (simp_all add: px_chips_def px_hasSearchOrFilters_def px_clearAllFilters_def px_setSearch_def px_setResourceType_def
      px_setQuickFilter_def px_update_def effectiveQuickFilter_def Let_def)

section \<open>Links between the pages\<close>

lemma follow_permission_result:
  "follow_link (r_to (permission_result e c)) = Some (''/permissions'', [(''search'', ce_action c)])"
proof -
  have "r_to (permission_result e c) = link_to ''/permissions'' [(''search'', ce_action c)]"
    by (simp add: permission_result_def link_to_def query_pair_def)
  moreover have "follow_link (link_to ''/permissions'' [(''search'', ce_action c)]) = Some (''/permissions'', [(''search'', ce_action c)])"
    by (rule follow_link_to) (simp_all add: unreserved_def Let_def ucode_def)
  ultimately show ?thesis by (simp only:)
qed

lemma trim_contained: "contains s (trim s)"
proof -
  have "s = takeWhile is_js_space s @ trim_start s" by (simp add: trim_start_def)
  moreover have "trim_start s = trim (s) @ rev (takeWhile is_js_space (rev (trim_start s)))"
    unfolding trim_def trim_end_def by (metis rev_append rev_rev_ident takeWhile_dropWhile_id)
  ultimately show ?thesis unfolding contains_iff by metis
qed

text \<open>A permission found in the command palette is shown by the page it leads to, unless a filter left
  over in the session hides it. The result opens the catalog with the action as the search, and its entry
  is listed exactly if the resource type still chosen is its own or none, and the quick filter still in
  effect holds of it.\<close>

theorem palette_permission_shown:
  assumes "c \<in> set catalog" "follow_link (r_to (permission_result e c)) = Some (path, params)"
  shows "path = ''/permissions'' \<and>
     (let p = px_mount ui params in
      px_search p = ce_action c \<and>
      (c \<in> set (filtered_entries lc (Some catalog) uq p) \<longleftrightarrow>
         (pui_resourceType ui = ALL_VALUE \<or> pui_resourceType ui = ce_resource_type c)
         \<and> matchesQuickFilter uq (effectiveQuickFilter uq p) c))"
proof -
  have params: "path = ''/permissions''" "params = [(''search'', ce_action c)]"
    using assms(2) by (simp_all add: follow_permission_result)
  have "contains (to_lower (ce_action c)) (to_lower (trim (ce_action c)))"
    by (intro to_lower_contains trim_contained)
  then show ?thesis using assms(1)
    by (auto simp: params px_mount_def Let_def filtered_entries_def nullish_def entry_listed_iff)
qed

lemma palette_permission_shown_witness:
  "\<exists>path params. follow_link (r_to (permission_result (plain_env [] (\<lambda>_. None))
      \<lparr>ce_action = ''users:read'', ce_resource_type = ''user'', ce_description = []\<rparr>)) = Some (path, params) \<and>
    \<lparr>ce_action = ''users:read'', ce_resource_type = ''user'', ce_description = []\<rparr> \<notin>
      set (filtered_entries code_order (Some [\<lparr>ce_action = ''users:read'', ce_resource_type = ''user'', ce_description = []\<rparr>])
        \<lparr>uq_data = None, uq_isLoading = True, uq_isError = False\<rparr>
        (px_mount (initial_permissions_ui\<lparr>pui_resourceType := ''policy''\<rparr>) params))"
proof -
  let ?c = "\<lparr>ce_action = ''users:read'', ce_resource_type = ''user'', ce_description = []\<rparr>"
  let ?u = "\<lparr>uq_data = None, uq_isLoading = True, uq_isError = False\<rparr>"
  let ?ui = "initial_permissions_ui\<lparr>pui_resourceType := ''policy''\<rparr>"
  note link = follow_permission_result [of "plain_env [] (\<lambda>_. None)" ?c]
  have "?c \<in> set [?c]" by simp
  from palette_permission_shown [OF this link, of ?ui code_order ?u] link show ?thesis
    by (auto simp: Let_def ALL_VALUE_def)
qed

text \<open>The links of a permission's holders open the users page filtered only for a caller who may read
  policies. The link of either count carries the action and the source, and the page asks the server for
  exactly those holders if its caller holds policies:read; for a caller who does not, though the details
  offer the link, the same link asks for every user.\<close>

theorem holder_link_filters:
  assumes "source = ''policy'' \<or> source = ''direct''" "ce_action e \<noteq> []"
  shows "\<exists>params. follow_link (holder_href e source) = Some (''/users'', params) \<and>
     (let sent = activeFilters s (mount_filters ui params) in
      if can s (OneAction ''policies:read'')
      then lu_permission sent = Some (ce_action e) \<and> lu_permission_source sent = Some source
      else lu_permission sent = None \<and> lu_permission_source sent = None)"
proof -
  let ?params = "[(''permission'', ce_action e), (''permission_source'', source)]"
  have "encodeURIComponent source = source"
    using assms(1) by (auto simp: encodeURIComponent_def encode_char_def unreserved_def Let_def ucode_def)
  then have "holder_href e source = link_to ''/users'' ?params"
    by (simp add: holder_href_def link_to_def query_pair_def)
  moreover have "follow_link (link_to ''/users'' ?params) = Some (''/users'', ?params)"
    by (rule follow_link_to) (simp_all add: unreserved_def Let_def ucode_def)
  ultimately have "follow_link (holder_href e source) = Some (''/users'', ?params)" by (simp only:)
  then show ?thesis using assms
    by (auto simp: activeFilters_def mount_filters_def f_permission_def f_permissionSource_def param_def nullish_def
        or_undefined_def useCan_def Let_def)
qed

lemma holder_link_filters_witness:
  "holder_tiles (signed_in [''users:list_all'', ''permissions:read'']) \<lparr>ce_action = ''a'', ce_resource_type = ''r'', ce_description = []\<rparr>
      \<lparr>pg_action = ''a'', pg_resource_type = ''r'', pg_policies = [], pg_policy_user_count = 0, pg_direct_grant_count = 1, pg_total_user_count = 1\<rparr>
     = [(0, None), (1, Some (holder_href \<lparr>ce_action = ''a'', ce_resource_type = ''r'', ce_description = []\<rparr> ''direct''))] \<and>
   (\<exists>params. follow_link (holder_href \<lparr>ce_action = ''a'', ce_resource_type = ''r'', ce_description = []\<rparr> ''direct'') = Some (''/users'', params)
     \<and> lu_permission (activeFilters (signed_in [''users:list_all'', ''permissions:read'']) (mount_filters initial_users_ui params)) = None)"
proof -
  let ?s = "signed_in [''users:list_all'', ''permissions:read'']"
  let ?e = "\<lparr>ce_action = ''a'', ce_resource_type = ''r'', ce_description = []\<rparr>"
  have c: "\<not> can ?s (OneAction ''policies:read'')" "useCan ?s (OneAction ''users:list_all'') None" by code_simp+
  have "''direct'' = ''policy'' \<or> ''direct'' = ''direct''" "ce_action ?e \<noteq> []" by simp_all
  from holder_link_filters [OF this, of ?s initial_users_ui] c show ?thesis by (auto simp: holder_tiles_def Let_def)
qed

end
