(* ===== verification/UsersTable.thy ===== *)
theory UsersTable
  imports UsersPage Widgets UserAccess
begin

text \<open>
  What the users page shows around its state: the columns and the actions of a row
  (\<open>users/usersColumns.tsx\<close>), the filter bar with its chips and pickers (\<open>UsersFilterBar.tsx\<close>), the
  tiles (\<open>UserStatsCard.tsx\<close>, and \<open>UsersPage.tsx\<close> for what pressing one does), the toolbar of the bulk
  actions (\<open>bulk/BulkActionToolbar.tsx\<close>), the dialogs (\<open>dialogs/UsersPageDialogs.tsx\<close>) and the removal
  of another user's passkeys (\<open>dialogs/UserPasskeysDialog.tsx\<close>). Icons, classes and most texts are left
  out; which control is there, whether it works and what it does is modelled.
\<close>

section \<open>usersColumns.tsx\<close>

definition ROLE_OPTIONS :: "string list" where
  "ROLE_OPTIONS = [''user'', ''admin'', ''system'']"

text \<open>\<open>toUpperCase\<close> is taken on the two joined letters.\<close>

definition initialsFor :: "string \<Rightarrow> string" where
  "initialsFor nm = concat (map upper_char (concat (take 2 (map (take 1) (filter (\<lambda>p. p \<noteq> []) (split_on (CHR '' '') nm))))))"

definition you_badge :: "string option \<Rightarrow> managed_user \<Rightarrow> bool" where
  "you_badge currentUserEmail u \<longleftrightarrow> Some (mu_email u) = currentUserEmail"

text \<open>The role column: a text without the permission to assign roles, else a select.\<close>

datatype role_cell = RoleNothing | RoleText "string option" | RoleSelect string "string list" bool

definition role_cell :: "auth_state \<Rightarrow> managed_user \<Rightarrow> role_cell" where
  "role_cell s u =
     (case ifcan_view s (OneAction ''users:assign_role'') of
        GateChildren \<Rightarrow> RoleSelect (nullish (mu_role u) []) ROLE_OPTIONS (you_badge (a_email s) u \<or> mu_role u = Some ''system'')
      | GateFallback \<Rightarrow> RoleText (mu_role u)
      | GateNothing \<Rightarrow> RoleNothing)"

text \<open>A role the cell lets the caller ask for: one of the options, another than the one shown.\<close>

definition role_requests :: "role_cell \<Rightarrow> string list" where
  "role_requests c = (case c of
       RoleSelect v opts disabled \<Rightarrow> if disabled then [] else filter (\<lambda>r. r \<noteq> v) opts
     | _ \<Rightarrow> [])"

datatype status_cell = StatusDeactivated | StatusVerified | StatusUnverified

definition status_cell :: "managed_user \<Rightarrow> status_cell" where
  "status_cell u = (if \<not> mu_is_active u then StatusDeactivated else if mu_is_verified u then StatusVerified else StatusUnverified)"

datatype row_icon = OpenAccess access_tab

definition if_can :: "auth_state \<Rightarrow> action_spec \<Rightarrow> bool" where
  "if_can s spec \<longleftrightarrow> ifcan_view s spec = GateChildren"

definition row_icons :: "auth_state \<Rightarrow> row_icon list" where
  "row_icons s = [OpenAccess DetailsTab]
     @ (if if_can s (OneAction ''policies:read'') then [OpenAccess PoliciesTab] else [])
     @ (if if_can s (OneAction ''permissions:read'') then [OpenAccess PermissionsTab] else [])"

datatype menu_action = ManagePasskeys | Reactivate | Deactivate | Purge

text \<open>An item of the menu and whether it is disabled.\<close>

definition menu_items :: "auth_state \<Rightarrow> string option \<Rightarrow> managed_user \<Rightarrow> (menu_action \<times> bool) list" where
  "menu_items s reactivatingEmail u =
     (let own = you_badge (a_email s) u in
      (if \<not> own \<and> if_can s (OneAction ''users:manage_passkeys'') then [(ManagePasskeys, False)] else [])
      @ (if truthy (mu_deleted_at u)
         then (if if_can s (OneAction ''users:reactivate'') then [(Reactivate, reactivatingEmail = Some (mu_email u))] else [])
         else (if if_can s (OneAction ''users:deactivate_any'') then [(Deactivate, own)] else []))
      @ (if truthy (mu_deleted_at u)
         then (if if_can s (OneAction ''users:delete_any'') then [(Purge, own)] else []) else []))"

definition MENU_PERMISSIONS :: "string list" where
  "MENU_PERMISSIONS = [''users:manage_passkeys'', ''users:reactivate'', ''users:deactivate_any'', ''users:delete_any'']"

text \<open>The menu of a row, where it has one.\<close>

definition row_menu :: "auth_state \<Rightarrow> string option \<Rightarrow> managed_user \<Rightarrow> (menu_action \<times> bool) list option" where
  "row_menu s reactivatingEmail u =
     (if mu_role u \<noteq> Some ''system'' \<and> if_can s (AnyOf MENU_PERMISSIONS)
      then Some (menu_items s reactivatingEmail u) else None)"

definition menu_enabled :: "auth_state \<Rightarrow> string option \<Rightarrow> managed_user \<Rightarrow> menu_action list" where
  "menu_enabled s reactivatingEmail u =
     map fst (filter (\<lambda>i. \<not> snd i) (nullish (row_menu s reactivatingEmail u) []))"

section \<open>The dialogs a row opens\<close>

record users_dialogs =
  ud_access :: "(managed_user \<times> access_tab) option"
  ud_passkeys :: "managed_user option"
  ud_deleting :: "managed_user option"
  ud_purging :: "managed_user option"
  ud_roleChange :: "(managed_user \<times> string) option"

definition onOpenAccess :: "managed_user \<Rightarrow> access_tab \<Rightarrow> users_dialogs \<Rightarrow> users_dialogs" where
  "onOpenAccess u tb d = d\<lparr>ud_access := Some (u, tb)\<rparr>"

definition onRoleChangeRequest :: "managed_user \<Rightarrow> string \<Rightarrow> users_dialogs \<Rightarrow> users_dialogs" where
  "onRoleChangeRequest u r d = d\<lparr>ud_roleChange := Some (u, r)\<rparr>"

text \<open>Choosing an item: what it opens; reactivating needs no confirmation and opens nothing.\<close>

definition menu_select :: "managed_user \<Rightarrow> menu_action \<Rightarrow> users_dialogs \<Rightarrow> users_dialogs" where
  "menu_select u act d = (case act of
       ManagePasskeys \<Rightarrow> d\<lparr>ud_passkeys := Some u\<rparr>
     | Reactivate \<Rightarrow> d
     | Deactivate \<Rightarrow> d\<lparr>ud_deleting := Some u\<rparr>
     | Purge \<Rightarrow> d\<lparr>ud_purging := Some u\<rparr>)"

text \<open>Which dialogs are open, with what they are about.\<close>

definition opened_access :: "users_dialogs \<Rightarrow> (managed_user \<times> access_tab \<times> bool) option" where
  "opened_access d = map_option (\<lambda>(u, tb). (u, tb, mu_role u = Some ''system'')) (ud_access d)"

definition role_dialog_text :: "users_dialogs \<Rightarrow> (string \<times> string) option" where
  "role_dialog_text d = map_option (\<lambda>(u, r). (mu_email u, capitalize r)) (ud_roleChange d)"

section \<open>Tiles\<close>

datatype user_tile = TileTotalUsers | TileVerified | TileUnverified | TileInactive

definition activeTile :: "filters \<Rightarrow> user_tile option" where
  "activeTile f =
     (let v = ui_verified (f_ui f); st = ui_status (f_ui f) in
      if f_search f \<noteq> [] \<or> ui_role (f_ui f) \<noteq> ALL_VALUE \<or> f_policy f \<noteq> ALL_VALUE
         \<or> f_permission f \<noteq> ALL_VALUE \<or> ui_lastLogin (f_ui f) \<noteq> ALL_VALUE then None
      else if v = ''true'' \<and> st = ALL_VALUE then Some TileVerified
      else if v = ''false'' \<and> st = ALL_VALUE then Some TileUnverified
      else if st = ''deleted'' \<and> v = ALL_VALUE then Some TileInactive
      else if v = ALL_VALUE \<and> st = ALL_VALUE then Some TileTotalUsers else None)"

text \<open>The setters a tile calls, in their order; \<open>snap\<close> is the render the tile was clicked in.\<close>

definition tile_rest :: "filters \<Rightarrow> filters \<Rightarrow> filters" where
  "tile_rest snap f = setLastLogin ALL_VALUE (setPermission snap ALL_VALUE (setPolicy snap ALL_VALUE f))"

definition tile_clicked :: "user_tile \<Rightarrow> filters \<Rightarrow> filters \<Rightarrow> filters" where
  "tile_clicked tile snap f = (let f1 = setSearch [] f in case tile of
       TileTotalUsers \<Rightarrow> tile_rest snap (setStatus ALL_VALUE (setVerified ALL_VALUE (setRole ALL_VALUE f1)))
     | TileVerified \<Rightarrow> tile_rest snap (setStatus ALL_VALUE (setRole ALL_VALUE (setVerified ''true'' f1)))
     | TileUnverified \<Rightarrow> tile_rest snap (setStatus ALL_VALUE (setRole ALL_VALUE (setVerified ''false'' f1)))
     | TileInactive \<Rightarrow> tile_rest snap (setVerified ALL_VALUE (setRole ALL_VALUE (setStatus ''deleted'' f1))))"

record user_stats =
  us_total :: nat
  us_verified :: nat
  us_unverified :: nat
  us_inactive :: nat

text \<open>The card is left out when its request failed; a tile without a number shows a dash.\<close>

definition stats_card :: "bool \<Rightarrow> user_stats option \<Rightarrow> (user_tile \<times> nat option) list" where
  "stats_card isError data = (if isError then [] else
     [(TileTotalUsers, map_option us_total data), (TileVerified, map_option us_verified data),
      (TileUnverified, map_option us_unverified data), (TileInactive, map_option us_inactive data)])"

section \<open>UsersFilterBar.tsx\<close>

datatype users_chip = UChipSearch | UChipPermission | UChipSource | UChipRole | UChipVerified | UChipStatus
  | UChipPolicy | UChipLastLogin

definition users_chips :: "bool \<Rightarrow> filters \<Rightarrow> users_chip list" where
  "users_chips canSeeAccess f =
     (if f_search f \<noteq> [] then [UChipSearch] else [])
     @ (if canSeeAccess \<and> f_permission f \<noteq> ALL_VALUE then [UChipPermission] else [])
     @ (if canSeeAccess \<and> f_permissionSource f \<noteq> None then [UChipSource] else [])
     @ (if ui_role (f_ui f) \<noteq> ALL_VALUE then [UChipRole] else [])
     @ (if ui_verified (f_ui f) \<noteq> ALL_VALUE then [UChipVerified] else [])
     @ (if ui_status (f_ui f) \<noteq> ALL_VALUE then [UChipStatus] else [])
     @ (if canSeeAccess \<and> f_policy f \<noteq> ALL_VALUE then [UChipPolicy] else [])
     @ (if ui_lastLogin (f_ui f) \<noteq> ALL_VALUE then [UChipLastLogin] else [])"

definition clear_chip :: "users_chip \<Rightarrow> filters \<Rightarrow> filters \<Rightarrow> filters" where
  "clear_chip c snap = (case c of
       UChipSearch \<Rightarrow> setSearch [] | UChipPermission \<Rightarrow> setPermission snap ALL_VALUE
     | UChipSource \<Rightarrow> setPermission snap ALL_VALUE | UChipRole \<Rightarrow> setRole ALL_VALUE
     | UChipVerified \<Rightarrow> setVerified ALL_VALUE | UChipStatus \<Rightarrow> setStatus ALL_VALUE
     | UChipPolicy \<Rightarrow> setPolicy snap ALL_VALUE | UChipLastLogin \<Rightarrow> setLastLogin ALL_VALUE)"

text \<open>The groups of the two pickers; \<open>allTypes\<close> is the text for policies on every resource type.\<close>

definition permission_groups :: "string \<Rightarrow> gs_group list" where
  "permission_groups allTypes =
     map (\<lambda>(ty, acts). \<lparr>gg_key = ty, gg_label = formatResourceTypeLabel ty allTypes,
            gg_options = map (\<lambda>a. \<lparr>gs_value = a, gs_label = formatPolicyActionLabel a, gs_sublabel = None\<rparr>) acts\<rparr>)
       (group_list (\<lambda>a. hd (split_on (CHR '':'') a)) (map snd PERMISSIONS))"

definition policy_groups ::
  "(string \<Rightarrow> string \<Rightarrow> int) \<Rightarrow> string \<Rightarrow> policy list option \<Rightarrow> gs_group list" where
  "policy_groups lc allTypes policies =
     map (\<lambda>g. g\<lparr>gg_options := js_sort (\<lambda>a b. lc (gs_label a) (gs_label b)) (gg_options g)\<rparr>)
       (js_sort (\<lambda>a b. lc (gg_label a) (gg_label b))
         (map (\<lambda>(ty, ps). \<lparr>gg_key = ty, gg_label = formatResourceTypeLabel ty allTypes,
              gg_options = map (\<lambda>p. \<lparr>gs_value = pol_name p, gs_label = pol_name p, gs_sublabel = None\<rparr>) ps\<rparr>)
            (group_list pol_resource_type (nullish policies []))))"

text \<open>The controls of the open filter bar, as the filters they set.\<close>

definition filter_controls :: "bool \<Rightarrow> users_chip list" where
  "filter_controls canSeeAccess =
     (if canSeeAccess then [UChipPermission] else []) @ [UChipRole, UChipVerified, UChipStatus]
     @ (if canSeeAccess then [UChipPolicy] else []) @ [UChipLastLogin]"

section \<open>BulkActionToolbar.tsx\<close>

definition canOfferSelectAllMatching :: "bool \<Rightarrow> nat \<Rightarrow> nat \<Rightarrow> nat \<Rightarrow> bool" where
  "canOfferSelectAllMatching selectAllMatching pageSelectedCount pageRowCount totalMatching \<longleftrightarrow>
     \<not> selectAllMatching \<and> pageRowCount > 0 \<and> pageSelectedCount = pageRowCount \<and> totalMatching > pageRowCount"

text \<open>The arguments \<open>UsersPage.tsx\<close> gives it.\<close>

definition offers_all_matching :: "users_page \<Rightarrow> bool" where
  "offers_all_matching p = canOfferSelectAllMatching (up_allMatching p) (length (up_selected p))
     (length (nullish (up_rows p) [])) (nullish (up_total p) 0)"

datatype bulk_dialog = BulkPolicyDialog | BulkPermissionDialog | BulkRoleDialog

definition bulk_buttons :: "auth_state \<Rightarrow> nat \<Rightarrow> (bulk_dialog \<times> bool) list" where
  "bulk_buttons s cnt =
     (let enabled = (cnt \<noteq> 0) in
      (if if_can s (OneAction ''policies:assign'') then [(BulkPolicyDialog, enabled)] else [])
      @ (if if_can s (OneAction ''permissions:grant'') then [(BulkPermissionDialog, enabled)] else [])
      @ (if if_can s (OneAction ''users:assign_role'') then [(BulkRoleDialog, enabled)] else []))"

section \<open>UserPasskeysDialog.tsx\<close>

datatype removal = RemoveOne passkey | RemoveAll

record passkeys_dialog =
  pd_user :: "managed_user option"
  pd_pending :: "removal option"
  pd_inFlight :: "removal option"
  pd_sent :: "request list"
  pd_app :: app

definition pd_email :: "passkeys_dialog \<Rightarrow> string" where
  "pd_email d = (case pd_user d of None \<Rightarrow> [] | Some u \<Rightarrow> mu_email u)"

definition passkeys_listed :: "passkeys_dialog \<Rightarrow> request option" where
  "passkeys_listed d = (if pd_user d = None then None else Some (listUserPasskeysApi (pd_email d)))"

definition removal_request :: "string \<Rightarrow> removal \<Rightarrow> request" where
  "removal_request userEmail r = (case r of RemoveAll \<Rightarrow> revokeAllUserPasskeysApi userEmail
     | RemoveOne k \<Rightarrow> revokeUserPasskeyApi userEmail (pk_id k))"

definition ask_removal :: "passkey list \<Rightarrow> removal \<Rightarrow> passkeys_dialog \<Rightarrow> passkeys_dialog" where
  "ask_removal shown r d =
     (case r of RemoveOne k \<Rightarrow> if k \<in> set shown then d\<lparr>pd_pending := Some r\<rparr> else d
      | RemoveAll \<Rightarrow> if shown = [] then d else d\<lparr>pd_pending := Some r\<rparr>)"

definition removal_cancel :: "passkeys_dialog \<Rightarrow> passkeys_dialog" where
  "removal_cancel d = d\<lparr>pd_pending := None\<rparr>"

definition removal_confirm :: "passkeys_dialog \<Rightarrow> passkeys_dialog" where
  "removal_confirm d = (case pd_pending d of
       Some r \<Rightarrow> if confirm_enabled False (pd_inFlight d \<noteq> None)
         then d\<lparr>pd_inFlight := Some r, pd_sent := pd_sent d @ [removal_request (pd_email d) r]\<rparr> else d
     | None \<Rightarrow> d)"

definition userPasskeysKey :: "string \<Rightarrow> query_key" where
  "userPasskeysKey userEmail = [KStr ''userPasskeys'', KStr userEmail]"

definition removal_answered :: "translator \<Rightarrow> unit outcome \<Rightarrow> passkeys_dialog \<Rightarrow> passkeys_dialog" where
  "removal_answered tr answer d = (case pd_inFlight d of None \<Rightarrow> d
     | Some r \<Rightarrow> (case answer of
         Fulfilled x \<Rightarrow> d\<lparr>pd_inFlight := None, pd_pending := None,
           pd_app := invalidate [userPasskeysKey (pd_email d)]
             (page_toast (tr_text tr ''users:passkeysDialog.removedToast'' []) ToastSuccess (pd_app d))\<rparr>
       | Rejected e \<Rightarrow> d\<lparr>pd_inFlight := None, pd_pending := None,
           pd_app := page_toast (extractApiErrorMessage tr e ''Failed to remove passkeys'') ToastError (pd_app d)\<rparr>))"

section \<open>What a row offers\<close>

lemma if_can_iff: "if_can s spec \<longleftrightarrow> can s spec"
  by (auto simp: if_can_def ifcan_view_def authorized_view_def useCan_def can_def Let_def)

lemma can_menu_any: "can s (AnyOf MENU_PERMISSIONS) \<longleftrightarrow> (\<exists>p\<in>set MENU_PERMISSIONS. can s (OneAction p))"
  by (auto simp: can_def MENU_PERMISSIONS_def)

text \<open>C15: A row never offers what its account is protected from. On the caller's own row, and on a
  system account, no other role can be asked for, whatever else the row offers; a system account has no menu
  at all, and on the own row nothing in the menu works but reactivating: not deactivating or deleting the account,
  nor opening its passkeys. On every row, asking for a role and each enabled action need their own permission, and
  an enabled action fits the account: only an account that is deactivated is reactivated or deleted, only one that is not
  is deactivated.\<close>

theorem row_actions_safe:
  "let own = (a_email s = Some (mu_email u)); system_account = (mu_role u = Some ''system'');
       roles = role_requests (role_cell s u); acts = set (menu_enabled s re u)
   in (own \<or> system_account \<longrightarrow> roles = [])
    \<and> (roles \<noteq> [] \<longrightarrow> can s (OneAction ''users:assign_role''))
    \<and> (system_account \<longrightarrow> row_menu s re u = None \<and> acts = {})
    \<and> (own \<longrightarrow> acts \<subseteq> {Reactivate})
    \<and> (\<forall>act\<in>acts. can s (OneAction (case act of ManagePasskeys \<Rightarrow> ''users:manage_passkeys'' | Reactivate \<Rightarrow> ''users:reactivate''
        | Deactivate \<Rightarrow> ''users:deactivate_any'' | Purge \<Rightarrow> ''users:delete_any''))
       \<and> (act \<in> {Reactivate, Purge} \<longrightarrow> truthy (mu_deleted_at u))
       \<and> (act = Deactivate \<longrightarrow> \<not> truthy (mu_deleted_at u)))"
proof -
  let ?own = "a_email s = Some (mu_email u)" and ?system = "mu_role u = Some ''system''"
  have own: "you_badge (a_email s) u \<longleftrightarrow> ?own" by (auto simp: you_badge_def)
  have roles: "?own \<or> ?system \<Longrightarrow> role_requests (role_cell s u) = []"
    by (auto simp: role_cell_def role_requests_def own split: gate_view.splits)
  have asks: "role_requests (role_cell s u) \<noteq> [] \<Longrightarrow> can s (OneAction ''users:assign_role'')"
    by (auto simp: role_cell_def role_requests_def if_can_iff [symmetric] if_can_def split: gate_view.splits)
  have menu: "?system \<Longrightarrow> row_menu s re u = None" by (simp add: row_menu_def)
  have acts: "\<not> ?system \<and> (?own \<longrightarrow> act = Reactivate)
    \<and> can s (OneAction (case act of ManagePasskeys \<Rightarrow> ''users:manage_passkeys'' | Reactivate \<Rightarrow> ''users:reactivate''
        | Deactivate \<Rightarrow> ''users:deactivate_any'' | Purge \<Rightarrow> ''users:delete_any''))
    \<and> (act \<in> {Reactivate, Purge} \<longrightarrow> truthy (mu_deleted_at u)) \<and> (act = Deactivate \<longrightarrow> \<not> truthy (mu_deleted_at u))"
    if "act \<in> set (menu_enabled s re u)" for act
    using that by (auto simp: menu_enabled_def row_menu_def menu_items_def Let_def if_can_iff own nullish_def split: if_splits)
  have "?system \<Longrightarrow> set (menu_enabled s re u) = {}" by (simp add: menu_enabled_def menu nullish_def)
  moreover have "?own \<Longrightarrow> set (menu_enabled s re u) \<subseteq> {Reactivate}" using acts by (intro subsetI) simp
  ultimately show ?thesis unfolding Let_def
    by (intro conjI impI ballI) (simp_all add: roles asks menu acts, (use roles in blast)?)
qed

definition member :: "int \<Rightarrow> string \<Rightarrow> string option \<Rightarrow> string option \<Rightarrow> managed_user" where
  "member i e r gone = \<lparr>mu_id = i, mu_name = ''Amara Chen'', mu_email = e, mu_role = r, mu_is_verified = True,
     mu_is_active = (gone = None), mu_created_at = [], mu_updated_at = [], mu_deleted_at = gone,
     mu_last_login_at = None, mu_has_password = True, mu_brand_color = None, mu_sessions_revoked = None\<rparr>"

text \<open>A system account with a caller who may do everything to users: no role, no menu.\<close>

lemma row_actions_safe_witness:
  "let s = signed_in [''users:assign_role'', ''users:delete_any'', ''users:deactivate_any''];
       u = member 3 ''b@x'' (Some ''system'') None
   in role_requests (role_cell s u) = [] \<and> row_menu s None u = None"
  using row_actions_safe [of "signed_in [''users:assign_role'', ''users:delete_any'', ''users:deactivate_any'']"
      "member 3 ''b@x'' (Some ''system'') None" None]
  by (simp add: Let_def member_def)

text \<open>The menu of a row opens an empty list exactly when the caller holds one of its four
  permissions but none that applies to this row: on an active account of somebody else only managing
  passkeys and deactivating apply, so a caller who may only reactivate or delete gets an empty menu on
  every one of them, and so does one who may only manage passkeys on the own row.\<close>

theorem row_menu_empty_iff:
  "row_menu s re u = Some [] \<longleftrightarrow>
     mu_role u \<noteq> Some ''system''
     \<and> (\<exists>p\<in>set MENU_PERMISSIONS. can s (OneAction p))
     \<and> (you_badge (a_email s) u \<or> \<not> can s (OneAction ''users:manage_passkeys''))
     \<and> (if truthy (mu_deleted_at u)
        then \<not> can s (OneAction ''users:reactivate'') \<and> \<not> can s (OneAction ''users:delete_any'')
        else \<not> can s (OneAction ''users:deactivate_any''))"
  by (auto simp: row_menu_def menu_items_def Let_def if_can_iff can_menu_any)

lemma reactivators_menu_is_empty:
  "row_menu (signed_in [''users:reactivate'']) None (member 3 ''b@x'' (Some ''user'') None) = Some []"
  by code_simp

text \<open>A row offers the system role to whoever may assign roles, with or without the permission for it.\<close>

lemma row_offers_system_role:
  "role_requests (role_cell (signed_in [''users:assign_role'']) (member 3 ''b@x'' (Some ''user'') None)) = [''admin'', ''system'']"
  by code_simp

section \<open>Tiles and chips\<close>

lemma param_set_url: "param k (f\<lparr>f_url := url_delete j (f_url g)\<rparr>) = (if k = j then None else param k g)"
  by (simp add: param_def map_of_url_delete)

lemmas filter_setters = setSearch_def setRole_def setVerified_def setStatus_def setLastLogin_def setPolicy_def
  setPermission_def tile_rest_def

text \<open>What a click on a tile leaves of the filters.\<close>

lemma tile_rest_ui: "f_search (tile_rest snap f) = f_search f \<and> ui_role (f_ui (tile_rest snap f)) = ui_role (f_ui f)
   \<and> ui_verified (f_ui (tile_rest snap f)) = ui_verified (f_ui f) \<and> ui_status (f_ui (tile_rest snap f)) = ui_status (f_ui f)
   \<and> ui_policy (f_ui (tile_rest snap f)) = ALL_VALUE \<and> ui_permission (f_ui (tile_rest snap f)) = ALL_VALUE
   \<and> ui_lastLogin (f_ui (tile_rest snap f)) = ALL_VALUE"
  by (simp add: filter_setters Let_def)

lemma tile_rest_url: "f_url f = f_url snap \<Longrightarrow> f_url (tile_rest snap f) =
   (if param ''permission'' snap \<noteq> None then url_delete ''permission_source'' (url_delete ''permission'' (f_url snap))
    else if param ''policy'' snap \<noteq> None then url_delete ''policy'' (f_url snap) else f_url snap)"
  by (simp add: filter_setters Let_def)

lemma tile_rest_access: "f_url f = f_url snap \<Longrightarrow>
   f_permission (tile_rest snap f) = ALL_VALUE \<and>
   f_policy (tile_rest snap f) = (if param ''permission'' snap \<noteq> None then nullish (param ''policy'' snap) ALL_VALUE else ALL_VALUE)"
  using tile_rest_ui [of snap f]
  by (auto simp: f_permission_def f_policy_def param_def tile_rest_url map_of_url_delete nullish_def)

lemma activeTile_rest: "f_url f = f_url snap \<Longrightarrow> f_search f = [] \<Longrightarrow> ui_role (f_ui f) = ALL_VALUE \<Longrightarrow>
   activeTile (tile_rest snap f) =
     (if param ''permission'' snap \<noteq> None \<and> nullish (param ''policy'' snap) [] \<noteq> [] then None
      else activeTile \<lparr>f_search = [], f_debounced = [], f_ui = initial_users_ui\<lparr>ui_verified := ui_verified (f_ui f),
             ui_status := ui_status (f_ui f)\<rparr>, f_url = []\<rparr>)"
  using tile_rest_ui [of snap f] tile_rest_access [of f snap]
  by (auto simp: activeTile_def Let_def initial_users_ui_def ALL_VALUE_def f_policy_def [of "filters.make a b c d" for a b c d]
      f_policy_def [of "\<lparr>f_search = x, f_debounced = y, f_ui = z, f_url = []\<rparr>" for x y z]
      f_permission_def [of "\<lparr>f_search = x, f_debounced = y, f_ui = z, f_url = []\<rparr>" for x y z] param_def nullish_def)

text \<open>A click on a tile presses exactly that tile, whatever was filtered before, with one exception: if
  the address carries both a permission and a policy, the policy filter comes back (the second navigation
  puts back what the first removed) and no tile is pressed.\<close>

theorem tile_pressed_after_click:
  "activeTile (tile_clicked tile f f) =
     (if param ''permission'' f \<noteq> None \<and> nullish (param ''policy'' f) [] \<noteq> [] then None else Some tile)"
proof -
  have start: "f_url (setSearch [] f) = f_url f" by (simp add: setSearch_def)
  show ?thesis
    by (cases tile)
      (simp_all add: tile_clicked_def Let_def activeTile_rest setSearch_def setRole_def setVerified_def setStatus_def,
       simp_all add: activeTile_def Let_def initial_users_ui_def ALL_VALUE_def f_policy_def f_permission_def param_def nullish_def)
qed

text \<open>The chips under the filter bar are the filters that are active, for a caller who may see
  access: there is a chip exactly when something is filtered. Clearing a chip removes it and leaves the
  others, except that the chips of a permission and of its source go together; the chip of a source
  without a permission in the address cannot be cleared.\<close>

theorem users_chips_exact:
  "(users_chips True f \<noteq> [] \<longleftrightarrow> hasActiveFilters f) \<and>
   set (users_chips b (clear_chip c f f)) = set (users_chips b f) -
     (if c = UChipPermission \<or> c = UChipSource
      then (if param ''permission'' f = None then {UChipPermission} else {UChipPermission, UChipSource}) else {c})"
proof
  show "users_chips True f \<noteq> [] \<longleftrightarrow> hasActiveFilters f"
    by (auto simp: users_chips_def hasActiveFilters_def)
next
  have chip_iff: "d \<in> set (users_chips b g) \<longleftrightarrow> (case d of UChipSearch \<Rightarrow> f_search g \<noteq> []
      | UChipPermission \<Rightarrow> b \<and> f_permission g \<noteq> ALL_VALUE | UChipSource \<Rightarrow> b \<and> f_permissionSource g \<noteq> None
      | UChipRole \<Rightarrow> ui_role (f_ui g) \<noteq> ALL_VALUE | UChipVerified \<Rightarrow> ui_verified (f_ui g) \<noteq> ALL_VALUE
      | UChipStatus \<Rightarrow> ui_status (f_ui g) \<noteq> ALL_VALUE | UChipPolicy \<Rightarrow> b \<and> f_policy g \<noteq> ALL_VALUE
      | UChipLastLogin \<Rightarrow> ui_lastLogin (f_ui g) \<noteq> ALL_VALUE)" for d g
    by (cases d) (auto simp: users_chips_def)
  have "d \<in> set (users_chips b (clear_chip c f f)) \<longleftrightarrow> d \<in> set (users_chips b f) -
     (if c = UChipPermission \<or> c = UChipSource
      then (if param ''permission'' f = None then {UChipPermission} else {UChipPermission, UChipSource}) else {c})" for d
    unfolding chip_iff Diff_iff
    by (cases c; cases d) (auto simp: clear_chip_def filter_setters Let_def f_policy_def f_permission_def
        f_permissionSource_def param_def map_of_url_delete nullish_def ALL_VALUE_def split: option.splits)
  then show "set (users_chips b (clear_chip c f f)) = set (users_chips b f) -
     (if c = UChipPermission \<or> c = UChipSource
      then (if param ''permission'' f = None then {UChipPermission} else {UChipPermission, UChipSource}) else {c})" by blast
qed

end
