(* ===== verification/BulkAccess.thy ===== *)
theory BulkAccess
  imports UsersTable Mutations Grants
begin

text \<open>
  The dialog that assigns policies, grants permissions or sets a role for every selected user
  (\<open>users/bulk/BulkUserAccessDialog.tsx\<close>, its three tabs \<open>BulkPolicyTab.tsx\<close>, \<open>BulkPermissionTab.tsx\<close>,
  \<open>BulkRoleTab.tsx\<close>, and the report \<open>BulkOperationResultList.tsx\<close>). The dialog stays mounted under the
  users page: its state survives being closed. What it is given by a render (whether it is open, the
  users, the tab asked for, the caller and the queries' data) is a record of its own. \<open>JSON.parse\<close>
  is a parameter. A mutation of the query library is its data, tagged with the number of the answer that
  brought it (two answers are two objects, whatever they hold), and whether it is pending;
  resetting it abandons a pending call, whose answer no longer reaches the dialog. Group names are taken
  not to look like array indices, which an object's keys would reorder.
\<close>

section \<open>What a render is given\<close>

datatype bulk_tab = PoliciesTab | PermissionsTab | RolesTab

record bulk_env =
  be_isOpen :: bool
  be_emails :: "string list"
  be_initialTab :: bulk_tab
  be_auth :: auth_state
  be_policies :: "policy list option"
  be_catalog :: "catalog_entry list option"
  be_minePolicies :: "policy list option"
  be_minePermissions :: "grant list option"

text \<open>What \<open>UsersPage.tsx\<close> passes for the dialog a toolbar button opened.\<close>

definition initial_tab :: "bulk_dialog option \<Rightarrow> bulk_tab" where
  "initial_tab b = (if b = Some BulkPermissionDialog then PermissionsTab else if b = Some BulkRoleDialog then RolesTab else PoliciesTab)"

definition bulk_self :: "bulk_env \<Rightarrow> bool" where
  "bulk_self env \<longleftrightarrow> length (be_emails env) = 1 \<and> Some (hd (be_emails env)) = a_email (be_auth env)"

definition bulk_queries :: "bulk_env \<Rightarrow> query list" where
  "bulk_queries env =
     [usePoliciesQuery (be_isOpen env \<and> can (be_auth env) (OneAction ''policies:read'')),
      usePermissionCatalogQuery (be_isOpen env \<and> can (be_auth env)
        (AnyOf [''permissions:read'', ''policies:create'', ''policies:update'', ''permissions:grant''])),
      useMyPoliciesQuery (be_isOpen env \<and> bulk_self env), useMyPermissionsQuery (be_isOpen env \<and> bulk_self env)]"

definition bulk_grants :: "bulk_env \<Rightarrow> string list option" where
  "bulk_grants env = (if bulk_self env
     then Some (buildEffectiveGrantKeySet (nullish (be_minePolicies env) []) (nullish (be_minePermissions env) [])) else None)"

definition availablePolicies :: "bulk_env \<Rightarrow> policy list" where
  "availablePolicies env = filter (\<lambda>p. canGrantPolicy (pol_actions p) (\<lambda>a. can (be_auth env) (OneAction a)) \<and>
       (case bulk_grants env of None \<Rightarrow> True | Some g \<Rightarrow> \<not> policyAddsNothingNew p g)) (nullish (be_policies env) [])"

definition availablePermissions :: "bulk_env \<Rightarrow> catalog_entry list" where
  "availablePermissions env = filter (\<lambda>e. canGrantAction (ce_action e) (\<lambda>a. can (be_auth env) (OneAction a)) \<and>
       (case bulk_grants env of None \<Rightarrow> True | Some g \<Rightarrow> \<not> isAlreadyEffectivelyGranted g (ce_action e) (ce_resource_type e)))
     (nullish (be_catalog env) [])"

definition permissionGroups :: "bulk_env \<Rightarrow> (string, catalog_entry list) omap" where
  "permissionGroups env = group_list ce_resource_type (availablePermissions env)"

section \<open>The dialog's state\<close>

text \<open>The runs, which are the values of \<open>lastAction\<close> and the five mutations, and the calls they make.\<close>

datatype bulk_run = AssignPolicy | RemovePolicy | GrantPermission | RevokePermission | SetRole

datatype bulk_call = AssignCall "string list" "string list" | RemoveCall "string list" "string list"
  | GrantCall "string list" "(string \<times> string option) list" json | RevokeCall "string list" "(string \<times> string option) list"
  | RoleCall "string list" string

record mut_state =
  mt_data :: "(nat \<times> bulk_response) option"
  mt_pending :: bool

definition idle_mut :: mut_state where
  "idle_mut = \<lparr>mt_data = None, mt_pending = False\<rparr>"

record bulk_ui =
  bd_tab :: bulk_tab
  bd_usersOpen :: bool
  bd_resultOpen :: bool
  bd_userSearch :: string
  bd_userPage :: nat
  bd_policies :: "string list"
  bd_policySearch :: string
  bd_permissions :: "string list"
  bd_expanded :: "string list"
  bd_conditions :: string
  bd_role :: string
  bd_error :: "string option"
  bd_lastAction :: "bulk_run option"
  bd_muts :: "bulk_run \<Rightarrow> mut_state"
  bd_catalogInit :: bool
  bd_prevOpen :: "(bool \<times> bulk_tab) option"
  bd_prevResult :: "nat option"
  bd_answers :: nat
  bd_calls :: "bulk_call list"
  bd_toasts :: "string list"

definition initial_bulk :: bulk_ui where
  "initial_bulk = \<lparr>bd_tab = PoliciesTab, bd_usersOpen = False, bd_resultOpen = False, bd_userSearch = [], bd_userPage = 1,
     bd_policies = [], bd_policySearch = [], bd_permissions = [], bd_expanded = [], bd_conditions = [], bd_role = [],
     bd_error = None, bd_lastAction = None, bd_muts = (\<lambda>r. idle_mut), bd_catalogInit = False, bd_prevOpen = None,
     bd_prevResult = None, bd_answers = 0, bd_calls = [], bd_toasts = []\<rparr>"

text \<open>The result on show: of the last action, and of the role update when there is none.\<close>

definition bulk_result :: "bulk_ui \<Rightarrow> (nat \<times> bulk_response) option" where
  "bulk_result st = mt_data (bd_muts st (nullish (bd_lastAction st) SetRole))"

section \<open>Permission keys\<close>

definition permission_key :: "catalog_entry \<Rightarrow> string" where
  "permission_key e = ce_action e @ ''::'' @ ce_resource_type e"

text \<open>\<open>split("::")\<close>.\<close>

fun split_colons :: "string \<Rightarrow> string list" where
  "split_colons [] = [[]]"
| "split_colons [c] = [[c]]"
| "split_colons (c # d # s) =
     (if c = CHR '':'' \<and> d = CHR '':'' then [] # split_colons s
      else (case split_colons (d # s) of [] \<Rightarrow> [[c]] | w # ws \<Rightarrow> (c # w) # ws))"

text \<open>\<open>const [action, resourceType] = key.split("::")\<close>.\<close>

definition key_parts :: "string \<Rightarrow> string \<times> string option" where
  "key_parts k = (case split_colons k of
       a # r # ws \<Rightarrow> (a, Some r) | a # _ \<Rightarrow> (a, None) | [] \<Rightarrow> ([], None))"

section \<open>Effects\<close>

text \<open>One pass of the four effects after a render; what they read is the state that was rendered.\<close>

definition bulk_effects :: "bulk_env \<Rightarrow> bulk_ui \<Rightarrow> bulk_ui" where
  "bulk_effects env st =
     (let here = (be_isOpen env, be_initialTab env);
          moved = (bd_prevOpen st \<noteq> Some here);
          toggled = (map_option fst (bd_prevOpen st) \<noteq> Some (be_isOpen env));
          groups = permissionGroups env;
          result = bulk_result st;
          st1 = (if moved \<and> be_isOpen env then st\<lparr>bd_tab := be_initialTab env\<rparr> else st);
          st2 = (if \<not> bd_catalogInit st1 \<and> groups \<noteq> []
                 then st1\<lparr>bd_catalogInit := True, bd_expanded := om_keys groups\<rparr> else st1);
          st3 = (if toggled \<and> \<not> be_isOpen env
                 then st2\<lparr>bd_resultOpen := False, bd_lastAction := None, bd_muts := (\<lambda>r. idle_mut)\<rparr> else st2);
          st4 = (if map_option fst result \<noteq> bd_prevResult st \<and> result \<noteq> None then st3\<lparr>bd_resultOpen := True\<rparr> else st3)
      in st4\<lparr>bd_prevOpen := Some here, bd_prevResult := map_option fst result\<rparr>)"

text \<open>The effects change the state, which renders again.\<close>

definition bulk_render :: "bulk_env \<Rightarrow> bulk_ui \<Rightarrow> bulk_ui" where
  "bulk_render env st = bulk_effects env (bulk_effects env st)"

section \<open>Handlers\<close>

definition activateTab :: "bulk_tab \<Rightarrow> bulk_ui \<Rightarrow> bulk_ui" where
  "activateTab next st = st\<lparr>bd_tab := next, bd_error := None, bd_lastAction := None\<rparr>"

definition BULK_TABS :: "bulk_tab list" where
  "BULK_TABS = [PoliciesTab, PermissionsTab, RolesTab]"

definition tab_key :: "bulk_tab \<Rightarrow> string \<Rightarrow> bulk_ui \<Rightarrow> bulk_ui" where
  "tab_key item key st =
     (let current = length (takeWhile (\<lambda>x. x \<noteq> item) BULK_TABS);
          next = (if key = ''ArrowRight'' \<or> key = ''ArrowDown'' then (current + 1) mod 3
             else if key = ''ArrowLeft'' \<or> key = ''ArrowUp'' then (current + 2) mod 3
             else if key = ''Home'' then 0 else if key = ''End'' then 2 else current)
      in if next \<noteq> current then activateTab (BULK_TABS ! next) st else st)"

text \<open>A switch of the lists: the choice in the order it was made.\<close>

definition with_choice :: "string \<Rightarrow> bool \<Rightarrow> string list \<Rightarrow> string list" where
  "with_choice x checked current = (if checked then current @ [x] else filter (\<lambda>v. v \<noteq> x) current)"

text \<open>What \<open>parseConditions\<close> returns: undefined, the parsed value, or false after an error. A parsed
  false is the same value as the failure.\<close>

definition parseConditions :: "(string \<Rightarrow> json option) \<Rightarrow> string \<Rightarrow> bulk_ui \<Rightarrow> json \<times> bulk_ui" where
  "parseConditions parse invalid st =
     (if trim (bd_conditions st) = [] then (JUndef, st)
      else case parse (bd_conditions st) of Some v \<Rightarrow> (v, st) | None \<Rightarrow> (JBool False, st\<lparr>bd_error := Some invalid\<rparr>))"

definition mutate :: "bulk_run \<Rightarrow> bulk_call \<Rightarrow> bulk_ui \<Rightarrow> bulk_ui" where
  "mutate r call st = st\<lparr>bd_lastAction := Some r, bd_muts := (bd_muts st)(r := \<lparr>mt_data = None, mt_pending = True\<rparr>),
     bd_calls := bd_calls st @ [call]\<rparr>"

definition runPolicy :: "bulk_env \<Rightarrow> bool \<Rightarrow> bulk_ui \<Rightarrow> bulk_ui" where
  "runPolicy env remove st =
     (if bd_policies st = [] then st
      else if remove then mutate RemovePolicy (RemoveCall (be_emails env) (bd_policies st)) st
      else mutate AssignPolicy (AssignCall (be_emails env) (bd_policies st)) st)"

definition runPermission :: "(string \<Rightarrow> json option) \<Rightarrow> string \<Rightarrow> bulk_env \<Rightarrow> bool \<Rightarrow> bulk_ui \<Rightarrow> bulk_ui" where
  "runPermission parse invalid env remove st =
     (if bd_permissions st = [] then st
      else let (parsed, st1) = (if remove then (JUndef, st) else parseConditions parse invalid st);
               actions = map key_parts (bd_permissions st)
           in if parsed = JBool False then st1
              else if remove then mutate RevokePermission (RevokeCall (be_emails env) actions) st1
              else mutate GrantPermission (GrantCall (be_emails env) actions parsed) st1)"

definition runRole :: "bulk_env \<Rightarrow> bulk_ui \<Rightarrow> bulk_ui" where
  "runRole env st = (if bd_role st = [] then st else mutate SetRole (RoleCall (be_emails env) (bd_role st)) st)"

definition bulk_answered :: "bulk_run \<Rightarrow> string + bulk_response \<Rightarrow> bulk_ui \<Rightarrow> bulk_ui" where
  "bulk_answered r answer st =
     (if \<not> mt_pending (bd_muts st r) then st
      else case answer of
        Inr d \<Rightarrow> st\<lparr>bd_muts := (bd_muts st)(r := \<lparr>mt_data = Some (bd_answers st, d), mt_pending = False\<rparr>),
                     bd_answers := bd_answers st + 1\<rparr>
      | Inl msg \<Rightarrow> st\<lparr>bd_muts := (bd_muts st)(r := idle_mut), bd_toasts := bd_toasts st @ [msg]\<rparr>)"

section \<open>The tabs\<close>

definition shownPolicies :: "bulk_env \<Rightarrow> bulk_ui \<Rightarrow> policy list" where
  "shownPolicies env st = (let query = to_lower (trim (bd_policySearch st)) in
     filter (\<lambda>p. query = [] \<or> contains (to_lower (pol_name p)) query
        \<or> (case pol_description p of None \<Rightarrow> False | Some d \<Rightarrow> contains (to_lower d) query)) (availablePolicies env))"

definition policyGroups :: "(string \<Rightarrow> string \<Rightarrow> int) \<Rightarrow> bulk_env \<Rightarrow> bulk_ui \<Rightarrow> (string \<times> policy list) list" where
  "policyGroups lc env st = groupPoliciesByResourceType lc (shownPolicies env st)"

definition allExpanded :: "bulk_env \<Rightarrow> bulk_ui \<Rightarrow> bool" where
  "allExpanded env st \<longleftrightarrow> om_keys (permissionGroups env) \<noteq> []
     \<and> list_all (\<lambda>g. g \<in> set (bd_expanded st)) (om_keys (permissionGroups env))"

definition toggleGroup :: "string \<Rightarrow> bulk_ui \<Rightarrow> bulk_ui" where
  "toggleGroup g st = st\<lparr>bd_expanded := (if g \<in> set (bd_expanded st) then filter (\<lambda>v. v \<noteq> g) (bd_expanded st)
     else bd_expanded st @ [g])\<rparr>"

definition permission_label :: "catalog_entry \<Rightarrow> string" where
  "permission_label e = (if ce_description e = [] then formatPolicyActionLabel (ce_action e) else ce_description e)"

definition visibleOptions :: "bulk_env \<Rightarrow> string list" where
  "visibleOptions env = filter (\<lambda>r. r \<noteq> ''system'' \<or> can (be_auth env) (OneAction ''users:assign_system_role'')) ROLE_OPTIONS"

section \<open>Steps\<close>

text \<open>
  What can happen in one render: a control that is on screen and enabled is used, or an answer arrives. The
  lists offer the policies and permissions of the render; a button works while something is chosen and
  its own mutation is not pending, and the two that take away need their permission.
\<close>

datatype bulk_op = Activate bulk_tab | TogglePolicy policy | TogglePermission catalog_entry | ChooseRole string
  | TypeConditions string | TypePolicySearch string | PressPolicy bool | PressPermission bool | PressRole
  | CloseResult | ToggleGroup string | ExpandAll | CollapseAll | Answered bulk_run "string + bulk_response" | JustRender

definition button_works :: "bulk_ui \<Rightarrow> bulk_run \<Rightarrow> bool \<Rightarrow> bool" where
  "button_works st r chosen \<longleftrightarrow> chosen \<and> \<not> mt_pending (bd_muts st r)"

fun bulk_step :: "(string \<Rightarrow> json option) \<Rightarrow> string \<Rightarrow> bulk_env \<Rightarrow> bulk_op \<Rightarrow> bulk_ui \<Rightarrow> bulk_ui" where
  "bulk_step parse invalid env (Activate tb) st = activateTab tb st"
| "bulk_step parse invalid env (TogglePolicy p) st =
     (if p \<in> set (shownPolicies env st)
      then st\<lparr>bd_policies := with_choice (pol_name p) (pol_name p \<notin> set (bd_policies st)) (bd_policies st)\<rparr> else st)"
| "bulk_step parse invalid env (TogglePermission e) st =
     (if e \<in> set (availablePermissions env)
      then st\<lparr>bd_permissions := with_choice (permission_key e) (permission_key e \<notin> set (bd_permissions st)) (bd_permissions st)\<rparr>
      else st)"
| "bulk_step parse invalid env (ChooseRole r) st =
     (if r \<in> set (visibleOptions env) then st\<lparr>bd_role := (if bd_role st = r then [] else r)\<rparr> else st)"
| "bulk_step parse invalid env (TypeConditions v) st = st\<lparr>bd_conditions := v\<rparr>"
| "bulk_step parse invalid env (TypePolicySearch v) st = st\<lparr>bd_policySearch := v\<rparr>"
| "bulk_step parse invalid env (PressPolicy remove) st =
     (if button_works st (if remove then RemovePolicy else AssignPolicy) (bd_policies st \<noteq> [])
         \<and> (remove \<longrightarrow> if_can (be_auth env) (OneAction ''policies:revoke''))
      then runPolicy env remove st else st)"
| "bulk_step parse invalid env (PressPermission remove) st =
     (if button_works st (if remove then RevokePermission else GrantPermission) (bd_permissions st \<noteq> [])
         \<and> (remove \<longrightarrow> if_can (be_auth env) (OneAction ''permissions:revoke''))
      then runPermission parse invalid env remove st else st)"
| "bulk_step parse invalid env PressRole st = (if button_works st SetRole (bd_role st \<noteq> []) then runRole env st else st)"
| "bulk_step parse invalid env CloseResult st = st\<lparr>bd_resultOpen := False\<rparr>"
| "bulk_step parse invalid env (ToggleGroup g) st = toggleGroup g st"
| "bulk_step parse invalid env ExpandAll st = (if allExpanded env st then st
     else st\<lparr>bd_expanded := om_keys (permissionGroups env)\<rparr>)"
| "bulk_step parse invalid env CollapseAll st = (if bd_expanded st = [] then st else st\<lparr>bd_expanded := []\<rparr>)"
| "bulk_step parse invalid env (Answered r a) st = bulk_answered r a st"
| "bulk_step parse invalid env JustRender st = st"

text \<open>Only an open dialog has controls; an answer can arrive and the page can render at any time.\<close>

definition bulk_can_happen :: "bulk_env \<Rightarrow> bulk_op \<Rightarrow> bool" where
  "bulk_can_happen env op \<longleftrightarrow> be_isOpen env \<or> (case op of Answered r a \<Rightarrow> True | JustRender \<Rightarrow> True | _ \<Rightarrow> False)"

definition bulk_next :: "(string \<Rightarrow> json option) \<Rightarrow> string \<Rightarrow> bulk_ui \<Rightarrow> bulk_env \<times> bulk_op \<Rightarrow> bulk_ui" where
  "bulk_next parse invalid st x = (let st0 = bulk_render (fst x) st in
     if bulk_can_happen (fst x) (snd x) then bulk_render (fst x) (bulk_step parse invalid (fst x) (snd x) st0) else st0)"

definition run_bulk :: "(string \<Rightarrow> json option) \<Rightarrow> string \<Rightarrow> (bulk_env \<times> bulk_op) list \<Rightarrow> bulk_ui" where
  "run_bulk parse invalid xs = foldl (bulk_next parse invalid) initial_bulk xs"

section \<open>The selected users\<close>

definition filteredSelectedUsers :: "bulk_env \<Rightarrow> bulk_ui \<Rightarrow> string list" where
  "filteredSelectedUsers env st = filter (\<lambda>e. contains (to_lower e) (to_lower (trim (bd_userSearch st)))) (be_emails env)"

definition selectedUserPages :: "bulk_env \<Rightarrow> bulk_ui \<Rightarrow> nat" where
  "selectedUserPages env st = max 1 (ceil_div (length (filteredSelectedUsers env st)) 50)"

definition visibleSelectedUsers :: "bulk_env \<Rightarrow> bulk_ui \<Rightarrow> string list" where
  "visibleSelectedUsers env st = slice ((bd_userPage st - 1) * 50) (bd_userPage st * 50) (filteredSelectedUsers env st)"

definition typeUserSearch :: "string \<Rightarrow> bulk_ui \<Rightarrow> bulk_ui" where
  "typeUserSearch v st = st\<lparr>bd_userSearch := v, bd_userPage := 1\<rparr>"

text \<open>The two buttons, which are there while there is more than one page.\<close>

definition turnUserPage :: "bulk_env \<Rightarrow> bool \<Rightarrow> bulk_ui \<Rightarrow> bulk_ui" where
  "turnUserPage env forward st =
     (if selectedUserPages env st \<le> 1 then st
      else if forward then (if bd_userPage st \<ge> selectedUserPages env st then st else st\<lparr>bd_userPage := bd_userPage st + 1\<rparr>)
      else (if bd_userPage st \<le> 1 then st else st\<lparr>bd_userPage := bd_userPage st - 1\<rparr>))"

section \<open>The report\<close>

datatype status_filter = AllStatuses | OnlyStatus bulk_status

definition result_listed :: "string \<Rightarrow> status_filter \<Rightarrow> bulk_item \<Rightarrow> bool" where
  "result_listed query flt r = (let normalized = to_lower (trim query) in
     (flt = AllStatuses \<or> flt = OnlyStatus (bi_status r))
     \<and> (normalized = [] \<or> contains (to_lower (bi_user_email r @ '' '' @ bi_identifier r @ '' '' @ nullish (bi_error r) [])) normalized))"

definition filteredResults :: "string \<Rightarrow> status_filter \<Rightarrow> bulk_item list \<Rightarrow> bulk_item list" where
  "filteredResults query flt results = filter (result_listed query flt) results"

definition RESULT_GROUPS :: "bulk_status list" where
  "RESULT_GROUPS = [BulkSuccess, BulkAlreadyHeld, BulkError]"

definition visibleGroups :: "string \<Rightarrow> status_filter \<Rightarrow> bulk_item list \<Rightarrow> (bulk_status \<times> bulk_item list) list" where
  "visibleGroups query flt results = filter (\<lambda>g. snd g \<noteq> [])
     (map (\<lambda>s. (s, filter (\<lambda>r. bi_status r = s) (filteredResults query flt results))) RESULT_GROUPS)"

definition result_counts :: "bulk_item list \<Rightarrow> (status_filter \<times> nat) list" where
  "result_counts results = (AllStatuses, length results) #
     map (\<lambda>s. (OnlyStatus s, length (filter (\<lambda>r. bi_status r = s) results))) RESULT_GROUPS"

text \<open>The line above the report: what the last action was, with what is chosen now.\<close>

definition resultOperationLabel :: "bulk_ui \<Rightarrow> bulk_run \<times> string" where
  "resultOperationLabel st = (case bd_lastAction st of
       Some AssignPolicy \<Rightarrow> (AssignPolicy, join '', '' (bd_policies st))
     | Some RemovePolicy \<Rightarrow> (RemovePolicy, join '', '' (bd_policies st))
     | Some GrantPermission \<Rightarrow> (GrantPermission, join '', '' (map (\<lambda>k. hd (split_colons k)) (bd_permissions st)))
     | Some RevokePermission \<Rightarrow> (RevokePermission, join '', '' (map (\<lambda>k. hd (split_colons k)) (bd_permissions st)))
     | _ \<Rightarrow> (SetRole, bd_role st))"

section \<open>Keys\<close>

text \<open>A pair of colons inside the action, or from its end into the separator, would be split on.\<close>

definition clean_entry :: "catalog_entry \<Rightarrow> bool" where
  "clean_entry e \<longleftrightarrow> \<not> contains (ce_action e @ '':'') ''::'' \<and> \<not> contains (ce_resource_type e) ''::''"

lemma split_colons_none: "\<not> contains s ''::'' \<Longrightarrow> split_colons s = [s]"
  by (induction s rule: split_colons.induct) (auto simp: starts_with_def)

lemma split_colons_sep: "\<not> contains (a @ '':'') ''::'' \<Longrightarrow>
    split_colons (a @ CHR '':'' # CHR '':'' # s) = a # split_colons s"
proof (induction a)
  case (Cons c a)
  then have "split_colons (a @ CHR '':'' # CHR '':'' # s) = a # split_colons s" by (simp split: if_splits)
  then show ?case using Cons.prems by (cases a) (auto simp: starts_with_def)
qed simp

lemma key_parts_key: "clean_entry e \<Longrightarrow> key_parts (permission_key e) = (ce_action e, Some (ce_resource_type e))"
  by (simp add: clean_entry_def key_parts_def permission_key_def split_colons_sep split_colons_none)

lemma listed_actions_clean: "list_all (\<lambda>p. \<not> contains (snd p @ '':'') ''::'') PERMISSIONS"
  by code_simp

section \<open>The effects\<close>

lemma effects_keep [simp]:
  "bd_policies (bulk_effects env st) = bd_policies st" "bd_permissions (bulk_effects env st) = bd_permissions st"
  "bd_role (bulk_effects env st) = bd_role st" "bd_conditions (bulk_effects env st) = bd_conditions st"
  "bd_calls (bulk_effects env st) = bd_calls st" "bd_error (bulk_effects env st) = bd_error st"
  "bd_userPage (bulk_effects env st) = bd_userPage st" "bd_userSearch (bulk_effects env st) = bd_userSearch st"
  "bd_answers (bulk_effects env st) = bd_answers st" "bd_policySearch (bulk_effects env st) = bd_policySearch st"
  by (simp_all add: bulk_effects_def Let_def)

lemma render_keep [simp]:
  "bd_policies (bulk_render env st) = bd_policies st" "bd_permissions (bulk_render env st) = bd_permissions st"
  "bd_role (bulk_render env st) = bd_role st" "bd_conditions (bulk_render env st) = bd_conditions st"
  "bd_calls (bulk_render env st) = bd_calls st" "bd_error (bulk_render env st) = bd_error st"
  "bd_userPage (bulk_render env st) = bd_userPage st" "bd_userSearch (bulk_render env st) = bd_userSearch st"
  "bd_answers (bulk_render env st) = bd_answers st" "bd_policySearch (bulk_render env st) = bd_policySearch st"
  by (simp_all add: bulk_render_def)

text \<open>After one pass the first three effects have nothing left to do; after two the fourth has not either.\<close>

lemma effects_here: "bd_prevOpen (bulk_effects env st) = Some (be_isOpen env, be_initialTab env)"
  "bd_prevResult (bulk_effects env st) = map_option fst (bulk_result st)"
  by (simp_all add: bulk_effects_def Let_def)

lemma effects_seen:
  assumes "bd_prevOpen st = Some (be_isOpen env, be_initialTab env)" "bd_catalogInit st \<or> permissionGroups env = []"
  shows "bulk_effects env st =
    (if map_option fst (bulk_result st) \<noteq> bd_prevResult st \<and> bulk_result st \<noteq> None then st\<lparr>bd_resultOpen := True\<rparr> else st)
      \<lparr>bd_prevOpen := Some (be_isOpen env, be_initialTab env), bd_prevResult := map_option fst (bulk_result st)\<rparr>"
  using assms by (auto simp: bulk_effects_def Let_def)

lemma effects_init: "bd_catalogInit (bulk_effects env st) \<or> permissionGroups env = []"
  by (simp add: bulk_effects_def Let_def)

lemma effects_result_seen:
  assumes "bd_prevOpen st = Some (be_isOpen env, be_initialTab env)" "bd_catalogInit st \<or> permissionGroups env = []"
  shows "bulk_result (bulk_effects env st) = bulk_result st"
  by (simp add: effects_seen [OF assms] bulk_result_def)

lemma effects_settle: "bulk_effects env (bulk_render env st) = bulk_render env st"
proof -
  let ?s1 = "bulk_effects env st" and ?s2 = "bulk_render env st"
  note seen1 = effects_seen [OF effects_here(1) effects_init, of env st]
  have r: "bulk_result ?s2 = bulk_result ?s1"
    unfolding bulk_render_def by (rule effects_result_seen [OF effects_here(1) effects_init])
  have p: "bd_prevOpen ?s2 = Some (be_isOpen env, be_initialTab env)" "bd_catalogInit ?s2 \<or> permissionGroups env = []"
      "bd_prevResult ?s2 = map_option fst (bulk_result ?s1)"
    by (simp_all add: bulk_render_def effects_here effects_init)
  show ?thesis unfolding effects_seen [OF p(1,2)] using p r by (cases ?s2) simp
qed

section \<open>What is chosen, and what is asked for\<close>

definition offered_keys :: "bulk_env set \<Rightarrow> string set" where
  "offered_keys E = {permission_key e |e env. env \<in> E \<and> e \<in> set (availablePermissions env)}"

definition call_pairs :: "bulk_call \<Rightarrow> (string \<times> string option) list" where
  "call_pairs c = (case c of GrantCall es ps j \<Rightarrow> ps | RevokeCall es ps \<Rightarrow> ps | _ \<Rightarrow> [])"

definition call_emails :: "bulk_call \<Rightarrow> string list" where
  "call_emails c = (case c of GrantCall es ps j \<Rightarrow> es | RevokeCall es ps \<Rightarrow> es | AssignCall es ns \<Rightarrow> es
     | RemoveCall es ns \<Rightarrow> es | RoleCall es r \<Rightarrow> es)"

definition bulk_inv :: "bulk_env set \<Rightarrow> bulk_ui \<Rightarrow> bool" where
  "bulk_inv E st \<longleftrightarrow> distinct (bd_permissions st) \<and> set (bd_permissions st) \<subseteq> offered_keys E
     \<and> (\<forall>c\<in>set (bd_calls st). set (call_pairs c) \<subseteq> key_parts ` offered_keys E
          \<and> (\<exists>env\<in>E. be_isOpen env \<and> call_emails c = be_emails env))"

lemma bulk_inv_cong: "bd_permissions st' = bd_permissions st \<Longrightarrow> bd_calls st' = bd_calls st \<Longrightarrow> bulk_inv E st' = bulk_inv E st"
  by (simp add: bulk_inv_def)

lemma bulk_inv_render [simp]: "bulk_inv E (bulk_render env st) = bulk_inv E st"
  by (rule bulk_inv_cong) simp_all

lemma with_choice_distinct: "distinct xs \<Longrightarrow> distinct (with_choice x (x \<notin> set xs) xs)"
  by (auto simp: with_choice_def)

lemma with_choice_set: "set (with_choice x c xs) \<subseteq> insert x (set xs)"
  by (auto simp: with_choice_def)

lemma mutate_keeps [simp]: "bd_permissions (mutate r c st) = bd_permissions st" "bd_calls (mutate r c st) = bd_calls st @ [c]"
  by (simp_all add: mutate_def)

lemma bulk_inv_mutate: "bulk_inv E st \<Longrightarrow> env \<in> E \<Longrightarrow> be_isOpen env \<Longrightarrow> call_emails c = be_emails env \<Longrightarrow>
    set (call_pairs c) \<subseteq> key_parts ` set (bd_permissions st) \<Longrightarrow> bulk_inv E (mutate r c st)"
  unfolding bulk_inv_def by (auto 0 3)

lemma parse_keeps: "parseConditions parse invalid st = (v, st') \<Longrightarrow> bd_permissions st' = bd_permissions st \<and> bd_calls st' = bd_calls st"
  by (auto simp: parseConditions_def split: if_splits option.splits)

lemma bulk_step_inv:
  assumes inv: "bulk_inv E st" and env: "env \<in> E" and can: "bulk_can_happen env op"
  shows "bulk_inv E (bulk_step parse invalid env op st)"
proof (cases op)
  case (TogglePermission e)
  then show ?thesis using inv env with_choice_distinct [of "bd_permissions st" "permission_key e"]
      with_choice_set [of "permission_key e" "permission_key e \<notin> set (bd_permissions st)" "bd_permissions st"]
    by (auto simp: bulk_inv_def offered_keys_def subset_iff)
next
  case (PressPermission remove)
  have open_env: "be_isOpen env" using can PressPermission by (simp add: bulk_can_happen_def)
  have "bulk_inv E (runPermission parse invalid env remove st)"
  proof (cases "parseConditions parse invalid st")
    case (Pair v st')
    then have st': "bulk_inv E st'" "bd_permissions st' = bd_permissions st"
      using inv parse_keeps [OF Pair] bulk_inv_cong [of st' st E] by simp_all
    show ?thesis using inv st' Pair
      by (auto simp: runPermission_def Let_def intro!: bulk_inv_mutate [OF _ env open_env] simp: call_emails_def call_pairs_def)
  qed
  with PressPermission inv show ?thesis by simp
next
  case (PressPolicy remove)
  then have "be_isOpen env" using can by (simp add: bulk_can_happen_def)
  with PressPolicy inv env show ?thesis
    by (auto simp: runPolicy_def intro!: bulk_inv_mutate simp: call_emails_def call_pairs_def)
next
  case PressRole
  then have "be_isOpen env" using can by (simp add: bulk_can_happen_def)
  with PressRole inv env show ?thesis
    by (auto simp: runRole_def intro!: bulk_inv_mutate simp: call_emails_def call_pairs_def)
next
  case (Answered r a)
  then show ?thesis using inv by (auto simp: bulk_answered_def bulk_inv_def split: sum.splits)
qed (use inv in \<open>auto simp: bulk_inv_def activateTab_def toggleGroup_def\<close>)

lemma bulk_run_inv: "fst ` set xs \<subseteq> E \<Longrightarrow> bulk_inv E (run_bulk parse invalid xs)"
proof (induction xs rule: rev_induct)
  case Nil
  then show ?case by (simp add: run_bulk_def bulk_inv_def initial_bulk_def)
next
  case (snoc x xs)
  then show ?case by (auto simp: run_bulk_def bulk_next_def Let_def intro!: bulk_step_inv)
qed

text \<open>C14: Every bulk grant or revocation asks only for what it may. Whatever is clicked, typed, answered
  and rendered, in whatever order, a call that leaves the dialog is for exactly the users of an open
  render, and each pair of action and resource type in it is an entry of the
  catalog that some render offered: an action the caller then held. (The keys the choice is kept in are
  read back as the entries they were made from, as no action or resource type holds two colons.)\<close>

theorem bulk_grants_only_offered:
  assumes "c \<in> set (bd_calls (run_bulk parse invalid xs))"
    and "\<And>env op e. (env, op) \<in> set xs \<Longrightarrow> e \<in> set (nullish (be_catalog env) []) \<Longrightarrow> clean_entry e"
  shows "(\<exists>(env, op)\<in>set xs. be_isOpen env \<and> call_emails c = be_emails env) \<and>
    (\<forall>(a, ty)\<in>set (call_pairs c). \<exists>(env, op)\<in>set xs. \<exists>e\<in>set (nullish (be_catalog env) []).
       ce_action e = a \<and> Some (ce_resource_type e) = ty \<and> can (be_auth env) (OneAction a))"
proof -
  let ?E = "fst ` set xs"
  have inv: "set (call_pairs c) \<subseteq> key_parts ` offered_keys ?E" "\<exists>env\<in>?E. be_isOpen env \<and> call_emails c = be_emails env"
    using bulk_run_inv [of xs ?E parse invalid] assms(1) by (auto simp: bulk_inv_def)
  have "\<exists>(env, op)\<in>set xs. \<exists>e\<in>set (nullish (be_catalog env) []).
       ce_action e = a \<and> Some (ce_resource_type e) = ty \<and> can (be_auth env) (OneAction a)"
    if "(a, ty) \<in> set (call_pairs c)" for a ty
  proof -
    from inv(1) that obtain e env op where e: "(env, op) \<in> set xs" "e \<in> set (availablePermissions env)"
        "(a, ty) = key_parts (permission_key e)" unfolding offered_keys_def by force
    then have "e \<in> set (nullish (be_catalog env) [])" "can (be_auth env) (OneAction (ce_action e))"
      by (auto simp: availablePermissions_def canGrantAction_def)
    with e assms(2) show ?thesis by (auto simp: key_parts_key)
  qed
  with inv(2) show ?thesis by fastforce
qed

definition bulk_sample :: "bool \<Rightarrow> string list \<Rightarrow> bulk_env" where
  "bulk_sample isOpen emails = \<lparr>be_isOpen = isOpen, be_emails = emails, be_initialTab = PermissionsTab,
     be_auth = signed_in [''policies:read'', ''permissions:grant''], be_policies = None,
     be_catalog = Some [\<lparr>ce_action = ''policies:read'', ce_resource_type = ''policies'', ce_description = []\<rparr>],
     be_minePolicies = None, be_minePermissions = None\<rparr>"

definition sample_entry :: catalog_entry where
  "sample_entry = \<lparr>ce_action = ''policies:read'', ce_resource_type = ''policies'', ce_description = []\<rparr>"

definition sample_grant :: "(bulk_env \<times> bulk_op) list" where
  "sample_grant = [(bulk_sample True [''a@x'', ''b@x''], TogglePermission sample_entry),
     (bulk_sample True [''a@x'', ''b@x''], PressPermission False)]"

lemma sample_grant_calls: "bd_calls (run_bulk (\<lambda>s. None) [] sample_grant) =
   [GrantCall [''a@x'', ''b@x''] [(''policies:read'', Some ''policies'')] JUndef]"
  by code_simp

lemma bulk_grants_only_offered_witness:
  "let c = GrantCall [''a@x'', ''b@x''] [(''policies:read'', Some ''policies'')] JUndef in
   c \<in> set (bd_calls (run_bulk (\<lambda>s. None) [] sample_grant)) \<and>
   (\<exists>(env, op)\<in>set sample_grant. be_isOpen env \<and> call_emails c = be_emails env)"
proof -
  let ?c = "GrantCall [''a@x'', ''b@x''] [(''policies:read'', Some ''policies'')] JUndef"
  have sent: "?c \<in> set (bd_calls (run_bulk (\<lambda>s. None) [] sample_grant))" by (simp add: sample_grant_calls)
  have clean: "clean_entry sample_entry" by code_simp
  have cl: "clean_entry e" if "(env, op) \<in> set sample_grant" "e \<in> set (nullish (be_catalog env) [])" for env op e
    using that clean by (auto simp: sample_grant_def bulk_sample_def nullish_def sample_entry_def)
  have "\<exists>(env, op)\<in>set sample_grant. be_isOpen env \<and> call_emails ?c = be_emails env"
    by (rule conjunct1 [OF bulk_grants_only_offered [OF sent]]) (rule cl)
  with sent show ?thesis unfolding Let_def by (rule conjI)
qed

section \<open>What stays behind\<close>

text \<open>What is chosen outlives the dialog. Closing it and opening it again for other users keeps the
  policies, the permissions, the conditions and the role that were chosen for the users before: the
  role button works at once and sets that role for the new users, and the same holds for the others.\<close>

theorem bulk_choice_survives_reopening:
  assumes "be_isOpen env" "\<not> be_isOpen env'"
  shows "let st' = bulk_render env (bulk_render env' st) in
    bd_policies st' = bd_policies st \<and> bd_permissions st' = bd_permissions st \<and>
    bd_conditions st' = bd_conditions st \<and> bd_role st' = bd_role st \<and>
    bd_calls (runRole env st') = bd_calls st @ (if bd_role st = [] then [] else [RoleCall (be_emails env) (bd_role st)]) \<and>
    bd_calls (runPolicy env False st') =
      bd_calls st @ (if bd_policies st = [] then [] else [AssignCall (be_emails env) (bd_policies st)])"
  using assms by (simp add: Let_def runRole_def runPolicy_def mutate_def)

lemma bulk_choice_survives_reopening_witness:
  "bd_role (bulk_render (bulk_sample True [''c@x'']) (bulk_render (bulk_sample False []) (initial_bulk\<lparr>bd_role := ''admin''\<rparr>))) = ''admin''"
  using bulk_choice_survives_reopening [of "bulk_sample True [''c@x'']" "bulk_sample False []" "initial_bulk\<lparr>bd_role := ''admin''\<rparr>"]
  by (simp add: bulk_sample_def Let_def)

text \<open>An old report comes back. Once the roles were set and another action ran after that, changing the
  tab opens the report of the role update again: the tab forgets the last action, and the result on show
  falls back to the role update's, which the effect takes for a new one.\<close>

theorem old_role_report_reopens:
  assumes "bd_prevOpen st = Some (True, be_initialTab env)" "be_isOpen env"
    and "bd_catalogInit st \<or> permissionGroups env = []"
    and "mt_data (bd_muts st SetRole) = Some (i, d)" "bd_prevResult st \<noteq> Some i"
  shows "let st' = bulk_render env (activateTab tb st) in
    bd_resultOpen st' \<and> bulk_result st' = Some (i, d) \<and> resultOperationLabel st' = (SetRole, bd_role st) \<and> bd_tab st' = tb"
proof -
  let ?s = "activateTab tb st"
  have r: "bulk_result ?s = Some (i, d)" using assms(4) by (simp add: bulk_result_def activateTab_def nullish_def)
  have "bulk_effects env ?s = ?s\<lparr>bd_resultOpen := True, bd_prevOpen := Some (True, be_initialTab env), bd_prevResult := Some i\<rparr>"
    using effects_seen [of ?s env] assms r by (simp add: activateTab_def)
  moreover have "bulk_effects env \<dots> = \<dots>"
    using assms by (simp add: effects_seen activateTab_def bulk_result_def nullish_def)
  ultimately show ?thesis using assms(4)
    by (simp add: bulk_render_def Let_def activateTab_def bulk_result_def nullish_def resultOperationLabel_def)
qed

definition two_runs :: "(bulk_env \<times> bulk_op) list" where
  "two_runs = (let env = bulk_sample True [''a@x''] in
     [(env, ChooseRole ''admin''), (env, PressRole), (env, Answered SetRole (Inr no_bulk)), (env, CloseResult),
      (env, TogglePermission sample_entry), (env, PressPermission False), (env, Answered GrantPermission (Inr no_bulk)),
      (env, CloseResult)])"

lemma old_role_report_reopens_witness:
  "\<not> bd_resultOpen (run_bulk (\<lambda>s. None) [] two_runs) \<and>
   bd_resultOpen (bulk_render (bulk_sample True [''a@x'']) (activateTab PoliciesTab (run_bulk (\<lambda>s. None) [] two_runs)))"
proof -
  let ?st = "run_bulk (\<lambda>s. None) [] two_runs"
  have "bd_prevOpen ?st = Some (True, PermissionsTab)" "bd_catalogInit ?st" "mt_data (bd_muts ?st SetRole) = Some (0, no_bulk)"
      "bd_prevResult ?st = Some 1" "\<not> bd_resultOpen ?st"
    by code_simp+
  with old_role_report_reopens [of ?st "bulk_sample True [''a@x'']" 0 no_bulk PoliciesTab] show ?thesis
    by (simp add: bulk_sample_def Let_def)
qed

section \<open>Conditions\<close>

text \<open>What a grant does with the conditions typed. No text means no conditions; a text that is not JSON
  reports an error and sends nothing; the JSON text false sends nothing and reports nothing, as the
  parsed value is taken for the failure; and any other JSON value, an object or not, is sent as it is.
  An error already shown stays when the next text is valid.\<close>

theorem bulk_grant_conditions:
  assumes "bd_permissions st \<noteq> []"
  shows "let st' = runPermission parse invalid env False st;
             sent = (\<lambda>v. [GrantCall (be_emails env) (map key_parts (bd_permissions st)) v])
    in (bd_calls st', bd_error st') =
      (if trim (bd_conditions st) = [] then (bd_calls st @ sent JUndef, bd_error st)
       else case parse (bd_conditions st) of
         None \<Rightarrow> (bd_calls st, Some invalid)
       | Some (JBool False) \<Rightarrow> (bd_calls st, bd_error st)
       | Some v \<Rightarrow> (bd_calls st @ sent v, bd_error st))"
  using assms by (auto simp: runPermission_def parseConditions_def mutate_def Let_def split: option.splits json.splits bool.splits)

lemma bulk_grant_conditions_witness:
  "bd_calls (runPermission (\<lambda>s. Some (JArr [])) ''bad'' (bulk_sample True [''a@x'']) False
     (initial_bulk\<lparr>bd_permissions := [''policies:read::policies''], bd_conditions := ''[]''\<rparr>)) =
   [GrantCall [''a@x''] [(''policies:read'', Some ''policies'')] (JArr [])]"
proof -
  let ?st = "initial_bulk\<lparr>bd_permissions := [''policies:read::policies''], bd_conditions := ''[]''\<rparr>"
  have "bd_calls ?st = []" "key_parts ''policies:read::policies'' = (''policies:read'', Some ''policies'')" "trim ''[]'' \<noteq> []"
    by code_simp+
  with bulk_grant_conditions [of ?st "\<lambda>s. Some (JArr [])" "''bad''" "bulk_sample True [''a@x'']"] show ?thesis
    by (simp add: Let_def bulk_sample_def)
qed

section \<open>The report\<close>

text \<open>The report loses no outcome. Whatever is searched and filtered, every result that matches is shown
  once, under its own status, in the order of the answer; no group shown is empty; and the counts of the
  three statuses add up to the number of results.\<close>

theorem bulk_report_complete:
  "(let gs = visibleGroups query flt results in
    mset (concat (map snd gs)) = mset (filteredResults query flt results) \<and>
    distinct (map fst gs) \<and>
    list_all (\<lambda>(s, g). g \<noteq> [] \<and> g = filter (\<lambda>r. bi_status r = s) (filteredResults query flt results)) gs) \<and>
   sum_list (map snd (tl (result_counts results))) = snd (hd (result_counts results)) \<and>
   filteredResults [] AllStatuses results = results"
proof (intro conjI)
  let ?f = "\<lambda>s. filter (\<lambda>r. bi_status r = s) (filteredResults query flt results)"
  have split3: "mset xs = mset (filter (\<lambda>r. bi_status r = BulkSuccess) xs) +
      (mset (filter (\<lambda>r. bi_status r = BulkAlreadyHeld) xs) + mset (filter (\<lambda>r. bi_status r = BulkError) xs))" for xs
  proof (induction xs)
    case (Cons x xs)
    then show ?case by (cases "bi_status x") simp_all
  qed simp
  have drop_empty: "concat (map snd (filter (\<lambda>g. snd g \<noteq> []) gs)) = concat (map snd gs)" for gs :: "(bulk_status \<times> bulk_item list) list"
    by (induction gs) auto
  have "mset (concat (map snd (visibleGroups query flt results))) = mset (filteredResults query flt results)"
    unfolding visibleGroups_def drop_empty using split3 [of "filteredResults query flt results"] by (simp add: RESULT_GROUPS_def)
  moreover have "distinct (map fst (visibleGroups query flt results))"
    by (simp add: visibleGroups_def RESULT_GROUPS_def)
  ultimately show "let gs = visibleGroups query flt results in
    mset (concat (map snd gs)) = mset (filteredResults query flt results) \<and> distinct (map fst gs) \<and>
    list_all (\<lambda>(s, g). g \<noteq> [] \<and> g = filter (\<lambda>r. bi_status r = s) (filteredResults query flt results)) gs"
    by (auto simp: Let_def visibleGroups_def list_all_iff)
  show "sum_list (map snd (tl (result_counts results))) = snd (hd (result_counts results))"
    using arg_cong [OF split3 [of results], where f = "size"]
    by (simp add: result_counts_def RESULT_GROUPS_def del: mset_filter)
  have "to_lower (trim []) = []" by code_simp
  then show "filteredResults [] AllStatuses results = results" by (simp add: filteredResults_def result_listed_def)
qed

section \<open>Whom it reaches\<close>

text \<open>The page of the selected users is kept when the selection changes: past the last page nobody is
  shown, and with one page there is no button to leave it.\<close>

lemma stale_page_shows_nobody:
  assumes "length (be_emails env) \<le> 50" "2 \<le> bd_userPage st"
  shows "visibleSelectedUsers env st = [] \<and> turnUserPage env forward st = st"
proof -
  have n: "length (filteredSelectedUsers env st) \<le> 50"
    unfolding filteredSelectedUsers_def by (rule order_trans [OF length_filter_le assms(1)])
  then have "ceil_div (length (filteredSelectedUsers env st)) 50 \<le> 1" by (simp add: ceil_div_def)
  moreover have "length (filteredSelectedUsers env st) \<le> (bd_userPage st - 1) * 50" using n assms(2) by simp
  ultimately show ?thesis by (simp add: turnUserPage_def selectedUserPages_def visibleSelectedUsers_def slice_def)
qed

text \<open>The own row, and a system account's, offer no other role; selected in the table, they are among the users
  of the bulk role change.\<close>

lemma bulk_role_reaches_protected_rows:
  assumes "up_rows p = Some rows" "u \<in> set rows" "mu_id u \<in> set (up_selected p)" "\<not> up_allMatching p"
    and "you_badge (a_email s) u \<or> mu_role u = Some ''system''"
    and "be_emails env = selectedUserEmails p" "bd_role st \<noteq> []"
  shows "role_requests (role_cell s u) = [] \<and>
    (\<exists>c\<in>set (bd_calls (runRole env st)). mu_email u \<in> set (call_emails c))"
  using assms by (auto simp: role_cell_def role_requests_def selectedUserEmails_def nullish_def runRole_def mutate_def
      call_emails_def split: gate_view.splits)

section \<open>The state is well formed\<close>

lemma split_colons_Cons [simp]: "split_colons s \<noteq> []"
  by (induction s rule: split_colons.induct) (auto split: list.splits)

lemma split_colons_two: "2 \<le> length (split_colons (a @ CHR '':'' # CHR '':'' # s))"
proof (induction a rule: split_colons.induct)
  case 1
  then show ?case by (cases "split_colons s") simp_all
next
  case (2 c)
  then show ?case by (cases "split_colons s"; cases "split_colons (CHR '':'' # s)") auto
next
  case (3 c d a)
  show ?case
  proof (cases "c = CHR '':'' \<and> d = CHR '':''")
    case True
    then show ?thesis using 3(1) by simp
  next
    case False
    with 3(2) have "2 \<le> length (split_colons (d # a @ CHR '':'' # CHR '':'' # s))" by auto
    with False show ?thesis by (cases "split_colons (d # a @ CHR '':'' # CHR '':'' # s)") auto
  qed
qed

lemma key_has_type: "snd (key_parts (permission_key e)) \<noteq> None"
  using split_colons_two [of "ce_action e" "ce_resource_type e"]
  by (auto simp: key_parts_def permission_key_def split: list.splits)

definition muts_wf :: "nat \<Rightarrow> (bulk_run \<Rightarrow> mut_state) \<Rightarrow> bool" where
  "muts_wf n m \<longleftrightarrow> (\<forall>r. mt_pending (m r) \<longrightarrow> mt_data (m r) = None)
     \<and> (\<forall>r x. mt_data (m r) = Some x \<longrightarrow> fst x < n)
     \<and> (\<forall>r q x y. mt_data (m r) = Some x \<longrightarrow> mt_data (m q) = Some y \<longrightarrow> fst x = fst y \<longrightarrow> r = q)"

lemma muts_wf_idle: "muts_wf n (\<lambda>r. idle_mut)"
  by (simp add: muts_wf_def idle_mut_def)

lemma muts_wf_empty: "muts_wf n m \<Longrightarrow> muts_wf n (m(r := \<lparr>mt_data = None, mt_pending = b\<rparr>))"
  unfolding muts_wf_def by auto

lemma muts_wf_data: "muts_wf n m \<Longrightarrow> muts_wf (Suc n) (m(r := \<lparr>mt_data = Some (n, d), mt_pending = False\<rparr>))"
  unfolding muts_wf_def by (auto simp: less_Suc_eq dest: less_imp_neq)

definition bulk_wf :: "bulk_ui \<Rightarrow> bool" where
  "bulk_wf st \<longleftrightarrow> distinct (bd_policies st) \<and> distinct (bd_permissions st)
     \<and> list_all (\<lambda>k. snd (key_parts k) \<noteq> None) (bd_permissions st)
     \<and> (bd_role st = [] \<or> bd_role st \<in> set ROLE_OPTIONS)
     \<and> muts_wf (bd_answers st) (bd_muts st)
     \<and> list_all (\<lambda>c. (case c of AssignCall es ns \<Rightarrow> ns \<noteq> [] | RemoveCall es ns \<Rightarrow> ns \<noteq> []
          | GrantCall es ps j \<Rightarrow> ps \<noteq> [] \<and> j \<noteq> JBool False | RevokeCall es ps \<Rightarrow> ps \<noteq> [] | RoleCall es r \<Rightarrow> r \<noteq> [])) (bd_calls st)"

lemma effects_muts: "bd_muts (bulk_effects env st) = bd_muts st \<or> bd_muts (bulk_effects env st) = (\<lambda>r. idle_mut)"
  by (simp add: bulk_effects_def Let_def)

lemma bulk_wf_effects: "bulk_wf st \<Longrightarrow> bulk_wf (bulk_effects env st)"
  using effects_muts [of env st] muts_wf_idle [of "bd_answers st"] by (auto simp: bulk_wf_def)

lemma bulk_wf_render: "bulk_wf st \<Longrightarrow> bulk_wf (bulk_render env st)"
  by (simp add: bulk_render_def bulk_wf_effects)

lemma bulk_wf_mutate: "bulk_wf st \<Longrightarrow> bulk_wf (st\<lparr>bd_calls := [c]\<rparr>) \<Longrightarrow> bulk_wf (mutate r c st)"
  by (auto simp: bulk_wf_def mutate_def muts_wf_empty)

lemma bulk_wf_answered: "bulk_wf st \<Longrightarrow> bulk_wf (bulk_answered r a st)"
  by (auto simp: bulk_wf_def bulk_answered_def idle_mut_def muts_wf_empty muts_wf_data split: sum.splits)

lemma bulk_wf_step: "bulk_wf st \<Longrightarrow> bulk_wf (bulk_step parse invalid env op st)"
proof (cases op)
  case (TogglePermission e)
  assume "bulk_wf st"
  with TogglePermission show ?thesis
    using with_choice_distinct [of "bd_permissions st" "permission_key e"]
      with_choice_set [of "permission_key e" "permission_key e \<notin> set (bd_permissions st)" "bd_permissions st"] key_has_type [of e]
    by (auto simp: bulk_wf_def list_all_iff)
next
  case (PressPermission remove)
  assume wf: "bulk_wf st"
  obtain v st' where p: "parseConditions parse invalid st = (v, st')" by fastforce
  have "bulk_wf st'" using wf p by (auto simp: parseConditions_def bulk_wf_def split: if_splits option.splits)
  moreover have "bd_permissions st' = bd_permissions st" using parse_keeps [OF p] by simp
  ultimately show ?thesis using PressPermission wf p
    by (auto simp: runPermission_def Let_def intro!: bulk_wf_mutate) (simp_all add: bulk_wf_def)
next
  case (Answered r a)
  assume "bulk_wf st"
  with Answered show ?thesis by (simp add: bulk_wf_answered)
qed (auto simp: activateTab_def toggleGroup_def runPolicy_def runRole_def with_choice_distinct
    visibleOptions_def bulk_wf_def mutate_def muts_wf_empty)

text \<open>C20: The dialog's state is always well formed. Whatever happens in it and around it, no policy and no
  permission is chosen twice, every permission chosen has both its parts, the role is empty or one of the
  three, a mutation that is pending has no data, every answer on show is another one, and no call is
  made with nothing in it.\<close>

theorem bulk_state_well_formed: "bulk_wf (run_bulk parse invalid xs)"
proof (induction xs rule: rev_induct)
  case Nil
  show ?case by (simp add: run_bulk_def bulk_wf_def initial_bulk_def muts_wf_idle)
next
  case (snoc x xs)
  then show ?case by (simp add: run_bulk_def bulk_next_def Let_def bulk_wf_render bulk_wf_step)
qed

end
