(* ===== verification/AccessTabs.thy ===== *)
theory AccessTabs
  imports UsersTable PageTabs Urls
begin

text \<open>
  What the access dialog of one user shows around its state (theory \<open>UserAccess\<close>): its tabs and their
  keyboard (\<open>dialogs/UserAccessDialog.tsx\<close>, \<open>UserAccessTabs.tsx\<close>), the details
  (\<open>UserAccessDetailsTab.tsx\<close>), the rows of policies and of their actions
  (\<open>UserAccessPoliciesTab.tsx\<close>, \<open>UserAccessDialogParts.tsx\<close>), the groups of permissions and the editor of
  conditions (\<open>UserAccessPermissionsTab.tsx\<close>, \<open>UserAccessPermissionsParts.tsx\<close>), the counts of the
  filters and the labels of changes (\<open>UserAccessDialogAtoms.tsx\<close>), and the cards of grants
  (\<open>AccessResourceCards.tsx\<close>). Whether a click on a switch of the component library also reaches the
  elements around it is a parameter.
\<close>

section \<open>Tabs\<close>

definition tabValues :: "auth_state \<Rightarrow> string option \<Rightarrow> access_tab list" where
  "tabValues a e = [DetailsTab] @ (if canSeePolicies a e then [PoliciesTab] else [])
     @ (if canSeePermissions a e then [PermissionsTab] else [])"

definition set_tab :: "access_tab \<Rightarrow> access_dialog \<Rightarrow> access_dialog" where
  "set_tab tb d = d\<lparr>ad_tab := tb\<rparr>"

definition handleTabKeyDown :: "auth_state \<Rightarrow> string option \<Rightarrow> string \<Rightarrow> access_tab \<Rightarrow> access_dialog \<Rightarrow> access_dialog" where
  "handleTabKeyDown a e key currentTab d =
     (let vs = tabValues a e; n = length vs; currentIndex = length (takeWhile (\<lambda>x. x \<noteq> currentTab) vs);
          nextIndex = (if key = ''ArrowRight'' \<or> key = ''ArrowDown'' then (currentIndex + 1) mod n
            else if key = ''ArrowLeft'' \<or> key = ''ArrowUp'' then (currentIndex + n - 1) mod n
            else if key = ''Home'' then 0 else if key = ''End'' then n - 1 else currentIndex)
      in if nextIndex \<noteq> currentIndex then set_tab (vs ! nextIndex) d else d)"

text \<open>The panel on screen: a panel is there when its tab may be seen, and shown when it is the chosen one.\<close>

definition shown_panel :: "auth_state \<Rightarrow> string option \<Rightarrow> access_dialog \<Rightarrow> access_tab option" where
  "shown_panel a e d = (if ad_tab d \<in> set (tabValues a e) then Some (ad_tab d) else None)"

section \<open>Details\<close>

text \<open>The tiles, with their number and the tab each leads to.\<close>

definition detail_tiles :: "auth_state \<Rightarrow> string option \<Rightarrow> access_data \<Rightarrow> (nat \<times> access_tab option) list" where
  "detail_tiles a e x =
     (if canSeePolicies a e then [(length (da_assigned x), Some PoliciesTab)] else [])
     @ (if canSeePermissions a e then [(totalGranted x, Some PermissionsTab), (length (da_direct x), None)] else [])"

definition detail_status :: "managed_user \<Rightarrow> bool \<times> bool" where
  "detail_status u = (mu_is_verified u, \<not> mu_is_active u)"

datatype 'a recent_view = RecentLoading | RecentFailed | RecentNone | RecentEntries "'a list"

text \<open>The recent changes: not there at all without the permission to read them.\<close>

definition recent_changes ::
  "auth_state \<Rightarrow> string option \<Rightarrow> bool \<Rightarrow> bool \<Rightarrow> security_log_entry list option \<Rightarrow> security_log_entry recent_view option" where
  "recent_changes a e isLoading isError data =
     (if access_isSelf a e \<or> useCan a (OneAction ''security_audit:read'') None
      then Some (if isLoading then RecentLoading else if isError then RecentFailed
        else (case data of None \<Rightarrow> RecentNone | Some es \<Rightarrow> if es = [] then RecentNone else RecentEntries es))
      else None)"

text \<open>Its button: the search left in the store of the log about all users, and the page it goes to.\<close>

definition view_all_changes :: "managed_user \<Rightarrow> string \<times> string" where
  "view_all_changes u = (mu_email u, ''/audit-log?category=security&scope=all'')"

definition CHANGE_LABELS :: "(string \<times> string) list" where
  "CHANGE_LABELS =
     [(''policy_assigned'', ''users:accessDialog.changeLog.policyAssigned''),
      (''policy_revoked'', ''users:accessDialog.changeLog.policyRevoked''),
      (''policy_action_revoked'', ''users:accessDialog.changeLog.policyActionRevoked''),
      (''permission_granted'', ''users:accessDialog.changeLog.permissionGranted''),
      (''permission_revoked'', ''users:accessDialog.changeLog.permissionRevoked''),
      (''user_role_changed'', ''users:accessDialog.changeLog.roleChanged'')]"

definition accessChangeLabel :: "translator \<Rightarrow> security_log_entry \<Rightarrow> string" where
  "accessChangeLabel tr entry =
     (let metadata = nullish (sl_event_metadata entry) [];
          text_at = (\<lambda>k. case map_of metadata k of Some (JStr s) \<Rightarrow> Some s | _ \<Rightarrow> None);
          or_else_at = (\<lambda>k r. case text_at k of Some s \<Rightarrow> Some s | None \<Rightarrow> r)
      in case map_of CHANGE_LABELS (sl_event_type entry) of
           None \<Rightarrow> sl_event_type entry
         | Some key \<Rightarrow> tr_text tr key
             [(''policyName'', opt_str (text_at ''policy_name'')), (''action'', opt_str (text_at ''action'')),
              (''by'', opt_str (or_else_at ''assigned_by'' (or_else_at ''revoked_by'' (or_else_at ''granted_by'' (text_at ''changed_by''))))),
              (''oldRole'', opt_str (text_at ''old_role'')), (''newRole'', opt_str (text_at ''new_role''))])"

section \<open>Counts of the filters\<close>

definition policy_counts :: "access_data \<Rightarrow> access_filter \<Rightarrow> int" where
  "policy_counts x f = (case f of FilterAll \<Rightarrow> int (length (allPolicies x)) | FilterOn \<Rightarrow> int (length (da_assigned x))
     | FilterOff \<Rightarrow> int (length (allPolicies x)) - int (length (da_assigned x)))"

definition permission_counts :: "access_data \<Rightarrow> access_filter \<Rightarrow> int" where
  "permission_counts x f = (let n = int (length (nullish (da_catalog x) [])) in
     case f of FilterAll \<Rightarrow> n | FilterOn \<Rightarrow> int (totalGranted x) | FilterOff \<Rightarrow> n - int (totalGranted x))"

section \<open>A row of the policies\<close>

datatype row_reason = ReasonLocked | ReasonSelfProtected | ReasonCovered | ReasonUngrantable

record policy_row =
  pr_assigned :: bool
  pr_open :: bool
  pr_disabled :: bool
  pr_reason :: "row_reason option"
  pr_canToggle :: bool
  pr_switch :: "(bool \<times> bool) option"

definition isSelfProtectedPolicy :: "auth_state \<Rightarrow> string option \<Rightarrow> string \<Rightarrow> bool" where
  "isSelfProtectedPolicy a e n \<longleftrightarrow> access_isSelf a e \<and> n \<in> set PROTECTED_POLICY_NAMES"

text \<open>The switch: whether it is on and whether it works; none when the gate hides it.\<close>

definition policy_row :: "auth_state \<Rightarrow> string option \<Rightarrow> bool \<Rightarrow> access_dialog \<Rightarrow> access_data \<Rightarrow> policy \<Rightarrow> policy_row" where
  "policy_row a e locked d x p =
     (let assigned = (pol_name p \<in> set (assignedNames x));
          selfProtected = (assigned \<and> isSelfProtectedPolicy a e (pol_name p));
          covered = (\<not> assigned \<and> policyAddsNothingNew p (effectiveGrantKeys x));
          ungrantable = (\<not> canGrantPolicy (pol_actions p) (\<lambda>act. can a (OneAction act)));
          disabled = (locked \<or> selfProtected \<or> covered \<or> ungrantable);
          reason = (if locked then Some ReasonLocked else if selfProtected then Some ReasonSelfProtected
            else if covered then Some ReasonCovered else if ungrantable then Some ReasonUngrantable else None);
          needed = OneAction (if assigned then ''policies:revoke'' else ''policies:assign'')
      in \<lparr>pr_assigned = assigned, pr_open = pol_name p \<in> set (ad_polOpen d), pr_disabled = disabled, pr_reason = reason,
          pr_canToggle = \<not> disabled \<and> \<not> ungrantable \<and> can a needed,
          pr_switch = (if if_can a needed then Some (assigned, reason = None) else None)\<rparr>)"

section \<open>A row of a policy's actions\<close>

datatype click_target = OnRow | OnLabel | OnCopyKey | OnSwitch

definition action_canToggle :: "bool \<Rightarrow> bool \<Rightarrow> bool \<Rightarrow> bool" where
  "action_canToggle assigned locked selfProtected \<longleftrightarrow> assigned \<and> \<not> locked \<and> \<not> selfProtected"

text \<open>The switch of an action: whether it works, where it is shown.\<close>

definition action_switch :: "auth_state \<Rightarrow> bool \<Rightarrow> bool \<Rightarrow> bool \<Rightarrow> bool option" where
  "action_switch a assigned locked selfProtected =
     (if assigned \<and> if_can a (OneAction ''policies:revoke'') then Some (\<not> (locked \<or> selfProtected)) else None)"

text \<open>How often one click asks to revoke the action. The label and the copy button keep the click to
  themselves; a click on a switch that works calls its handler and, where it goes on, the row's.\<close>

definition action_click :: "bool \<Rightarrow> auth_state \<Rightarrow> bool \<Rightarrow> bool \<Rightarrow> bool \<Rightarrow> click_target \<Rightarrow> nat" where
  "action_click bubbles a assigned locked selfProtected t =
     (let row = (if action_canToggle assigned locked selfProtected then 1 else 0) in
      case t of OnRow \<Rightarrow> row | OnLabel \<Rightarrow> row | OnCopyKey \<Rightarrow> 0
      | OnSwitch \<Rightarrow> (case action_switch a assigned locked selfProtected of
            Some True \<Rightarrow> 1 + (if bubbles then row else 0) | _ \<Rightarrow> 0))"

definition action_click_requests ::
  "int \<Rightarrow> bool \<Rightarrow> auth_state \<Rightarrow> string \<Rightarrow> policy \<Rightarrow> bool \<Rightarrow> bool \<Rightarrow> bool \<Rightarrow> string \<Rightarrow> click_target \<Rightarrow> request list" where
  "action_click_requests now bubbles a userEmail p assigned locked selfProtected act t =
     replicate (action_click bubbles a assigned locked selfProtected t)
       (m_request (useRevokePolicyActionMutation now userEmail (pol_name p) act))"

text \<open>The label of an action: the catalog's description, or the name made readable.\<close>

definition action_label :: "catalog_entry list option \<Rightarrow> policy \<Rightarrow> string \<Rightarrow> string" where
  "action_label catalog p act =
     (case find (\<lambda>c. ce_action c = act \<and> ce_resource_type c = pol_resource_type p) (nullish catalog []) of
        Some c \<Rightarrow> if ce_description c = [] then formatPolicyActionLabel act else ce_description c
      | None \<Rightarrow> formatPolicyActionLabel act)"

section \<open>Groups of permissions\<close>

definition group_items :: "access_dialog \<Rightarrow> access_data \<Rightarrow> string \<Rightarrow> catalog_entry list" where
  "group_items d x g = filter (\<lambda>c. ce_resource_type c = g) (permissionRows d x)"

definition group_granted :: "access_dialog \<Rightarrow> access_data \<Rightarrow> string \<Rightarrow> nat" where
  "group_granted d x g = length (filter (granted_entry x) (group_items d x g))"

text \<open>The entry whose conditions are edited in a group, if one is.\<close>

definition editing_entry :: "access_dialog \<Rightarrow> access_data \<Rightarrow> string \<Rightarrow> catalog_entry option" where
  "editing_entry d x g = find (\<lambda>c. ad_editingKey d = Some (armKey (ce_action c) (ce_resource_type c))) (group_items d x g)"

definition cancel_editing :: "access_dialog \<Rightarrow> access_dialog" where
  "cancel_editing d = d\<lparr>ad_editingKey := None\<rparr>"

text \<open>Everything the dialog does to its own state.\<close>

datatype access_op = Render bool access_tab | SetTab access_tab | SetPolQuery string | SetPolFilter access_filter
  | SetPermQuery string | SetPermFilter access_filter | TogglePolicyOpen string | ExpandPolicies | CollapsePolicies
  | TogglePermGroup string | ExpandGroups | CollapseGroups | CancelEditing
  | ConditionsSaved string string string "unit outcome"

fun access_step :: "translator \<Rightarrow> int \<Rightarrow> access_data \<Rightarrow> access_op \<Rightarrow> access_dialog \<times> access \<Rightarrow> access_dialog \<times> access" where
  "access_step tr now x (Render b tb) ds = (render_access b tb (fst ds), snd ds)"
| "access_step tr now x (SetTab tb) ds = (set_tab tb (fst ds), snd ds)"
| "access_step tr now x (SetPolQuery q) ds = ((fst ds)\<lparr>ad_polQuery := q\<rparr>, snd ds)"
| "access_step tr now x (SetPolFilter f) ds = ((fst ds)\<lparr>ad_polFilter := f\<rparr>, snd ds)"
| "access_step tr now x (SetPermQuery q) ds = ((fst ds)\<lparr>ad_permQuery := q\<rparr>, snd ds)"
| "access_step tr now x (SetPermFilter f) ds = ((fst ds)\<lparr>ad_permFilter := f\<rparr>, snd ds)"
| "access_step tr now x (TogglePolicyOpen n) ds = (togglePolicyOpen n (fst ds), snd ds)"
| "access_step tr now x ExpandPolicies ds = (expandAllPolicies (da_allPolicies x) (fst ds), snd ds)"
| "access_step tr now x CollapsePolicies ds = (collapseAllPolicies (fst ds), snd ds)"
| "access_step tr now x (TogglePermGroup g) ds = (togglePermGroup g (fst ds), snd ds)"
| "access_step tr now x ExpandGroups ds = (expandAllPermGroups (fst ds), snd ds)"
| "access_step tr now x CollapseGroups ds = (collapseAllPermGroups (da_catalog x) (fst ds), snd ds)"
| "access_step tr now x CancelEditing ds = (cancel_editing (fst ds), snd ds)"
| "access_step tr now x (ConditionsSaved e act ty answer) ds = saveConditions_answered tr now e act ty None answer ds"

definition access_session :: "translator \<Rightarrow> int \<Rightarrow> (access_data \<times> access_op) list \<Rightarrow> bool \<Rightarrow> access \<Rightarrow> access_dialog \<times> access" where
  "access_session tr now xs isOpen s = foldl (\<lambda>ds (x, op). access_step tr now x op ds) (mount_access isOpen, s) xs"

section \<open>AccessResourceCards.tsx\<close>

definition cards_toggle :: "string \<Rightarrow> string list \<Rightarrow> string list" where
  "cards_toggle ty collapsed = toggle_member ty collapsed"

definition cards_key :: "string \<Rightarrow> string \<Rightarrow> string list \<Rightarrow> string list" where
  "cards_key key ty collapsed = (if key = ''Enter'' \<or> key = '' '' then cards_toggle ty collapsed else collapsed)"

text \<open>The cards, each with its count and the rows it shows.\<close>

definition access_cards :: "string list \<Rightarrow> grant list \<Rightarrow> (string \<times> nat \<times> grant list) list" where
  "access_cards collapsed items =
     map (\<lambda>(ty, gs). (ty, length gs, if ty \<in> set collapsed then [] else gs)) (groupByResourceType items)"

section \<open>Policies\<close>

text \<open>A policy can be switched only by whoever may. A click on its row switches it exactly when its switch is
  shown and works, and then the dialog is not locked, the caller may assign (or revoke), holds every
  action of the policy, the policy is not one the caller's own account must keep, and assigning it gives
  the user something new.\<close>

theorem policy_row_safe:
  assumes "pr_canToggle (policy_row a e locked d x p)"
  shows "pr_switch (policy_row a e locked d x p) = Some (pr_assigned (policy_row a e locked d x p), True) \<and>
    pr_reason (policy_row a e locked d x p) = None \<and> \<not> locked \<and>
    can a (OneAction (if pol_name p \<in> set (assignedNames x) then ''policies:revoke'' else ''policies:assign'')) \<and>
    list_all (\<lambda>act. can a (OneAction act)) (pol_actions p) \<and>
    (if pol_name p \<in> set (assignedNames x) then \<not> (access_isSelf a e \<and> pol_name p \<in> set PROTECTED_POLICY_NAMES)
     else \<not> policyAddsNothingNew p (effectiveGrantKeys x))"
  using assms by (auto simp: policy_row_def Let_def if_can_iff isSelfProtectedPolicy_def canGrantPolicy_def canGrantAction_def)

lemma policy_row_click_iff:
  "pr_canToggle (policy_row a e locked d x p) \<longleftrightarrow>
   pr_switch (policy_row a e locked d x p) = Some (pr_assigned (policy_row a e locked d x p), True)"
  by (auto simp: policy_row_def Let_def if_can_iff)

definition access_sample :: access_data where
  "access_sample = \<lparr>da_assigned = [], da_direct = [], da_allPolicies = None, da_catalog = None\<rparr>"

lemma policy_row_safe_witness:
  "let a = signed_in [''policies:assign'', ''users:list_all'']; p = sample_policy ''lists'' [''users:list_all''] ''users'' in
   pr_canToggle (policy_row a (Some ''b@x'') False (mount_access True) access_sample p) \<and>
   pr_reason (policy_row a (Some ''b@x'') False (mount_access True) access_sample p) = None"
proof -
  let ?r = "policy_row (signed_in [''policies:assign'', ''users:list_all'']) (Some ''b@x'') False (mount_access True) access_sample
      (sample_policy ''lists'' [''users:list_all''] ''users'')"
  have c: "pr_canToggle ?r" by code_simp
  from policy_row_safe [OF c] c show ?thesis by (simp only: Let_def)
qed

text \<open>Unlike a policy's row, the row of one of its actions asks to revoke whoever clicks it: the switch is
  shown only to a holder of policies:revoke, but a click on the row sends the request for anybody, and a
  click on the switch, where the click goes on to the row, sends it twice.\<close>

theorem revoke_action_ungated:
  "let sent = m_request (useRevokePolicyActionMutation now u (pol_name p) act) in
   (action_switch a True False False \<noteq> None \<longleftrightarrow> can a (OneAction ''policies:revoke'')) \<and>
   action_click_requests now bubbles a u p True False False act OnRow = [sent] \<and>
   action_click_requests now bubbles a u p True False False act OnSwitch =
     (if can a (OneAction ''policies:revoke'') then (if bubbles then [sent, sent] else [sent]) else [])"
  by (auto simp: Let_def action_switch_def action_click_requests_def action_click_def action_canToggle_def if_can_iff
      numeral_2_eq_2)

section \<open>Counts\<close>

lemma contains_everything [simp]: "contains s []"
  by (cases s) (simp_all add: starts_with_def)

lemma no_query: "to_lower (trim []) = []"
  by code_simp

lemma length_filter_not: "int (length (filter (\<lambda>v. \<not> P v) xs)) = int (length xs) - int (length (filter P xs))"
  using sum_length_filter_compl [of P xs] by linarith

lemma distinct_map_filter_length:
  assumes "distinct (map f xs)" "distinct ks" "set ks \<subseteq> f ` set xs"
  shows "length (filter (\<lambda>v. f v \<in> set ks) xs) = length ks"
proof -
  have "distinct (map f (filter (\<lambda>v. f v \<in> set ks) xs))" using assms(1) by (rule distinct_map_filter)
  moreover have "set (map f (filter (\<lambda>v. f v \<in> set ks) xs)) = set ks" using assms(3) by auto
  ultimately have "length (map f (filter (\<lambda>v. f v \<in> set ks) xs)) = card (set ks)" by (metis distinct_card)
  then show ?thesis using assms(2) by (simp add: distinct_card)
qed

text \<open>The counts on the filters are the rows they show. With no search, each of the three filters of
  the permissions lists exactly as many entries as its count says, and so do those of the policies, as long
  as no policy is assigned twice.\<close>

theorem filter_counts_match:
  assumes "distinct (map pol_name (da_assigned x))"
  shows "int (length (permissionRows (d\<lparr>ad_permQuery := [], ad_permFilter := f\<rparr>) x)) = permission_counts x f \<and>
    int (length (policyRows lc (d\<lparr>ad_polQuery := [], ad_polFilter := f\<rparr>) x)) = policy_counts x f"
proof
  show "int (length (permissionRows (d\<lparr>ad_permQuery := [], ad_permFilter := f\<rparr>) x)) = permission_counts x f"
    by (cases f) (simp_all add: permissionRows_def permission_counts_def no_query filter_passes_def totalGranted_def
        Let_def length_filter_not)
  have names: "distinct (map pol_name (allPolicies x))" "set (assignedNames x) \<subseteq> pol_name ` set (allPolicies x)"
    using allPolicies_names [of x] by (simp, metis assignedNames_def image_set map_append set_append set_js_set sup_ge1)
  have on: "length (filter (\<lambda>p. pol_name p \<in> set (assignedNames x)) (allPolicies x)) = length (da_assigned x)"
  proof -
    have "length (assignedNames x) = card (pol_name ` set (da_assigned x))"
      by (metis assignedNames_def distinct_card distinct_js_set image_set set_js_set)
    also have "\<dots> = length (da_assigned x)" using assms by (metis distinct_card image_set length_map)
    finally show ?thesis using distinct_map_filter_length [OF names(1) _ names(2)] by (simp add: assignedNames_def)
  qed
  show "int (length (policyRows lc (d\<lparr>ad_polQuery := [], ad_polFilter := f\<rparr>) x)) = policy_counts x f"
    using on by (cases f) (simp_all add: policyRows_def policy_counts_def no_query filter_passes_def Let_def length_filter_not)
qed

lemma filter_counts_match_witness:
  "int (length (policyRows code_order ((mount_access True)\<lparr>ad_polQuery := [], ad_polFilter := FilterOff\<rparr>) access_sample))
     = policy_counts access_sample FilterOff"
  by (rule conjunct2 [OF filter_counts_match]) (simp add: access_sample_def)

text \<open>The groups show every row once.\<close>

lemma permission_rows_grouped:
  "mset (concat (map (group_items d x) (permissionGroups d x))) = mset (permissionRows d x)"
proof -
  have "set (permissionRows d x) \<subseteq> set (nullish (da_catalog x) [])"
    by (auto simp: permissionRows_def Let_def)
  then have "set (permissionGroups d x) = ce_resource_type ` set (permissionRows d x)"
    by (auto simp: permissionGroups_def list_ex_iff, metis image_eqI)
  moreover have "distinct (permissionGroups d x)" by (simp add: permissionGroups_def)
  ultimately show ?thesis unfolding group_items_def [abs_def] by (intro mset_filter_partition) simp_all
qed

section \<open>What cannot be reached\<close>

text \<open>The editor of conditions never opens. Whatever is done in the dialog, and whatever it shows, no
  entry is being edited: nothing ever sets the key the editor looks for, so the conditions of a direct
  grant cannot be seen or changed there.\<close>

theorem conditions_editor_unreachable:
  "ad_editingKey (fst (access_session tr now xs isOpen s)) = None \<and>
   editing_entry (fst (access_session tr now xs isOpen s)) x g = None"
proof -
  have "ad_editingKey (fst (access_session tr now xs isOpen s)) = None"
  proof (induction xs rule: rev_induct)
    case Nil
    show ?case by (simp add: access_session_def mount_access_def)
  next
    case (snoc xop xs)
    obtain y op where xop: "xop = (y, op)" by fastforce
    have "ad_editingKey (fst (access_step tr now y op ds)) = None" if "ad_editingKey (fst ds) = None" for ds
      using that by (cases op) (auto simp: render_access_def reset_access_def set_tab_def togglePolicyOpen_def
          expandAllPolicies_def collapseAllPolicies_def togglePermGroup_def expandAllPermGroups_def
          collapseAllPermGroups_def cancel_editing_def saveConditions_answered_def Let_def split: prod.splits sum.splits)
    with snoc xop show ?case by (simp add: access_session_def)
  qed
  then show ?thesis by (simp add: editing_entry_def find_None_iff)
qed

text \<open>The own account can be shown a false zero. On the caller's own row both tabs are there whatever
  the permissions are, but the catalog and the list of all policies are asked for with their permissions
  only: without the catalog the permissions tab is empty and counts none, however much is granted; and
  without the list, expanding all policies closes every one.\<close>

theorem own_access_false_zero:
  assumes "access_isSelf a e"
    and "\<not> can a (AnyOf [''permissions:read'', ''policies:create'', ''policies:update'', ''permissions:grant''])"
    and "\<not> can a (OneAction ''policies:read'')"
    and "da_catalog x = None" "da_allPolicies x = None"
  shows "set (tabValues a e) = {DetailsTab, PoliciesTab, PermissionsTab} \<and>
    \<not> q_enabled (access_queries a True e ! 5) \<and> \<not> q_enabled (access_queries a True e ! 4) \<and>
    detail_tiles a e x = [(length (da_assigned x), Some PoliciesTab), (0, Some PermissionsTab), (length (da_direct x), None)] \<and>
    permissionRows d x = [] \<and> ad_polOpen (expandAllPolicies (da_allPolicies x) d) = []"
  using assms by (auto simp: tabValues_def canSeePolicies_def canSeePermissions_def detail_tiles_def totalGranted_def
      permissionRows_def expandAllPolicies_def access_queries_def Let_def useCan_def usePoliciesQuery_def
      usePermissionCatalogQuery_def query_of_def nullish_def)

lemma own_access_false_zero_witness:
  "let a = (signed_in [''users:list_all''])\<lparr>a_email := Some ''me@x''\<rparr>;
       x = access_sample\<lparr>da_direct := [\<lparr>up_id = 1, up_action = ''users:list_all'', up_resource_type = ''users'', up_conditions = None,
              up_is_active = True, up_assigned_by = None\<rparr>]\<rparr> in
   detail_tiles a (Some ''me@x'') x = [(0, Some PoliciesTab), (0, Some PermissionsTab), (1, None)]"
proof -
  let ?a = "(signed_in [''users:list_all''])\<lparr>a_email := Some ''me@x''\<rparr>"
  let ?x = "access_sample\<lparr>da_direct := [\<lparr>up_id = 1, up_action = ''users:list_all'', up_resource_type = ''users'', up_conditions = None,
              up_is_active = True, up_assigned_by = None\<rparr>]\<rparr>"
  have "access_isSelf ?a (Some ''me@x'')" "\<not> can ?a (OneAction ''policies:read'')"
      "\<not> can ?a (AnyOf [''permissions:read'', ''policies:create'', ''policies:update'', ''permissions:grant''])"
    by code_simp+
  then show ?thesis using own_access_false_zero [of ?a "Some ''me@x''" ?x "mount_access True"]
    by (simp add: access_sample_def Let_def)
qed

section \<open>Tabs and links\<close>

text \<open>The keyboard reaches visible tabs only; a tab that may no longer be seen leaves the dialog empty.\<close>

lemma tab_keys_visible:
  assumes "currentTab \<in> set (tabValues a e)" "ad_tab d \<in> set (tabValues a e)"
  shows "ad_tab (handleTabKeyDown a e key currentTab d) \<in> set (tabValues a e)"
proof -
  have n: "0 < length (tabValues a e)" by (simp add: tabValues_def)
  then show ?thesis using assms nth_mem [of "_ mod length (tabValues a e)" "tabValues a e"]
    by (auto simp: handleTabKeyDown_def set_tab_def Let_def)
qed

lemma lost_tab_blank: "\<not> canSeePermissions a e \<Longrightarrow> ad_tab d = PermissionsTab \<Longrightarrow> shown_panel a e d = None"
  by (simp add: shown_panel_def tabValues_def)

text \<open>The link to all changes shows them to whoever may read the log about all users; on the own row
  without that permission it opens the caller's own log, to which the search it stored does not apply.\<close>

theorem view_all_changes_opens:
  "(let (search, href) = view_all_changes u in
    search = mu_email u \<and>
    (case follow_link href of
       None \<Rightarrow> False
     | Some (path, params) \<Rightarrow> path = ''/audit-log'' \<and>
         audit_view s \<lparr>au_url = params, au_category = c0, au_scope = sc0\<rparr> =
           Some (if can s (OneAction ''security_audit:read'') then AllSecurityLog else MySecurityLog)))"
proof -
  have link: "follow_link ''/audit-log?category=security&scope=all'' =
      Some (''/audit-log'', [(''category'', ''security''), (''scope'', ''all'')])"
    by code_simp
  show ?thesis unfolding view_all_changes_def
    by (auto simp: link audit_view_def initialCategory_def initialScope_def requestedScope_def nullish_def
        category_panel_def canReadAllSecurity_def useCan_ifcan [symmetric] useCan_def)
qed

text \<open>The cards of grants start open and show every grant once.\<close>

lemma cards_show_all: "mset (concat (map (\<lambda>(ty, n, gs). gs) (access_cards [] items))) = mset items"
proof -
  have "map (\<lambda>(ty, n, gs). gs) (access_cards [] items) = om_values (groupByResourceType items)"
    by (simp add: access_cards_def om_values_def comp_def case_prod_beta)
  then show ?thesis by (simp add: groupByResourceType_def group_list_mset)
qed

end
