(* ===== verification/PoliciesView.thy ===== *)
theory PoliciesView
  imports PoliciesPage AuditLog UsersTable
begin

text \<open>
  What the policies page shows and offers (\<open>policies/PoliciesPageContent.tsx\<close>,
  \<open>policies/PoliciesFilterBar.tsx\<close>, \<open>policies/PolicyStatsCard.tsx\<close>, \<open>policies/PolicyCard.tsx\<close>): the
  tiles and what a click on each does to the filters, the filters on offer, the chips, the view of the
  list, the controls of a card and the confirmation of a deletion. The page's state and its requests
  are those of theory \<open>PoliciesPage\<close>.
\<close>

section \<open>PolicyStatsCard.tsx\<close>

definition stats_count :: "(policy \<Rightarrow> bool) \<Rightarrow> policy list option \<Rightarrow> nat option" where
  "stats_count keep policies = map_option (\<lambda>ps. length (filter keep ps)) policies"

definition grants_destructive :: "policy \<Rightarrow> bool" where
  "grants_destructive p \<longleftrightarrow> list_ex isDestructiveAction (pol_actions p)"

text \<open>The key of each tile, its count and whether it is pressed.\<close>

definition policy_tiles :: "policy list option \<Rightarrow> policy_filters \<Rightarrow> (string \<times> nat option \<times> bool) list" where
  "policy_tiles policies f =
     map (\<lambda>(key, cnt). (key, cnt, PoliciesPage.activeTile f = Some key))
       [(''total'', map_option length policies),
        (''active'', stats_count pol_is_active policies),
        (''inactive'', stats_count (\<lambda>p. \<not> pol_is_active p) policies),
        (''destructive'', stats_count grants_destructive policies)]"

text \<open>The tiles of the page set the filters through the same setters as the filter bar.\<close>

definition onFilterStatus :: "string \<Rightarrow> policy_filters \<Rightarrow> policy_filters" where
  "onFilterStatus v f = setPolicyStatus v (setPolicySearch [] (PoliciesPage.setResourceType ALL_VALUE (setDestructiveOnly False f)))"

definition onFilterActive :: "policy_filters \<Rightarrow> policy_filters" where
  "onFilterActive = onFilterStatus ''true''"

definition onFilterInactive :: "policy_filters \<Rightarrow> policy_filters" where
  "onFilterInactive = onFilterStatus ''false''"

definition onFilterDestructive :: "policy_filters \<Rightarrow> policy_filters" where
  "onFilterDestructive f = setDestructiveOnly (\<not> pu_destructiveOnly (pl_ui f)) f"

definition click_tile :: "string \<Rightarrow> policy_filters \<Rightarrow> policy_filters" where
  "click_tile key f =
     (if key = ''total'' then clearAllFilters f
      else if key = ''active'' then onFilterActive f
      else if key = ''inactive'' then onFilterInactive f
      else if key = ''destructive'' then onFilterDestructive f else f)"

section \<open>PoliciesFilterBar.tsx\<close>

definition core_types :: "string list" where
  "core_types = filter (\<lambda>rt. rt \<noteq> ''*'') AUTHORIZATION_RESOURCE_TYPES"

text \<open>Types that only the data knows come after the built-in ones, sorted.\<close>

definition fork_types :: "string list \<Rightarrow> string list" where
  "fork_types known = js_sort code_order (filter (\<lambda>rt. rt \<notin> set core_types) known)"

definition action_type :: "string \<Rightarrow> string" where
  "action_type action = hd (split_on (CHR '':'') action)"

definition actions_by_type :: "policy list option \<Rightarrow> (string, string list) omap" where
  "actions_by_type policies =
     map (\<lambda>(rt, as). (rt, js_set as)) (group_list action_type (concat (map pol_actions (nullish policies []))))"

text \<open>The groups of the action filter: type, label and options, an option being the action, its label
  and whether it is destructive.\<close>

definition action_filter_groups ::
  "translator \<Rightarrow> policy list option \<Rightarrow> (string \<times> string \<times> (string \<times> string \<times> bool) list) list" where
  "action_filter_groups tr policies =
     (let byResourceType = actions_by_type policies in
      filter (\<lambda>(rt, lbl, opts). opts \<noteq> [])
        (map (\<lambda>rt. (rt, formatResourceTypeLabel rt (tr_text tr ''policies:page.allResourceTypes'' []),
             map (\<lambda>a. (a, formatPolicyActionLabel a, isDestructiveAction a))
               (js_sort code_order (nullish (om_get byResourceType rt) []))))
           (core_types @ fork_types (om_keys byResourceType))))"

text \<open>The options of the resource type filter, with the number of policies of each type.\<close>

definition type_count :: "policy list option \<Rightarrow> string \<Rightarrow> nat" where
  "type_count policies rt = length (filter (\<lambda>p. pol_resource_type p = rt) (nullish policies []))"

definition type_label :: "translator \<Rightarrow> policy list option \<Rightarrow> string \<Rightarrow> string" where
  "type_label tr policies rt =
     (let cnt = type_count policies rt;
          label = formatResourceTypeLabel rt (tr_text tr ''policies:page.allResourceTypes'' [])
      in if cnt \<noteq> 0 then label @ '' ('' @ tr_text tr ''policies:page.resourceTypePolicyCount'' [(''count'', JNum (int cnt))] @ '')''
         else label)"

definition resource_type_filter :: "translator \<Rightarrow> policy list option \<Rightarrow> (string \<times> string) list" where
  "resource_type_filter tr policies =
     (ALL_VALUE, tr_text tr ''policies:page.allResourceTypes'' [])
     # map (\<lambda>rt. (rt, type_label tr policies rt))
         (core_types @ fork_types (js_set (map pol_resource_type (nullish policies []))))"

definition status_filter :: "translator \<Rightarrow> (string \<times> string) list" where
  "status_filter tr = [(ALL_VALUE, tr_text tr ''policies:page.allStatuses'' []), (''true'', tr_text tr ''ui_text:active'' []),
     (''false'', tr_text tr ''ui_text:inactive'' [])]"

definition policy_chips :: "translator \<Rightarrow> policy_filters \<Rightarrow> policy_filters chip list" where
  "policy_chips tr f =
     (let ui = pl_ui f in
      (if pl_search f \<noteq> [] then [\<lparr>ch_key = ''search'', ch_label = ''Search: '' @ pl_search f, ch_clear = setPolicySearch []\<rparr>] else [])
      @ (if pu_resourceType ui \<noteq> ALL_VALUE
         then [\<lparr>ch_key = ''resource-type'',
                ch_label = tr_text tr ''policies:page.filterByResourceType'' [] @ '': ''
                  @ formatResourceTypeLabel (pu_resourceType ui) (tr_text tr ''policies:page.allResourceTypes'' []),
                ch_clear = PoliciesPage.setResourceType ALL_VALUE\<rparr>] else [])
      @ (if pu_status ui \<noteq> ALL_VALUE
         then [\<lparr>ch_key = ''status'',
                ch_label = tr_text tr (if pu_status ui = ''true'' then ''ui_text:active'' else ''ui_text:inactive'') [],
                ch_clear = setPolicyStatus ALL_VALUE\<rparr>] else [])
      @ (if pu_containsAction ui \<noteq> ALL_VALUE
         then [\<lparr>ch_key = ''action'',
                ch_label = tr_text tr ''policies:page.filterByAction'' [] @ '': '' @ formatPolicyActionLabel (pu_containsAction ui),
                ch_clear = setContainsAction ALL_VALUE\<rparr>] else [])
      @ (if pu_destructiveOnly ui
         then [\<lparr>ch_key = ''destructive'', ch_label = tr_text tr ''policies:statsCard.destructive'' [],
                ch_clear = setDestructiveOnly False\<rparr>] else []))"

definition bar_clearFilters :: "policy_filters \<Rightarrow> policy_filters" where
  "bar_clearFilters f = setDestructiveOnly False (setContainsAction ALL_VALUE (setPolicyStatus ALL_VALUE
     (PoliciesPage.setResourceType ALL_VALUE (setPolicySearch [] f))))"

section \<open>The list\<close>

text \<open>\<open>displayIsError\<close> and the two uses the content makes of it.\<close>

definition displayIsError :: "bool \<Rightarrow> policy list option \<Rightarrow> bool" where
  "displayIsError isError data \<longleftrightarrow> isError \<and> data = None"

definition refresh_warning :: "bool \<Rightarrow> policy list option \<Rightarrow> bool" where
  "refresh_warning isError data \<longleftrightarrow> displayIsError isError data \<and> data \<noteq> None"

datatype policies_body = Restricted | BodyLoading | BodyError | BodyEmpty string bool bool
  | BodyGroups "(string \<times> nat \<times> policy list) list"

text \<open>An empty list has its message, whether it offers to clear the filters, and to create a policy.\<close>

definition empty_message :: "translator \<Rightarrow> policy_filters \<Rightarrow> string" where
  "empty_message tr f = tr_text tr
     (if pl_search f \<noteq> [] then ''policies:page.noPoliciesMatchSearch''
      else if hasSearchOrFilters f then ''policies:page.noPoliciesMatchFilters'' else ''policies:page.noPoliciesYet'') []"

definition group_heading :: "translator \<Rightarrow> string \<Rightarrow> nat \<Rightarrow> string" where
  "group_heading tr rt n =
     formatResourceTypeLabel rt (tr_text tr ''policies:page.allResourceTypes'' []) @ '' ('' @ show_nat n @ '')''"

definition policies_body ::
  "translator \<Rightarrow> (string \<Rightarrow> string \<Rightarrow> int) \<Rightarrow> auth_state \<Rightarrow> bool \<Rightarrow> bool \<Rightarrow> policy list option \<Rightarrow> policy_filters
     \<Rightarrow> policies_page \<Rightarrow> policies_body" where
  "policies_body tr lc a isLoading isError serverPolicies f pg =
     (let filteredPolicies = nullish (shown_policies serverPolicies pg) [] in
      if \<not> useCan a (OneAction ''policies:read'') None then Restricted
      else if isLoading then BodyLoading
      else if displayIsError isError serverPolicies then BodyError
      else if filteredPolicies = [] then BodyEmpty (empty_message tr f) (hasSearchOrFilters f)
        (\<not> hasSearchOrFilters f \<and> if_can a (OneAction ''policies:create''))
      else BodyGroups (map (\<lambda>(rt, ps). (group_heading tr rt (length ps), length ps, ps))
        (groupPoliciesByResourceType lc filteredPolicies)))"

definition expand_disabled :: "policy list option \<Rightarrow> policies_page \<Rightarrow> bool" where
  "expand_disabled shown pg \<longleftrightarrow> allOpen shown pg \<or> nullish shown [] = []"

definition collapse_disabled :: "policies_page \<Rightarrow> bool" where
  "collapse_disabled pg \<longleftrightarrow> pp_openNames pg = []"

section \<open>PolicyCard.tsx\<close>

text \<open>The controls of a card: \<open>None\<close> when a control is not rendered, else whether it can be used.\<close>

record policy_card =
  pc_open :: bool
  pc_destructive :: nat
  pc_holders :: nat
  pc_editBtn :: "bool option"
  pc_switch :: "bool option"
  pc_deleteBtn :: "bool option"

definition isProtectedPolicy :: "policy \<Rightarrow> bool" where
  "isProtectedPolicy p \<longleftrightarrow> pol_name p \<in> set PROTECTED_POLICY_NAMES"

definition canManageCurrentGrant :: "auth_state \<Rightarrow> policy \<Rightarrow> bool" where
  "canManageCurrentGrant a p = canGrantPolicy (pol_actions p) (\<lambda>act. can a (OneAction act))"

definition policy_card :: "auth_state \<Rightarrow> string option \<Rightarrow> policies_page \<Rightarrow> policy \<Rightarrow> policy_card" where
  "policy_card a togglingName pg p =
     (let updates = if_can a (OneAction ''policies:update'') in
      \<lparr>pc_open = pol_name p \<in> set (pp_openNames pg),
       pc_destructive = length (filter isDestructiveAction (pol_actions p)),
       pc_holders = nullish (pol_holder_count p) 0,
       pc_editBtn = (if updates then Some (\<not> isProtectedPolicy p) else None),
       pc_switch = (if updates
         then Some (\<not> (isProtectedPolicy p \<or> \<not> canManageCurrentGrant a p \<or> togglingName = Some (pol_name p))) else None),
       pc_deleteBtn = (if \<not> pol_is_active p \<and> if_can a (OneAction ''policies:delete'')
         then Some (\<not> (isProtectedPolicy p \<or> \<not> canManageCurrentGrant a p)) else None)\<rparr>)"

text \<open>The tooltip of the switch.\<close>

definition switch_tooltip :: "translator \<Rightarrow> auth_state \<Rightarrow> policy \<Rightarrow> string" where
  "switch_tooltip tr a p = tr_text tr
     (if pol_name p = ''system_superuser'' then ''policies:columns.systemSuperuserAlwaysActive''
      else if isProtectedPolicy p then ''policies:columns.cannotModifyBaselinePolicy''
      else if \<not> canManageCurrentGrant a p then ''policies:columns.cannotManageGrantWithoutActions''
      else if pol_is_active p then ''policies:columns.deactivate'' else ''policies:columns.activate'') []"

section \<open>Deleting\<close>

text \<open>The holders of the policy to delete, as the page's query has them.\<close>

record holders_query =
  hq_data :: "policy_holder list option"
  hq_isLoading :: bool
  hq_isError :: bool

definition delete_description :: "translator \<Rightarrow> holders_query \<Rightarrow> policy option \<Rightarrow> string" where
  "delete_description tr q deleting =
     (let named = [(''policyName'', case deleting of None \<Rightarrow> JUndef | Some p \<Rightarrow> JStr (pol_name p))];
          plain = tr_text tr ''policies:page.deleteDialogDescription'' named in
      if hq_isLoading q then tr_text tr ''policies:page.deleteDialogLoadingHolders'' named
      else if hq_isError q then tr_text tr ''policies:page.deleteDialogHoldersError'' []
      else if nullish (hq_data q) [] \<noteq> []
      then plain @ '' '' @ tr_text tr ''policies:page.deleteDialogHolderNote''
             [(''count'', JNum (int (length (nullish (hq_data q) []))))]
      else plain)"




section \<open>Switches in quick succession\<close>

text \<open>One mutation serves every switch. The library keeps the variables of its latest call, and runs the
  callbacks handed to a call only when no later call has been made by the time of the answer; the
  mutation's own hooks run for each. A call is known by its number.\<close>

record switches =
  sw_page :: policies_page
  sw_calls :: nat
  sw_latest :: "policy option"
  sw_pending :: bool

definition togglingName :: "switches \<Rightarrow> string option" where
  "togglingName s = (if sw_pending s then map_option pol_name (sw_latest s) else None)"

definition switch_click :: "auth_state \<Rightarrow> policy \<Rightarrow> switches \<Rightarrow> switches" where
  "switch_click a p s =
     (if pc_switch (policy_card a (togglingName s) (sw_page s) p) = Some True
      then \<lparr>sw_page = toggle_click p (sw_page s), sw_calls = sw_calls s + 1, sw_latest = Some p, sw_pending = True\<rparr> else s)"

definition switch_answer :: "translator \<Rightarrow> nat \<Rightarrow> policy \<Rightarrow> policy outcome \<Rightarrow> switches \<Rightarrow> switches" where
  "switch_answer tr k p answer s =
     (if k = sw_calls s then s\<lparr>sw_page := toggle_answered tr p answer (sw_page s), sw_pending := False\<rparr>
      else s\<lparr>sw_page := snd (page_mutate tr (toggle_update p (\<not> pol_is_active p)) answer (sw_page s))\<rparr>)"

section \<open>Lemmas\<close>

lemma fork_types_in [simp]: "set (fork_types known) = set known - set core_types"
  by (auto simp: fork_types_def)

lemma fork_types_distinct: "distinct known \<Longrightarrow> distinct (core_types @ fork_types known)"
proof -
  assume "distinct known"
  then have "distinct (filter (\<lambda>rt. rt \<notin> set core_types) known)" by simp
  then have "distinct (fork_types known)"
    by (simp add: fork_types_def mset_eq_imp_distinct_iff [OF mset_js_sort])
  moreover have "distinct core_types" by (simp add: core_types_def AUTHORIZATION_RESOURCE_TYPES_def)
  ultimately show ?thesis by auto
qed

lemma actions_by_type_get:
  "nullish (om_get (actions_by_type ps) rt) [] =
     js_set (filter (\<lambda>a. action_type a = rt) (concat (map pol_actions (nullish ps []))))"
proof -
  have "om_get (map (\<lambda>(k, v). (k, g v)) m) rt = map_option g (om_get m rt)" for g :: "string list \<Rightarrow> string list" and m
    by (induction m) (auto simp: om_get_def)
  moreover have "filter (\<lambda>a. action_type a = rt) xs = []" if "rt \<notin> action_type ` set xs" for xs
    using that by (auto simp: filter_empty_conv)
  ultimately show ?thesis
    by (simp add: actions_by_type_def group_list_get nullish_def del: set_concat set_map)
qed

lemma actions_by_type_keys: "om_keys (actions_by_type ps) = js_set (map action_type (concat (map pol_actions (nullish ps []))))"
proof -
  have "om_keys (actions_by_type ps) = om_keys (group_list action_type (concat (map pol_actions (nullish ps []))))"
    by (simp add: actions_by_type_def om_keys_def case_prod_beta)
  then show ?thesis by simp
qed

lemma concat_nonempty: "concat (map f (filter (\<lambda>x. f x \<noteq> []) xs)) = concat (map f xs)"
  by (induction xs) auto

lemma filter_offers:
  "map fst (concat (map (\<lambda>(rt, lbl, opts). opts) (action_filter_groups tr ps))) =
     concat (map (\<lambda>rt. js_sort code_order (js_set (filter (\<lambda>a. action_type a = rt) (concat (map pol_actions (nullish ps []))))))
       (core_types @ fork_types (om_keys (actions_by_type ps))))"
proof -
  have "map fst (concat (map (\<lambda>(rt, lbl, opts). opts) (filter (\<lambda>(rt, lbl, opts). opts \<noteq> []) (map (\<lambda>rt. (rt, l rt, map (\<lambda>a. (a, g a, d a)) (h rt))) xs))))
      = concat (map h xs)" for l g d and h :: "string \<Rightarrow> string list" and xs :: "string list"
    by (induction xs) (simp_all add: comp_def)
  then show ?thesis unfolding action_filter_groups_def Let_def actions_by_type_get .
qed

lemma distinct_concat_keyed:
  assumes "distinct xs" "\<And>x. distinct (h x)" "\<And>x a. a \<in> set (h x) \<Longrightarrow> k a = x"
  shows "distinct (concat (map h xs))"
  using assms(1)
proof (induction xs)
  case (Cons x xs)
  have "set (h x) \<inter> set (h y) = {}" if "y \<in> set xs" for y
    using that Cons.prems assms(3) [of _ x] assms(3) [of _ y] by auto
  with Cons show ?case using assms(2) [of x] by auto
qed simp

lemma filter_row_simps [simp]:
  "pl_search (setPolicySearch v f) = v" "pl_ui (setPolicySearch v f) = (pl_ui f)\<lparr>pu_search := v\<rparr>"
  "pl_search (PoliciesPage.setResourceType v f) = pl_search f"
  "pl_ui (PoliciesPage.setResourceType v f) = (pl_ui f)\<lparr>pu_resourceType := v\<rparr>"
  "pl_search (setPolicyStatus v f) = pl_search f" "pl_ui (setPolicyStatus v f) = (pl_ui f)\<lparr>pu_status := v\<rparr>"
  "pl_search (setContainsAction v f) = pl_search f" "pl_ui (setContainsAction v f) = (pl_ui f)\<lparr>pu_containsAction := v\<rparr>"
  "pl_search (setDestructiveOnly b f) = pl_search f" "pl_ui (setDestructiveOnly b f) = (pl_ui f)\<lparr>pu_destructiveOnly := b\<rparr>"
  by (simp_all add: setPolicySearch_def PoliciesPage.setResourceType_def setPolicyStatus_def setContainsAction_def
      setDestructiveOnly_def)

section \<open>Properties\<close>

text \<open>The action filter offers what the policies grant: every action of some policy, under its resource
  prefix, exactly once, also for types the application does not know; and nothing else.\<close>

theorem action_filter_complete:
  "let offered = map fst (concat (map (\<lambda>(rt, lbl, opts). opts) (action_filter_groups tr policies))) in
     set offered = (\<Union>p\<in>set (nullish policies []). set (pol_actions p)) \<and> distinct offered"
proof -
  let ?acts = "concat (map pol_actions (nullish policies []))"
  let ?h = "\<lambda>rt. js_sort code_order (js_set (filter (\<lambda>a. action_type a = rt) ?acts))"
  let ?rts = "core_types @ fork_types (om_keys (actions_by_type policies))"
  have "distinct ?rts" by (rule fork_types_distinct) (simp add: actions_by_type_keys)
  then have "distinct (concat (map ?h ?rts))"
    by (rule distinct_concat_keyed [where k = action_type]) simp_all
  moreover have "action_type ` set ?acts \<subseteq> set ?rts" by (auto simp: actions_by_type_keys)
  then have "set (concat (map ?h ?rts)) = set ?acts" by auto
  ultimately show ?thesis unfolding filter_offers Let_def by simp
qed

text \<open>The chips of the policies page are its filters: clearing every chip, clearing the bar and clearing
  from the empty list are the same, and there is no chip exactly when there is nothing to clear.\<close>

theorem policy_chips_are_filters:
  assumes "pl_search f = pu_search (pl_ui f)"
  shows "clear_all_chips (policy_chips tr f) f = clearAllFilters f \<and> bar_clearFilters f = clearAllFilters f
   \<and> (policy_chips tr f = [] \<longleftrightarrow> \<not> hasSearchOrFilters f) \<and> distinct (map ch_key (policy_chips tr f))"
proof -
  obtain s d rt st ca de where f: "f = \<lparr>pl_search = s, pl_debounced = d,
      pl_ui = \<lparr>pu_search = s, pu_resourceType = rt, pu_status = st, pu_containsAction = ca, pu_destructiveOnly = de\<rparr>\<rparr>"
    using assms by (cases f; cases "pl_ui f") simp
  have "clear_all_chips (policy_chips tr f) f = clearAllFilters f"
    by (simp add: f clear_all_chips_def policy_chips_def Let_def clearAllFilters_def setPolicySearch_def
        PoliciesPage.setResourceType_def setPolicyStatus_def setContainsAction_def setDestructiveOnly_def)
  then show ?thesis
    by (simp add: f policy_chips_def Let_def hasSearchOrFilters_def bar_clearFilters_def clearAllFilters_def)
qed

lemma policy_chips_are_filters_witness:
  "let f = setPolicyStatus ''true'' (mount_policy_filters [] initial_policies_ui);
       tr = \<lparr>tr_exists = \<lambda>_. True, tr_text = \<lambda>k _. k\<rparr> in
   map ch_key (policy_chips tr f) = [''status''] \<and> clear_all_chips (policy_chips tr f) f = clearAllFilters f"
proof -
  let ?f = "setPolicyStatus ''true'' (mount_policy_filters [] initial_policies_ui)"
  have "pl_search ?f = pu_search (pl_ui ?f)" by code_simp
  from policy_chips_are_filters [OF this, THEN conjunct1, of "\<lparr>tr_exists = \<lambda>_. True, tr_text = \<lambda>k _. k\<rparr>"]
  show ?thesis unfolding Let_def by (intro conjI) (code_simp, assumption)
qed

text \<open>A pressed status tile is not the filter it says. A click on the tile of the active (or inactive)
  policies presses it and clears the search, the type and the destructive filter, but the action filter stays:
  the list is still asked for with it, while the tile counts every policy of that status. The tile of all
  policies is pressed only with no filter at all, and clicking it makes it so; the destructive tile toggles.\<close>

theorem tile_keeps_action_filter:
  "PoliciesPage.activeTile (click_tile ''active'' f) = Some ''active'' \<and>
   PoliciesPage.activeTile (click_tile ''inactive'' f) = Some ''inactive'' \<and>
   pu_containsAction (pl_ui (click_tile ''active'' f)) = pu_containsAction (pl_ui f) \<and>
   (let f' = click_tile ''active'' f\<lparr>pl_debounced := []\<rparr> in
      policies_page_query a f' page = usePoliciesListQuery page POLICIES_PAGE_SIZE
        \<lparr>lp_limit = None, lp_offset = None, lp_search = Some [], lp_resource_type = None, lp_is_active = Some True,
         lp_contains_action = or_undefined (pu_containsAction (pl_ui f)), lp_destructive_only = Some False,
         lp_sort_by = Some ''name'', lp_sort_dir = Some Asc\<rparr> (useCan a (OneAction ''policies:read'') None)) \<and>
   PoliciesPage.activeTile (click_tile ''total'' f) = Some ''total'' \<and> \<not> hasSearchOrFilters (click_tile ''total'' f) \<and>
   (PoliciesPage.activeTile (click_tile ''destructive'' f) = Some ''destructive'') = (\<not> pu_destructiveOnly (pl_ui f))"
proof -
  have clear: "\<not> hasSearchOrFilters (clearAllFilters f)" by (simp add: hasSearchOrFilters_def clearAllFilters_def)
  have status: "PoliciesPage.activeTile (onFilterStatus v f) = Some (if v = ''true'' then ''active'' else ''inactive'')"
    if "v = ''true'' \<or> v = ''false''" for v
    using that by (auto simp: onFilterStatus_def PoliciesPage.activeTile_def ALL_VALUE_def Let_def)
  have total: "PoliciesPage.activeTile (clearAllFilters f) = Some ''total''"
    using clear by (simp add: PoliciesPage.activeTile_def clearAllFilters_def Let_def ALL_VALUE_def)
  have query: "pl_ui (onFilterActive f\<lparr>pl_debounced := []\<rparr>) = \<lparr>pu_search = [], pu_resourceType = ALL_VALUE,
      pu_status = ''true'', pu_containsAction = pu_containsAction (pl_ui f), pu_destructiveOnly = False\<rparr>"
    by (cases "pl_ui f") (simp add: onFilterActive_def onFilterStatus_def)
  have destr: "PoliciesPage.activeTile g = Some ''destructive'' \<longleftrightarrow> pu_destructiveOnly (pl_ui g)" for g
    by (simp add: PoliciesPage.activeTile_def Let_def)
  have keeps: "pu_containsAction (pl_ui (onFilterActive f)) = pu_containsAction (pl_ui f)"
    by (simp add: onFilterActive_def onFilterStatus_def)
  have clicks: "click_tile ''active'' f = onFilterActive f" "click_tile ''inactive'' f = onFilterInactive f"
    "click_tile ''total'' f = clearAllFilters f" "click_tile ''destructive'' f = onFilterDestructive f"
    by (simp_all add: click_tile_def)
  have "policies_page_query a (onFilterActive f\<lparr>pl_debounced := []\<rparr>) page = usePoliciesListQuery page POLICIES_PAGE_SIZE
        \<lparr>lp_limit = None, lp_offset = None, lp_search = Some [], lp_resource_type = None, lp_is_active = Some True,
         lp_contains_action = or_undefined (pu_containsAction (pl_ui f)), lp_destructive_only = Some False,
         lp_sort_by = Some ''name'', lp_sort_dir = Some Asc\<rparr> (useCan a (OneAction ''policies:read'') None)"
    unfolding policies_page_query_def query by (simp add: toBoolFilter_def or_undefined_def ALL_VALUE_def)
  then show ?thesis
    unfolding clicks destr using clear total status [of "''true''"] status [of "''false''"] keeps
    by (simp add: onFilterActive_def onFilterInactive_def onFilterDestructive_def Let_def)
qed

text \<open>A failed refresh is never told. The warning of the page needs both an error without data and data;
  with a list at hand the page shows the same whether or not the refresh failed.\<close>

theorem refresh_failure_untold:
  "\<not> refresh_warning isError data \<and>
   policies_body tr lc a isLoading True (Some ps) f pg = policies_body tr lc a isLoading False (Some ps) f pg"
proof
  have no: "\<not> displayIsError e (Some ps)" for e by (simp add: displayIsError_def)
  show "\<not> refresh_warning isError data" by (cases data) (simp_all add: refresh_warning_def displayIsError_def)
  show "policies_body tr lc a isLoading True (Some ps) f pg = policies_body tr lc a isLoading False (Some ps) f pg"
    unfolding policies_body_def by (simp only: no)
qed



lemma page_mutate_deleting [simp]: "pp_deletingPolicy (snd (page_mutate tr m answer pg)) = pp_deletingPolicy pg"
  by (simp add: page_mutate_def case_prod_beta)

lemma add_toast_deleting [simp]: "pp_deletingPolicy (add_toast title k undo pg) = pp_deletingPolicy pg"
  by (simp add: add_toast_def)





definition mount_policies_page :: "app \<Rightarrow> policies_page" where
  "mount_policies_page s = \<lparr>pp_optimistic = [], pp_app = s, pp_toasts = [], pp_formOpen = False, pp_editingPolicy = None,
     pp_deletingPolicy = None, pp_viewingPolicy = None, pp_initialTab = ''details'', pp_openNames = []\<rparr>"

definition plain_texts :: translator where
  "plain_texts = \<lparr>tr_exists = \<lambda>_. True, tr_text = \<lambda>k _. k\<rparr>"

definition spare_policy :: "string \<Rightarrow> bool \<Rightarrow> policy" where
  "spare_policy n active = (sample_policy n [''policies:read''] ''policies'')\<lparr>pol_is_active := active\<rparr>"


text \<open>A refused switch can stay switched. When a second switch is used before the first is answered, the
  callbacks of the first call are never run: the server refuses the first change, the second succeeds, and the page
  goes on showing the first policy with the status the server refused, and tells nobody.\<close>

theorem refused_switch_stays:
  assumes "pol_name p \<noteq> pol_name q"
    "pc_switch (policy_card a (togglingName s) (sw_page s) p) = Some True"
    "pc_switch (policy_card a (Some (pol_name p)) (sw_page (switch_click a p s)) q) = Some True"
  shows "let s1 = switch_click a q (switch_click a p s);
             s2 = switch_answer tr (sw_calls s + 1) p (Rejected e) s1;
             s3 = switch_answer tr (sw_calls s + 2) q (Fulfilled d) s2 in
     shown_policies (Some [p]) (sw_page s3) = Some [p\<lparr>pol_is_active := \<not> pol_is_active p\<rparr>] \<and>
     pp_toasts (sw_page s2) = pp_toasts (sw_page s) \<and> \<not> sw_pending s3"
proof -
  have tog: "togglingName (switch_click a p s) = Some (pol_name p)"
    using assms(2) by (simp add: switch_click_def togglingName_def)
  have mut: "pp_toasts (snd (page_mutate tr m ans pg)) = pp_toasts pg" for m :: "policy mutation" and ans pg
    by (simp add: page_mutate_def case_prod_beta)
  show ?thesis
    using assms(1,2) assms(3) [folded tog]
    by (simp add: switch_click_def [of a q] Let_def)
      (simp add: switch_click_def [of a p] switch_answer_def toggle_success_optimistic mut shown_policies_def
        toggle_click_def setOptimisticActive_def)
qed

lemma refused_switch_stays_witness:
  "let a = signed_in [''policies:update'', ''policies:read'']; p = spare_policy ''reader'' True;
       s = \<lparr>sw_page = mount_policies_page initial_app, sw_calls = 0, sw_latest = None, sw_pending = False\<rparr>;
       s1 = switch_click a (spare_policy ''other'' True) (switch_click a p s);
       s2 = switch_answer plain_texts 1 p (Rejected (OtherError [])) s1;
       s3 = switch_answer plain_texts 2 (spare_policy ''other'' True) (Fulfilled (spare_policy ''other'' False)) s2 in
   shown_policies (Some [p]) (sw_page s3) = Some [p\<lparr>pol_is_active := False\<rparr>]"
proof -
  let ?a = "signed_in [''policies:update'', ''policies:read'']"
  let ?s = "\<lparr>sw_page = mount_policies_page initial_app, sw_calls = 0, sw_latest = None, sw_pending = False\<rparr>"
  let ?p = "spare_policy ''reader'' True" and ?q = "spare_policy ''other'' True"
  have n: "pol_name ?p \<noteq> pol_name ?q" by code_simp
  have c1: "pc_switch (policy_card ?a (togglingName ?s) (sw_page ?s) ?p) = Some True" by code_simp
  have c2: "pc_switch (policy_card ?a (Some (pol_name ?p)) (sw_page (switch_click ?a ?p ?s)) ?q) = Some True" by code_simp
  have on: "\<not> pol_is_active ?p \<longleftrightarrow> False" "sw_calls ?s + 1 = 1" "sw_calls ?s + 2 = 2" by (simp_all add: spare_policy_def)
  from refused_switch_stays [OF n c1 c2, of plain_texts "OtherError []" "spare_policy ''other'' False"]
  show ?thesis unfolding Let_def on by blast
qed

end
