(* ===== verification/PolicyDialogs.thy ===== *)
theory PolicyDialogs
  imports PoliciesView Urls
begin

text \<open>
  The dialogs of a policy (\<open>policies/dialogs/PolicyDetailsDialog.tsx\<close>, \<open>PolicyDialogTabs.tsx\<close>,
  \<open>PolicyHistorySection.tsx\<close>, \<open>PolicyActionGrid.tsx\<close>, and the embedding of \<open>PolicyFormDialog.tsx\<close>), and
  the screen they make up with the page: which tab is shown, when the editor is mounted and with what, what
  leaves it, what a save or a single toggled action does to it, and what the details say meanwhile.
  The form itself is that of theory \<open>PolicyForm\<close>, the page that of theory \<open>PoliciesPage\<close>. A step that
  sends a request carries its answer; the buttons a pending save disables are not pressed meanwhile.
\<close>

section \<open>PolicyDetailsDialog.tsx\<close>

definition humanizeConditionKey :: "string \<Rightarrow> string" where
  "humanizeConditionKey key = (let label = trim (blank_seps key) in if label \<noteq> [] then capitalize label else key)"

fun readableConditionValue :: "json \<Rightarrow> string" where
  "readableConditionValue JUndef = ''-''"
| "readableConditionValue JNull = ''-''"
| "readableConditionValue (JBool b) = (if b then ''Yes'' else ''No'')"
| "readableConditionValue (JArr vs) = (if vs \<noteq> [] then join '', '' (map readableConditionValue vs) else ''-'')"
| "readableConditionValue (JObj kvs) =
     join [CHR 0x0A] (map (\<lambda>kv. humanizeConditionKey (fst kv) @ '': '' @ readableConditionValue (snd kv)) kvs)"
| "readableConditionValue (JNum n) = show_int n"
| "readableConditionValue (JStr s) = s"

definition condition_rows :: "policy \<Rightarrow> (string \<times> string) list option" where
  "condition_rows p = map_option (map (\<lambda>(k, v). (humanizeConditionKey k, readableConditionValue v))) (pol_conditions p)"

text \<open>The dialog's state: its tab, the key it was last reset for, and the embedded editor while it is mounted.\<close>

record details_dialog =
  dd_activeTab :: string
  dd_previousKey :: string
  dd_form :: "policy_form option"

definition details_mount :: details_dialog where
  "details_mount = \<lparr>dd_activeTab = ''details'', dd_previousKey = [], dd_form = None\<rparr>"

definition details_key :: "policies_page \<Rightarrow> string" where
  "details_key pg = bool_name (pp_viewingPolicy pg \<noteq> None) @ '':'' @ nullish (map_option pol_name (pp_viewingPolicy pg)) [] @ '':''
     @ pp_initialTab pg"

definition effectiveTab :: "bool \<Rightarrow> policy \<Rightarrow> details_dialog \<Rightarrow> string" where
  "effectiveTab canEdit p d =
     (if dd_activeTab d = ''edit'' \<and> canEdit \<and> \<not> isProtectedPolicy p then ''edit'' else ''details'')"

text \<open>One render. The editor is mounted afresh whenever the edit tab comes to be shown, and its state is
  gone when another tab, or nothing, is.\<close>

definition render_details ::
  "(fields \<Rightarrow> string) \<Rightarrow> bool \<Rightarrow> policies_page \<Rightarrow> details_dialog \<Rightarrow> details_dialog" where
  "render_details pretty canEdit pg d =
     (let d1 = (if details_key pg \<noteq> dd_previousKey d
                then d\<lparr>dd_previousKey := details_key pg, dd_activeTab := pp_initialTab pg\<rparr> else d)
      in d1\<lparr>dd_form := (case pp_viewingPolicy pg of None \<Rightarrow> None
           | Some p \<Rightarrow> if effectiveTab canEdit p d1 = ''edit''
                        then Some (render_form pretty True (Some p) (nullish (dd_form d1) blank_form)) else None)\<rparr>)"

text \<open>The notice of the details tab, for a page that passes the editor's handlers.\<close>

definition authorization_notice :: "bool \<Rightarrow> policies_page \<Rightarrow> details_dialog \<Rightarrow> bool" where
  "authorization_notice canEdit pg d \<longleftrightarrow>
     (case pp_viewingPolicy pg of None \<Rightarrow> False | Some p \<Rightarrow> effectiveTab canEdit p d = ''details'' \<and> \<not> canEdit)"

text \<open>The link to the holders.\<close>

definition policy_holders_href :: "policy \<Rightarrow> string" where
  "policy_holders_href p = ''/users?policy='' @ encodeURIComponent (pol_name p)"

definition holders_link :: "auth_state \<Rightarrow> policy \<Rightarrow> string option" where
  "holders_link a p = (if if_can a (OneAction ''users:list_all'') then Some (policy_holders_href p) else None)"

section \<open>PolicyDialogTabs.tsx\<close>

definition dialog_tabs :: "bool \<Rightarrow> string list" where
  "dialog_tabs showEdit = (if showEdit then [''details'', ''edit''] else [''details''])"

text \<open>What choosing a tab does to the dialog; the edit tab is disabled for a protected policy.\<close>

definition activate_tab :: "bool \<Rightarrow> bool \<Rightarrow> string \<Rightarrow> details_dialog \<Rightarrow> details_dialog" where
  "activate_tab showEdit editDisabled tab d =
     (if tab \<notin> set (dialog_tabs showEdit) then d
      else if tab = ''details'' then d\<lparr>dd_activeTab := ''details''\<rparr>
      else if \<not> editDisabled then d\<lparr>dd_activeTab := ''edit''\<rparr> else d)"

definition tab_key :: "bool \<Rightarrow> bool \<Rightarrow> string \<Rightarrow> string \<Rightarrow> details_dialog \<Rightarrow> details_dialog" where
  "tab_key showEdit editDisabled key current d =
     (let tabs = dialog_tabs showEdit in
      case activateByKeyboard (length tabs) key (if current = ''edit'' then 1 else 0) of
        None \<Rightarrow> d | Some i \<Rightarrow> activate_tab showEdit editDisabled (tabs ! i) d)"

section \<open>PolicyActionGrid.tsx\<close>

datatype grid_filter = GridAll | GridSelected | GridDestructive

record action_grid =
  ag_search :: string
  ag_quick :: grid_filter

definition grid_shown :: "(string \<times> string) list \<Rightarrow> string list \<Rightarrow> action_grid \<Rightarrow> (string \<times> string) list" where
  "grid_shown options values g =
     (let q = to_lower (trim (ag_search g)) in
      filter (\<lambda>(v, label).
          if q \<noteq> [] \<and> \<not> contains (to_lower label) q then False
          else (case ag_quick g of GridSelected \<Rightarrow> v \<in> set values | GridDestructive \<Rightarrow> isDestructiveAction v | GridAll \<Rightarrow> True))
        options)"

definition grid_count :: "(string \<times> string) list \<Rightarrow> string list \<Rightarrow> grid_filter \<Rightarrow> nat" where
  "grid_count options values q =
     (case q of GridAll \<Rightarrow> length options
      | GridSelected \<Rightarrow> length (filter (\<lambda>v. v \<in> fst ` set options) values)
      | GridDestructive \<Rightarrow> length (filter (\<lambda>o'. isDestructiveAction (fst o')) options))"

datatype grid_view = PickTypeFirst | NoActionsForType | NothingMatches | GridRows "(string \<times> string \<times> bool \<times> bool) list"

text \<open>A row has its action, its label, whether it is marked destructive, and its switch.\<close>

definition grid_view :: "bool \<Rightarrow> (string \<times> string) list \<Rightarrow> string list \<Rightarrow> action_grid \<Rightarrow> grid_view" where
  "grid_view disabled options values g =
     (if disabled then PickTypeFirst
      else if options = [] then NoActionsForType
      else if grid_shown options values g = [] then NothingMatches
      else GridRows (map (\<lambda>(v, label). (v, label, isDestructiveAction v, v \<in> set values)) (grid_shown options values g)))"

section \<open>PolicyHistorySection.tsx\<close>

definition HISTORY_PAGE_SIZE :: nat where
  "HISTORY_PAGE_SIZE = 5"

definition describeChange :: "translator \<Rightarrow> policy_history_entry \<Rightarrow> string" where
  "describeChange tr e =
     (if ph_change_type e = ''created'' then tr_text tr ''policies:detailsDialog.changeCreated'' []
      else if ph_change_type e = ''deleted'' then tr_text tr ''policies:detailsDialog.changeDeleted'' []
      else if ph_change_type e = ''rolled_back'' then tr_text tr ''policies:detailsDialog.changeRolledBack'' []
      else if nullish (ph_changed_fields e) [] \<noteq> []
      then tr_text tr ''policies:detailsDialog.changeUpdatedFields''
             [(''fields'', JStr (join '', '' (nullish (ph_changed_fields e) [])))]
      else tr_text tr ''policies:detailsDialog.changeUpdatedGeneric'' [])"

record history_section =
  hs_page :: nat
  hs_rollbackEntry :: "policy_history_entry option"
  hs_prevKey :: string
  hs_pending :: bool
  hs_error :: "string option"

definition history_mount :: "string \<Rightarrow> history_section" where
  "history_mount resetKey = \<lparr>hs_page = 1, hs_rollbackEntry = None, hs_prevKey = resetKey, hs_pending = False, hs_error = None\<rparr>"

definition history_render :: "string \<Rightarrow> history_section \<Rightarrow> history_section" where
  "history_render resetKey h =
     (if resetKey \<noteq> hs_prevKey h then h\<lparr>hs_prevKey := resetKey, hs_page := 1, hs_rollbackEntry := None\<rparr> else h)"

datatype history_body = HistoryLoading | HistoryFailed | NoHistory | HistoryRows "(string \<times> string \<times> bool option) list" int

text \<open>A row has its line, who made the change, and its rollback button (if any, whether it can be used).\<close>

definition history_rows ::
  "translator \<Rightarrow> bool \<Rightarrow> bool \<Rightarrow> history_section \<Rightarrow> policy_history_entry list \<Rightarrow> (string \<times> string \<times> bool option) list" where
  "history_rows tr canEdit isProtected h entries =
     map (\<lambda>e. (describeChange tr e, or_else (ph_changed_by e) (tr_text tr ''policies:detailsDialog.changedBySystem'' []),
        if canEdit then Some (\<not> (isProtected \<or> hs_pending h)) else None)) entries"

definition history_body ::
  "translator \<Rightarrow> bool \<Rightarrow> bool \<Rightarrow> bool \<Rightarrow> bool \<Rightarrow> (policy_history_entry list \<times> nat) option \<Rightarrow> history_section \<Rightarrow> history_body" where
  "history_body tr canEdit isProtected isLoading isError history h =
     (let entries = nullish (map_option fst history) [] in
      if isLoading then HistoryLoading else if isError then HistoryFailed
      else if entries = [] then NoHistory
      else HistoryRows (history_rows tr canEdit isProtected h entries)
        (int (totalPages HISTORY_PAGE_SIZE (nullish (map_option snd history) 0))))"

datatype history_op = HistoryPage nat | ClickRollback policy_history_entry | CancelRollback | ConfirmRollback
  | RollbackAnswer "policy outcome"

text \<open>The second component is the identity of the entry a step asks the server to roll back to.\<close>

definition history_step ::
  "translator \<Rightarrow> bool \<Rightarrow> bool \<Rightarrow> history_op \<Rightarrow> history_section \<Rightarrow> history_section \<times> int option" where
  "history_step tr canEdit isProtected oper h =
     (case oper of
        HistoryPage n \<Rightarrow> (h\<lparr>hs_page := n\<rparr>, None)
      | ClickRollback e \<Rightarrow> (if canEdit \<and> \<not> (isProtected \<or> hs_pending h)
          then h\<lparr>hs_error := None, hs_rollbackEntry := Some e\<rparr> else h, None)
      | CancelRollback \<Rightarrow> (h\<lparr>hs_rollbackEntry := None\<rparr>, None)
      | ConfirmRollback \<Rightarrow> (case hs_rollbackEntry h of None \<Rightarrow> (h, None)
          | Some e \<Rightarrow> if confirm_enabled False (hs_pending h) then (h\<lparr>hs_pending := True, hs_error := None\<rparr>, Some (ph_id e)) else (h, None))
      | RollbackAnswer answer \<Rightarrow> (if \<not> hs_pending h then h
          else (case answer of Fulfilled _ \<Rightarrow> h\<lparr>hs_pending := False, hs_rollbackEntry := None\<rparr>
            | Rejected e \<Rightarrow> h\<lparr>hs_pending := False, hs_error := Some (extractApiErrorMessage tr e ''Failed to roll back policy'')\<rparr>), None))"

definition rollback_description :: "translator \<Rightarrow> string \<Rightarrow> history_section \<Rightarrow> string" where
  "rollback_description tr policyName h =
     nullish (hs_error h) (tr_text tr ''policies:detailsDialog.rollbackDescription'' [(''policyName'', JStr policyName)])"

section \<open>The screen\<close>

text \<open>The page, its details dialog, and the error of the last save (\<open>updateMutation.error\<close>).\<close>

record policy_screen =
  ps_page :: policies_page
  ps_dialog :: details_dialog
  ps_saveError :: "string option"

datatype screen_op =
    OpenDetails policy | OpenEditor policy          \<comment> \<open>the view and edit buttons of a card\<close>
  | TopTab string | TopKey string string            \<comment> \<open>a tab of the dialog, or a key on one of them\<close>
  | EscapeOrX | DetailsClose                        \<comment> \<open>leaving the dialog; the close button of the details\<close>
  | FormClose | FormDiscard | FormKeep              \<comment> \<open>the close button of the editor and its confirmation\<close>
  | FormTab form_tab | TypeName string | TypeDescription string | TypeConditions string | SwitchConditions bool
  | ChangeType "catalog_entry list option" string   \<comment> \<open>the resource type chosen, with the catalog loaded by then\<close>
  | ToggleAction string "policy outcome"
  | UndoType bool policy_form                       \<comment> \<open>Undo in the toast of a change of type\<close>
  | UndoToggle bool policy policy_form "string list" "policy outcome" \<comment> \<open>Undo in the toast of a toggle\<close>
  | SaveForm "policy outcome"
  | RolledBack int "policy outcome"

record screen_env =
  se_tr :: translator
  se_parse :: "string \<Rightarrow> json option"
  se_pretty :: "fields \<Rightarrow> string"
  se_auth :: auth_state

definition canEditPolicy :: "screen_env \<Rightarrow> bool" where
  "canEditPolicy env = useCan (se_auth env) (OneAction ''policies:update'') None"

text \<open>The two ways out of the editor that ask about unsaved edits, and the way out that the dialog has.\<close>

definition onFormClose :: "policy_screen \<Rightarrow> policy_screen" where
  "onFormClose s = s\<lparr>ps_page := openView None (closeForm (ps_page s)), ps_saveError := None\<rparr>"

definition take_exit :: "policy_form \<times> form_exit option \<Rightarrow> policy_screen \<Rightarrow> policy_screen" where
  "take_exit r s =
     (let s' = s\<lparr>ps_dialog := (ps_dialog s)\<lparr>dd_form := Some (fst r)\<rparr>\<rparr> in
      case snd r of None \<Rightarrow> s'
      | Some ExitClose \<Rightarrow> onFormClose s'
      | Some ExitDetails \<Rightarrow> s'\<lparr>ps_dialog := (ps_dialog s')\<lparr>dd_activeTab := ''details''\<rparr>\<rparr>)"

definition edit_form :: "(policy_form \<Rightarrow> policy_form) \<Rightarrow> policy_screen \<Rightarrow> policy_screen" where
  "edit_form g s = s\<lparr>ps_dialog := (ps_dialog s)\<lparr>dd_form := map_option g (dd_form (ps_dialog s))\<rparr>\<rparr>"

definition toggle_in_editor :: "translator \<Rightarrow> string \<Rightarrow> policy outcome \<Rightarrow> policy_screen \<Rightarrow> policy_screen" where
  "toggle_in_editor tr action answer s =
     (case dd_form (ps_dialog s) of None \<Rightarrow> s
      | Some f \<Rightarrow>
         (let actions = toggle_action action (pf_actions f);
              (f', pg) = actions_answered tr (pp_editingPolicy (ps_page s)) f actions answer
                (form_actions_change actions f, ps_page s)
          in s\<lparr>ps_page := pg, ps_dialog := (ps_dialog s)\<lparr>dd_form := Some f'\<rparr>\<rparr>))"

text \<open>The toasts outlive the editor that made them. Their Undo sets the state of that editor, which does something only
  while it is still the one that is mounted (\<open>live\<close>); \<open>snap\<close> is the form it remembers. The request of the Undo of a
  toggle is sent in any case.\<close>

definition change_type_in_editor ::
  "translator \<Rightarrow> catalog_entry list option \<Rightarrow> string \<Rightarrow> policy_screen \<Rightarrow> policy_screen" where
  "change_type_in_editor tr data value s =
     (case dd_form (ps_dialog s) of None \<Rightarrow> s
      | Some f \<Rightarrow>
         (let (f', note) = handleResourceTypeChange tr data value f; pg = ps_page s
          in s\<lparr>ps_page := pg\<lparr>pp_toasts := pp_toasts pg @ (case note of None \<Rightarrow> [] | Some n \<Rightarrow> [n])\<rparr>,
               ps_dialog := (ps_dialog s)\<lparr>dd_form := Some f'\<rparr>\<rparr>))"

definition undo_toggle_in_editor ::
  "translator \<Rightarrow> bool \<Rightarrow> policy \<Rightarrow> policy_form \<Rightarrow> string list \<Rightarrow> policy outcome \<Rightarrow> policy_screen \<Rightarrow> policy_screen" where
  "undo_toggle_in_editor tr live p snap actions answer s =
     (let f = nullish (dd_form (ps_dialog s)) blank_form;
          (f', pg) = actions_undo_answered tr p snap actions answer (actions_undo_click snap f, ps_page s)
      in s\<lparr>ps_page := pg, ps_dialog := (ps_dialog s)\<lparr>dd_form :=
           (if live then map_option (\<lambda>_. f') (dd_form (ps_dialog s)) else dd_form (ps_dialog s))\<rparr>\<rparr>)"

text \<open>The save button is on the basics tab, enabled by \<open>canSave\<close>.\<close>

definition save_in_editor :: "screen_env \<Rightarrow> policy outcome \<Rightarrow> policy_screen \<Rightarrow> policy_screen" where
  "save_in_editor env answer s =
     (case dd_form (ps_dialog s) of None \<Rightarrow> s
      | Some f \<Rightarrow> if pf_tab f \<noteq> TabBasics \<or> \<not> canSave (se_tr env) (se_parse env) f then s
         else (case handleSubmit (se_tr env) (se_parse env) f of
             (f', Submits v) \<Rightarrow> s\<lparr>ps_page := handleFormSubmit (se_tr env) v answer (ps_page s),
                 ps_dialog := (ps_dialog s)\<lparr>dd_form := Some f'\<rparr>,
                 ps_saveError := (case answer of Fulfilled _ \<Rightarrow> None
                   | Rejected e \<Rightarrow> Some (extractApiErrorMessage (se_tr env) e ''Failed to update policy''))\<rparr>
           | (f', _) \<Rightarrow> s\<lparr>ps_dialog := (ps_dialog s)\<lparr>dd_form := Some f'\<rparr>\<rparr>))"

definition choose_tab :: "screen_env \<Rightarrow> (bool \<Rightarrow> bool \<Rightarrow> details_dialog \<Rightarrow> details_dialog) \<Rightarrow> policy_screen \<Rightarrow> policy_screen" where
  "choose_tab env g s =
     (case pp_viewingPolicy (ps_page s) of None \<Rightarrow> s
      | Some p \<Rightarrow> s\<lparr>ps_dialog := g (canEditPolicy env) (isProtectedPolicy p) (ps_dialog s)\<rparr>)"

text \<open>A card is behind the dialog while the dialog is open.\<close>

definition screen_act :: "screen_env \<Rightarrow> screen_op \<Rightarrow> policy_screen \<Rightarrow> policy_screen" where
  "screen_act env oper s =
     (let viewing = pp_viewingPolicy (ps_page s); form = dd_form (ps_dialog s) in
      case oper of
        OpenDetails p \<Rightarrow> if viewing = None then s\<lparr>ps_page := openView (Some p) (ps_page s)\<rparr> else s
      | OpenEditor p \<Rightarrow> if viewing = None \<and> pc_editBtn (policy_card (se_auth env) None (ps_page s) p) = Some True
          then s\<lparr>ps_page := openEditForm p (ps_page s)\<rparr> else s
      | TopTab tab \<Rightarrow> choose_tab env (\<lambda>e p. activate_tab e p tab) s
      | TopKey key current \<Rightarrow> choose_tab env (\<lambda>e p. tab_key e p key current) s
      | EscapeOrX \<Rightarrow> s\<lparr>ps_page := openView None (ps_page s)\<rparr>
      | DetailsClose \<Rightarrow> if form = None then s\<lparr>ps_page := openView None (ps_page s)\<rparr> else s
      | FormClose \<Rightarrow> (case form of None \<Rightarrow> s | Some f \<Rightarrow> take_exit (requestClose f) s)
      | FormDiscard \<Rightarrow> (case form of None \<Rightarrow> s | Some f \<Rightarrow> if pf_showDiscardConfirm f then take_exit (confirm_discard f) s else s)
      | FormKeep \<Rightarrow> edit_form cancel_discard s
      | FormTab t \<Rightarrow> edit_form (\<lambda>f. f\<lparr>pf_tab := t\<rparr>) s
      | TypeName v \<Rightarrow> edit_form (setName v) s
      | TypeDescription v \<Rightarrow> edit_form (setDescription v) s
      | TypeConditions v \<Rightarrow> edit_form (setConditionsText v) s
      | SwitchConditions v \<Rightarrow> edit_form (setConditionsEnabled v) s
      | ChangeType data v \<Rightarrow> change_type_in_editor (se_tr env) data v s
      | ToggleAction action answer \<Rightarrow> toggle_in_editor (se_tr env) action answer s
      | UndoType live snap \<Rightarrow> if live then edit_form (undo_resource_type snap) s else s
      | UndoToggle live p snap actions answer \<Rightarrow> undo_toggle_in_editor (se_tr env) live p snap actions answer s
      | SaveForm answer \<Rightarrow> save_in_editor env answer s
      | RolledBack i answer \<Rightarrow> (case viewing of None \<Rightarrow> s
          | Some p \<Rightarrow> if form \<noteq> None then s else s\<lparr>ps_page :=
              snd (page_mutate (se_tr env) (useRollbackPolicyMutation (pol_name p) i None) answer (ps_page s))\<rparr>))"

definition screen_step :: "screen_env \<Rightarrow> screen_op \<Rightarrow> policy_screen \<Rightarrow> policy_screen" where
  "screen_step env oper s =
     (let s' = screen_act env oper s in
      s'\<lparr>ps_dialog := render_details (se_pretty env) (canEditPolicy env) (ps_page s') (ps_dialog s')\<rparr>)"

definition screen_run :: "screen_env \<Rightarrow> screen_op list \<Rightarrow> policy_screen \<Rightarrow> policy_screen" where
  "screen_run env ops s = fold (screen_step env) ops s"

text \<open>A screen at rest: nothing is open.\<close>

definition at_rest :: "policy_screen \<Rightarrow> bool" where
  "at_rest s \<longleftrightarrow> pp_viewingPolicy (ps_page s) = None \<and> dd_form (ps_dialog s) = None
     \<and> dd_previousKey (ps_dialog s) = details_key (ps_page s)"

section \<open>Lemmas\<close>

lemma page_keeps [simp]:
  "pp_viewingPolicy (snd (page_mutate tr m answer pg)) = pp_viewingPolicy pg"
  "pp_editingPolicy (snd (page_mutate tr m answer pg)) = pp_editingPolicy pg"
  "pp_initialTab (snd (page_mutate tr m answer pg)) = pp_initialTab pg"
  "pp_viewingPolicy (add_toast title k undo pg) = pp_viewingPolicy pg"
  "pp_editingPolicy (add_toast title k undo pg) = pp_editingPolicy pg"
  "pp_initialTab (add_toast title k undo pg) = pp_initialTab pg"
  by (simp_all add: page_mutate_def case_prod_beta add_toast_def)

lemma toggle_keeps:
  "pp_viewingPolicy (snd (actions_answered tr e f as answer (f', pg))) = pp_viewingPolicy pg"
  "pp_editingPolicy (snd (actions_answered tr e f as answer (f', pg))) = pp_editingPolicy pg"
  "pp_initialTab (snd (actions_answered tr e f as answer (f', pg))) = pp_initialTab pg"
  by (cases answer; cases e; simp add: actions_answered_def page_mutate_cases Let_def add_toast_def)+

lemma submit_viewing:
  "pp_viewingPolicy (handleFormSubmit tr v answer pg) \<in> {pp_viewingPolicy pg, None}"
  by (cases answer; cases "pp_editingPolicy pg"; simp add: handleFormSubmit_def page_mutate_cases closeForm_def)

lemma submit_editing:
  "pp_editingPolicy (handleFormSubmit tr v answer pg) = pp_editingPolicy pg"
  by (cases answer; cases "pp_editingPolicy pg"; simp add: handleFormSubmit_def page_mutate_cases closeForm_def)

lemma submit_refused:
  "pp_editingPolicy pg = Some p \<Longrightarrow>
   \<exists>app'. handleFormSubmit tr v (Rejected e) pg = pg\<lparr>pp_app := app'\<rparr>"
  by (auto simp: handleFormSubmit_def page_mutate_cases)

definition fresh_form :: "screen_env \<Rightarrow> policy \<Rightarrow> policy_form" where
  "fresh_form env p = render_form (se_pretty env) True (Some p) blank_form"

lemma fresh_form_facts [simp]:
  "pf_prevIsOpen (fresh_form env p)" "pf_actions (fresh_form env p) = pol_actions p" "pf_name (fresh_form env p) = pol_name p"
  "\<not> isDirty (fresh_form env p)" "pf_tab (fresh_form env p) = TabBasics"
  by (simp_all add: fresh_form_def render_form_def load_form_def isDirty_def blank_form_def Let_def nullish_def form_snapshot_def)

lemma render_mounted: "pf_prevIsOpen f \<Longrightarrow> render_form pretty True p f = f"
  by (simp add: render_form_def)

text \<open>The three states of the dialog: open on the editor, open on the details, and closed.\<close>

definition may_edit :: "screen_env \<Rightarrow> policy \<Rightarrow> bool" where
  "may_edit env p \<longleftrightarrow> canEditPolicy env \<and> \<not> isProtectedPolicy p"

definition editing :: "policy \<Rightarrow> policy_form \<Rightarrow> policy_screen \<Rightarrow> bool" where
  "editing p f s \<longleftrightarrow> pp_viewingPolicy (ps_page s) = Some p \<and> pp_editingPolicy (ps_page s) = Some p
     \<and> dd_activeTab (ps_dialog s) = ''edit'' \<and> dd_previousKey (ps_dialog s) = details_key (ps_page s)
     \<and> dd_form (ps_dialog s) = Some f \<and> pf_prevIsOpen f"

definition reading :: "policy \<Rightarrow> policy_screen \<Rightarrow> bool" where
  "reading p s \<longleftrightarrow> pp_viewingPolicy (ps_page s) = Some p \<and> pp_editingPolicy (ps_page s) = Some p
     \<and> dd_activeTab (ps_dialog s) = ''details'' \<and> dd_previousKey (ps_dialog s) = details_key (ps_page s)
     \<and> dd_form (ps_dialog s) = None"

named_theorems screen_defs
lemmas [screen_defs] = screen_step_def screen_act_def Let_def render_details_def effectiveTab_def choose_tab_def
  activate_tab_def dialog_tabs_def edit_form_def

lemma key_open: "pp_viewingPolicy pg = Some p \<Longrightarrow> details_key pg = ''true:'' @ pol_name p @ '':'' @ pp_initialTab pg"
  by (simp add: details_key_def bool_name_def nullish_def)

lemma key_closed: "pp_viewingPolicy pg = None \<Longrightarrow> details_key pg = ''false::'' @ pp_initialTab pg"
  by (simp add: details_key_def bool_name_def nullish_def)

lemma if_can_use: "if_can a spec = useCan a spec None"
  by (simp add: if_can_iff useCan_def can_def Let_def)

lemma open_editor_step:
  assumes "at_rest s" "may_edit env p"
  shows "editing p (fresh_form env p) (screen_step env (OpenEditor p) s)"
    "ps_saveError (screen_step env (OpenEditor p) s) = ps_saveError s"
  using assms
  by (simp_all add: screen_defs at_rest_def may_edit_def canEditPolicy_def policy_card_def if_can_use openEditForm_def
      editing_def key_closed key_open fresh_form_def [symmetric] nullish_def)

lemma open_details_step:
  assumes "at_rest s"
  shows "reading p (screen_step env (OpenDetails p) s)"
  using assms by (simp add: screen_defs at_rest_def openView_def reading_def key_closed key_open)

lemma read_tab_step:
  assumes "editing p f s"
  shows "reading p (screen_step env (TopTab ''details'') s)"
  using assms by (simp add: screen_defs editing_def reading_def)

lemma edit_tab_step:
  assumes "reading p s" "may_edit env p"
  shows "editing p (fresh_form env p) (screen_step env (TopTab ''edit'') s)"
  using assms by (simp add: screen_defs editing_def reading_def may_edit_def fresh_form_def [symmetric] nullish_def)

lemma escape_step:
  assumes "editing p f s"
  shows "at_rest (screen_step env EscapeOrX s)" "ps_saveError (screen_step env EscapeOrX s) = ps_saveError s"
  using assms by (simp_all add: screen_defs editing_def at_rest_def openView_def key_closed key_open)

lemma edit_form_step:
  assumes "editing p f s" "may_edit env p" "pf_prevIsOpen (g f)"
    "screen_act env oper s = edit_form g s"
  shows "editing p (g f) (screen_step env oper s)" "ps_saveError (screen_step env oper s) = ps_saveError s"
  using assms by (simp_all add: screen_step_def Let_def render_details_def effectiveTab_def edit_form_def editing_def
      may_edit_def nullish_def render_mounted)

lemma toggle_step:
  assumes "editing p f s" "may_edit env p"
  shows "editing p (form_actions_change (toggle_action act (pf_actions f)) f)
    (screen_step env (ToggleAction act (Fulfilled d)) s)"
proof -
  obtain f' pg where r: "actions_answered (se_tr env) (Some p) f (toggle_action act (pf_actions f)) (Fulfilled d)
      (form_actions_change (toggle_action act (pf_actions f)) f, ps_page s) = (f', pg)" by fastforce
  have f': "f' = form_actions_change (toggle_action act (pf_actions f)) f"
    using r by (simp add: actions_answered_def page_mutate_cases Let_def)
  have keep: "pp_viewingPolicy pg = pp_viewingPolicy (ps_page s)" "pp_editingPolicy pg = pp_editingPolicy (ps_page s)"
    "pp_initialTab pg = pp_initialTab (ps_page s)"
    using toggle_keeps [of "se_tr env" "Some p" f "toggle_action act (pf_actions f)" "Fulfilled d"
      "form_actions_change (toggle_action act (pf_actions f)) f" "ps_page s"] by (simp_all add: r)
  have "pf_prevIsOpen (form_actions_change (toggle_action act (pf_actions f)) f)"
    using assms by (simp add: form_actions_change_def editing_def)
  then show ?thesis using assms
    by (simp add: screen_defs toggle_in_editor_def editing_def may_edit_def r f' keep details_key_def nullish_def
        render_mounted)
qed

lemma close_dirty_step:
  assumes "editing p f s" "may_edit env p" "isDirty f"
  shows "editing p (f\<lparr>pf_pendingExit := Some ExitClose, pf_showDiscardConfirm := True\<rparr>) (screen_step env FormClose s)"
  using assms by (simp add: screen_defs take_exit_def requestClose_def requestExit_def editing_def may_edit_def
      nullish_def render_mounted)

lemma close_clean_step:
  assumes "editing p f s" "\<not> isDirty f"
  shows "at_rest (screen_step env FormClose s)" "ps_saveError (screen_step env FormClose s) = None"
  using assms by (simp_all add: screen_defs take_exit_def requestClose_def requestExit_def editing_def at_rest_def
      onFormClose_def openView_def closeForm_def key_closed key_open)

lemma rollback_step: "reading p s \<Longrightarrow> reading p (screen_step env (RolledBack i answer) s)"
  by (simp add: screen_defs reading_def details_key_def)

lemma save_refused_step:
  assumes "editing p f s" "may_edit env p" "pf_tab f = TabBasics" "canSave (se_tr env) (se_parse env) f"
    "snd (handleSubmit (se_tr env) (se_parse env) f) = Submits v"
  shows "editing p f (screen_step env (SaveForm (Rejected e)) s)"
    "ps_saveError (screen_step env (SaveForm (Rejected e)) s) =
       Some (extractApiErrorMessage (se_tr env) e ''Failed to update policy'')"
proof -
  have sub: "handleSubmit (se_tr env) (se_parse env) f = (f, Submits v)"
    using assms(4,5) by (auto simp: handleSubmit_def canSave_def split: if_splits)
  obtain app' where page: "handleFormSubmit (se_tr env) v (Rejected e) (ps_page s) = (ps_page s)\<lparr>pp_app := app'\<rparr>"
    using submit_refused [of "ps_page s" p] assms(1) unfolding editing_def by blast
  show "editing p f (screen_step env (SaveForm (Rejected e)) s)"
    "ps_saveError (screen_step env (SaveForm (Rejected e)) s) =
       Some (extractApiErrorMessage (se_tr env) e ''Failed to update policy'')"
    using assms by (simp_all add: screen_defs save_in_editor_def editing_def may_edit_def sub page details_key_def
        nullish_def render_mounted)
qed

section \<open>Properties\<close>

text \<open>The dialog throws unsaved edits away where the editor would ask. From an editor with unsaved edits,
  its close button keeps the editor and asks; Escape, the cross of the dialog and its details tab ask nothing, and the
  editor comes back without the edits.\<close>

theorem dialog_discards_silently:
  assumes "editing p f s" "may_edit env p" "isDirty f"
  shows "editing p (f\<lparr>pf_pendingExit := Some ExitClose, pf_showDiscardConfirm := True\<rparr>) (screen_run env [FormClose] s)"
    "editing p (fresh_form env p) (screen_run env [TopTab ''details'', TopTab ''edit''] s)"
    "editing p (fresh_form env p) (screen_run env [EscapeOrX, OpenEditor p] s)"
    "\<not> isDirty (fresh_form env p)"
  using close_dirty_step [OF assms] edit_tab_step [OF read_tab_step [OF assms(1)] assms(2)]
    open_editor_step(1) [OF escape_step(1) [OF assms(1)] assms(2)]
  by (simp_all add: screen_run_def)

text \<open>C29: A toggled action comes back untoggled. The server accepts the toggle and the editor shows it; after
  a look at the details tab the editor shows the actions the policy was opened with, as saved, and the save button
  sends them, which takes the accepted change back without a word.\<close>

theorem toggle_forgotten:
  assumes "at_rest s" "may_edit env p"
  shows "let opened = screen_step env (OpenEditor p) s;
             toggled = screen_step env (ToggleAction act (Fulfilled d)) opened;
             back = screen_run env [TopTab ''details'', TopTab ''edit''] toggled in
     map_option pf_actions (dd_form (ps_dialog toggled)) = Some (toggle_action act (pol_actions p)) \<and>
     dd_form (ps_dialog back) = Some (fresh_form env p) \<and> pf_actions (fresh_form env p) = pol_actions p \<and>
     \<not> isDirty (fresh_form env p) \<and>
     (\<forall>v. snd (handleSubmit (se_tr env) (se_parse env) (fresh_form env p)) = Submits v \<longrightarrow> fv_actions v = pol_actions p)"
proof -
  note o = open_editor_step(1) [OF assms]
  note t = toggle_step [OF o assms(2), of act d]
  note b = edit_tab_step [OF read_tab_step [OF t] assms(2)]
  have "fv_actions v = pf_actions f" if "snd (handleSubmit tr parse f) = Submits v" for tr parse f v
    using that by (auto simp: handleSubmit_def split: if_splits option.splits)
  then show ?thesis using t b
    by (auto simp: Let_def screen_run_def editing_def form_actions_change_def)
qed

text \<open>The error of a save is shown for another policy. A refused save shows its message in the editor;
  leaving by Escape or the cross keeps it, and the editor of the next policy opens with it. Leaving by the
  editor's close button clears it.\<close>

theorem save_error_outlives_dialog:
  assumes "at_rest s" "may_edit env p" "may_edit env q"
    "canSave (se_tr env) (se_parse env) (fresh_form env p)"
    "snd (handleSubmit (se_tr env) (se_parse env) (fresh_form env p)) = Submits v"
  shows "let failed = screen_run env [OpenEditor p, SaveForm (Rejected e)] s;
             message = extractApiErrorMessage (se_tr env) e ''Failed to update policy'' in
     ps_saveError (screen_run env [EscapeOrX, OpenEditor q] failed) = Some message \<and>
     editing q (fresh_form env q) (screen_run env [EscapeOrX, OpenEditor q] failed) \<and>
     ps_saveError (screen_run env [FormClose, OpenEditor q] failed) = None \<and>
     editing q (fresh_form env q) (screen_run env [FormClose, OpenEditor q] failed)"
proof -
  note o = open_editor_step [OF assms(1,2)]
  note f = save_refused_step [OF o(1) assms(2) fresh_form_facts(5) assms(4,5), of e]
  note x = escape_step [OF f(1)]
  note c = close_clean_step [OF f(1) fresh_form_facts(4), of env]
  show ?thesis
    using f(2) x(2) c(2) open_editor_step [OF x(1) assms(3)] open_editor_step [OF c(1) assms(3)]
    by (simp add: Let_def screen_run_def)
qed

definition plain_env :: "string list \<Rightarrow> screen_env" where
  "plain_env ps = \<lparr>se_tr = plain_texts, se_parse = (\<lambda>_. None), se_pretty = (\<lambda>_. []), se_auth = signed_in ps\<rparr>"

definition rest_screen :: policy_screen where
  "rest_screen = \<lparr>ps_page = mount_policies_page initial_app,
     ps_dialog = render_details (\<lambda>_. []) True (mount_policies_page initial_app) details_mount, ps_saveError = None\<rparr>"

lemma rest_screen_ok: "at_rest rest_screen"
  by (simp add: at_rest_def rest_screen_def render_details_def Let_def mount_policies_page_def details_mount_def details_key_def)

lemma reader_editable: "may_edit (plain_env [''policies:update'']) (spare_policy ''reader'' True)"
  by code_simp

lemma dialog_discards_silently_witness:
  "let env = plain_env [''policies:update'']; p = spare_policy ''reader'' True;
       s = screen_run env [OpenEditor p, TypeName ''readers''] rest_screen;
       g = (fresh_form env p)\<lparr>pf_name := ''readers'', pf_pendingExit := Some ExitClose, pf_showDiscardConfirm := True\<rparr> in
   editing p g (screen_run env [FormClose] s) \<and>
   editing p (fresh_form env p) (screen_run env [EscapeOrX, OpenEditor p] s)"
proof -
  let ?env = "plain_env [''policies:update'']" and ?p = "spare_policy ''reader'' True"
  let ?s = "screen_run ?env [OpenEditor ?p, TypeName ''readers''] rest_screen"
  note o = open_editor_step(1) [OF rest_screen_ok reader_editable]
  have "editing ?p (setName ''readers'' (fresh_form ?env ?p)) ?s"
    using edit_form_step(1) [OF o reader_editable, of "setName ''readers''" "TypeName ''readers''"]
    by (simp add: screen_run_def setName_def screen_act_def Let_def)
  then have e: "editing ?p ((fresh_form ?env ?p)\<lparr>pf_name := ''readers''\<rparr>) ?s" by (simp add: setName_def)
  have "isDirty ((fresh_form ?env ?p)\<lparr>pf_name := ''readers''\<rparr>)" by code_simp
  from dialog_discards_silently(1,3) [OF e reader_editable this] show ?thesis by (simp add: Let_def)
qed

lemma toggle_forgotten_witness:
  "let env = plain_env [''policies:update'']; p = spare_policy ''reader'' True;
       toggled = screen_run env [OpenEditor p, ToggleAction ''policies:create'' (Fulfilled p)] rest_screen;
       back = screen_run env [TopTab ''details'', TopTab ''edit''] toggled in
   map_option pf_actions (dd_form (ps_dialog toggled)) = Some [''policies:read'', ''policies:create''] \<and>
   map_option pf_actions (dd_form (ps_dialog back)) = Some [''policies:read'']"
proof -
  let ?p = "spare_policy ''reader'' True"
  have "pol_actions ?p = [''policies:read'']" by (simp add: spare_policy_def sample_policy_def)
  moreover from this have "toggle_action ''policies:create'' (pol_actions ?p) = [''policies:read'', ''policies:create'']"
    by (simp add: toggle_action_def)
  ultimately show ?thesis
    using toggle_forgotten [OF rest_screen_ok reader_editable, of "''policies:create''" ?p]
    by (simp add: Let_def screen_run_def)
qed

text \<open>No step other than opening changes which policy is viewed, except to none, nor which one is edited.\<close>

definition opens :: "screen_op \<Rightarrow> bool" where
  "opens oper \<longleftrightarrow> (case oper of OpenDetails _ \<Rightarrow> True | OpenEditor _ \<Rightarrow> True | _ \<Rightarrow> False)"

definition page_keeps_policy :: "policies_page \<Rightarrow> policies_page \<Rightarrow> bool" where
  "page_keeps_policy pg pg' \<longleftrightarrow> pp_viewingPolicy pg' \<in> {pp_viewingPolicy pg, None} \<and> pp_editingPolicy pg' = pp_editingPolicy pg"

lemma page_keeps_refl [simp]: "page_keeps_policy pg pg"
  by (simp add: page_keeps_policy_def)

lemma save_policy: "page_keeps_policy (ps_page s) (ps_page (save_in_editor env answer s))"
  using submit_viewing [of "se_tr env" _ answer "ps_page s"] submit_editing [of "se_tr env" _ answer "ps_page s"]
  by (auto simp: save_in_editor_def page_keeps_policy_def split: option.splits prod.splits submit_result.splits)

lemma toggle_policy: "page_keeps_policy (ps_page s) (ps_page (toggle_in_editor tr act answer s))"
proof (cases "dd_form (ps_dialog s)")
  case (Some f)
  let ?as = "toggle_action act (pf_actions f)"
  obtain f' pg where r: "actions_answered tr (pp_editingPolicy (ps_page s)) f ?as answer (form_actions_change ?as f, ps_page s) = (f', pg)"
    by fastforce
  have "page_keeps_policy (ps_page s) pg"
    using toggle_keeps(1,2) [of tr "pp_editingPolicy (ps_page s)" f ?as answer "form_actions_change ?as f" "ps_page s"]
    by (simp add: r page_keeps_policy_def)
  then show ?thesis using Some by (simp add: toggle_in_editor_def Let_def r)
qed (simp add: toggle_in_editor_def)

lemma undo_toggle_policy: "page_keeps_policy (ps_page s) (ps_page (undo_toggle_in_editor tr live p snap actions answer s))"
  by (cases answer) (simp_all add: undo_toggle_in_editor_def actions_undo_answered_def page_mutate_cases Let_def
      add_toast_def page_keeps_policy_def)

lemma change_type_policy: "page_keeps_policy (ps_page s) (ps_page (change_type_in_editor tr data v s))"
  by (simp add: change_type_in_editor_def page_keeps_policy_def Let_def split: option.split prod.split)

lemma exit_policy: "page_keeps_policy (ps_page s) (ps_page (take_exit r s))"
  by (auto simp: take_exit_def Let_def onFormClose_def openView_def closeForm_def page_keeps_policy_def
      split: option.splits form_exit.splits)

lemma step_policy:
  assumes "\<not> opens oper"
  shows "page_keeps_policy (ps_page s) (ps_page (screen_step env oper s))"
  using assms save_policy [of s env] toggle_policy [of s "se_tr env"] exit_policy [of s]
    undo_toggle_policy [of s "se_tr env"] change_type_policy [of s "se_tr env"]
  by (cases oper) (auto simp: screen_step_def screen_act_def Let_def opens_def choose_tab_def edit_form_def openView_def
      page_keeps_policy_def split: option.splits)

text \<open>An operation does not make an editor; only the render after it does, from the policy that is viewed.\<close>

lemma act_makes_no_editor: "dd_form (ps_dialog s) = None \<Longrightarrow> dd_form (ps_dialog (screen_act env oper s)) = None"
  by (cases oper) (auto simp: screen_act_def Let_def choose_tab_def activate_tab_def tab_key_def edit_form_def
      toggle_in_editor_def change_type_in_editor_def undo_toggle_in_editor_def save_in_editor_def nullish_def
      split: option.splits prod.splits)

lemma mounted_from_viewed:
  assumes "dd_form (ps_dialog s) = None" "pp_viewingPolicy (ps_page (screen_step env oper s)) \<in> {None, Some p}"
  shows "dd_form (ps_dialog (screen_step env oper s)) \<in> {None, Some (fresh_form env p)}"
proof -
  have "dd_form (ps_dialog (screen_act env oper s)) = None" by (rule act_makes_no_editor [OF assms(1)])
  then show ?thesis using assms(2)
    by (auto simp: screen_step_def Let_def render_details_def fresh_form_def nullish_def)
qed

definition on_policy :: "policy \<Rightarrow> policies_page \<Rightarrow> bool" where
  "on_policy p pg \<longleftrightarrow> pp_viewingPolicy pg = None \<or> pp_viewingPolicy pg = Some p \<and> pp_editingPolicy pg = Some p"

lemma step_on_policy: "\<not> opens oper \<Longrightarrow> on_policy p (ps_page s) \<Longrightarrow> on_policy p (ps_page (screen_step env oper s))"
  using step_policy [of oper s env] by (auto simp: on_policy_def page_keeps_policy_def)

lemma run_on_policy:
  "list_all (\<lambda>oper. \<not> opens oper) ops \<Longrightarrow> on_policy p (ps_page s) \<Longrightarrow> on_policy p (ps_page (screen_run env ops s))"
  by (induction ops arbitrary: s) (simp_all add: screen_run_def step_on_policy)

lemma opened_on_policy:
  assumes "at_rest s" "opening = OpenDetails p \<or> opening = OpenEditor p"
  shows "on_policy p (ps_page (screen_step env opening s))"
  using assms by (auto simp: at_rest_def screen_step_def screen_act_def Let_def openView_def openEditForm_def on_policy_def
      split: if_splits)

text \<open>C30: The dialog never learns what it changed. Opened on a card's copy of a policy, by its view or its edit button, it goes on
  with that copy until it is closed, whatever is toggled, undone, typed, chosen, saved, rolled back or pressed in it, and whatever the
  server answers: the policy whose details it shows, and the one its saves and toggles are addressed to, is the copy, and
  every editor that comes to be shown, at the opening or after a look at the details, starts as the form of the
  copy, not of the policy as changed meanwhile.\<close>

theorem viewed_policy_frozen:
  assumes "at_rest s" "opening = OpenDetails p \<or> opening = OpenEditor p"
    "list_all (\<lambda>oper. \<not> opens oper) ops" "\<not> opens oper"
  shows "let opened = screen_step env opening s; t = screen_run env ops opened; t' = screen_step env oper t in
     (pp_viewingPolicy (ps_page t) = None \<or> pp_viewingPolicy (ps_page t) = Some p \<and> pp_editingPolicy (ps_page t) = Some p) \<and>
     dd_form (ps_dialog opened) \<in> {None, Some (fresh_form env p)} \<and>
     (dd_form (ps_dialog t) = None \<longrightarrow> dd_form (ps_dialog t') \<in> {None, Some (fresh_form env p)})"
proof -
  let ?o = "screen_step env opening s" and ?t = "screen_run env ops (screen_step env opening s)"
  have o: "on_policy p (ps_page ?o)" by (rule opened_on_policy [OF assms(1,2)])
  have t: "on_policy p (ps_page ?t)" by (rule run_on_policy [OF assms(3) o])
  have t': "on_policy p (ps_page (screen_step env oper ?t))" by (rule step_on_policy [OF assms(4) t])
  have viewed: "on_policy p pg \<Longrightarrow> pp_viewingPolicy pg \<in> {None, Some p}" for pg by (auto simp: on_policy_def)
  have "dd_form (ps_dialog s) = None" using assms(1) by (simp add: at_rest_def)
  from mounted_from_viewed [OF this viewed [OF o]] mounted_from_viewed [OF _ viewed [OF t']] t
  show ?thesis unfolding Let_def on_policy_def by blast
qed

text \<open>Opened on the editor, an action added and accepted, the details looked at, the editor chosen again.\<close>

lemma viewed_policy_frozen_witness:
  "let env = plain_env [''policies:update'']; p = spare_policy ''reader'' True;
       t = screen_run env [ToggleAction ''policies:create'' (Fulfilled (spare_policy ''reader'' False)), TopTab ''details'']
             (screen_step env (OpenEditor p) rest_screen) in
   pp_viewingPolicy (ps_page t) = Some p \<and>
   dd_form (ps_dialog (screen_step env (TopTab ''edit'') t)) = Some (fresh_form env p)"
proof -
  let ?env = "plain_env [''policies:update'']" and ?p = "spare_policy ''reader'' True"
  let ?ops = "[ToggleAction ''policies:create'' (Fulfilled (spare_policy ''reader'' False)), TopTab ''details'']"
  let ?t = "screen_run ?env ?ops (screen_step ?env (OpenEditor ?p) rest_screen)"
  have "list_all (\<lambda>oper. \<not> opens oper) ?ops" "\<not> opens (TopTab ''edit'')" by (simp_all add: opens_def)
  note frozen = viewed_policy_frozen [OF rest_screen_ok disjI2 [OF refl] this, of ?env ?p, unfolded Let_def]
  note o = open_editor_step(1) [OF rest_screen_ok reader_editable]
  have r: "reading ?p ?t" using read_tab_step [OF toggle_step [OF o reader_editable]] by (simp add: screen_run_def)
  then have t: "dd_form (ps_dialog ?t) = None" "pp_viewingPolicy (ps_page ?t) = Some ?p" unfolding reading_def by blast+
  have "dd_form (ps_dialog (screen_step ?env (TopTab ''edit'') ?t)) \<noteq> None"
    using edit_tab_step [OF r reader_editable] unfolding editing_def by (elim conjE) (simp only: option.distinct not_False_eq_True)
  moreover note frozen [THEN conjunct2, THEN conjunct2, THEN mp, OF t(1)]
  ultimately have "dd_form (ps_dialog (screen_step ?env (TopTab ''edit'') ?t)) = Some (fresh_form ?env ?p)"
    by (simp only: insert_iff empty_iff simp_thms)
  with t(2) show ?thesis unfolding Let_def by (rule conjI)
qed

text \<open>A reader is told of a change that never happened. The notice that the right to edit changed while the
  dialog was open is shown to everyone who opens the details without that right.\<close>

lemma notice_without_change:
  assumes "at_rest s" "\<not> canEditPolicy env"
  shows "authorization_notice (canEditPolicy env) (ps_page (screen_step env (OpenDetails p) s))
    (ps_dialog (screen_step env (OpenDetails p) s))"
  using open_details_step [OF assms(1), of p env] assms(2)
  by (simp add: authorization_notice_def reading_def effectiveTab_def)

text \<open>The link to the holders of a policy, followed by the users page: it carries the policy's name whatever
  the name is, and the page restricts its request to the policy exactly for a caller who may read policies; the
  details offer the link to every caller who may list users.\<close>

theorem policy_holders_link:
  assumes "pol_name p \<noteq> []"
  shows "\<exists>params. follow_link (policy_holders_href p) = Some (''/users'', params) \<and>
     lu_policy (activeFilters a (mount_filters ui params)) =
       (if can a (OneAction ''policies:read'') then Some (pol_name p) else None) \<and>
     (holders_link a p \<noteq> None \<longleftrightarrow> can a (OneAction ''users:list_all''))"
proof -
  let ?params = "[(''policy'', pol_name p)]"
  have "policy_holders_href p = link_to ''/users'' ?params"
    by (simp add: policy_holders_href_def link_to_def query_pair_def)
  moreover have "follow_link (link_to ''/users'' ?params) = Some (''/users'', ?params)"
    by (rule follow_link_to) (simp_all add: unreserved_def Let_def ucode_def)
  ultimately have "follow_link (policy_holders_href p) = Some (''/users'', ?params)" by (simp only:)
  then show ?thesis using assms
    by (auto simp: activeFilters_def mount_filters_def f_policy_def param_def nullish_def or_undefined_def useCan_def
        holders_link_def if_can_iff Let_def can_def)
qed

text \<open>The counts of the action grid are the rows behind them: without a search, each quick filter lists as
  many rows as its count says, and switching one action twice leaves the selection as it was.\<close>

theorem grid_counts_match:
  assumes "distinct (map fst options)" "distinct values" "ag_search g = []"
  shows "length (grid_shown options values g) = grid_count options values (ag_quick g) \<and>
    set (toggle_action a (toggle_action a values)) = set values"
proof -
  have quiet: "to_lower (trim (ag_search g)) = []" unfolding assms(3) by code_simp
  have "length (filter (\<lambda>o'. fst o' \<in> set values) options) = length (filter (\<lambda>v. v \<in> fst ` set options) values)"
  proof -
    have "length (filter (\<lambda>o'. fst o' \<in> set values) options) = length (filter (\<lambda>v. v \<in> set values) (map fst options))"
      by (simp add: filter_map comp_def)
    also have "\<dots> = card (set (filter (\<lambda>v. v \<in> set values) (map fst options)))"
      using assms(1) by (intro distinct_card [symmetric]) (rule distinct_filter)
    also have "set (filter (\<lambda>v. v \<in> set values) (map fst options)) = set (filter (\<lambda>v. v \<in> fst ` set options) values)" by auto
    also have "card \<dots> = length (filter (\<lambda>v. v \<in> fst ` set options) values)"
      using assms(2) by (intro distinct_card) (rule distinct_filter)
    finally show ?thesis .
  qed
  then have "length (grid_shown options values g) = grid_count options values (ag_quick g)"
    unfolding grid_shown_def grid_count_def Let_def quiet
    by (cases "ag_quick g") (simp_all add: case_prod_unfold)
  moreover have "set (toggle_action a (toggle_action a values)) = set values" by (auto simp: toggle_action_def)
  ultimately show ?thesis ..
qed

lemma grid_counts_match_witness:
  "length (grid_shown [(''a'', ''A''), (''b'', ''B'')] [''b'', ''gone''] \<lparr>ag_search = [], ag_quick = GridSelected\<rparr>) =
     grid_count [(''a'', ''A''), (''b'', ''B'')] [''b'', ''gone''] GridSelected \<and>
   grid_count [(''a'', ''A''), (''b'', ''B'')] [''b'', ''gone''] GridSelected = 1"
proof -
  let ?o = "[(''a'', ''A''), (''b'', ''B'')]" and ?g = "\<lparr>ag_search = [], ag_quick = GridSelected\<rparr>"
  have "distinct (map fst ?o)" "distinct [''b'', ''gone'']" "ag_search ?g = []" by simp_all
  from grid_counts_match [OF this] show ?thesis by (simp add: grid_count_def)
qed

lemma policy_holders_link_witness:
  "\<exists>params. follow_link (policy_holders_href (spare_policy ''a b&c'' True)) = Some (''/users'', params) \<and>
     lu_policy (activeFilters (signed_in [''users:list_all'']) (mount_filters initial_users_ui params)) = None"
proof -
  have "pol_name (spare_policy ''a b&c'' True) \<noteq> []" by (simp add: spare_policy_def sample_policy_def)
  from policy_holders_link [OF this, of "signed_in [''users:list_all'']" initial_users_ui]
  obtain params where "follow_link (policy_holders_href (spare_policy ''a b&c'' True)) = Some (''/users'', params)"
    "lu_policy (activeFilters (signed_in [''users:list_all'']) (mount_filters initial_users_ui params)) =
      (if can (signed_in [''users:list_all'']) (OneAction ''policies:read'')
       then Some (pol_name (spare_policy ''a b&c'' True)) else None)" by blast
  moreover have "\<not> can (signed_in [''users:list_all'']) (OneAction ''policies:read'')" by code_simp
  ultimately show ?thesis by auto
qed

text \<open>A rollback is asked for, shown and answered one at a time. In any run of the history section only
  entries whose button was clicked are sent, never without the right to edit nor for a protected policy, and at most
  one request is under way; a refused rollback shows its message and a click on an entry clears it.\<close>

definition history_run ::
  "translator \<Rightarrow> bool \<Rightarrow> bool \<Rightarrow> history_op list \<Rightarrow> history_section \<times> int list \<Rightarrow> history_section \<times> int list" where
  "history_run tr canEdit isProtected ops st =
     fold (\<lambda>oper (h, sent). case history_step tr canEdit isProtected oper h of
        (h', None) \<Rightarrow> (h', sent) | (h', Some i) \<Rightarrow> (h', sent @ [i])) ops st"

definition answers :: "history_op list \<Rightarrow> nat" where
  "answers ops = length (filter (\<lambda>oper. case oper of RollbackAnswer _ \<Rightarrow> True | _ \<Rightarrow> False) ops)"

definition clicked_ids :: "history_op list \<Rightarrow> int set" where
  "clicked_ids ops = {ph_id e |e. ClickRollback e \<in> set ops}"

definition history_ok :: "bool \<Rightarrow> bool \<Rightarrow> history_op list \<Rightarrow> history_section \<times> int list \<Rightarrow> bool" where
  "history_ok canEdit isProtected ops st \<longleftrightarrow>
     (\<forall>e. hs_rollbackEntry (fst st) = Some e \<longrightarrow> canEdit \<and> \<not> isProtected \<and> ph_id e \<in> clicked_ids ops)
     \<and> (snd st \<noteq> [] \<longrightarrow> canEdit \<and> \<not> isProtected) \<and> set (snd st) \<subseteq> clicked_ids ops
     \<and> length (snd st) \<le> answers ops + (if hs_pending (fst st) then 1 else 0)"

lemma history_run_snoc:
  "history_run tr c p (ops @ [oper]) st = (let (h, sent) = history_run tr c p ops st in
     case history_step tr c p oper h of (h', None) \<Rightarrow> (h', sent) | (h', Some i) \<Rightarrow> (h', sent @ [i]))"
  by (simp add: history_run_def case_prod_unfold Let_def)

lemma clicked_more: "clicked_ids (ops @ [oper]) = clicked_ids ops \<union> (case oper of ClickRollback e \<Rightarrow> {ph_id e} | _ \<Rightarrow> {})"
  by (auto simp: clicked_ids_def split: history_op.splits)

lemma history_run_ok: "history_ok c p ops (history_run tr c p ops (history_mount k, []))"
proof (induction ops rule: rev_induct)
  case Nil
  then show ?case by (simp add: history_run_def history_ok_def history_mount_def)
next
  case (snoc oper ops)
  obtain h sent where r: "history_run tr c p ops (history_mount k, []) = (h, sent)" by fastforce
  with snoc show ?case
    by (cases oper) (auto simp: history_run_snoc history_ok_def history_step_def answers_def clicked_more confirm_enabled_def
        split: option.splits outcome.splits)
qed

theorem one_rollback_at_a_time:
  "let (h, sent) = history_run tr canEdit isProtected ops (history_mount k, []) in
     set sent \<subseteq> clicked_ids ops \<and> length sent \<le> answers ops + 1 \<and> (canEdit \<and> \<not> isProtected \<or> sent = []) \<and>
     (let h1 = fst (history_step tr canEdit isProtected ConfirmRollback h);
          h2 = fst (history_step tr canEdit isProtected (RollbackAnswer (Rejected e)) h1) in
      hs_rollbackEntry h2 = hs_rollbackEntry h \<and>
      (if hs_pending h1 then rollback_description tr n h2 = extractApiErrorMessage tr e ''Failed to roll back policy''
       else h2 = h))"
proof -
  obtain h sent where r: "history_run tr canEdit isProtected ops (history_mount k, []) = (h, sent)" by fastforce
  have ok: "set sent \<subseteq> clicked_ids ops" "length sent \<le> answers ops + 1" "canEdit \<and> \<not> isProtected \<or> sent = []"
    using history_run_ok [of canEdit isProtected ops tr k] by (auto simp: r history_ok_def split: if_splits)
  have "hs_rollbackEntry h2 = hs_rollbackEntry h \<and>
      (if hs_pending h1 then rollback_description tr n h2 = extractApiErrorMessage tr e ''Failed to roll back policy'' else h2 = h)"
    if "h1 = fst (history_step tr canEdit isProtected ConfirmRollback h)"
      "h2 = fst (history_step tr canEdit isProtected (RollbackAnswer (Rejected e)) h1)" for h1 h2
    using that by (auto simp: history_step_def rollback_description_def nullish_def confirm_enabled_def split: option.splits)
  from ok this [OF refl refl] show ?thesis unfolding r Let_def prod.case by blast
qed

end
