(* ===== verification/Dashboard.thy ===== *)
theory Dashboard
  imports PageTabs Urls Formatting AccessTabs
begin

text \<open>
  The start page and the caller's own access: \<open>dashboard/DashboardPage.tsx\<close> with its identity card
  (\<open>DashboardIdentityCard.tsx\<close>) and its shortcut tiles (\<open>OperationsShortcutsCard.tsx\<close>), and
  \<open>account_settings/AccountStatusCard.tsx\<close>. A query is its data, whether it is loading and whether it
  failed; \<open>local\<close> gives the fields of a date in the browser's time zone.
\<close>

record 'a load =
  l_data :: "'a option"
  l_isLoading :: bool
  l_isError :: bool

section \<open>OperationsShortcutsCard.tsx\<close>

datatype figure = NoFigure | Dash | Figure ustring

record shortcut_tile =
  st_label :: string
  st_figure :: figure
  st_caption :: string
  st_to :: string

definition operation_tile ::
  "translator \<Rightarrow> language \<Rightarrow> string \<Rightarrow> nat option \<Rightarrow> bool \<Rightarrow> bool \<Rightarrow> string \<Rightarrow> string \<Rightarrow> shortcut_tile" where
  "operation_tile tr lang label value isLoading isError secondary to =
     (let hasCount = (value \<noteq> None \<or> isLoading \<or> isError);
          caption = (if isError then tr_text tr ''dashboard:administration.loadError'' [] else secondary)
      in \<lparr>st_label = tr_text tr label [],
          st_figure = (if \<not> hasCount then NoFigure else if isLoading \<or> isError then Dash
            else Figure (formatNumber (map_option (\<lambda>n. Number (int n)) value) lang)),
          st_caption = caption, st_to = to\<rparr>)"

record operations =
  op_users :: "user_stats load"
  op_policies :: "policy list load"
  op_catalog :: "catalog_entry list load"
  op_rateLimits :: "nat load"

definition op_can :: "auth_state \<Rightarrow> string \<Rightarrow> bool" where
  "op_can a action = useCan a (OneAction action) None"

definition one_rate_limit :: list_rate_limits_params where
  "one_rate_limit = \<lparr>lr_page = None, lr_scope = None, lr_endpoint = None, lr_identifier = None, lr_page_size = Some 1,
     lr_kind = None, lr_sort_by = None, lr_sort_dir = None\<rparr>"

definition operations_queries :: "auth_state \<Rightarrow> query list" where
  "operations_queries a =
     [useUserStatsQuery (op_can a ''users:list_all''),
      usePoliciesQuery (op_can a ''policies:read''),
      usePermissionCatalogQuery (op_can a ''permissions:read''),
      query_of [KStr ''rate-limits'', KStr ''count''] (listRateLimitsApi one_rate_limit) (op_can a ''rate_limits:read'')]"

definition users_tile :: "translator \<Rightarrow> language \<Rightarrow> user_stats load \<Rightarrow> shortcut_tile" where
  "users_tile tr lang q = operation_tile tr lang ''dashboard:administration.users.label'' (map_option us_total (l_data q))
     (l_isLoading q) (l_isError q)
     (tr_text tr ''dashboard:administration.users.secondary''
        [(''unverified'', JNum (int (nullish (map_option us_unverified (l_data q)) 0))),
         (''inactive'', JNum (int (nullish (map_option us_inactive (l_data q)) 0)))]) ''/users''"

definition policies_tile :: "translator \<Rightarrow> language \<Rightarrow> policy list load \<Rightarrow> shortcut_tile" where
  "policies_tile tr lang q =
     (let total = map_option length (l_data q);
          active = map_option (\<lambda>ps. length (filter pol_is_active ps)) (l_data q)
      in operation_tile tr lang ''dashboard:administration.policies.label'' total (l_isLoading q) (l_isError q)
        (tr_text tr ''dashboard:administration.policies.secondary''
           [(''active'', JNum (int (nullish active 0))),
            (''inactive'', JNum (int (nullish total 0) - int (nullish active 0)))]) ''/policies'')"

definition permissions_tile :: "translator \<Rightarrow> language \<Rightarrow> catalog_entry list load \<Rightarrow> shortcut_tile" where
  "permissions_tile tr lang q = operation_tile tr lang ''dashboard:administration.permissions.label''
     (map_option length (l_data q)) (l_isLoading q) (l_isError q)
     (tr_text tr ''dashboard:administration.permissions.secondary''
        [(''count'', JNum (int (nullish (map_option (\<lambda>es. length (js_set (map ce_resource_type es))) (l_data q)) 0)))])
     ''/permissions''"

definition rate_limits_tile :: "translator \<Rightarrow> language \<Rightarrow> nat load \<Rightarrow> shortcut_tile" where
  "rate_limits_tile tr lang q = operation_tile tr lang ''dashboard:administration.rateLimits.label'' (l_data q)
     (l_isLoading q) (l_isError q) (tr_text tr ''dashboard:administration.rateLimits.secondary'' []) ''/rate-limits''"

definition security_tile :: "translator \<Rightarrow> language \<Rightarrow> shortcut_tile" where
  "security_tile tr lang = operation_tile tr lang ''dashboard:administration.securityEvents.label'' None False False
     (tr_text tr ''dashboard:administration.securityEvents.secondary'' []) ''/audit-log?category=security&scope=all''"

text \<open>The card, and the permission each tile asks for; a caller with none of them gets no card.\<close>

definition shortcut_tiles :: "translator \<Rightarrow> language \<Rightarrow> auth_state \<Rightarrow> operations \<Rightarrow> shortcut_tile list" where
  "shortcut_tiles tr lang a ops =
     (if op_can a ''users:list_all'' then [users_tile tr lang (op_users ops)] else [])
     @ (if op_can a ''policies:read'' then [policies_tile tr lang (op_policies ops)] else [])
     @ (if op_can a ''permissions:read'' then [permissions_tile tr lang (op_catalog ops)] else [])
     @ (if op_can a ''rate_limits:read'' then [rate_limits_tile tr lang (op_rateLimits ops)] else [])
     @ (if op_can a ''security_audit:read'' then [security_tile tr lang] else [])"

definition shortcuts_card :: "translator \<Rightarrow> language \<Rightarrow> auth_state \<Rightarrow> operations \<Rightarrow> shortcut_tile list option" where
  "shortcuts_card tr lang a ops =
     (if \<not> op_can a ''users:list_all'' \<and> \<not> op_can a ''policies:read'' \<and> \<not> op_can a ''permissions:read''
         \<and> \<not> op_can a ''rate_limits:read'' \<and> \<not> op_can a ''security_audit:read''
      then None else Some (shortcut_tiles tr lang a ops))"

section \<open>DashboardPage.tsx\<close>

definition greetingKeyFor :: "nat \<Rightarrow> string" where
  "greetingKeyFor hour =
     (if hour \<ge> 5 \<and> hour < 12 then ''morning'' else if hour \<ge> 12 \<and> hour < 17 then ''afternoon'' else ''evening'')"

definition GREETING_REFRESH_MS :: nat where
  "GREETING_REFRESH_MS = 60000"

text \<open>\<open>greet\<close> translates the greeting with the name; the separator is a middle dot.\<close>

definition dashboard_subtitle ::
  "(string \<Rightarrow> string \<Rightarrow> ustring) \<Rightarrow> (string \<Rightarrow> local_date \<Rightarrow> ustring) \<Rightarrow> language \<Rightarrow> local_date \<Rightarrow> current_user option \<Rightarrow> ustring" where
  "dashboard_subtitle greet long lang now user =
     (let today = formatLongDate long now lang in
      case map_option (\<lambda>u. split_ws (trim (cu_name u))) user of
        Some (firstName # rest) \<Rightarrow>
          if firstName \<noteq> [] then greet (greetingKeyFor (ld_hour now)) firstName @ [0x20, 0xB7, 0x20] @ today else today
      | _ \<Rightarrow> today)"

text \<open>The cards below the identity card.\<close>

definition lower_cards_shown :: "current_user load \<Rightarrow> bool" where
  "lower_cards_shown q \<longleftrightarrow> \<not> l_isLoading q \<and> \<not> l_isError q \<and> l_data q \<noteq> None"

section \<open>DashboardIdentityCard.tsx\<close>

text \<open>When, from where and with what the caller signed in before, as the query of theory \<open>Queries\<close> gives it.\<close>

type_synonym previous_login = "string \<times> string option \<times> string option"

text \<open>\<open>None\<close> while the query has no answer, \<open>Some None\<close> when there was no login before.\<close>

datatype login_stat = LoginUnknown | NoEarlierLogin | EarlierLogin ustring string string

definition login_stat ::
  "clock \<Rightarrow> (string \<Rightarrow> local_date) \<Rightarrow> (string \<Rightarrow> (string \<times> string) list \<Rightarrow> string) \<Rightarrow> language
     \<Rightarrow> previous_login option option \<Rightarrow> login_stat" where
  "login_stat clk local tr lang previousLogin =
     (case previousLogin of None \<Rightarrow> LoginUnknown
      | Some None \<Rightarrow> NoEarlierLogin
      | Some (Some (created_at, ip_address, user_agent)) \<Rightarrow>
          (let device = parseUserAgent tr user_agent in
           EarlierLogin (formatMemberSince (local created_at) lang @ codes '' '' @ formatTimeOnly clk (local created_at) lang)
             device (if truthy ip_address then device @ [CHR 0x20, CHR 0xB7, CHR 0x20] @ the ip_address else device)))"

datatype identity_view = IdentityLoading | IdentityFailed | NoIdentity | Identity string string string nat

text \<open>The card of a user: initials, name, role and number of sessions.\<close>

definition identity_view :: "translator \<Rightarrow> current_user load \<Rightarrow> identity_view" where
  "identity_view tr q =
     (if l_isLoading q then IdentityLoading
      else if l_isError q then IdentityFailed
      else (case l_data q of None \<Rightarrow> NoIdentity
        | Some u \<Rightarrow> Identity (Formatting.initialsFor (Some (cu_name u)) (Some (cu_email u))) (cu_name u)
            (nullish (cu_role u) (tr_text tr ''dashboard:noRole'' [])) (cu_active_sessions u)))"

definition identity_links :: "string list" where
  "identity_links = [''/account-settings?tab=password'', ''/account-settings?tab=appearance'']"

section \<open>AccountStatusCard.tsx\<close>

datatype 'a status_section = SectionLoading | SectionFailed | SectionShows 'a

definition status_section :: "bool \<Rightarrow> bool \<Rightarrow> 'a \<Rightarrow> 'a status_section" where
  "status_section isLoading isError content =
     (if isLoading then SectionLoading else if isError then SectionFailed else SectionShows content)"

record access_item = grant +
  sourceLabels :: "string list"

definition account_bothLoaded :: "policy list load \<Rightarrow> grant list load \<Rightarrow> bool" where
  "account_bothLoaded pq gq \<longleftrightarrow> \<not> l_isLoading pq \<and> \<not> l_isError pq \<and> \<not> l_isLoading gq \<and> \<not> l_isError gq"

definition effectiveWithSource :: "policy list load \<Rightarrow> grant list load \<Rightarrow> effective_grant list" where
  "effectiveWithSource pq gq =
     (if account_bothLoaded pq gq
      then (let es = buildEffectiveGrantsWithSource (nullish (l_data pq) []) (nullish (l_data gq) [])
            in dedupeAgainstWildcards es es) else [])"

definition effectivePermissions :: "translator \<Rightarrow> policy list load \<Rightarrow> grant list load \<Rightarrow> access_item list" where
  "effectivePermissions tr pq gq =
     map (\<lambda>e. \<lparr>g_action = g_action e, g_resource_type = g_resource_type e,
        sourceLabels = (if direct e then policyNames e @ [tr_text tr ''account_settings:accountStatus.directSourceLabel'' []]
                        else policyNames e)\<rparr>) (effectiveWithSource pq gq)"

definition directPermissions :: "policy list load \<Rightarrow> grant list load \<Rightarrow> grant list" where
  "directPermissions pq gq =
     (let raw = nullish (l_data gq) [] in
      if account_bothLoaded pq gq then dedupeAgainstWildcards raw (effectiveWithSource pq gq)
      else dedupeAgainstWildcards raw raw)"

record account_status =
  as_policies :: "(string \<times> string list) list status_section"
  as_direct :: "grant list status_section"
  as_effective :: "access_item list status_section"

definition account_status ::
  "translator \<Rightarrow> (string \<Rightarrow> string \<Rightarrow> int) \<Rightarrow> policy list load \<Rightarrow> grant list load \<Rightarrow> account_status" where
  "account_status tr lc pq gq =
     \<lparr>as_policies = status_section (l_isLoading pq) (l_isError pq)
        (map (\<lambda>(ty, ps). (formatResourceTypeLabel ty (tr_text tr ''policies:page.allResourceTypes'' []), map pol_name ps))
          (groupPoliciesByResourceType lc (nullish (l_data pq) []))),
      as_direct = status_section (l_isLoading gq) (l_isError gq) (directPermissions pq gq),
      as_effective = status_section (l_isLoading pq \<or> l_isLoading gq) (l_isError pq \<or> l_isError gq)
        (effectivePermissions tr pq gq)\<rparr>"

section \<open>Properties\<close>

definition security_link :: string where
  "security_link = ''/audit-log?category=security&scope=all''"

lemma security_link_read:
  "follow_link security_link = Some (''/audit-log'', [(''category'', ''security''), (''scope'', ''all'')])"
  unfolding security_link_def by code_simp

lemma tile_target: "st_to (operation_tile tr lang l v il ie sec to) = to"
  by (simp add: operation_tile_def Let_def)

text \<open>The permission and the destination of each tile.\<close>

definition tile_table :: "(string \<times> string) list" where
  "tile_table = [(''users:list_all'', ''/users''), (''policies:read'', ''/policies''), (''permissions:read'', ''/permissions''),
     (''rate_limits:read'', ''/rate-limits''), (''security_audit:read'', security_link)]"

lemma tile_targets: "map st_to (shortcut_tiles tr lang a ops) = map snd (filter (\<lambda>(act, to). op_can a act) tile_table)"
  by (simp add: shortcut_tiles_def users_tile_def policies_tile_def permissions_tile_def rate_limits_tile_def
      security_tile_def tile_target Let_def security_link_def tile_table_def)

text \<open>The route of a tile asks for no more than the tile does.\<close>

definition route_covers :: "string \<Rightarrow> route option \<Rightarrow> bool" where
  "route_covers act rt = (case rt of Some (Protected None) \<Rightarrow> True | Some (Protected (Some (OneAction b))) \<Rightarrow> b = act
     | Some (Protected (Some (AnyOf bs))) \<Rightarrow> act \<in> set bs | _ \<Rightarrow> False)"

lemma tile_routes: "list_all (\<lambda>(act, to). route_covers act (map_of APP_ROUTES (path_of to))) tile_table"
  by code_simp

lemma tile_opens:
  assumes "isAuthenticated a = Some True" "op_can a act" "(act, to) \<in> set tile_table"
  shows "opens a to"
proof -
  have "route_covers act (map_of APP_ROUTES (path_of to))" using tile_routes assms(3) by (auto simp: list_all_iff)
  then obtain perm where r: "map_of APP_ROUTES (path_of to) = Some (Protected perm)"
    and perm: "route_covers act (Some (Protected perm))"
    by (auto simp: route_covers_def split: option.splits route.splits action_spec.splits)
  have "route_allowed perm a" using perm assms(1,2)
    by (auto simp: route_covers_def route_allowed_def op_can_def useCan_def can_def no_permission_needed_def Let_def list_ex_iff
        split: option.splits action_spec.splits if_splits)
  then show ?thesis unfolding opens_def by (simp only: open_protected [OF r])
qed

text \<open>Every shortcut of the start page leads somewhere. For a signed-in caller each tile that is shown opens
  its page, not a redirect, and the tile of the security events opens the log of all users; a request for a number
  is sent exactly for the tiles that are shown.\<close>

theorem shortcuts_open:
  assumes "isAuthenticated a = Some True" "t \<in> set (shortcut_tiles tr lang a ops)"
  shows "opens a (st_to t) \<and>
     (st_to t = security_link \<longrightarrow> (\<exists>params. follow_link (st_to t) = Some (''/audit-log'', params) \<and>
        audit_view a \<lparr>au_url = params, au_category = c, au_scope = sc\<rparr> = Some AllSecurityLog)) \<and>
     map q_enabled (operations_queries a) =
       map (op_can a) [''users:list_all'', ''policies:read'', ''permissions:read'', ''rate_limits:read'']"
proof -
  have "st_to t \<in> set (map st_to (shortcut_tiles tr lang a ops))" using assms(2) by simp
  then obtain act where act: "(act, st_to t) \<in> set tile_table" "op_can a act" unfolding tile_targets by auto
  then have "st_to t = security_link \<longrightarrow> op_can a ''security_audit:read''" by (auto simp: tile_table_def security_link_def)
  with tile_opens [OF assms(1) act(2,1)]
  have go: "opens a (st_to t) \<and> (st_to t = security_link \<longrightarrow> op_can a ''security_audit:read'')" by simp
  have view: "audit_view a \<lparr>au_url = [(''category'', ''security''), (''scope'', ''all'')], au_category = c, au_scope = sc\<rparr>
      = Some AllSecurityLog" if "op_can a ''security_audit:read''"
    using that by (auto simp: audit_view_def initialCategory_def requestedScope_def initialScope_def nullish_def
      category_panel_def canReadAllSecurity_def op_can_def useCan_ifcan)
  have "map q_enabled (operations_queries a) =
       map (op_can a) [''users:list_all'', ''policies:read'', ''permissions:read'', ''rate_limits:read'']"
    by (simp add: operations_queries_def useUserStatsQuery_def usePoliciesQuery_def usePermissionCatalogQuery_def query_of_def)
  with go view security_link_read show ?thesis by auto
qed

text \<open>A tile that is loading shows numbers it does not have: a dash for the total, and below it the
  caption of an empty system.\<close>

lemma loading_tile_false_zero:
  "st_figure (users_tile tr lang \<lparr>l_data = None, l_isLoading = True, l_isError = False\<rparr>) = Dash \<and>
   st_caption (users_tile tr lang \<lparr>l_data = None, l_isLoading = True, l_isError = False\<rparr>) =
     st_caption (users_tile tr lang \<lparr>l_data = Some \<lparr>us_total = n, us_verified = n, us_unverified = 0, us_inactive = 0\<rparr>,
       l_isLoading = False, l_isError = False\<rparr>)"
  by (simp add: users_tile_def operation_tile_def Let_def nullish_def)

lemma shortcuts_open_witness:
  "opens (signed_in [''security_audit:read'']) security_link \<and>
   audit_view (signed_in [''security_audit:read''])
     \<lparr>au_url = [(''category'', ''security''), (''scope'', ''all'')], au_category = None, au_scope = None\<rparr> = Some AllSecurityLog"
proof -
  let ?a = "signed_in [''security_audit:read'']"
  define ops where "ops = \<lparr>op_users = \<lparr>l_data = None, l_isLoading = True, l_isError = False\<rparr>,
    op_policies = \<lparr>l_data = None, l_isLoading = True, l_isError = False\<rparr>,
    op_catalog = \<lparr>l_data = None, l_isLoading = True, l_isError = False\<rparr>,
    op_rateLimits = \<lparr>l_data = None, l_isLoading = True, l_isError = False\<rparr>\<rparr>"
  define tr where "tr = \<lparr>tr_exists = \<lambda>_. True, tr_text = \<lambda>k _. k\<rparr>"
  have s: "isAuthenticated ?a = Some True" by code_simp
  have "op_can ?a ''security_audit:read''" by code_simp
  then have t: "security_tile tr En \<in> set (shortcut_tiles tr En ?a ops)" by (simp add: shortcut_tiles_def)
  have to: "st_to (security_tile tr En) = security_link" by (simp add: security_tile_def tile_target security_link_def)
  from shortcuts_open [OF s t, of None None] security_link_read show ?thesis unfolding to by auto
qed

section \<open>The caller's own access\<close>

lemma account_pairs: "grant_pair ` set (effectivePermissions tr pq gq) = grant_pair ` set (effectiveWithSource pq gq)"
  by (auto simp: effectivePermissions_def grant_pair_def image_image)

text \<open>What the status tab shows is what the caller holds. Once both lists are loaded the effective
  permissions authorize exactly what the assigned policies and the direct grants do, and a direct grant missing
  from the list of direct ones is one that a wildcard among the effective permissions covers.\<close>

theorem account_status_complete:
  assumes "account_bothLoaded pq gq" "l_data pq = Some ps" "l_data gq = Some gs" "clean_holdings ps gs"
  shows "covers (grant_pair ` set (effectivePermissions tr pq gq)) act r = covers (held ps gs) act r \<and>
     (\<forall>g\<in>set gs. g \<in> set (directPermissions pq gq) \<or>
        (g_action g, WILDCARD_RESOURCE_TYPE) \<in> grant_pair ` set (effectivePermissions tr pq gq))"
proof -
  let ?es = "buildEffectiveGrantsWithSource ps gs"
  have pairs: "grant_pair ` set ?es = held ps gs"
    using effective_grants_with_source [OF assms(4)] by (simp add: Let_def)
  have eff: "effectiveWithSource pq gq = dedupeAgainstWildcards ?es ?es"
    using assms(1-3) by (simp add: effectiveWithSource_def nullish_def Let_def)
  have "covers (grant_pair ` set (dedupeAgainstWildcards ?es ?es)) act r = covers (held ps gs) act r"
    unfolding pairs [symmetric] by (auto simp: covers_def dedupe_pairs)
  moreover have "g \<in> set (directPermissions pq gq) \<or>
      (g_action g, WILDCARD_RESOURCE_TYPE) \<in> grant_pair ` set (effectivePermissions tr pq gq)" if "g \<in> set gs" for g
    unfolding account_pairs using that assms(1,3)
    by (auto simp: directPermissions_def dedupeAgainstWildcards_def Let_def nullish_def grant_pair_def image_iff)
  ultimately show ?thesis by (simp add: account_pairs eff)
qed

definition plain_translator :: translator where
  "plain_translator = \<lparr>tr_exists = \<lambda>_. True, tr_text = \<lambda>k _. k\<rparr>"

lemma account_status_complete_witness:
  "let pq = \<lparr>l_data = Some [sample_policy ''su'' [''policies:read''] ''*''], l_isLoading = False, l_isError = False\<rparr>;
       gq = \<lparr>l_data = Some [\<lparr>g_action = ''policies:read'', g_resource_type = ''policies''\<rparr>], l_isLoading = False, l_isError = False\<rparr> in
   covers (grant_pair ` set (effectivePermissions plain_translator pq gq)) ''policies:read'' ''policies''
   \<and> directPermissions pq gq = []"
proof -
  let ?ps = "[sample_policy ''su'' [''policies:read''] ''*'']"
  let ?gs = "[\<lparr>g_action = ''policies:read'', g_resource_type = ''policies''\<rparr>] :: grant list"
  let ?pq = "\<lparr>l_data = Some ?ps, l_isLoading = False, l_isError = False\<rparr>"
  let ?gq = "\<lparr>l_data = Some ?gs, l_isLoading = False, l_isError = False\<rparr>"
  have b: "account_bothLoaded ?pq ?gq" by (simp add: account_bothLoaded_def)
  have c: "clean_holdings ?ps ?gs" by (simp add: clean_holdings_def sample_policy_def clean_action_def starts_with_def)
  have "covers (held ?ps ?gs) ''policies:read'' ''policies''"
    by (simp add: covers_def held_def grant_pair_def policy_pairs_def)
  moreover have "directPermissions ?pq ?gq = []" by code_simp
  ultimately show ?thesis
    using account_status_complete [OF b _ _ c, of plain_translator "''policies:read''" "''policies''"] by (simp add: Let_def)
qed

text \<open>A deactivated policy still counts as access. The effective permissions do not look at whether a
  policy is active: switching policies on or off changes nothing in them, and the permissions of a caller whose
  only policy is switched off are listed as held.\<close>

definition with_status :: "(policy \<Rightarrow> bool) \<Rightarrow> policy list load \<Rightarrow> policy list load" where
  "with_status active q = q\<lparr>l_data := map_option (map (\<lambda>p. p\<lparr>pol_is_active := active p\<rparr>)) (l_data q)\<rparr>"

lemma sources_ignore_status:
  "buildEffectiveGrantsWithSource (map (\<lambda>p. p\<lparr>pol_is_active := active p\<rparr>) ps) gs = buildEffectiveGrantsWithSource ps gs"
proof -
  have "add_policy_action (p\<lparr>pol_is_active := b\<rparr>) act m = add_policy_action p act m" for p b act m
    by (simp add: add_policy_action_def Let_def split: option.split)
  then show ?thesis by (simp add: buildEffectiveGrantsWithSource_def foldl_map)
qed

theorem inactive_policy_shown_effective:
  "effectivePermissions tr (with_status active pq) gq = effectivePermissions tr pq gq \<and>
   (pol_is_active p = False \<and> pol_actions p = [act] \<longrightarrow>
     map grant_pair (effectivePermissions tr \<lparr>l_data = Some [p], l_isLoading = False, l_isError = False\<rparr>
       \<lparr>l_data = Some [], l_isLoading = False, l_isError = False\<rparr>) = [(act, pol_resource_type p)])"
proof -
  have "effectiveWithSource (with_status active pq) gq = effectiveWithSource pq gq"
    by (cases "l_data pq") (simp_all add: effectiveWithSource_def with_status_def account_bothLoaded_def
        sources_ignore_status nullish_def)
  moreover have "map grant_pair (effectivePermissions tr \<lparr>l_data = Some [p], l_isLoading = False, l_isError = False\<rparr>
       \<lparr>l_data = Some [], l_isLoading = False, l_isError = False\<rparr>) = [(act, pol_resource_type p)]" if "pol_actions p = [act]"
    using that by (auto simp: effectivePermissions_def effectiveWithSource_def account_bothLoaded_def nullish_def
        buildEffectiveGrantsWithSource_def add_policy_action_def dedupeAgainstWildcards_def Let_def grant_pair_def
        om_get_def om_set_def om_values_def)
  ultimately show ?thesis by (simp add: effectivePermissions_def)
qed

section \<open>Greeting and links\<close>

text \<open>Each hour of the day has one greeting, and the subtitle always ends with the date.\<close>

lemma greeting_by_hour:
  "greetingKeyFor h = ''morning'' \<longleftrightarrow> h \<in> {5..11}" "greetingKeyFor h = ''afternoon'' \<longleftrightarrow> h \<in> {12..16}"
  "greetingKeyFor h = ''evening'' \<longleftrightarrow> h < 5 \<or> 17 \<le> h"
  by (auto simp: greetingKeyFor_def)

lemma subtitle_ends_with_date:
  "\<exists>pre. dashboard_subtitle greet long lang now user = pre @ formatLongDate long now lang"
  by (auto simp: dashboard_subtitle_def Let_def split: option.splits list.splits)

text \<open>The links of the identity card open the settings tab they name.\<close>

definition link_opens_tab :: "string option \<Rightarrow> string \<Rightarrow> bool" where
  "link_opens_tab stored href =
     (case follow_link href of
        Some (path, params) \<Rightarrow> path = ''/account-settings'' \<and>
          (case map_of params ''tab'' of None \<Rightarrow> False
           | Some tab \<Rightarrow> panels_shown SETTINGS_TABS (settings_mount (Some tab) stored) = [tab])
      | None \<Rightarrow> False)"

lemma identity_links_open: "list_all (link_opens_tab stored) identity_links"
proof -
  have "panels_shown SETTINGS_TABS (settings_mount (Some tab) stored) = panels_shown SETTINGS_TABS (settings_mount (Some tab) None)"
    for tab by (simp add: panels_shown_def settings_mount_def Let_def initialTab_def nullish_def)
  then have "link_opens_tab stored = link_opens_tab None"
    by (simp add: link_opens_tab_def fun_eq_iff split: option.split)
  moreover have "list_all (link_opens_tab None) identity_links" by code_simp
  ultimately show ?thesis by (simp only:)
qed

end
