(* ===== verification/LogDetails.thy ===== *)
theory LogDetails
  imports AuditLog PolicyText Widgets
begin

text \<open>
  What the audit logs show and offer: the columns of the two tables
  (\<open>security_log/securityLogColumns.tsx\<close>, \<open>authorization_log/authorizationLogColumns.tsx\<close>), the filter
  bars, the sections of the two details drawers (\<open>SecurityDetailsDrawer.tsx\<close>,
  \<open>AuthorizationDetailsDrawer.tsx\<close>) with their copy buttons, and the drawer's keyboard
  (\<open>ui/display/DetailsDrawer.tsx\<close>) over the whole log. The text of a time stamp in the language of the
  interface is the parameter \<open>stamp\<close>; \<open>tr\<close> is the translation. Names that every JavaScript object
  has, such as \<open>constructor\<close>, are not distinguished as keys of metadata.
\<close>

section \<open>Columns\<close>

record log_column =
  lc_key :: string
  lc_header :: string
  lc_sortable :: bool

definition log_column :: "log_tr \<Rightarrow> string \<Rightarrow> string \<Rightarrow> log_column" where
  "log_column tr key header = \<lparr>lc_key = key, lc_header = tr header [], lc_sortable = True\<rparr>"

definition getSecurityColumns :: "log_tr \<Rightarrow> log_column list" where
  "getSecurityColumns tr =
     [log_column tr ''created_at'' ''security.columns.when'', log_column tr ''user_email'' ''security.columns.user'',
      log_column tr ''event_type'' ''security.columns.event'', log_column tr ''success'' ''security.columns.result'']"

definition getAuthorizationColumns :: "log_tr \<Rightarrow> log_column list" where
  "getAuthorizationColumns tr =
     [log_column tr ''created_at'' ''authorization.columns.when'', log_column tr ''user_email'' ''authorization.columns.user'',
      log_column tr ''action'' ''authorization.columns.action'', log_column tr ''resource_type'' ''authorization.columns.resource'',
      log_column tr ''allowed'' ''authorization.columns.result'']"

text \<open>
  The cells of a row, by column: the text, or the reason shown in place of an account that is not
  known; the outcome is plain when it is the usual one and a red badge otherwise.
\<close>

datatype log_cell = TextCell ustring | MissingCell string | PlainOutcome string | RedOutcome string
  | StackedCell string "string option"

definition security_event_label :: "(string \<Rightarrow> string \<Rightarrow> string) \<Rightarrow> string \<Rightarrow> string" where
  "security_event_label label_default ev =
     label_default (''security.filterBar.eventLabels.'' @ ev) (humanizeSecurityEventType ev)"

definition security_cells ::
  "log_tr \<Rightarrow> (string \<Rightarrow> string \<Rightarrow> string) \<Rightarrow> (string \<Rightarrow> ustring) \<Rightarrow> security_log_entry \<Rightarrow> log_cell list" where
  "security_cells tr label_default stamp e =
     [TextCell (stamp (sl_created_at e)),
      (case sl_user_email e of None \<Rightarrow> MissingCell (tr ''security.columns.unknownUserReason'' []) | Some m \<Rightarrow> TextCell (codes m)),
      TextCell (codes (security_event_label label_default (sl_event_type e))),
      (if sl_success e then PlainOutcome (tr ''security.results.success'' []) else RedOutcome (tr ''security.results.failed'' []))]"

definition authorization_cells :: "log_tr \<Rightarrow> (string \<Rightarrow> ustring) \<Rightarrow> authz_log_entry \<Rightarrow> log_cell list" where
  "authorization_cells tr stamp e =
     [TextCell (stamp (al_created_at e)), TextCell (codes (al_user_email e)),
      TextCell (codes (formatPolicyActionLabel (al_action e))),
      StackedCell (formatResourceTypeLabel (al_resource_type e) (tr ''policies:page.allResourceTypes'' []))
        (if truthy (al_resource_identifier e) then al_resource_identifier e else None),
      (if al_allowed e then PlainOutcome (tr ''authorization.results.allowed'' [])
       else RedOutcome (tr ''authorization.results.denied'' []))]"

text \<open>What the server sorts by (\<open>_SORTABLE_COLUMNS\<close> of its two repositories).\<close>

definition security_sortable :: "string list" where
  "security_sortable = [''created_at'', ''user_email'', ''event_type'', ''ip_address'', ''success'']"

definition authorization_sortable :: "string list" where
  "authorization_sortable = [''created_at'', ''user_email'', ''action'', ''resource_type'', ''allowed'']"

section \<open>Filter bars\<close>

text \<open>The search box: blank and disabled, with a hint, where the log is one's own.\<close>

record log_search =
  ls_value :: string
  ls_disabled :: bool
  ls_tooltip :: "string option"

definition searchBox :: "log_tr \<Rightarrow> bool \<Rightarrow> string \<Rightarrow> log_search" where
  "searchBox tr mine s =
     \<lparr>ls_value = (if mine then [] else s), ls_disabled = mine,
      ls_tooltip = (if mine then Some (tr ''shared.searchDisabledMine'' []) else None)\<rparr>"

definition eventGroups :: "log_tr \<Rightarrow> gs_group list" where
  "eventGroups tr =
     map (\<lambda>g. \<lparr>gg_key = fst g, gg_label = tr (''security.filterBar.eventGroups.'' @ fst g) [],
               gg_options = map (\<lambda>v. \<lparr>gs_value = v, gs_label = tr (''security.filterBar.eventLabels.'' @ v) [],
                 gs_sublabel = Some v\<rparr>) (snd g)\<rparr>) SECURITY_EVENT_TYPE_GROUPS"

definition action_picker :: "log_tr \<Rightarrow> string list option \<Rightarrow> string list option \<Rightarrow> gs_group list" where
  "action_picker tr extraActions extraResourceTypes =
     map (\<lambda>g. \<lparr>gg_key = fst g, gg_label = formatResourceTypeLabel (fst g) (tr ''policies:page.allResourceTypes'' []),
               gg_options = map (\<lambda>a. \<lparr>gs_value = a, gs_label = formatPolicyActionLabel a, gs_sublabel = None\<rparr>) (snd g)\<rparr>)
       (actionGroups extraActions extraResourceTypes)"

text \<open>The label of no action: it names the resource type in force, if there is one.\<close>

definition allActionsLabel :: "log_tr \<Rightarrow> string \<Rightarrow> string" where
  "allActionsLabel tr resourceType =
     (if resourceType \<noteq> []
      then tr ''authorization.filterBar.allActionsForResource''
             [(''resource'', formatResourceTypeLabel resourceType (tr ''policies:page.allResourceTypes'' []))]
      else tr ''authorization.filterBar.allActions'' [])"

definition result_options :: "log_tr \<Rightarrow> string \<Rightarrow> string \<Rightarrow> string \<Rightarrow> (string \<times> string) list" where
  "result_options tr all_key yes_key no_key =
     [([], tr all_key []), (''true'', tr yes_key []), (''false'', tr no_key [])]"

definition security_results :: "log_tr \<Rightarrow> (string \<times> string) list" where
  "security_results tr = result_options tr ''security.filterBar.allResults'' ''security.results.success'' ''security.results.failed''"

definition authorization_results :: "log_tr \<Rightarrow> (string \<times> string) list" where
  "authorization_results tr =
     result_options tr ''authorization.filterBar.allResults'' ''authorization.results.allowed'' ''authorization.results.denied''"

text \<open>The constants the server writes as event types (\<open>audit_log_service.py\<close>).\<close>

definition server_event_types :: "string list" where
  "server_event_types =
     [''login_success'', ''login_failure'', ''logout'', ''logout_all'', ''signup'', ''oauth2_login_success'',
      ''oauth2_state_mismatch'', ''password_reset_requested'', ''password_reset_confirmed'',
      ''account_verification_requested'', ''account_verified'', ''account_locked'', ''login_ip_locked'',
      ''login_account_cooldown'', ''rate_limit_exceeded'', ''refresh_token_reuse_detected'',
      ''refresh_token_context_changed'', ''session_event_connection_limit_exceeded'', ''session_revoked'',
      ''account_deleted'', ''account_deleted_self'', ''account_purged'', ''account_reactivated'', ''policy_assigned'',
      ''policy_revoked'', ''policy_action_revoked'', ''permission_granted'', ''permission_revoked'',
      ''user_role_changed'', ''user_fields_updated'', ''passkey_registered'', ''passkey_registration_failure'',
      ''passkey_renamed'', ''passkey_removed'', ''passkey_login_success'', ''passkey_login_failure'',
      ''passkey_step_up_success'', ''passkey_step_up_failure'']"

section \<open>Metadata and context as text\<close>

definition newline :: string where
  "newline = [CHR 0x0A]"

definition METADATA_LABELS :: "(string \<times> string) list" where
  "METADATA_LABELS =
     [(''action'', ''Action''), (''assigned_by'', ''Assigned by''), (''changed_by'', ''Changed by''),
      (''deleted_by'', ''Deleted by''), (''granted_by'', ''Granted by''), (''new_role'', ''New role''),
      (''old_role'', ''Old role''), (''policy_name'', ''Policy''), (''purged_by'', ''Purged by''),
      (''reactivated_by'', ''Reactivated by''), (''reason'', ''Reason''), (''resource_type'', ''Resource type''),
      (''retained_actions'', ''Retained actions''), (''revoked_by'', ''Revoked by''),
      (''sessions_revoked'', ''Sessions revoked''), (''sessions_revoked_confirmed'', ''Sessions revoked'')]"

definition metadataLabel :: "string \<Rightarrow> string" where
  "metadataLabel key =
     (case map_of METADATA_LABELS key of Some l \<Rightarrow> l
      | None \<Rightarrow> join '' '' (map capitalize (filter (\<lambda>p. p \<noteq> []) (split_on (CHR ''_'') key))))"

definition is_scalar :: "json \<Rightarrow> bool" where
  "is_scalar v = (case v of JStr _ \<Rightarrow> True | JNum _ \<Rightarrow> True | JBool _ \<Rightarrow> True | _ \<Rightarrow> False)"

primrec metadataValue :: "json \<Rightarrow> string" where
  "metadataValue JUndef = ''-''"
| "metadataValue JNull = ''-''"
| "metadataValue (JBool b) = (if b then ''Yes'' else ''No'')"
| "metadataValue (JNum n) = show_int n"
| "metadataValue (JStr s) = s"
| "metadataValue (JArr vs) =
     (if vs = [] then ''-''
      else join (if list_all is_scalar vs then '', '' else newline) (map metadataValue vs))"
| "metadataValue (JObj fs) =
     join newline (map (\<lambda>f. metadataLabel (fst f) @ '': '' @ snd f) (map (map_prod id metadataValue) fs))"

definition humanizeIdentifier :: "string \<Rightarrow> string" where
  "humanizeIdentifier value =
     (let label = trim (blank_seps value) in if label \<noteq> [] then capitalize label else value)"

definition humanizeKey :: "string \<Rightarrow> string" where
  "humanizeKey key = (let label = trim (blank_seps key) in if label \<noteq> [] then capitalize label else key)"

text \<open>
  The time stamps \<open>readableValue\<close> recognises: a \<open>d\<close> of the shape stands for a digit, an \<open>s\<close> for a sign;
  then an optional fraction and a zone.
\<close>

definition is_digit :: "char \<Rightarrow> bool" where
  "is_digit c \<longleftrightarrow> 48 \<le> ucode c \<and> ucode c \<le> 57"

definition shaped :: "string \<Rightarrow> string \<Rightarrow> bool" where
  "shaped shape s \<longleftrightarrow>
     list_all2 (\<lambda>p c. if p = CHR ''d'' then is_digit c else if p = CHR ''s'' then c = CHR ''+'' \<or> c = CHR ''-'' else c = p)
       shape s"

definition zone_text :: "string \<Rightarrow> bool" where
  "zone_text s \<longleftrightarrow> s = ''Z'' \<or> shaped ''sdd:dd'' s"

definition fraction_zone :: "string \<Rightarrow> bool" where
  "fraction_zone s =
     (case s of [] \<Rightarrow> False
      | c # cs \<Rightarrow> if c = CHR ''.'' then takeWhile is_digit cs \<noteq> [] \<and> zone_text (dropWhile is_digit cs) else zone_text s)"

definition iso_stamp :: "string \<Rightarrow> bool" where
  "iso_stamp s \<longleftrightarrow> shaped ''dddd-dd-ddTdd:dd:dd'' (take 19 s) \<and> fraction_zone (drop 19 s)"

text \<open>\<open>valid\<close>: the engine reads the text as a date.\<close>

primrec readableValue :: "(string \<Rightarrow> bool) \<Rightarrow> (string \<Rightarrow> ustring) \<Rightarrow> json \<Rightarrow> ustring" where
  "readableValue valid stamp JUndef = codes ''-''"
| "readableValue valid stamp JNull = codes ''-''"
| "readableValue valid stamp (JBool b) = codes (if b then ''Yes'' else ''No'')"
| "readableValue valid stamp (JNum n) = codes (show_int n)"
| "readableValue valid stamp (JStr s) = (if iso_stamp s \<and> valid s then stamp s else codes s)"
| "readableValue valid stamp (JArr vs) =
     (if vs = [] then codes ''-'' else join (codes '', '') (map (readableValue valid stamp) vs))"
| "readableValue valid stamp (JObj fs) =
     join (codes newline) (map (\<lambda>f. codes (humanizeKey (fst f) @ '': '') @ snd f) (map (map_prod id (readableValue valid stamp)) fs))"

section \<open>The sections of the drawers\<close>

text \<open>
  A section has a title and a body: labelled rows under an optional sentence, a sentence alone, the
  policies that granted and those that did not, or a list of failed conditions with what they needed.
\<close>

datatype section_body = Rows "string option" "(string \<times> ustring) list" | Sentence string
  | PolicyBadges "string list" "string list" | Conditions "(string \<times> string) list"

type_synonym details_section = "string \<times> section_body"

definition or_text :: "string option \<Rightarrow> string \<Rightarrow> ustring" where
  "or_text v d = codes (nullish v d)"

definition security_sections :: "log_tr \<Rightarrow> (string \<Rightarrow> ustring) \<Rightarrow> security_log_entry \<Rightarrow> details_section list" where
  "security_sections tr stamp e =
     (let t = (\<lambda>k. tr k []); details = securityAccessChangeDetails e tr; md = nullish (sl_event_metadata e) [] in
      [(t ''security.drawer.event'',
        Rows None
          [(t ''security.columns.result'', codes (t (if sl_success e then ''security.results.success'' else ''security.results.failed''))),
           (t ''security.columns.event'', codes (humanizeIdentifier (sl_event_type e))),
           (t ''security.columns.user'', or_text (sl_user_email e) (t ''security.columns.unknownUser'')),
           (t ''security.columns.when'', stamp (sl_created_at e))])]
      @ (if details \<noteq> []
         then [(t ''security.drawer.accessChange'',
                Rows (let s = securityAccessChangeSummary e tr in if truthy s then s else None)
                  (map (\<lambda>d. (fst d, codes (snd d))) details @ [(t ''security.columns.when'', stamp (sl_created_at e))]))]
         else [])
      @ [(t ''security.drawer.client'',
          Rows None
            [(t ''security.columns.ip'', or_text (sl_ip_address e) (t ''security.columns.unknownIp'')),
             (t ''security.drawer.userAgent'', or_text (sl_user_agent e) (t ''security.drawer.noUserAgent''))]),
         (t ''security.drawer.request'',
          Rows None
            [(t ''security.drawer.requestId'', or_text (sl_request_id e) (t ''security.drawer.noRequestId'')),
             (t ''security.drawer.eventId'', codes (show_int (sl_id e)))]),
         (t ''security.drawer.metadata'',
          if md \<noteq> [] then Rows None (map (\<lambda>f. (metadataLabel (fst f), codes (metadataValue (snd f)))) md)
          else Sentence (t ''security.drawer.noMetadata''))])"

definition consideredNotGranting :: "authz_log_entry \<Rightarrow> string list" where
  "consideredNotGranting e = filter (\<lambda>n. n \<notin> set (al_granting_policy_names e)) (al_candidate_policy_names e)"

definition policies_body :: "log_tr \<Rightarrow> authz_log_entry \<Rightarrow> section_body" where
  "policies_body tr e =
     (if al_granting_policy_names e = [] \<and> consideredNotGranting e = []
      then Sentence (tr ''authorization.drawer.noPoliciesConsidered'' [])
      else PolicyBadges (al_granting_policy_names e) (consideredNotGranting e))"

definition conditions_body :: "log_tr \<Rightarrow> authz_log_entry \<Rightarrow> section_body" where
  "conditions_body tr e =
     (if nullish (al_failed_conditions e) [] = [] then Sentence (tr ''authorization.drawer.noPolicyCovered'' [])
      else Conditions (map (\<lambda>c. (humanizeKey (fst c), join '', '' (snd c))) (nullish (al_failed_conditions e) [])))"

text \<open>The resource and, after a middle dot, the record in it.\<close>

definition resource_text :: "log_tr \<Rightarrow> authz_log_entry \<Rightarrow> ustring" where
  "resource_text tr e =
     codes (formatResourceTypeLabel (al_resource_type e) (tr ''policies:page.allResourceTypes'' []))
     @ (if truthy (al_resource_identifier e) then [32, 183, 32] @ codes (the (al_resource_identifier e)) else [])"

definition authorization_sections ::
  "log_tr \<Rightarrow> (string \<Rightarrow> bool) \<Rightarrow> (string \<Rightarrow> ustring) \<Rightarrow> authz_log_entry \<Rightarrow> details_section list" where
  "authorization_sections tr valid stamp e =
     (let t = (\<lambda>k. tr k []); ctx = nullish (al_context e) [] in
      [(t ''authorization.drawer.decision'',
        Rows None
          [(t ''authorization.columns.result'', codes (t (if al_allowed e then ''authorization.results.allowed'' else ''authorization.results.denied''))),
           (t ''authorization.columns.action'', codes (formatPolicyActionLabel (al_action e))),
           (t ''authorization.columns.resource'', resource_text tr e),
           (t ''authorization.columns.user'', codes (al_user_email e)),
           (t ''authorization.columns.when'', stamp (al_created_at e))]),
       (t ''authorization.drawer.auditRecord'', Rows None [(t ''authorization.drawer.eventId'', codes (show_int (al_id e)))]),
       (t ''authorization.drawer.policies'', policies_body tr e)]
      @ (if al_allowed e then [] else [(t ''authorization.drawer.failedConditions'', conditions_body tr e)])
      @ (if ctx \<noteq> []
         then [(t ''authorization.drawer.requestContext'',
                Rows None (map (\<lambda>f. (humanizeKey (fst f), readableValue valid stamp (snd f))) ctx))] else []))"

text \<open>The filters offered in the footer: \<open>user\<close>, \<open>ip\<close>, \<open>event\<close>, \<open>action\<close> say which handlers the section passes.\<close>

datatype footer_filter = OnlyThisUser string | OnlyThisIp string | OnlyThisEvent string | OnlyThisAction string

definition security_footer :: "bool \<Rightarrow> bool \<Rightarrow> bool \<Rightarrow> security_log_entry \<Rightarrow> footer_filter list" where
  "security_footer user ip event e =
     (if user \<and> truthy (sl_user_email e) then [OnlyThisUser (the (sl_user_email e))] else [])
     @ (if ip \<and> truthy (sl_ip_address e) then [OnlyThisIp (the (sl_ip_address e))] else [])
     @ (if event then [OnlyThisEvent (sl_event_type e)] else [])"

definition authorization_footer :: "bool \<Rightarrow> bool \<Rightarrow> authz_log_entry \<Rightarrow> footer_filter list" where
  "authorization_footer user action e =
     (if user then [OnlyThisUser (al_user_email e)] else []) @ (if action then [OnlyThisAction (al_action e)] else [])"

text \<open>The position of the entry, once the total is known: \<open>tr2\<close> takes parameters in any script.\<close>

definition drawer_position ::
  "(string \<Rightarrow> (string \<times> ustring) list \<Rightarrow> ustring) \<Rightarrow> language \<Rightarrow> 'e log_data \<Rightarrow> 'e drawer \<Rightarrow> ustring option" where
  "drawer_position tr2 lang data d =
     (case (dr_index d, data) of
        (Some g, Some (rows, n)) \<Rightarrow>
          Some (tr2 ''authorization.drawer.position''
            [(''index'', formatNumber (Some (Number (int g + 1))) lang), (''total'', formatNumber (Some (Number (int n))) lang)])
      | _ \<Rightarrow> None)"

section \<open>The keyboard of the drawer\<close>

record key_target =
  kt_tag :: string
  kt_editable :: bool

definition typing_in :: "key_target \<Rightarrow> bool" where
  "typing_in t \<longleftrightarrow> kt_tag t \<in> set [''INPUT'', ''TEXTAREA'', ''SELECT''] \<or> kt_editable t"

definition next_keys :: "string list" where
  "next_keys = [''j'', ''ArrowRight'', ''ArrowDown'']"

definition previous_keys :: "string list" where
  "previous_keys = [''k'', ''ArrowLeft'', ''ArrowUp'']"

datatype nav_input = KeyDown string key_target | PreviousButton | NextButton

text \<open>The listener is there while the drawer is open; the buttons are disabled where they cannot move.\<close>

definition handleKeyDown :: "'e log_data \<Rightarrow> string \<Rightarrow> key_target \<Rightarrow> 'e drawer \<Rightarrow> 'e drawer" where
  "handleKeyDown data key target d =
     (if typing_in target then d
      else if key \<in> set next_keys \<and> canGoNext data d then onNext data d
      else if key \<in> set previous_keys \<and> canGoPrevious d then onPrevious data d
      else d)"

definition nav_step :: "'e log_data \<Rightarrow> nav_input \<Rightarrow> 'e drawer \<Rightarrow> 'e drawer" where
  "nav_step data i d =
     (case i of
        KeyDown key target \<Rightarrow> handleKeyDown data key target d
      | NextButton \<Rightarrow> if canGoNext data d then onNext data d else d
      | PreviousButton \<Rightarrow> if canGoPrevious d then onPrevious data d else d)"

section \<open>Copy buttons\<close>

text \<open>
  Copying shows a tick on the field and starts a timer; \<open>fire\<close> is what a timer does when it runs out:
  the security drawer clears the tick of its own field, the authorization drawer any tick.
\<close>

record copy_state =
  copiedField :: "string option"
  copy_timers :: "(nat \<times> string) list"

definition copy_idle :: copy_state where
  "copy_idle = \<lparr>copiedField = None, copy_timers = []\<rparr>"

definition copy_field :: "nat \<Rightarrow> string \<Rightarrow> copy_state \<Rightarrow> copy_state" where
  "copy_field now field s = s\<lparr>copiedField := Some field, copy_timers := copy_timers s @ [(now + 1500, field)]\<rparr>"

definition security_fire :: "string \<Rightarrow> string option \<Rightarrow> string option" where
  "security_fire field f = (if f = Some field then None else f)"

definition authorization_fire :: "string \<Rightarrow> string option \<Rightarrow> string option" where
  "authorization_fire field f = None"

definition copy_advance :: "(string \<Rightarrow> string option \<Rightarrow> string option) \<Rightarrow> nat \<Rightarrow> copy_state \<Rightarrow> copy_state" where
  "copy_advance fire now s =
     \<lparr>copiedField = foldl (\<lambda>f t. fire (snd t) f) (copiedField s) (filter (\<lambda>t. fst t \<le> now) (copy_timers s)),
      copy_timers = filter (\<lambda>t. \<not> fst t \<le> now) (copy_timers s)\<rparr>"

section \<open>Properties of the drawer's navigation\<close>

text \<open>The reference: a cursor on a log of \<open>n\<close> entries, which stops at both ends.\<close>

definition cursor :: "nat \<Rightarrow> nav_input \<Rightarrow> nat \<Rightarrow> nat" where
  "cursor n i g =
     (let up = (if Suc g < n then Suc g else g); down = g - 1 in
      case i of
        KeyDown key target \<Rightarrow>
          if typing_in target then g else if key \<in> set next_keys then up
          else if key \<in> set previous_keys then down else g
      | NextButton \<Rightarrow> up
      | PreviousButton \<Rightarrow> down)"

lemma log_steps:
  assumes "drawer_at entries g d"
  shows "canGoNext (log_page entries q) d \<longleftrightarrow> Suc g < length entries"
    "canGoPrevious d \<longleftrightarrow> 0 < g"
    "Suc g < length entries \<Longrightarrow> drawer_at entries (Suc g) (onNext (log_page entries q) d)"
    "0 < g \<Longrightarrow> drawer_at entries (g - 1) (onPrevious (log_page entries q) d)"
  using assms
  by (auto simp: drawer_at_def canGoNext_def canGoPrevious_def onNext_def onPrevious_def log_page_def go_to_def Let_def)

lemma nav_keys_disjoint: "key \<in> set next_keys \<Longrightarrow> key \<notin> set previous_keys"
  by (auto simp: next_keys_def previous_keys_def)

lemma nav_step_cursor:
  assumes "drawer_at entries g d"
  shows "drawer_at entries (cursor (length entries) i g) (nav_step (log_page entries q) i d)"
proof (cases "0 < g")
  case True
  then show ?thesis using assms log_steps(1,3,4) [OF assms, of q] log_steps(2) [OF assms]
    by (cases i) (auto simp: nav_step_def handleKeyDown_def cursor_def dest: nav_keys_disjoint)
next
  case False
  then show ?thesis using assms log_steps(1,3,4) [OF assms, of q] log_steps(2) [OF assms]
    by (cases i) (auto simp: nav_step_def handleKeyDown_def cursor_def dest: nav_keys_disjoint)
qed

text \<open>A run of inputs, each with the page of the log that the query holds at that moment.\<close>

definition nav_run :: "'e list \<Rightarrow> (nat \<times> nav_input) list \<Rightarrow> 'e drawer \<Rightarrow> 'e drawer" where
  "nav_run entries ins d = foldl (\<lambda>d i. nav_step (log_page entries (fst i)) (snd i) d) d ins"

lemma nav_run_cursor:
  "drawer_at entries g d
    \<Longrightarrow> drawer_at entries (foldl (\<lambda>g i. cursor (length entries) (snd i) g) g ins) (nav_run entries ins d)"
proof (induction ins arbitrary: g d)
  case (Cons i ins)
  from Cons.IH [OF nav_step_cursor [OF Cons.prems, of "snd i" "fst i"]] show ?case by (simp add: nav_run_def)
qed (simp add: nav_run_def)

text \<open>The keyboard and the buttons move a cursor on the log. Whatever keys and buttons are used in
  whatever order, and however late the pages load, the open position is that of a cursor that stops
  at both ends of the log and ignores what is typed in a field; once its page has loaded, the drawer
  shows the entry there.\<close>

theorem keyboard_moves_cursor:
  assumes "drawer_at entries g d"
  shows "let g' = foldl (\<lambda>g i. cursor (length entries) (snd i) g) g ins; d' = nav_run entries ins d in
    g' < length entries \<and> dr_index d' = Some g' \<and> dr_page d' = page_of_index g'
    \<and> drawerEntry (log_page entries (dr_page d')) True d' = Some (entries ! g')"
proof -
  note at = nav_run_cursor [OF assms]
  show ?thesis using at [of ins] drawer_shows [OF at [of ins]] by (simp add: Let_def drawer_at_def)
qed

lemma keyboard_moves_cursor_witness:
  "dr_index (nav_run [''a'', ''b'', ''c'']
      [(1, KeyDown ''j'' \<lparr>kt_tag = ''BODY'', kt_editable = False\<rparr>), (1, KeyDown ''k'' \<lparr>kt_tag = ''INPUT'', kt_editable = False\<rparr>),
       (1, NextButton), (1, NextButton)] \<lparr>dr_page = 1, dr_index = Some 0, dr_entry = Some ''a''\<rparr>) = Some 2"
proof -
  let ?d = "\<lparr>dr_page = 1, dr_index = Some 0, dr_entry = Some ''a''\<rparr> :: string drawer"
  have "drawer_at [''a'', ''b'', ''c''] 0 ?d" by (simp add: drawer_at_def page_of_index_def AUDIT_PAGE_SIZE_def)
  from keyboard_moves_cursor [OF this] show ?thesis
    by (simp add: Let_def cursor_def typing_in_def next_keys_def previous_keys_def)
qed

text \<open>Two steps across the end of a page show an entry of the page before. While the next page
  loads, the query still holds the rows of the old one: the first step leaves the open entry as it is,
  and the second takes the second row of the old page for the second row of the new one. The drawer
  then names position \<open>g + 3\<close>, counted from one, over the details of the entry 23 places before
  the one it started from, until the page has loaded.\<close>

theorem fast_steps_show_stale_row:
  assumes "drawer_at entries g d" "Suc g mod AUDIT_PAGE_SIZE = 0" "Suc (Suc g) < length entries"
  shows "let old = log_page entries (page_of_index g); d' = onNext old (onNext old d) in
    dr_index d' = Some (g + 2) \<and> drawerEntry old False d' = Some (entries ! (g - 23))
    \<and> drawerEntry (log_page entries (dr_page d')) True d' = Some (entries ! (g + 2))"
proof -
  let ?old = "log_page entries (page_of_index g)"
  obtain k where g: "g = 25 * k + 24"
  proof
    show "g = 25 * (g div 25) + 24" using assms(2) unfolding AUDIT_PAGE_SIZE_def by presburger
  qed
  have at: "drawer_at entries (Suc g) (onNext ?old d)" using log_steps(3) [OF assms(1)] assms(3) by simp
  have at': "drawer_at entries (Suc (Suc g)) (onNext ?old (onNext ?old d))" using log_steps(3) [OF at assms(3)] .
  have page: "dr_page (onNext ?old d) = page_of_index (Suc (Suc g))" "page_of_index (Suc (Suc g)) = k + 2" "page_of_index g = k + 1"
    using at g by (simp_all add: drawer_at_def page_of_index_def AUDIT_PAGE_SIZE_def)
  have row: "row_at ?old 1 = Some (entries ! (g - 23))"
  proof -
    have "g - 23 = 25 * k + 1" using g by simp
    moreover have "(25 * k + 1) div 25 = k" "(25 * k + 1) mod 25 = 1" by (simp_all add: div_nat_eqI mod_mult_self4)
    ultimately have "page_of_index (g - 23) = page_of_index g" "(g - 23) mod AUDIT_PAGE_SIZE = 1"
      using page(3) by (simp_all only: page_of_index_def AUDIT_PAGE_SIZE_def)
    with row_of_log [of "g - 23" entries] assms(3) show ?thesis by simp
  qed
  have "dr_entry (onNext ?old (onNext ?old d)) = Some (entries ! (g - 23))"
  proof -
    have idx: "dr_index (onNext ?old d) = Some (Suc g)" using at by (simp add: drawer_at_def)
    have m: "Suc (Suc g) mod AUDIT_PAGE_SIZE = 1" using g by (simp add: AUDIT_PAGE_SIZE_def)
    have data: "?old = Some (fst (the ?old), length entries)" by (simp add: log_page_def)
    have "onNext ?old (onNext ?old d) = go_to ?old (Suc (Suc g)) (onNext ?old d)"
      unfolding onNext_def [of _ "onNext ?old d"] idx using assms(3) by (subst (1) data) auto
    then show ?thesis using page(1) row m by (simp add: go_to_def Let_def)
  qed
  then show ?thesis using at' drawer_shows [OF at'] by (simp add: Let_def drawer_at_def drawerEntry_def)
qed

lemma fast_steps_show_stale_row_witness:
  "drawerEntry (log_page [0..<30] 1) False
     (onNext (log_page [0..<30] 1) (onNext (log_page [0..<30] 1) \<lparr>dr_page = 1, dr_index = Some 24, dr_entry = Some 24\<rparr>)) = Some (1::nat)"
proof -
  let ?d = "\<lparr>dr_page = 1, dr_index = Some 24, dr_entry = Some 24\<rparr> :: nat drawer"
  have "drawer_at [0..<30] 24 ?d" by (simp add: drawer_at_def page_of_index_def AUDIT_PAGE_SIZE_def)
  from fast_steps_show_stale_row [OF this] have
    "drawerEntry (log_page [0..<30] (page_of_index 24)) False
      (onNext (log_page [0..<30] (page_of_index 24)) (onNext (log_page [0..<30] (page_of_index 24)) ?d)) = Some ([0..<30] ! (24 - 23))"
    by (simp add: Let_def AUDIT_PAGE_SIZE_def)
  then show ?thesis by (simp add: page_of_index_def AUDIT_PAGE_SIZE_def)
qed

section \<open>Properties of the copy buttons\<close>

lemma copy_alone:
  assumes "0 < d" "d < 1500"
  shows "copiedField (copy_advance fire (t + d) (copy_field t f copy_idle)) = Some f"
    "copy_advance fire (t + 1500) (copy_field t f copy_idle) = \<lparr>copiedField = fire f (Some f), copy_timers = []\<rparr>"
  using assms by (simp_all add: copy_advance_def copy_field_def copy_idle_def)

text \<open>An older timer takes the tick of a newer copy. Copying a second time before the first tick is
  gone, the second tick ends with the first timer: in the authorization drawer always, whatever the
  two fields; in the security drawer exactly when they are the same, and the address is the only field
  it copies. A tick that nothing follows stays for its second and a half.\<close>

theorem older_timer_takes_tick:
  assumes "0 < d" "d < 1500"
  shows "let again = (\<lambda>fire. copy_advance fire (t + 1500) (copy_field (t + d) g (copy_advance fire (t + d) (copy_field t f copy_idle)))) in
    copiedField (again authorization_fire) = None
    \<and> copiedField (again security_fire) = (if g = f then None else Some g)
    \<and> copiedField (copy_advance authorization_fire (t + d) (copy_field t f copy_idle)) = Some f
    \<and> copiedField (copy_advance authorization_fire (t + 1500) (copy_field t f copy_idle)) = None
    \<and> copiedField (copy_advance security_fire (t + 1500) (copy_field t f copy_idle)) = None"
proof -
  have kept: "copy_advance fire (t + d) (copy_field t f copy_idle) = \<lparr>copiedField = Some f, copy_timers = [(t + 1500, f)]\<rparr>" for fire
    using assms by (simp add: copy_advance_def copy_field_def copy_idle_def)
  have "copy_advance fire (t + 1500) (copy_field (t + d) g (copy_advance fire (t + d) (copy_field t f copy_idle)))
      = \<lparr>copiedField = fire f (Some g), copy_timers = [(t + d + 1500, g)]\<rparr>" for fire
    unfolding kept using assms by (simp add: copy_advance_def copy_field_def)
  then show ?thesis using copy_alone [OF assms] by (simp add: Let_def security_fire_def authorization_fire_def)
qed

lemma older_timer_takes_tick_witness:
  "copiedField (copy_advance authorization_fire 1500
     (copy_field 1400 ''event'' (copy_advance authorization_fire 1400 (copy_field 0 ''user'' copy_idle)))) = None"
  using older_timer_takes_tick [of 1400 0 "''event''" "''user''"] by (simp add: Let_def)

section \<open>Properties of the filters and the columns\<close>

lemma event_values: "map gs_value (concat (map gg_options (eventGroups tr))) = concat (map snd SECURITY_EVENT_TYPE_GROUPS)"
  by (simp add: eventGroups_def map_concat o_def)

lemma selected_event:
  "selectedOption (eventGroups tr) ev =
     (if ev \<in> set SECURITY_EVENT_TYPES
      then Some \<lparr>gs_value = ev, gs_label = tr (''security.filterBar.eventLabels.'' @ ev) [], gs_sublabel = Some ev\<rparr> else None)"
proof -
  define os where "os = concat (map gg_options (eventGroups tr))"
  have vals: "gs_value ` set os = set SECURITY_EVENT_TYPES"
    using arg_cong [OF event_values [of tr], of set] event_groups_partition by (simp add: os_def del: set_concat)
  have shape: "x \<in> set os \<Longrightarrow> x = \<lparr>gs_value = gs_value x, gs_label = tr (''security.filterBar.eventLabels.'' @ gs_value x) [],
      gs_sublabel = Some (gs_value x)\<rparr>" for x
    by (auto simp: os_def eventGroups_def)
  show ?thesis
  proof (cases "ev \<in> set SECURITY_EVENT_TYPES")
    case True
    then obtain x where "find (\<lambda>x. gs_value x = ev) os = Some x"
      unfolding vals [symmetric] by (cases "find (\<lambda>x. gs_value x = ev) os") (auto simp: find_None_iff)
    moreover from this have "x \<in> set os" "gs_value x = ev" by (auto simp: find_Some_iff)
    ultimately show ?thesis using True shape [of x] by (simp add: selectedOption_def os_def)
  next
    case False
    then have "find (\<lambda>x. gs_value x = ev) os = None" unfolding vals [symmetric] by (auto simp: find_None_iff)
    then show ?thesis using False by (simp add: selectedOption_def os_def)
  qed
qed

text \<open>The event filter offers its own list and not the server's. Every event type of the list is
  offered in exactly one group; choosing one shows its translated label. An event that the server
  writes under another name, five of them and the six outcomes the list joins in pairs, can still be
  chosen from the drawer: the request asks for it while the filter reads as if no event were chosen.\<close>

theorem unlisted_event_filters_unseen:
  assumes "ev \<in> set server_event_types - set SECURITY_EVENT_TYPES"
  shows "distinct (map gs_value (concat (map gg_options (eventGroups tr))))
    \<and> gs_value ` set (concat (map gg_options (eventGroups tr))) = set SECURITY_EVENT_TYPES
    \<and> triggerLabel (eventGroups tr) [] every ''login'' = tr ''security.filterBar.eventLabels.login'' []
    \<and> triggerLabel (eventGroups tr) [] every (sf_event (fst (onFilterEvent ev (f, d)))) = every
    \<and> bl_event_type (security_params s ip rp (fst (onFilterEvent ev (f, d)))) = Some ev"
proof -
  have "ev \<noteq> []" using assms by (auto simp: server_event_types_def)
  moreover have "gs_value ` set (concat (map gg_options (eventGroups tr))) = set SECURITY_EVENT_TYPES"
    using arg_cong [OF event_values [of tr], of set] event_groups_partition by (simp del: set_concat)
  moreover have "''login'' \<in> set SECURITY_EVENT_TYPES" by (simp add: SECURITY_EVENT_TYPES_def)
  ultimately show ?thesis using assms event_groups_partition
    by (simp add: event_values triggerLabel_def selected_event onFilterEvent_def security_params_def no_security_params_def or_undefined_def
        del: set_concat)
qed

lemma unlisted_events:
  "filter (\<lambda>ev. ev \<notin> set SECURITY_EVENT_TYPES) server_event_types =
     [''login_success'', ''login_failure'', ''oauth2_state_mismatch'', ''refresh_token_context_changed'',
      ''session_event_connection_limit_exceeded'', ''account_deleted_self'', ''user_fields_updated'',
      ''passkey_login_success'', ''passkey_login_failure'', ''passkey_step_up_success'', ''passkey_step_up_failure'']"
  by code_simp

lemma unlisted_event_filters_unseen_witness:
  "triggerLabel (eventGroups (\<lambda>k _. k)) [] ''All events''
     (sf_event (fst (onFilterEvent ''account_deleted_self'' (security_defaults, \<lparr>dr_page = 1, dr_index = None, dr_entry = None :: nat option\<rparr>))))
   = ''All events''"
proof -
  have "''account_deleted_self'' \<in> set (filter (\<lambda>ev. ev \<notin> set SECURITY_EVENT_TYPES) server_event_types)"
    unfolding unlisted_events by simp
  then have "''account_deleted_self'' \<in> set server_event_types - set SECURITY_EVENT_TYPES" by simp
  from unlisted_event_filters_unseen [OF this] show ?thesis by blast
qed

text \<open>An event of the list has the same name in the table and in the filter; the drawer shows the
  code instead, as \<open>humanizeSecurityEventType\<close> words it in every language.\<close>

lemma drawer_words_event: "humanizeIdentifier = humanizeSecurityEventType" "humanizeKey = humanizeSecurityEventType"
  by (simp_all add: fun_eq_iff humanizeIdentifier_def humanizeKey_def humanizeSecurityEventType_def)

definition authz_toggleSort :: "string \<Rightarrow> authz_filters \<Rightarrow> authz_filters" where
  "authz_toggleSort key f = f\<lparr>af_sort := nextSortState (af_sort f) key\<rparr>"

definition sortable_keys :: "log_column list \<Rightarrow> string set" where
  "sortable_keys cols = lc_key ` set (filter lc_sortable cols)"

lemma nextSortState_key [simp]: "s_key (nextSortState s k) = k"
  by (simp add: nextSortState_def)

lemma foldl_last_key:
  assumes "\<And>f k. s_key (sel (step k f)) = k" "s_key (sel f) \<in> K" "set ks \<subseteq> K"
  shows "s_key (sel (foldl (\<lambda>f k. step k f) f ks)) \<in> K"
  using assms(2,3) by (induction ks arbitrary: f) (simp_all add: assms(1))

lemma sortable_columns:
  "sortable_keys (getSecurityColumns tr) \<subseteq> set security_sortable"
  "sortable_keys (getAuthorizationColumns tr) = set authorization_sortable"
  by (auto simp: sortable_keys_def getSecurityColumns_def getAuthorizationColumns_def log_column_def security_sortable_def
      authorization_sortable_def)

text \<open>Every sort the tables can ask for is one the server knows. After any clicks on sortable headers
  the request of either log names a column of the server's list, and its direction; a server that did
  not know the column would sort by time without saying so.\<close>

theorem sorts_accepted:
  assumes "set ks \<subseteq> sortable_keys (getSecurityColumns tr)" "set js \<subseteq> sortable_keys (getAuthorizationColumns tr)"
  shows "let p = security_params s ip rp (foldl (\<lambda>f k. security_toggleSort k f) security_defaults ks);
             q = authz_params s rp (foldl (\<lambda>f k. authz_toggleSort k f) authz_defaults js) in
    bl_sort_by p \<in> Some ` set security_sortable \<and> bl_sort_by q \<in> Some ` set authorization_sortable
    \<and> bl_sort_dir p \<noteq> None \<and> bl_sort_dir q \<noteq> None"
proof -
  have "s_key (sf_sort (foldl (\<lambda>f k. security_toggleSort k f) security_defaults ks)) \<in> set security_sortable"
    by (rule foldl_last_key)
      (use assms(1) sortable_columns(1) [of tr] in
        \<open>auto simp: security_toggleSort_def security_defaults_def default_log_sort_def security_sortable_def\<close>)
  moreover have "s_key (af_sort (foldl (\<lambda>f k. authz_toggleSort k f) authz_defaults js)) \<in> set authorization_sortable"
    by (rule foldl_last_key)
      (use assms(2) sortable_columns(2) [of tr] in
        \<open>auto simp: authz_toggleSort_def authz_defaults_def default_log_sort_def authorization_sortable_def\<close>)
  ultimately show ?thesis by (simp add: Let_def security_params_def authz_params_def)
qed

lemma sorts_accepted_witness:
  "bl_sort_by (security_params [] [] (timeRangeToApiParams utc_like DEFAULT_TIME_RANGE_STATE 0)
      (foldl (\<lambda>f k. security_toggleSort k f) security_defaults [''success'', ''success''])) \<in> Some ` set security_sortable"
proof -
  have "set [''success'', ''success''] \<subseteq> sortable_keys (getSecurityColumns (\<lambda>k _. k))" "set [] \<subseteq> sortable_keys (getAuthorizationColumns (\<lambda>k _. k))"
    by (simp_all add: sortable_keys_def getSecurityColumns_def log_column_def)
  from sorts_accepted [OF this] show ?thesis by (simp add: Let_def)
qed

section \<open>Properties of the sections\<close>

text \<open>The authorization drawer accounts for every policy once. What it shows as considered and what it
  shows as granting make up the candidates and the granting policies, with nothing in both; it says
  that none was considered exactly when there was neither; and it has a section on failed conditions
  exactly for a refusal: three sections always, one more for a refusal, one more for a context.\<close>

theorem drawer_accounts_for_policies:
  "set (consideredNotGranting e) \<union> set (al_granting_policy_names e) = set (al_candidate_policy_names e) \<union> set (al_granting_policy_names e)
   \<and> set (consideredNotGranting e) \<inter> set (al_granting_policy_names e) = {}
   \<and> (policies_body tr e = Sentence (tr ''authorization.drawer.noPoliciesConsidered'' [])
       \<longleftrightarrow> al_candidate_policy_names e = [] \<and> al_granting_policy_names e = [])
   \<and> map fst (authorization_sections tr valid stamp e) =
       map (\<lambda>k. tr k []) ([''authorization.drawer.decision'', ''authorization.drawer.auditRecord'', ''authorization.drawer.policies'']
         @ (if al_allowed e then [] else [''authorization.drawer.failedConditions''])
         @ (if al_context e = None \<or> al_context e = Some [] then [] else [''authorization.drawer.requestContext'']))"
proof (intro conjI)
  show "set (consideredNotGranting e) \<union> set (al_granting_policy_names e) = set (al_candidate_policy_names e) \<union> set (al_granting_policy_names e)"
    "set (consideredNotGranting e) \<inter> set (al_granting_policy_names e) = {}"
    by (auto simp: consideredNotGranting_def)
  show "policies_body tr e = Sentence (tr ''authorization.drawer.noPoliciesConsidered'' [])
       \<longleftrightarrow> al_candidate_policy_names e = [] \<and> al_granting_policy_names e = []"
    by (auto simp: policies_body_def consideredNotGranting_def)
qed (cases "al_context e"; simp add: authorization_sections_def Let_def nullish_def)

text \<open>A drawer filters by what it shows: the footer offers no filter on an account or an address that
  is not known, and the filter it offers restricts the request to the entry's own value.\<close>

lemma security_footer_known:
  "OnlyThisUser m \<in> set (security_footer user ip event e) \<Longrightarrow> sl_user_email e = Some m \<and> m \<noteq> []"
  "OnlyThisIp a \<in> set (security_footer user ip event e) \<Longrightarrow> sl_ip_address e = Some a \<and> a \<noteq> []"
  by (auto simp: security_footer_def truthy_def split: option.splits if_splits)

lemma iso_stamp_examples:
  "iso_stamp ''2026-03-28T10:20:30Z'' \<and> iso_stamp ''2026-03-28T10:20:30.125+05:30'' \<and> \<not> iso_stamp ''2026-03-28T10:20:30''
   \<and> \<not> iso_stamp ''2026-03-28 10:20:30Z'' \<and> \<not> iso_stamp ''2026-03-28T10:20:30.Z''"
  by code_simp

text \<open>Only time stamps with a zone are put in the reader's clock; other texts are shown as they are.\<close>

lemma readable_text: "\<not> iso_stamp s \<Longrightarrow> readableValue valid stamp (JStr s) = codes s"
  by simp

end
