(* ===== verification/Appearance.thy ===== *)
theory Appearance
  imports Preferences AuthForms
begin

text \<open>
  The choice of a brand colour (\<open>account_settings/AppearanceCard.tsx\<close>): the draft, the timer that puts
  a pick into the appearance store, saving, resetting, and the answers of the server, over the stores
  and storage of \<open>Preferences\<close>. \<open>b\<close> is what the build and the browser supply. The preview and its
  contrast need the colour library; \<open>low_contrast\<close> is its verdict on a colour.
\<close>

section \<open>The card\<close>

definition is_hex_digit :: "char \<Rightarrow> bool" where
  "is_hex_digit c \<longleftrightarrow> (let n = ucode c in (48 \<le> n \<and> n \<le> 57) \<or> (97 \<le> n \<and> n \<le> 102) \<or> (65 \<le> n \<and> n \<le> 70))"

text \<open>\<open>HEX_RE\<close>.\<close>

definition is_hex :: "string \<Rightarrow> bool" where
  "is_hex s \<longleftrightarrow> (case s of [] \<Rightarrow> False | c # cs \<Rightarrow> c = CHR ''#'' \<and> length cs = 6 \<and> list_all is_hex_digit cs)"

definition COMMIT_DEBOUNCE_MS :: nat where "COMMIT_DEBOUNCE_MS = 100"

definition DEFAULT_BRAND_COLOR :: "browser \<Rightarrow> string" where
  "DEFAULT_BRAND_COLOR b = BRAND_COLOR (b_brand b)"

definition SUGGESTED_BRAND_COLORS :: "browser \<Rightarrow> string list" where
  "SUGGESTED_BRAND_COLORS b =
     [DEFAULT_BRAND_COLOR b, ''#2563eb'', ''#1e40af'', ''#4f46e5'', ''#7c3aed'', ''#a21caf'', ''#db2777'', ''#ea580c'',
      ''#2d6876'', ''#2f7448'']"

text \<open>
  The draft, the one pending timer with the time it is due and its colour, and the mutation's state;
  \<open>ap_saved\<close> says which toast a success shows.
\<close>

record appearance_card =
  draftBrand :: string
  commitTimer :: "(nat \<times> string) option"
  ap_pending :: bool
  ap_error :: "string option"
  ap_toast_key :: string

definition appearance_mount :: "browser \<Rightarrow> prefs \<Rightarrow> appearance_card" where
  "appearance_mount b p =
     \<lparr>draftBrand = nullish (p_brandColor p) (DEFAULT_BRAND_COLOR b), commitTimer = None, ap_pending = False,
      ap_error = None, ap_toast_key = []\<rparr>"

definition isAtDefault :: "browser \<Rightarrow> appearance_card \<times> prefs \<Rightarrow> bool" where
  "isAtDefault b s \<longleftrightarrow> p_brandColor (snd s) = None \<and> draftBrand (fst s) = DEFAULT_BRAND_COLOR b"

definition isBrandValid :: "appearance_card \<Rightarrow> bool" where
  "isBrandValid c \<longleftrightarrow> is_hex (draftBrand c)"

definition handleBrandPick :: "nat \<Rightarrow> string \<Rightarrow> appearance_card \<Rightarrow> appearance_card" where
  "handleBrandPick now hex c =
     (let c1 = c\<lparr>draftBrand := hex\<rparr> in
      if \<not> is_hex hex then c1 else c1\<lparr>commitTimer := Some (now + COMMIT_DEBOUNCE_MS, hex)\<rparr>)"

text \<open>The timers that are due at a time run.\<close>

definition commit_due :: "browser \<Rightarrow> nat \<Rightarrow> appearance_card \<times> prefs \<Rightarrow> appearance_card \<times> prefs" where
  "commit_due b now s =
     (case commitTimer (fst s) of
        Some (due, hex) \<Rightarrow> if due \<le> now then ((fst s)\<lparr>commitTimer := None\<rparr>, setBrandColor b (Some hex) (snd s)) else s
      | None \<Rightarrow> s)"

text \<open>What goes out: a request to \<open>PUT /users/me\<close>, a toast.\<close>

datatype appearance_out = PutBrand user_update | ToastDone string

definition save_enabled :: "appearance_card \<Rightarrow> bool" where
  "save_enabled c \<longleftrightarrow> isBrandValid c \<and> \<not> ap_pending c"

definition reset_enabled :: "browser \<Rightarrow> appearance_card \<times> prefs \<Rightarrow> bool" where
  "reset_enabled b s \<longleftrightarrow> \<not> (ap_pending (fst s) \<or> isAtDefault b s)"

definition brand_update :: "string option \<Rightarrow> user_update" where
  "brand_update hex = no_update\<lparr>uu_brand_color := Some hex\<rparr>"

definition ap_mutate :: "string \<Rightarrow> appearance_card \<Rightarrow> appearance_card" where
  "ap_mutate key c = c\<lparr>ap_pending := True, ap_error := None, ap_toast_key := key\<rparr>"

definition handleSave :: "browser \<Rightarrow> appearance_card \<times> prefs \<Rightarrow> (appearance_card \<times> prefs) \<times> appearance_out list" where
  "handleSave b s =
     (let c = fst s in
      if \<not> isBrandValid c then (s, [])
      else ((ap_mutate ''appearance.updatedToast'' (c\<lparr>commitTimer := None\<rparr>), setBrandColor b (Some (draftBrand c)) (snd s)),
            [PutBrand (brand_update (Some (draftBrand c)))]))"

definition handleReset :: "browser \<Rightarrow> appearance_card \<times> prefs \<Rightarrow> (appearance_card \<times> prefs) \<times> appearance_out list" where
  "handleReset b s =
     (if isAtDefault b s then (s, [])
      else ((ap_mutate ''appearance.resetToast'' ((fst s)\<lparr>commitTimer := None, draftBrand := DEFAULT_BRAND_COLOR b\<rparr>),
             setBrandColor b None (snd s)),
            [PutBrand (brand_update None)]))"

definition appearance_answered :: "unit + string \<Rightarrow> appearance_card \<Rightarrow> appearance_card \<times> appearance_out list" where
  "appearance_answered a c =
     (case a of
        Inl _ \<Rightarrow> (c\<lparr>ap_pending := False\<rparr>, [ToastDone (ap_toast_key c)])
      | Inr message \<Rightarrow> (c\<lparr>ap_pending := False, ap_error := Some message\<rparr>, []))"

text \<open>
  What can happen while the card is shown. \<open>Answered\<close> comes only while a request is pending; \<open>Profile\<close> is
  the effect of \<open>useAuthSession\<close> on a changed answer of \<open>GET /auth/me\<close>.
\<close>

datatype appearance_op = Pick nat string | Clock nat | Save | Reset | Answered "unit + string" | Profile "string option"

fun appearance_step ::
  "browser \<Rightarrow> appearance_op \<Rightarrow> appearance_card \<times> prefs \<Rightarrow> (appearance_card \<times> prefs) \<times> appearance_out list" where
  "appearance_step b (Pick now hex) s = (let s1 = commit_due b now s in ((handleBrandPick now hex (fst s1), snd s1), []))"
| "appearance_step b (Clock now) s = (commit_due b now s, [])"
| "appearance_step b Save s = (if save_enabled (fst s) then handleSave b s else (s, []))"
| "appearance_step b Reset s = (if reset_enabled b s then handleReset b s else (s, []))"
| "appearance_step b (Answered a) s =
     (if ap_pending (fst s) then (case appearance_answered a (fst s) of (c, out) \<Rightarrow> ((c, snd s), out)) else (s, []))"
| "appearance_step b (Profile colour) s = ((fst s, setBrandColor b colour (snd s)), [])"

definition appearance_run ::
  "browser \<Rightarrow> appearance_op list \<Rightarrow> (appearance_card \<times> prefs) \<times> appearance_out list \<Rightarrow> (appearance_card \<times> prefs) \<times> appearance_out list" where
  "appearance_run b ops r =
     foldl (\<lambda>r op. case appearance_step b op (fst r) of (s, out) \<Rightarrow> (s, snd r @ out)) r ops"

text \<open>Leaving the page clears the timer and nothing else: the rest of the card is gone, the stores stay.\<close>

definition appearance_leave :: "appearance_card \<times> prefs \<Rightarrow> prefs" where
  "appearance_leave s = snd s"

text \<open>What the card shows: the value of the colour input, the chosen suggestion, the three messages.\<close>

record appearance_view =
  av_input :: string
  av_selected :: "string list"
  av_invalid :: bool
  av_contrast :: bool
  av_error :: "string option"
  av_preview :: bool

definition appearance_view :: "(string \<Rightarrow> bool) \<Rightarrow> browser \<Rightarrow> appearance_card \<Rightarrow> appearance_view" where
  "appearance_view low_contrast b c =
     \<lparr>av_input = (if isBrandValid c then draftBrand c else DEFAULT_BRAND_COLOR b),
      av_selected = filter (\<lambda>h. isBrandValid c \<and> to_lower (draftBrand c) = to_lower h) (SUGGESTED_BRAND_COLORS b),
      av_invalid = (\<not> isBrandValid c), av_contrast = (isBrandValid c \<and> low_contrast (draftBrand c)),
      av_error = ap_error c, av_preview = isBrandValid c\<rparr>"

section \<open>Properties\<close>

lemma appearance_run_Nil [simp]: "appearance_run b [] r = r"
  by (simp add: appearance_run_def)

lemma appearance_run_Cons [simp]:
  "appearance_run b (op # ops) r = appearance_run b ops (case appearance_step b op (fst r) of (s, out) \<Rightarrow> (s, snd r @ out))"
  by (simp add: appearance_run_def)

lemma appearance_run_append: "appearance_run b (xs @ ys) r = appearance_run b ys (appearance_run b xs r)"
  by (simp add: appearance_run_def)

lemma setBrandColor_color [simp]: "p_brandColor (setBrandColor b hex p) = hex"
  by (simp add: setBrandColor_def)

lemma setBrandColor_cached: "readCached (p_storage (setBrandColor b hex p)) = (if truthy hex then hex else None)"
  by (auto simp: setBrandColor_def applyFaviconAndMetaColor_def readCached_def writeCached_def truthy_def split: option.splits)

lemma is_hex_nonempty: "is_hex h \<Longrightarrow> h \<noteq> []"
  by (auto simp: is_hex_def)

lemmas appearance_simps = handleBrandPick_def commit_due_def handleSave_def handleReset_def appearance_answered_def ap_mutate_def
  save_enabled_def reset_enabled_def isBrandValid_def isAtDefault_def Let_def

text \<open>The colours that a run may leave in the store: well-formed, none, or put there by others.\<close>

fun served :: "appearance_op list \<Rightarrow> string option set" where
  "served [] = {}"
| "served (Profile c # ops) = insert c (served ops)"
| "served (op # ops) = served ops"

definition colours_ok :: "string option set \<Rightarrow> (appearance_card \<times> prefs) \<times> appearance_out list \<Rightarrow> bool" where
  "colours_ok C r \<longleftrightarrow>
     p_brandColor (snd (fst r)) \<in> insert None C \<union> Some ` Collect is_hex
     \<and> (case commitTimer (fst (fst r)) of None \<Rightarrow> True | Some t \<Rightarrow> is_hex (snd t))
     \<and> {u. PutBrand u \<in> set (snd r)} \<subseteq> insert (brand_update None) (brand_update ` Some ` Collect is_hex)"

lemma commit_due_ok: "colours_ok C (s, out) \<Longrightarrow> colours_ok C (commit_due b now s, out)"
  by (auto simp: colours_ok_def commit_due_def split: option.splits prod.splits)

lemma appearance_step_ok:
  assumes "colours_ok C (s, out)" "served [op] \<subseteq> C"
  shows "colours_ok C (case appearance_step b op s of (s', out') \<Rightarrow> (s', out @ out'))"
proof (cases op)
  case (Pick now hex)
  from commit_due_ok [OF assms(1), of b now] show ?thesis
    by (auto simp: Pick colours_ok_def handleBrandPick_def Let_def)
next
  case (Clock now)
  from commit_due_ok [OF assms(1), of b now] show ?thesis by (simp add: Clock)
next
  case (Answered a)
  from assms(1) show ?thesis
    by (cases "ap_pending (fst s)"; cases a) (auto simp: Answered colours_ok_def appearance_answered_def)
qed (use assms in \<open>auto simp: colours_ok_def handleSave_def handleReset_def ap_mutate_def Let_def isBrandValid_def\<close>)

lemma appearance_run_ok: "colours_ok C r \<Longrightarrow> served ops \<subseteq> C \<Longrightarrow> colours_ok C (appearance_run b ops r)"
proof (induction ops arbitrary: r)
  case (Cons op ops)
  obtain s out where r: "r = (s, out)" by (cases r)
  have "served [op] \<subseteq> C" "served ops \<subseteq> C" using Cons.prems(2) by (cases op; simp)+
  with Cons.IH appearance_step_ok [OF Cons.prems(1) [unfolded r]] show ?case by (simp add: r)
qed simp

text \<open>No malformed colour leaves the card. Whatever is typed, picked, saved, reset and answered, in any
  order, every colour it sends to the server is six hexadecimal digits after a hash, or none, and so is
  every colour in the store that neither the browser's storage nor the server put there.\<close>

theorem colours_well_formed:
  "let r = appearance_run b ops ((appearance_mount b p, p), []) in
   p_brandColor (snd (fst r)) \<in> {None, p_brandColor p} \<union> served ops \<union> Some ` Collect is_hex
   \<and> {u. PutBrand u \<in> set (snd r)} \<subseteq> insert (brand_update None) (brand_update ` Some ` Collect is_hex)"
proof -
  have "colours_ok (insert (p_brandColor p) (served ops)) ((appearance_mount b p, p), [])"
    by (simp add: colours_ok_def appearance_mount_def)
  from appearance_run_ok [OF this subset_insertI, of b] show ?thesis unfolding colours_ok_def Let_def by blast
qed

definition picks :: "(nat \<times> string) list \<Rightarrow> appearance_op list" where
  "picks ps = map (\<lambda>p. Pick (fst p) (snd p)) ps"

definition valid_picks :: "(nat \<times> string) list \<Rightarrow> (nat \<times> string) list" where
  "valid_picks ps = filter (\<lambda>p. is_hex (snd p)) ps"

lemma picks_state:
  assumes "commitTimer c = None"
  shows "\<exists>c' p'. appearance_run b (picks ps) ((c, p), out) = ((c', p'), out)
    \<and> draftBrand c' = (if ps = [] then draftBrand c else snd (last ps))
    \<and> (valid_picks ps = [] \<longrightarrow> commitTimer c' = None \<and> p' = p)
    \<and> (valid_picks ps \<noteq> [] \<longrightarrow> commitTimer c' = Some (fst (last (valid_picks ps)) + COMMIT_DEBOUNCE_MS, snd (last (valid_picks ps)))
        \<or> commitTimer c' = None \<and> p_brandColor p' = Some (snd (last (valid_picks ps))))"
proof (induction ps rule: rev_induct)
  case Nil
  then show ?case using assms by (simp add: picks_def valid_picks_def)
next
  case (snoc x ps)
  then obtain c' p' where IH: "appearance_run b (picks ps) ((c, p), out) = ((c', p'), out)"
    "valid_picks ps = [] \<longrightarrow> commitTimer c' = None \<and> p' = p"
    "valid_picks ps \<noteq> [] \<longrightarrow> commitTimer c' = Some (fst (last (valid_picks ps)) + COMMIT_DEBOUNCE_MS, snd (last (valid_picks ps)))
        \<or> commitTimer c' = None \<and> p_brandColor p' = Some (snd (last (valid_picks ps)))"
    by blast
  have run: "appearance_run b (picks (ps @ [x])) ((c, p), out)
      = ((handleBrandPick (fst x) (snd x) (fst (commit_due b (fst x) (c', p'))), snd (commit_due b (fst x) (c', p'))), out)"
    using IH(1) by (simp add: picks_def appearance_run_append Let_def)
  show ?case
    unfolding run using IH(2,3)
    by (cases "is_hex (snd x)"; cases "valid_picks ps = []")
      (auto simp: valid_picks_def handleBrandPick_def commit_due_def Let_def split: if_splits)
qed

text \<open>The last valid pick becomes the theme. However fast colours are picked and whatever unfinished text
  is typed in between, a tenth of a second after the last well-formed one the theme has that colour; the
  draft is what was typed last, and nothing has been sent.\<close>

theorem last_valid_pick_wins:
  assumes "commitTimer c = None" "valid_picks ps \<noteq> []" "fst (last (valid_picks ps)) + COMMIT_DEBOUNCE_MS \<le> t"
  shows "let r = appearance_run b (picks ps @ [Clock t]) ((c, p), []) in
    p_brandColor (snd (fst r)) = Some (snd (last (valid_picks ps))) \<and> draftBrand (fst (fst r)) = snd (last ps) \<and> snd r = []"
proof -
  from picks_state [OF assms(1), of b ps p "[]"] obtain c' p' where st: "appearance_run b (picks ps) ((c, p), []) = ((c', p'), [])"
    "draftBrand c' = (if ps = [] then draftBrand c else snd (last ps))"
    "commitTimer c' = Some (fst (last (valid_picks ps)) + COMMIT_DEBOUNCE_MS, snd (last (valid_picks ps)))
        \<or> commitTimer c' = None \<and> p_brandColor p' = Some (snd (last (valid_picks ps)))"
    using assms(2) by blast
  have "ps \<noteq> []" using assms(2) by (auto simp: valid_picks_def)
  then show ?thesis using st assms(3) by (auto simp: appearance_run_append Let_def commit_due_def)
qed

definition plain_browser :: browser where
  "plain_browser = \<lparr>b_prefers_dark = None, b_language = ''en'', b_favicon = None, b_brand = None\<rparr>"

definition fresh_card :: "appearance_card \<times> prefs" where
  "fresh_card = (let p = boot plain_browser Map.empty in (appearance_mount plain_browser p, p))"

lemma fresh_card_simps:
  "commitTimer (fst fresh_card) = None" "ap_pending (fst fresh_card) = False" "p_brandColor (snd fresh_card) = None"
  "draftBrand (fst fresh_card) = ''#b5533c''"
  by (simp_all add: fresh_card_def Let_def appearance_mount_def boot_def readCached_def nullish_def DEFAULT_BRAND_COLOR_def
      plain_browser_def BRAND_COLOR_def or_else_def)

lemma last_valid_pick_wins_witness:
  "p_brandColor (snd (fst (appearance_run plain_browser
      (picks [(0, ''#2563eb''), (10, ''#7c3aed''), (20, ''#7c3a'')] @ [Clock 200]) (fresh_card, [])))) = Some ''#7c3aed''"
proof -
  have v: "valid_picks [(0, ''#2563eb''), (10, ''#7c3aed''), (20, ''#7c3a'')] = [(0, ''#2563eb''), (10, ''#7c3aed'')]" by code_simp
  then have "valid_picks [(0, ''#2563eb''), (10, ''#7c3aed''), (20, ''#7c3a'')] \<noteq> []"
    "fst (last (valid_picks [(0, ''#2563eb''), (10, ''#7c3aed''), (20, ''#7c3a'')])) + COMMIT_DEBOUNCE_MS \<le> 200"
    by (simp_all add: COMMIT_DEBOUNCE_MS_def)
  from last_valid_pick_wins [OF fresh_card_simps(1) this, of plain_browser "snd fresh_card"] show ?thesis by (simp add: v Let_def)
qed

lemma clocks_idle: "commitTimer (fst (fst r)) = None \<Longrightarrow> appearance_run b (map Clock ts) r = r"
  by (induction ts arbitrary: r) (auto simp: commit_due_def)

text \<open>Saving and resetting are final. They stop the pending pick: however much time passes
  afterwards, the theme is the colour that was sent, or the default.\<close>

theorem save_is_final:
  assumes "save_enabled (fst s)"
  shows "let r = appearance_run b (Save # map Clock ts) (s, []) in
      p_brandColor (snd (fst r)) = Some (draftBrand (fst s)) \<and> snd r = [PutBrand (brand_update (Some (draftBrand (fst s))))]
      \<and> readCached (p_storage (snd (fst r))) = Some (draftBrand (fst s))"
    "reset_enabled b s \<Longrightarrow> let r = appearance_run b (Reset # map Clock ts) (s, []) in
      p_brandColor (snd (fst r)) = None \<and> snd r = [PutBrand (brand_update None)] \<and> readCached (p_storage (snd (fst r))) = None"
proof -
  have "draftBrand (fst s) \<noteq> []" using assms by (auto simp: save_enabled_def isBrandValid_def dest: is_hex_nonempty)
  with assms show "let r = appearance_run b (Save # map Clock ts) (s, []) in
      p_brandColor (snd (fst r)) = Some (draftBrand (fst s)) \<and> snd r = [PutBrand (brand_update (Some (draftBrand (fst s))))]
      \<and> readCached (p_storage (snd (fst r))) = Some (draftBrand (fst s))"
    by (simp add: clocks_idle handleSave_def save_enabled_def Let_def ap_mutate_def setBrandColor_cached truthy_def)
  show "reset_enabled b s \<Longrightarrow> let r = appearance_run b (Reset # map Clock ts) (s, []) in
      p_brandColor (snd (fst r)) = None \<and> snd r = [PutBrand (brand_update None)] \<and> readCached (p_storage (snd (fst r))) = None"
    by (simp add: clocks_idle handleReset_def reset_enabled_def Let_def ap_mutate_def setBrandColor_cached truthy_def)
qed

text \<open>A reset that fails cannot be tried again. The colour is still the account's, but the card
  considers itself at the default: it shows the error with its reset button disabled, until the next
  answer about the account puts the colour back.\<close>

theorem failed_reset_stuck:
  assumes "reset_enabled b s"
  shows "let s' = fst (appearance_run b [Reset, Answered (Inr message)] (s, [])) in
    ap_error (fst s') = Some message \<and> \<not> reset_enabled b s' \<and> p_brandColor (snd s') = None
    \<and> reset_enabled b (fst (appearance_run b [Profile (Some colour)] (s', [])))"
proof -
  have "\<not> isAtDefault b s" "\<not> ap_pending (fst s)" using assms by (simp_all add: reset_enabled_def)
  then show ?thesis using assms
    by (simp add: handleReset_def ap_mutate_def appearance_answered_def Let_def) (simp add: reset_enabled_def isAtDefault_def)
qed

lemma failed_reset_stuck_witness:
  "\<not> reset_enabled plain_browser (fst (appearance_run plain_browser [Reset, Answered (Inr ''offline'')]
      (((fst fresh_card)\<lparr>draftBrand := ''#2563eb''\<rparr>, snd fresh_card), [])))"
proof -
  have "reset_enabled plain_browser ((fst fresh_card)\<lparr>draftBrand := ''#2563eb''\<rparr>, snd fresh_card)"
    by (simp add: reset_enabled_def isAtDefault_def fresh_card_simps DEFAULT_BRAND_COLOR_def plain_browser_def BRAND_COLOR_def or_else_def)
  from failed_reset_stuck [OF this, of "''offline''"] show ?thesis unfolding Let_def by blast
qed

text \<open>The draft is read once. An answer about the account changes the theme under the card and not the
  draft, so saving sends the colour the card was opened with, over one chosen on another device; and a
  save that fails leaves its colour in the theme and in the browser's storage all the same.\<close>

theorem draft_read_once:
  assumes "save_enabled (fst s)" "commitTimer (fst s) = None"
  shows "draftBrand (fst (fst (appearance_run b [Profile colour] (s, [])))) = draftBrand (fst s)
    \<and> p_brandColor (snd (fst (appearance_run b [Profile colour] (s, [])))) = colour
    \<and> snd (appearance_run b [Profile colour, Save] (s, [])) = [PutBrand (brand_update (Some (draftBrand (fst s))))]
    \<and> (let s' = fst (appearance_run b [Save, Answered (Inr message)] (s, [])) in
        ap_error (fst s') = Some message \<and> p_brandColor (snd s') = Some (draftBrand (fst s))
        \<and> readCached (p_storage (snd s')) = Some (draftBrand (fst s)))"
proof -
  have "draftBrand (fst s) \<noteq> []" using assms by (auto simp: save_enabled_def isBrandValid_def dest: is_hex_nonempty)
  with assms show ?thesis by (simp add: appearance_simps setBrandColor_cached truthy_def)
qed

text \<open>Leaving the page within a tenth of a second of a pick loses it; staying does not.\<close>

lemma leaving_drops_pick:
  assumes "is_hex hex" "commitTimer c = None" "t < now + COMMIT_DEBOUNCE_MS"
  shows "appearance_leave (fst (appearance_run b [Pick now hex, Clock t] ((c, p), []))) = p"
    "p_brandColor (appearance_leave (fst (appearance_run b [Pick now hex, Clock t, Clock (now + COMMIT_DEBOUNCE_MS)] ((c, p), [])))) = Some hex"
  using assms by (simp_all add: appearance_simps appearance_leave_def)

end
