(* ===== verification/PasskeysTab.thy ===== *)
theory PasskeysTab
  imports AuthForms Widgets
begin

text \<open>
  The passkeys tab of the settings (\<open>passkeys/PasskeysCard.tsx\<close>, \<open>passkeysTable.tsx\<close>,
  \<open>AddPasskeyForm.tsx\<close>, \<open>PasskeysBulkToolbar.tsx\<close>): the names edited in place, each row with a draft of
  its own, the form, and what the card and its dialogs show of the state of \<open>usePasskeyManagement\<close>.
\<close>

section \<open>Names edited in place\<close>

text \<open>
  \<open>NameCell\<close>'s \<open>commit\<close>: the draft that results and the name asked for, if any; \<open>shown\<close> is the name of the
  row's passkey at that moment.
\<close>

definition name_commit :: "string \<Rightarrow> string \<Rightarrow> string \<times> string option" where
  "name_commit shown draft =
     (let next = trim draft in
      if next = [] then (shown, None) else if next \<noteq> shown then (draft, Some next) else (draft, None))"

text \<open>
  The rows of the query, the draft of each row that is on screen, the rename being sent, and those sent
  so far. A draft is made when its row appears and goes with it; later answers do not change it.
\<close>

record name_table =
  nt_rows :: "passkey list"
  nt_drafts :: "int \<rightharpoonup> string"
  nt_saving :: "(int \<times> string) option"
  nt_sent :: "(int \<times> string) list"

definition row_name :: "passkey list \<Rightarrow> int \<Rightarrow> string option" where
  "row_name rows i = map_option pk_name (find (\<lambda>p. pk_id p = i) rows)"

definition render_rows :: "passkey list \<Rightarrow> name_table \<Rightarrow> name_table" where
  "render_rows rows t =
     t\<lparr>nt_rows := rows,
       nt_drafts := (\<lambda>i. case row_name rows i of None \<Rightarrow> None
         | Some n \<Rightarrow> Some (nullish (nt_drafts t i) n))\<rparr>"

definition name_table_mount :: "passkey list \<Rightarrow> name_table" where
  "name_table_mount rows = render_rows rows \<lparr>nt_rows = [], nt_drafts = Map.empty, nt_saving = None, nt_sent = []\<rparr>"

text \<open>
  Every field is disabled while a rename is being sent. \<open>Enter\<close> leaves the field, so it commits; \<open>Escape\<close>
  puts the name back and stays in the field. The list is read again after a rename that succeeded, and
  whenever the query client sees fit.
\<close>

datatype name_op = TypeName int string | LeaveField int | EnterKey int | EscapeKey int
  | Renamed bool | ListRead "passkey list"

definition commit_row :: "int \<Rightarrow> name_table \<Rightarrow> name_table" where
  "commit_row i t =
     (case (row_name (nt_rows t) i, nt_drafts t i) of
        (Some shown, Some draft) \<Rightarrow>
          (case name_commit shown draft of
             (draft', req) \<Rightarrow>
               (let t1 = t\<lparr>nt_drafts := (nt_drafts t)(i \<mapsto> draft')\<rparr> in
                case req of None \<Rightarrow> t1
                | Some next \<Rightarrow> t1\<lparr>nt_saving := Some (i, next), nt_sent := nt_sent t @ [(i, next)]\<rparr>))
      | _ \<Rightarrow> t)"

fun name_step :: "name_op \<Rightarrow> name_table \<Rightarrow> name_table" where
  "name_step (TypeName i s) t =
     (if nt_saving t = None \<and> nt_drafts t i \<noteq> None \<and> length s \<le> 64 then t\<lparr>nt_drafts := (nt_drafts t)(i \<mapsto> s)\<rparr> else t)"
| "name_step (LeaveField i) t = (if nt_saving t = None then commit_row i t else t)"
| "name_step (EnterKey i) t = (if nt_saving t = None then commit_row i t else t)"
| "name_step (EscapeKey i) t =
     (case row_name (nt_rows t) i of
        Some shown \<Rightarrow> if nt_saving t = None then t\<lparr>nt_drafts := (nt_drafts t)(i \<mapsto> shown)\<rparr> else t
      | None \<Rightarrow> t)"
| "name_step (Renamed ok) t = t\<lparr>nt_saving := None\<rparr>"
| "name_step (ListRead rows) t = render_rows rows t"

definition name_run :: "name_op list \<Rightarrow> name_table \<Rightarrow> name_table" where
  "name_run ops t = foldl (\<lambda>t op. name_step op t) t ops"

section \<open>The form and the toolbar\<close>

text \<open>No form where the browser has no passkeys; its button is disabled while one is being added.\<close>

definition add_submit :: "bool \<Rightarrow> passkey_ui \<Rightarrow> passkey_ui" where
  "add_submit isPending u =
     (if isPending \<or> trim (newName u) = [] then u else mutate (AddPasskey (trim (newName u))) u)"

record passkeys_toolbar =
  pb_count :: nat
  pb_pressed :: bool
  pb_enabled :: bool

definition passkeys_toolbar :: "bool \<Rightarrow> passkey_ui \<Rightarrow> passkeys_toolbar" where
  "passkeys_toolbar rowClick u =
     \<lparr>pb_count = length (selectedIds u), pb_pressed = rowClick, pb_enabled = (length (selectedIds u) \<noteq> 0)\<rparr>"

section \<open>The card\<close>

datatype bulk_dialog = RemoveAllDialog | RemoveSelectedDialog nat

record passkeys_card =
  pv_count :: "nat option"
  pv_removeAll :: bool
  pv_form :: bool
  pv_toolbar :: "passkeys_toolbar option"
  pv_selectable :: bool
  pv_stepUp :: "(bool \<times> bool) option"
  pv_bulk :: "bulk_dialog option"
  pv_removal :: "string option"

text \<open>\<open>listed\<close>: the answer of the list, if it is known. The step-up dialog offers a password and a passkey.\<close>

definition passkeys_card :: "bool \<Rightarrow> bool \<Rightarrow> bool \<Rightarrow> passkey list option \<Rightarrow> passkey_ui \<Rightarrow> passkeys_card" where
  "passkeys_card hasPw webauthn rowClick listed u =
     (let total = (case listed of None \<Rightarrow> 0 | Some ps \<Rightarrow> length ps) in
      \<lparr>pv_count = map_option length listed, pv_removeAll = (total > 1), pv_form = webauthn,
       pv_toolbar = (if total > 1 then Some (passkeys_toolbar rowClick u) else None), pv_selectable = (total > 1),
       pv_stepUp = (case stepUpRetry u of None \<Rightarrow> None | Some a \<Rightarrow> Some (hasPw, total > 0)),
       pv_bulk = (case bulkConfirm u of None \<Rightarrow> None | Some ConfirmAll \<Rightarrow> Some RemoveAllDialog
                  | Some ConfirmSelected \<Rightarrow> Some (RemoveSelectedDialog (length (selectedIds u)))),
       pv_removal = map_option pk_name (pendingRemoval u)\<rparr>)"

text \<open>The columns; a passkey that was never used says so.\<close>

definition createPasskeyColumns :: "(string \<Rightarrow> string) \<Rightarrow> (string \<times> string) list" where
  "createPasskeyColumns t =
     [(''name'', t ''passkeys.nameColumn''), (''created_at'', t ''passkeys.addedColumn''),
      (''last_used_at'', t ''passkeys.lastUsedColumn''), (''row_actions'', [])]"

definition last_used_cell :: "(string \<Rightarrow> string) \<Rightarrow> (string \<Rightarrow> string) \<Rightarrow> (string \<Rightarrow> string) \<Rightarrow> passkey \<Rightarrow> string list" where
  "last_used_cell t relative stamp p =
     (if truthy (pk_last_used_at p) then [relative (the (pk_last_used_at p)), stamp (the (pk_last_used_at p))]
      else [t ''passkeys.neverUsed''])"

text \<open>The handlers of the card.\<close>

definition ask_remove_all :: "passkey list \<Rightarrow> passkey_ui \<Rightarrow> passkey_ui" where
  "ask_remove_all rows u = (if length rows > 1 then u\<lparr>bulkConfirm := Some ConfirmAll\<rparr> else u)"

definition ask_remove_selected :: "passkey list \<Rightarrow> passkey_ui \<Rightarrow> passkey_ui" where
  "ask_remove_selected rows u = (if length rows > 1 \<and> selectedIds u \<noteq> [] then u\<lparr>bulkConfirm := Some ConfirmSelected\<rparr> else u)"

definition clear_selection :: "passkey_ui \<Rightarrow> passkey_ui" where
  "clear_selection u = u\<lparr>selectedIds := []\<rparr>"

definition confirm_removal :: "passkey_ui \<Rightarrow> passkey_ui" where
  "confirm_removal u = (case pendingRemoval u of None \<Rightarrow> u | Some p \<Rightarrow> mutate (RemovePasskey (pk_id p)) u)"

section \<open>Properties\<close>

definition sent_ok :: "name_table \<Rightarrow> bool" where
  "sent_ok t \<longleftrightarrow> list_all (\<lambda>r. snd r \<noteq> [] \<and> trim (snd r) = snd r) (nt_sent t)"

fun answers :: "name_op list \<Rightarrow> nat" where
  "answers [] = 0"
| "answers (Renamed ok # ops) = Suc (answers ops)"
| "answers (op # ops) = answers ops"

definition in_flight :: "name_table \<Rightarrow> nat" where
  "in_flight t = (if nt_saving t = None then 0 else 1)"

lemma name_commit_request: "name_commit shown draft = (d, Some n) \<Longrightarrow> n = trim draft \<and> n \<noteq> [] \<and> n \<noteq> shown"
  by (auto simp: name_commit_def Let_def split: if_splits)

lemma commit_row_cases:
  "nt_saving t = None \<Longrightarrow> (nt_sent (commit_row i t) = nt_sent t \<and> nt_saving (commit_row i t) = None)
    \<or> (\<exists>n. nt_sent (commit_row i t) = nt_sent t @ [(i, n)] \<and> nt_saving (commit_row i t) = Some (i, n) \<and> n \<noteq> [] \<and> trim n = n)"
  by (auto simp: commit_row_def Let_def split: option.splits prod.splits dest!: name_commit_request)

definition progress_ok :: "nat \<Rightarrow> name_table \<Rightarrow> name_table \<Rightarrow> bool" where
  "progress_ok k t t' \<longleftrightarrow> sent_ok t' \<and> length (nt_sent t') + in_flight t \<le> length (nt_sent t) + in_flight t' + k"

lemma commit_row_sent: "nt_saving t = None \<Longrightarrow> sent_ok t \<Longrightarrow> progress_ok k t (commit_row i t)"
  using commit_row_cases [of t i] by (auto simp: progress_ok_def sent_ok_def in_flight_def)

lemma name_step_sent: "sent_ok t \<Longrightarrow> progress_ok (answers [op]) t (name_step op t)"
proof (cases op)
  case (LeaveField i)
  then show "sent_ok t \<Longrightarrow> ?thesis" using commit_row_sent [of t] by (simp add: progress_ok_def [of _ t t])
next
  case (EnterKey i)
  then show "sent_ok t \<Longrightarrow> ?thesis" using commit_row_sent [of t] by (simp add: progress_ok_def [of _ t t])
qed (auto simp: progress_ok_def sent_ok_def in_flight_def render_rows_def split: option.splits)

lemma name_run_Cons: "name_run (op # ops) t = name_run ops (name_step op t)"
  by (simp add: name_run_def)

lemma answers_Cons: "answers (op # ops) = answers [op] + answers ops"
  by (cases op) simp_all

lemma name_run_sent: "sent_ok t \<Longrightarrow> progress_ok (answers ops) t (name_run ops t)"
proof (induction ops arbitrary: t)
  case (Cons op ops)
  from name_step_sent [OF Cons.prems, of op] Cons.IH [of "name_step op t"] show ?case
    unfolding name_run_Cons answers_Cons [of op ops] progress_ok_def by linarith
qed (simp add: name_run_def progress_ok_def)

text \<open>C21: Renames are well-formed and one at a time. Whatever is typed in whatever fields, every name sent is
  without surrounding blanks and not blank, and no second rename is sent before the answer to the
  first: there are at most as many requests as answers and the one in flight.\<close>

theorem renames_well_formed:
  "let t = name_run ops (name_table_mount rows) in
   snd ` set (nt_sent t) \<subseteq> {n. n \<noteq> [] \<and> trim n = n} \<and> length (nt_sent t) \<le> answers ops + in_flight t \<and> in_flight t \<le> 1"
proof -
  have "sent_ok (name_table_mount rows)" "nt_sent (name_table_mount rows) = []"
    by (simp_all add: sent_ok_def name_table_mount_def render_rows_def)
  with name_run_sent [of "name_table_mount rows" ops] show ?thesis
    by (auto simp: Let_def progress_ok_def sent_ok_def in_flight_def list_all_iff)
qed

lemma row_name_Some: "row_name rows i = Some n \<Longrightarrow> \<exists>p\<in>set rows. pk_id p = i \<and> pk_name p = n"
  by (auto simp: row_name_def find_Some_iff)

text \<open>A field nobody typed in can undo a rename. When the list comes back with a new name for a row, given
  on another device, the row's draft keeps the old one; stepping into its field and out of it, with
  no key pressed, sends the old name as a rename.\<close>

theorem untouched_field_reverts_rename:
  assumes "nt_saving t = None" "nt_drafts t i = Some old" "row_name rows i = Some new" "trim old = old" "old \<noteq> []" "old \<noteq> new"
  shows "nt_drafts (name_run [ListRead rows] t) i = Some old
    \<and> nt_sent (name_run [ListRead rows, LeaveField i] t) = nt_sent t @ [(i, old)]"
  using assms by (simp add: name_run_def render_rows_def commit_row_def name_commit_def nullish_def Let_def)

definition one_passkey :: "string \<Rightarrow> passkey list" where
  "one_passkey n = [\<lparr>pk_id = 7, pk_name = n, pk_created_at = ''2026-01-01'', pk_last_used_at = None\<rparr>]"

lemma untouched_field_reverts_rename_witness:
  "nt_sent (name_run [ListRead (one_passkey ''Work phone''), LeaveField 7] (name_table_mount (one_passkey ''Phone'')))
   = [(7, ''Phone'')]"
proof -
  have "nt_saving (name_table_mount (one_passkey ''Phone'')) = None" "nt_drafts (name_table_mount (one_passkey ''Phone'')) 7 = Some ''Phone''"
    "row_name (one_passkey ''Work phone'') 7 = Some ''Work phone''" "nt_sent (name_table_mount (one_passkey ''Phone'')) = []"
    by (simp_all add: name_table_mount_def render_rows_def one_passkey_def row_name_def nullish_def)
  moreover have "trim ''Phone'' = ''Phone''" by code_simp
  ultimately show ?thesis using untouched_field_reverts_rename [of "name_table_mount (one_passkey ''Phone'')" 7 "''Phone''"] by simp
qed

text \<open>Escape undoes the typing, and a rename that fails is asked for again. After Escape, leaving a field
  whose name has no surrounding blanks sends nothing; after a failure the row still shows the old name,
  the draft is what was typed, and every visit to the field sends it once more.\<close>

theorem escape_and_retry:
  assumes "nt_saving t = None" "row_name (nt_rows t) i = Some shown" "nt_drafts t i = Some draft"
    "trim shown = shown" "trim draft \<noteq> []" "trim draft \<noteq> shown"
  shows "nt_sent (name_run [EscapeKey i, LeaveField i] t) = nt_sent t"
    "nt_sent (name_run [LeaveField i, Renamed False, LeaveField i] t) = nt_sent t @ [(i, trim draft), (i, trim draft)]"
    "nt_sent (name_run [LeaveField i, LeaveField i] t) = nt_sent t @ [(i, trim draft)]"
  using assms by (auto simp: name_run_def commit_row_def name_commit_def Let_def)

text \<open>The dialog counts what is sent: confirming the removal of the selected passkeys asks for as many as
  its text says, whether or not they are still listed.\<close>

lemma bulk_dialog_counts:
  assumes "pv_bulk (passkeys_card hasPw webauthn rowClick listed u) = Some (RemoveSelectedDialog n)"
  shows "length (selectedIds u) = n \<and> started (confirmBulk u) = started u @ [BulkRemove (RemoveIds (selectedIds u))]"
  using assms by (auto simp: passkeys_card_def confirmBulk_def mutate_def Let_def split: option.splits bulk_confirm.splits)

text \<open>Bulk removal is offered from two passkeys on, in the heading and in the toolbar alike.\<close>

lemma bulk_needs_two:
  "pv_removeAll c \<longleftrightarrow> pv_toolbar c \<noteq> None" "pv_removeAll c \<longleftrightarrow> pv_selectable c"
  "pv_removeAll c \<Longrightarrow> \<exists>n. pv_count c = Some n \<and> 1 < n"
  if "c = passkeys_card hasPw webauthn rowClick listed u"
  using that by (auto simp: passkeys_card_def Let_def split: option.splits)

text \<open>Nothing but a press of its button starts a removal, and adding sends the trimmed label once.\<close>

lemma add_submit_started: "started (add_submit p u) = started u @ (if p \<or> trim (newName u) = [] then [] else [AddPasskey (trim (newName u))])"
  by (simp add: add_submit_def mutate_def)

end
