(* ===== verification/Shell.thy ===== *)
theory Shell
  imports Navigation Formatting Selection Urls
begin

text \<open>
  The frame around every page: scrolling to the fragment of the URL (\<open>ui/hooks/useScrollToHash.ts\<close>) and
  what happens when it cannot be decoded (\<open>ui/routing/ErrorBoundary.tsx\<close>), the banner about the
  connection (\<open>ui/network/OfflineBanner.tsx\<close>), the hand-over from the static boot screen
  (\<open>app/main.tsx\<close>, \<open>ui/routing/RouteFadeIn.tsx\<close>), the progress bar of lazily loaded pages
  (\<open>RouteProgressBar.tsx\<close>, \<open>trackedLazy.ts\<close>), the tab's title (\<open>layout/RouteTitleAnnouncer.tsx\<close>) and the
  layout (\<open>layout/app_layout/\<close>). Times are in milliseconds.
\<close>

section \<open>decodeURIComponent\<close>

text \<open>A percent sign and two hexadecimal digits: the byte and the rest.\<close>

fun percent_byte :: "string \<Rightarrow> (nat \<times> string) option" where
  "percent_byte (p # a # b # s) =
     (if p = CHR ''%'' then (case (hex_value a, hex_value b) of (Some x, Some y) \<Rightarrow> Some (16 * x + y, s) | _ \<Rightarrow> None) else None)"
| "percent_byte _ = None"

text \<open>A leading byte of UTF-8: how many bytes follow, and its bits.\<close>

definition utf8_lead :: "nat \<Rightarrow> (nat \<times> nat) option" where
  "utf8_lead b =
     (if b < 128 then Some (0, b) else if 194 \<le> b \<and> b < 224 then Some (1, b - 192)
      else if 224 \<le> b \<and> b < 240 then Some (2, b - 224) else if 240 \<le> b \<and> b < 245 then Some (3, b - 240) else None)"

fun utf8_rest :: "nat \<Rightarrow> nat \<Rightarrow> string \<Rightarrow> (nat \<times> string) option" where
  "utf8_rest 0 v s = Some (v, s)"
| "utf8_rest (Suc n) v s =
     (case percent_byte s of
        Some (b, r) \<Rightarrow> if 128 \<le> b \<and> b < 192 then utf8_rest n (64 * v + (b - 128)) r else None
      | None \<Rightarrow> None)"

text \<open>No overlong form, no surrogate, nothing beyond the last code point.\<close>

definition utf8_valid :: "nat \<Rightarrow> nat \<Rightarrow> bool" where
  "utf8_valid n v \<longleftrightarrow>
     (n = 2 \<longrightarrow> 2048 \<le> v) \<and> (n = 3 \<longrightarrow> 65536 \<le> v) \<and> \<not> (55296 \<le> v \<and> v < 57344) \<and> v < 1114112"

definition code_units :: "nat \<Rightarrow> ustring" where
  "code_units v = (if v < 65536 then [v] else [55296 + (v - 65536) div 1024, 56320 + (v - 65536) mod 1024])"

lemma percent_byte_length: "percent_byte s = Some (b, r) \<Longrightarrow> length r < length s"
  by (cases s rule: percent_byte.cases) (auto split: if_splits option.splits)

lemma utf8_rest_length: "utf8_rest n v s = Some (w, r) \<Longrightarrow> length r \<le> length s"
proof (induction n v s rule: utf8_rest.induct)
  case (2 n v s)
  then show ?case by (fastforce dest: percent_byte_length split: option.splits if_splits)
qed simp

text \<open>One encoded code point: its code units and the rest.\<close>

definition decode_one :: "string \<Rightarrow> (ustring \<times> string) option" where
  "decode_one s =
     (case percent_byte s of None \<Rightarrow> None
      | Some (b, r) \<Rightarrow>
          (case utf8_lead b of None \<Rightarrow> None
           | Some (n, v) \<Rightarrow>
               (case utf8_rest n v r of None \<Rightarrow> None
                | Some (w, t) \<Rightarrow> if utf8_valid n w then Some (code_units w, t) else None)))"

lemma decode_one_length: "decode_one s = Some (u, t) \<Longrightarrow> length t < length s"
  by (auto simp: decode_one_def dest!: percent_byte_length utf8_rest_length split: option.splits if_splits prod.splits)

text \<open>\<open>None\<close> is the \<open>URIError\<close> it throws.\<close>

function decodeURIComponent :: "string \<Rightarrow> ustring option" where
  "decodeURIComponent [] = Some []"
| "decodeURIComponent (c # cs) =
     (if c \<noteq> CHR ''%'' then map_option (\<lambda>u. ucode c # u) (decodeURIComponent cs)
      else case decode_one (c # cs) of None \<Rightarrow> None
        | Some (u, t) \<Rightarrow> map_option (\<lambda>v. u @ v) (decodeURIComponent t))"
  by pat_completeness auto
termination by (relation "measure length") (auto dest: decode_one_length)

lemma percent_byte_percent: "b < 256 \<Longrightarrow> percent_byte (percent b @ s) = Some (b, s)"
  by (simp add: percent_def hex_value_digit)

lemma decode_char: "decodeURIComponent (encode_char c @ s) = map_option (\<lambda>u. ucode c # u) (decodeURIComponent s)"
proof (cases "unreserved c")
  case True
  then have "c \<noteq> CHR ''%''" by (auto simp: unreserved_def ucode_def Let_def)
  with True show ?thesis by (simp add: encode_char_def)
next
  case False
  let ?n = "ucode c"
  have n: "?n < 256" by (rule ucode_less)
  then have small: "\<not> 55296 \<le> ?n" "?n < 1114112" "?n < 65536" by linarith+
  have one: "decode_one (encode_char c @ s) = Some ([?n], s)"
  proof (cases "?n < 128")
    case True
    with False show ?thesis
      by (simp add: encode_char_def Let_def decode_one_def percent_byte_percent utf8_lead_def utf8_valid_def code_units_def)
  next
    case False': False
    have q: "?n div 64 = 2 \<or> ?n div 64 = 3" using n False' by linarith
    have m: "?n = 64 * (?n div 64) + ?n mod 64" by simp
    have "encode_char c @ s = percent (192 + ?n div 64) @ percent (128 + ?n mod 64) @ s"
      using False False' by (simp add: encode_char_def Let_def)
    moreover have "utf8_lead (192 + ?n div 64) = Some (1, ?n div 64)" using q by (auto simp: utf8_lead_def)
    moreover have "utf8_rest 1 (?n div 64) (percent (128 + ?n mod 64) @ s) = Some (?n, s)"
      using percent_byte_percent [of "128 + ?n mod 64" s] by (simp add: One_nat_def)
    moreover have "utf8_valid 1 ?n" "code_units ?n = [?n]" by (simp_all add: utf8_valid_def code_units_def small)
    moreover have "192 + ?n div 64 < 256" using q by auto
    ultimately show ?thesis by (simp add: decode_one_def percent_byte_percent)
  qed
  obtain cs where "encode_char c @ s = CHR ''%'' # cs"
    using False by (cases "?n < 128") (auto simp: encode_char_def percent_def Let_def)
  moreover have "(@) [?n] = (#) ?n" by (simp add: fun_eq_iff)
  ultimately show ?thesis using one by simp
qed

text \<open>Decoding undoes encoding, for every text of the model.\<close>

lemma decode_encode: "decodeURIComponent (encodeURIComponent s) = Some (codes s)"
  by (induction s) (simp_all add: encodeURIComponent_def decode_char codes_def)

section \<open>Scrolling to the fragment\<close>

text \<open>
  The effect on the fragment, hash sign included: nothing, an exception, or a search for the element of
  that id at once and then every tenth of a second, twenty times more. \<open>there k\<close> says whether the element is in the
  document at the look number \<open>k\<close>; the result is the look that found it.
\<close>

datatype scroll_effect = NoScroll | EffectThrows | SearchFor ustring

definition scroll_effect :: "string \<Rightarrow> scroll_effect" where
  "scroll_effect hash =
     (if hash = [] then NoScroll
      else case decodeURIComponent (drop 1 hash) of None \<Rightarrow> EffectThrows | Some u \<Rightarrow> SearchFor u)"

text \<open>\<open>left\<close>: how many retries remain.\<close>

fun tryScroll :: "nat \<Rightarrow> (nat \<Rightarrow> bool) \<Rightarrow> nat \<Rightarrow> nat option" where
  "tryScroll retries there k =
     (if there k then Some k else case retries of 0 \<Rightarrow> None | Suc n \<Rightarrow> tryScroll n there (Suc k))"

declare tryScroll.simps [simp del]

definition scrolls_at :: "(nat \<Rightarrow> bool) \<Rightarrow> nat option" where
  "scrolls_at there = tryScroll 20 there 0"

text \<open>
  The boundary at the root of the application: once an effect or a render has thrown, the fallback
  takes the place of everything, until the document is loaded again.
\<close>

definition boundary_step :: "bool \<Rightarrow> bool \<Rightarrow> bool" where
  "boundary_step threw hasError \<longleftrightarrow> threw \<or> hasError"

definition open_hash :: "string \<Rightarrow> bool \<Rightarrow> bool" where
  "open_hash hash hasError = boundary_step (scroll_effect hash = EffectThrows) hasError"

lemma tryScroll_found:
  "tryScroll n there k = (if \<exists>j\<le>n. there (k + j) then Some (k + (LEAST j. there (k + j))) else None)"
proof (induction n arbitrary: k)
  case 0
  then show ?case by (subst tryScroll.simps) (auto intro: Least_equality [symmetric])
next
  case (Suc n)
  show ?case
  proof (cases "there k")
    case True
    then have "(LEAST j. there (k + j)) = 0" by (intro Least_equality) simp_all
    with True show ?thesis by (subst tryScroll.simps) (auto intro: exI [of _ 0])
  next
    case False
    have ex: "(\<exists>j\<le>Suc n. there (k + j)) \<longleftrightarrow> (\<exists>j\<le>n. there (Suc k + j))"
    proof
      assume "\<exists>j\<le>Suc n. there (k + j)"
      then obtain j where "j \<le> Suc n" "there (k + j)" by blast
      with False show "\<exists>j\<le>n. there (Suc k + j)" by (cases j) auto
    qed (auto intro: exI [of _ "Suc _"])
    have least: "(LEAST j. there (k + j)) = Suc (LEAST j. there (Suc k + j))" if "there (Suc k + j)" for j
      using Least_Suc [of "\<lambda>j. there (k + j)" "Suc j"] that False by simp
    show ?thesis
    proof (cases "\<exists>j\<le>n. there (Suc k + j)")
      case True
      then obtain j where "there (Suc k + j)" by blast
      then show ?thesis using Suc.IH [of "Suc k"] True False ex least [of j] by (subst tryScroll.simps) simp
    next
      case no: False
      then have "\<not> (\<exists>j\<le>Suc n. there (k + j))" "tryScroll n there (Suc k) = None" using Suc.IH [of "Suc k"] ex by simp_all
      then show ?thesis using False by (subst tryScroll.simps) simp
    qed
  qed
qed

text \<open>A link into a page is found if its target appears in time. The search looks at most twenty-one times,
  over two seconds, and scrolls at the first look that sees the target; the fragment made by encoding
  any text is searched for as that text.\<close>

theorem hash_search_bounded:
  "scroll_effect (CHR ''#'' # encodeURIComponent s) = SearchFor (codes s)
   \<and> scrolls_at there = (if \<exists>j\<le>20. there j then Some (LEAST j. there j) else None)"
  using tryScroll_found [of 20 there 0] by (simp add: scroll_effect_def decode_encode scrolls_at_def)

text \<open>A fragment that is not an encoding takes the application down. Decoding throws inside the effect,
  so a link whose fragment has a bare percent sign replaces every page of the layout by the error
  screen, and no later navigation brings it back.\<close>

theorem bad_hash_breaks_app:
  "open_hash ''#100%'' hasError \<and> open_hash hash (open_hash ''#100%'' hasError) \<and> \<not> open_hash [] False
   \<and> \<not> open_hash (CHR ''#'' # encodeURIComponent s) False"
proof -
  have "scroll_effect ''#100%'' = EffectThrows" by (simp add: scroll_effect_def decode_one_def)
  then show ?thesis by (simp add: open_hash_def boundary_step_def scroll_effect_def decode_encode)
qed

section \<open>The banner about the connection\<close>

record offline_banner =
  ob_online :: bool
  ob_lastSeenOnline :: bool
  ob_showReconnected :: bool
  ob_timer :: "nat option"

definition RECONNECTED_BANNER_MS :: nat where "RECONNECTED_BANNER_MS = 4000"

definition banner_mount :: "bool \<Rightarrow> offline_banner" where
  "banner_mount online = \<lparr>ob_online = online, ob_lastSeenOnline = online, ob_showReconnected = False, ob_timer = None\<rparr>"

text \<open>The adjustment during render, and the effect that follows a change of \<open>showReconnected\<close>.\<close>

definition banner_render :: "nat \<Rightarrow> offline_banner \<Rightarrow> offline_banner" where
  "banner_render now o0 =
     (let o1 = (if ob_online o0 \<noteq> ob_lastSeenOnline o0
                then o0\<lparr>ob_lastSeenOnline := ob_online o0, ob_showReconnected := ob_online o0\<rparr> else o0) in
      if ob_showReconnected o1 = ob_showReconnected o0 then o1
      else o1\<lparr>ob_timer := (if ob_showReconnected o1 then Some (now + RECONNECTED_BANNER_MS) else None)\<rparr>)"

definition banner_tick :: "nat \<Rightarrow> offline_banner \<Rightarrow> offline_banner" where
  "banner_tick now o0 =
     (case ob_timer o0 of
        Some due \<Rightarrow> if due \<le> now then o0\<lparr>ob_showReconnected := False, ob_timer := None\<rparr> else o0
      | None \<Rightarrow> o0)"

datatype banner_event = Connection nat network_event | BannerClock nat

fun banner_step :: "banner_event \<Rightarrow> offline_banner \<Rightarrow> offline_banner" where
  "banner_step (Connection now e) o0 =
     (let o1 = banner_tick now o0 in banner_render now (o1\<lparr>ob_online := network_step e (ob_online o1)\<rparr>))"
| "banner_step (BannerClock now) o0 = banner_tick now o0"

definition banner_run :: "banner_event list \<Rightarrow> offline_banner \<Rightarrow> offline_banner" where
  "banner_run es o0 = foldl (\<lambda>s e. banner_step e s) o0 es"

datatype banner = NoBanner | OfflineWarning | BackOnline

definition banner_shown :: "offline_banner \<Rightarrow> banner" where
  "banner_shown s = (if ob_online s \<and> \<not> ob_showReconnected s then NoBanner else if ob_online s then BackOnline else OfflineWarning)"

definition banner_ok :: "offline_banner \<Rightarrow> bool" where
  "banner_ok s \<longleftrightarrow> ob_lastSeenOnline s = ob_online s \<and> (ob_showReconnected s \<longleftrightarrow> ob_timer s \<noteq> None) \<and> (ob_showReconnected s \<longrightarrow> ob_online s)"

lemma banner_step_ok: "banner_ok s \<Longrightarrow> banner_ok (banner_step e s)"
  by (cases e) (auto simp: banner_ok_def banner_tick_def banner_render_def network_step_def Let_def
      split: option.splits network_event.splits)

lemma banner_run_ok: "banner_ok s \<Longrightarrow> banner_ok (banner_run es s)"
  by (induction es arbitrary: s) (simp_all add: banner_run_def banner_step_ok)

lemma banner_mount_ok: "banner_ok (banner_mount online)"
  by (simp add: banner_ok_def banner_mount_def)

text \<open>The banner tells the truth about the connection. After any events the warning is shown exactly while
  the browser is offline; the confirmation comes when an offline browser comes back, and stays for four
  seconds if nothing else happens; going offline again takes it away at once.\<close>

theorem banner_truthful:
  "let s = banner_run es (banner_mount online) in
   (banner_shown s = OfflineWarning \<longleftrightarrow> \<not> ob_online s)
   \<and> banner_shown (banner_step (Connection now WentOffline) s) = OfflineWarning
   \<and> banner_shown (banner_run [Connection now WentOffline, Connection later WentOnline, BannerClock t] s)
       = (if t < later + RECONNECTED_BANNER_MS then BackOnline else NoBanner)
   \<and> ob_timer (banner_run [Connection now WentOffline, Connection later WentOnline, BannerClock t] s)
       = (if t < later + RECONNECTED_BANNER_MS then Some (later + RECONNECTED_BANNER_MS) else None)"
proof -
  define s where "s = banner_run es (banner_mount online)"
  have ok: "banner_ok s" unfolding s_def by (rule banner_run_ok [OF banner_mount_ok])
  define s1 where "s1 = banner_step (Connection now WentOffline) s"
  have "banner_ok s1" unfolding s1_def by (rule banner_step_ok [OF ok])
  moreover have off: "ob_online s1 = False"
    by (simp add: s1_def Let_def banner_render_def network_step_def)
  ultimately have s1: "ob_lastSeenOnline s1 = False" "ob_showReconnected s1 = False" "ob_timer s1 = None"
    by (auto simp: banner_ok_def)
  then have online: "banner_step (Connection later WentOnline) s1
      = s1\<lparr>ob_online := True, ob_lastSeenOnline := True, ob_showReconnected := True, ob_timer := Some (later + RECONNECTED_BANNER_MS)\<rparr>"
    by (simp add: banner_tick_def banner_render_def network_step_def Let_def)
  have run: "banner_run [Connection now WentOffline, Connection later WentOnline, BannerClock t] s
      = banner_tick t (banner_step (Connection later WentOnline) s1)"
    by (simp add: banner_run_def s1_def)
  show ?thesis
    unfolding s_def [symmetric] Let_def run online s1_def [symmetric]
    using ok off by (auto simp: banner_shown_def banner_ok_def banner_tick_def)
qed

section \<open>From the boot screen to the first page\<close>

text \<open>
  \<open>main.tsx\<close>: the application is mounted at once, or by the \<open>load\<close> event of a stylesheet that is still
  being fetched. \<open>sheet\<close>: the print stylesheet, if there is one, and the number of its rules if they can
  be read.
\<close>

datatype boot_plan = MountNow | MountOnLoad

definition stylesheetIsReady :: "nat option option \<Rightarrow> bool" where
  "stylesheetIsReady rules = (case rules of Some (Some n) \<Rightarrow> n > 0 | _ \<Rightarrow> False)"

definition boot_plan :: "nat option option option \<Rightarrow> boot_plan" where
  "boot_plan sheet = (case sheet of None \<Rightarrow> MountNow | Some rules \<Rightarrow> if stylesheetIsReady rules then MountNow else MountOnLoad)"

datatype stylesheet_event = SheetLoaded | SheetFailed

definition mounted_after :: "nat option option option \<Rightarrow> stylesheet_event list \<Rightarrow> bool" where
  "mounted_after sheet es \<longleftrightarrow> boot_plan sheet = MountNow \<or> SheetLoaded \<in> set es"

text \<open>\<open>RouteFadeIn\<close>, with the boot screen it removes and whether the route has content yet.\<close>

record route_fade =
  rf_path :: string
  rf_auth :: bool
  rf_visible :: bool
  rf_isInitialRender :: bool
  rf_frame :: bool
  rf_observing :: bool
  rf_bootShell :: bool
  rf_content :: bool

definition fade_mount :: "string \<Rightarrow> bool \<Rightarrow> bool \<Rightarrow> bool \<Rightarrow> route_fade" where
  "fade_mount path signedIn shell content =
     \<lparr>rf_path = path, rf_auth = signedIn, rf_visible = True, rf_isInitialRender = True, rf_frame = True,
      rf_observing = False, rf_bootShell = shell, rf_content = content\<rparr>"

definition may_release :: "route_fade \<Rightarrow> bool" where
  "may_release f \<longleftrightarrow> rf_path f \<noteq> ''/login'' \<or> \<not> rf_auth f"

text \<open>A run of the effect cancels the frame and the observer of the one before.\<close>

definition fade_effect :: "route_fade \<Rightarrow> route_fade" where
  "fade_effect f = f\<lparr>rf_frame := True, rf_observing := False\<rparr>"

datatype fade_op = Navigated string | AuthKnown bool | AnimationFrame | ContentChanged bool

fun fade_step :: "fade_op \<Rightarrow> route_fade \<Rightarrow> route_fade" where
  "fade_step (Navigated path) f =
     (if path = rf_path f then f
      else fade_effect (f\<lparr>rf_path := path, rf_isInitialRender := False, rf_visible := False\<rparr>))"
| "fade_step (AuthKnown signedIn) f = (if signedIn = rf_auth f then f else fade_effect (f\<lparr>rf_auth := signedIn\<rparr>))"
| "fade_step AnimationFrame f =
     (if \<not> rf_frame f then f
      else let f1 = f\<lparr>rf_frame := False, rf_visible := True\<rparr> in
        if \<not> may_release f then f1
        else if rf_content f then f1\<lparr>rf_bootShell := False\<rparr> else f1\<lparr>rf_observing := True\<rparr>)"
| "fade_step (ContentChanged c) f =
     (let f1 = f\<lparr>rf_content := c\<rparr> in
      if rf_observing f \<and> c then f1\<lparr>rf_bootShell := False, rf_observing := False\<rparr> else f1)"

definition fade_run :: "fade_op list \<Rightarrow> route_fade \<Rightarrow> route_fade" where
  "fade_run ops f = foldl (\<lambda>f op. fade_step op f) f ops"

definition fade_ok :: "route_fade \<Rightarrow> bool" where
  "fade_ok f \<longleftrightarrow> (rf_observing f \<longrightarrow> may_release f) \<and> (rf_visible f \<or> rf_frame f)"

lemma fade_step_ok: "fade_ok f \<Longrightarrow> fade_ok (fade_step op f)"
  by (cases op) (auto simp: fade_ok_def may_release_def fade_effect_def Let_def)

lemma fade_run_ok: "fade_ok f \<Longrightarrow> fade_ok (fade_run ops f)"
  by (induction ops arbitrary: f) (simp_all add: fade_run_def fade_step_ok)

lemma fade_mount_ok: "fade_ok (fade_mount path signedIn shell content)"
  by (simp add: fade_ok_def fade_mount_def)

lemma fade_run_snoc: "fade_run (ops @ [op]) f = fade_step op (fade_run ops f)"
  by (simp add: fade_run_def)

lemma boot_shell_step: "rf_bootShell (fade_step op f) \<Longrightarrow> rf_bootShell f"
  by (cases op) (auto simp: fade_effect_def Let_def split: if_splits)

text \<open>The boot screen goes only for a page. At the step that removes it the route has content and is not the
  sign-in page of a visitor who is signed in, so the redirect from there to the dashboard is covered; once
  gone it does not come back; and a page is never left invisible, for a frame is always due.\<close>

theorem boot_screen_covers_redirect:
  assumes "rf_bootShell (fade_run ops (fade_mount path signedIn True content))"
    "\<not> rf_bootShell (fade_run (ops @ [op]) (fade_mount path signedIn True content))"
  shows "rf_content (fade_run (ops @ [op]) (fade_mount path signedIn True content))
    \<and> (rf_path (fade_run (ops @ [op]) (fade_mount path signedIn True content)) \<noteq> ''/login''
        \<or> \<not> rf_auth (fade_run (ops @ [op]) (fade_mount path signedIn True content)))
    \<and> \<not> rf_bootShell (fade_run rest (fade_run (ops @ [op]) (fade_mount path signedIn True content)))
    \<and> (let f = fade_run rest (fade_mount path signedIn True content) in rf_visible (fade_step AnimationFrame f))"
proof -
  define f where "f = fade_run ops (fade_mount path signedIn True content)"
  have ok: "fade_ok f" unfolding f_def by (rule fade_run_ok [OF fade_mount_ok])
  have shell: "rf_bootShell f" "\<not> rf_bootShell (fade_step op f)" using assms by (simp_all add: f_def fade_run_snoc)
  have "rf_content (fade_step op f) \<and> (rf_path (fade_step op f) \<noteq> ''/login'' \<or> \<not> rf_auth (fade_step op f))"
    using ok shell by (cases op) (auto simp: fade_ok_def may_release_def fade_effect_def Let_def split: if_splits)
  moreover have "\<not> rf_bootShell g \<Longrightarrow> \<not> rf_bootShell (fade_run rest g)" for g
    by (induction rest arbitrary: g) (auto simp: fade_run_def dest: boot_shell_step)
  moreover have "rf_visible (fade_step AnimationFrame (fade_run rest (fade_mount path signedIn True content)))"
    using fade_run_ok [OF fade_mount_ok, of rest path signedIn True content] by (auto simp: fade_ok_def Let_def)
  ultimately show ?thesis using shell(2) by (simp add: fade_run_snoc f_def [symmetric])
qed

lemma boot_screen_covers_redirect_witness:
  "rf_content (fade_run ([AnimationFrame, Navigated ''/dashboard'', AnimationFrame] @ [ContentChanged True]) (fade_mount ''/login'' True True False))"
proof -
  have "rf_bootShell (fade_run [AnimationFrame, Navigated ''/dashboard'', AnimationFrame] (fade_mount ''/login'' True True False))"
    "\<not> rf_bootShell (fade_run ([AnimationFrame, Navigated ''/dashboard'', AnimationFrame] @ [ContentChanged True]) (fade_mount ''/login'' True True False))"
    by (simp_all add: fade_run_def fade_mount_def fade_effect_def may_release_def Let_def)
  from boot_screen_covers_redirect [OF this] show ?thesis by blast
qed

text \<open>A page that gets its content is always uncovered: once a page other than that redirect is settled
  on, the next frame and its content remove the boot screen, in either order.\<close>

lemma boot_screen_goes:
  assumes "may_release f" "rf_frame f"
  shows "\<not> rf_bootShell (fade_run [AnimationFrame, ContentChanged True] f)" "\<not> rf_bootShell (fade_run [ContentChanged True, AnimationFrame] f)"
  using assms by (auto simp: fade_run_def may_release_def Let_def)

text \<open>A stylesheet that is not there when the script runs, and then fails, leaves the boot screen for good.\<close>

lemma failed_stylesheet_never_mounts:
  "\<not> mounted_after (Some None) (replicate n SheetFailed)" "mounted_after None []" "mounted_after (Some None) [SheetLoaded]"
  "mounted_after (Some (Some (Some 12))) []"
  by (auto simp: mounted_after_def boot_plan_def stylesheetIsReady_def)

section \<open>Progress of lazy pages\<close>

text \<open>
  \<open>trackedLazy\<close> counts an import when it starts and again when it settles, fulfilled or not; the bar is shown
  while the count is positive.
\<close>

datatype load_event = LoadStarted | LoadSettled

definition load_step :: "load_event \<Rightarrow> int \<Rightarrow> int" where
  "load_step e n = (case e of LoadStarted \<Rightarrow> startRouteLoad n | LoadSettled \<Rightarrow> finishRouteLoad n)"

definition progress_bar :: "load_event list \<Rightarrow> bool" where
  "progress_bar es \<longleftrightarrow> foldl (\<lambda>n e. load_step e n) 0 es > 0"

definition outstanding :: "load_event list \<Rightarrow> int" where
  "outstanding es = sum_list (map (\<lambda>e. case e of LoadStarted \<Rightarrow> 1 | LoadSettled \<Rightarrow> -1) es)"

lemma load_count:
  "\<forall>k. 0 \<le> outstanding (take k es) \<Longrightarrow> foldl (\<lambda>n e. load_step e n) 0 es = outstanding es"
proof (induction es rule: rev_induct)
  case (snoc e es)
  have nn: "0 \<le> outstanding (es @ [e])" "0 \<le> outstanding es"
    using snoc.prems [rule_format, of "Suc (length es)"] snoc.prems [rule_format, of "length es"] by simp_all
  have "\<forall>k. 0 \<le> outstanding (take k es)"
  proof
    fix k
    show "0 \<le> outstanding (take k es)"
      using snoc.prems [rule_format, of k] nn(2) by (cases "k \<le> length es") auto
  qed
  with snoc.IH nn show ?case
    by (cases e) (simp_all add: outstanding_def load_step_def startRouteLoad_def finishRouteLoad_def)
qed (simp add: outstanding_def)

text \<open>Several pages can load at once: the bar is up exactly while one of them has not settled.\<close>

lemma progress_bar_outstanding:
  "\<forall>k. 0 \<le> outstanding (take k es) \<Longrightarrow> progress_bar es \<longleftrightarrow> 0 < outstanding es"
  using load_count [of es] by (auto simp: progress_bar_def)

section \<open>Title and announcements\<close>

definition titleFromPage :: "string \<Rightarrow> string option \<Rightarrow> string" where
  "titleFromPage app heading =
     (case heading of None \<Rightarrow> app | Some h \<Rightarrow> if trim h = [] then app else trim h @ '' | '' @ app)"

text \<open>The first page is not announced; a later one is, once the title has had time to catch up.\<close>

record announcer =
  ra_firstRender :: bool
  ra_timer :: "nat option"
  ra_announcement :: string

definition announcer_mount :: announcer where
  "announcer_mount = \<lparr>ra_firstRender = True, ra_timer = None, ra_announcement = []\<rparr>"

definition announce_path :: "nat \<Rightarrow> announcer \<Rightarrow> announcer" where
  "announce_path now a = (if ra_firstRender a then a\<lparr>ra_firstRender := False\<rparr> else a\<lparr>ra_timer := Some (now + 400)\<rparr>)"

definition announce_tick :: "string \<Rightarrow> nat \<Rightarrow> string option \<Rightarrow> announcer \<Rightarrow> announcer" where
  "announce_tick app now heading a =
     (case ra_timer a of
        Some due \<Rightarrow> if due \<le> now then a\<lparr>ra_timer := None, ra_announcement := titleFromPage app heading\<rparr> else a
      | None \<Rightarrow> a)"

text \<open>A path passed through in less than the delay is not read out: only the last of a quick sequence is.\<close>

lemma quick_navigation_announced_once:
  assumes "\<not> ra_firstRender a" "later < now + 400"
  shows "announce_tick app (later + 400) h2 (announce_path later (announce_tick app later h1 (announce_path now a)))
    = a\<lparr>ra_timer := None, ra_announcement := titleFromPage app h2\<rparr>"
  using assms by (simp add: announce_path_def announce_tick_def)

section \<open>Layout\<close>

datatype layout_event = ToggleSidebar | KeyPressed string | BackdropClicked | LinkFollowed

definition layout_step :: "layout_event \<Rightarrow> bool \<Rightarrow> bool" where
  "layout_step e mobileNavOpen = (case e of
       ToggleSidebar \<Rightarrow> \<not> mobileNavOpen
     | KeyPressed k \<Rightarrow> mobileNavOpen \<and> k \<noteq> ''Escape''
     | BackdropClicked \<Rightarrow> False
     | LinkFollowed \<Rightarrow> False)"

text \<open>\<open>exists'\<close> and \<open>t\<close> are the translations in the language of the frame.\<close>

definition nav_label_text :: "(string \<Rightarrow> bool) \<Rightarrow> (string \<Rightarrow> string) \<Rightarrow> string \<Rightarrow> string" where
  "nav_label_text exists' t label = (if exists' label then t label else label)"

record sidebar_view =
  sv_links :: "(string \<times> string) list"
  sv_support :: "string option"

definition sidebar_view ::
  "(string \<Rightarrow> bool) \<Rightarrow> (string \<Rightarrow> string) \<Rightarrow> string option \<Rightarrow> auth_state \<Rightarrow> nav_item list option \<Rightarrow> sidebar_view" where
  "sidebar_view exists' t support s extra =
     \<lparr>sv_links = map (\<lambda>i. (nav_to i, nav_label_text exists' t (nav_label i))) (sidebar_links s extra),
      sv_support = (if truthy support then Some (''mailto:'' @ the support) else None)\<rparr>"

text \<open>Pointing at a link, or reaching it with the keyboard, starts to load its page.\<close>

definition link_hovered :: "nav_item \<Rightarrow> prefetcher \<Rightarrow> prefetcher" where
  "link_hovered item p = prefetchRoute (nav_to item) p"

record navbar_view =
  nb_greeting :: "(string \<times> string) option"
  nb_palette :: bool

definition navbar_view :: "bool \<Rightarrow> auth_state \<Rightarrow> navbar_view" where
  "navbar_view palette s =
     \<lparr>nb_greeting = (if truthy (a_name s) then Some (initialsFor (a_name s) (a_email s), the (a_name s)) else None),
      nb_palette = palette\<rparr>"

text \<open>The picture of the logo: the build's own, else the icon in the colour picked, else the default.\<close>

definition logo_src :: "string option \<Rightarrow> string option \<Rightarrow> string" where
  "logo_src app_logo colour =
     (if truthy app_logo then the app_logo
      else if truthy colour then getBrandIconDataUri (the colour) else ''/favicon.svg'')"

text \<open>The mark in the frame and the tab's icon are the same picture, unless the build replaces either.\<close>

lemma logo_is_favicon: "logo_src None colour = favicon_href None colour"
  by (simp add: logo_src_def favicon_href_def truthy_def nullish_def)

text \<open>Nothing but the toggle opens the menu of a small screen.\<close>

lemma layout_closes: "layout_step e False \<longleftrightarrow> e = ToggleSidebar"
  by (cases e) (simp_all add: layout_step_def)

text \<open>The frame shows exactly the links that the caller's permissions give, in their order.\<close>

lemma sidebar_view_links: "map fst (sv_links (sidebar_view exists' t support s extra)) = map nav_to (sidebar_links s extra)"
  by (simp add: sidebar_view_def)

end
