(* ===== verification/Controls.thy ===== *)
theory Controls
  imports Formatting Widgets
begin

text \<open>
  The small controls that pages share: the select with a stand-in for the empty value
  (\<open>ui/filters/StyledSelect.tsx\<close>), the search box's hint (\<open>SearchInput.tsx\<close>), the row of filter chips
  (\<open>FilterChips.tsx\<close>), the row of exclusive filters (\<open>QuickFilterSegment.tsx\<close>), the summary tiles
  (\<open>ui/cards/StatTile.tsx\<close>, \<open>ui/display/StatTile.tsx\<close>), the section that folds
  (\<open>ui/display/CollapsibleSection.tsx\<close>), the password field (\<open>ui/inputs/PasswordInput.tsx\<close>) and the
  theme, language and size controls of the frame (\<open>layout/controls/\<close>).
\<close>

section \<open>StyledSelect.tsx\<close>

text \<open>
  The list widget (Radix) shows its placeholder exactly when its value is the empty text, so the empty value
  of an option is replaced at that boundary.
\<close>

definition EMPTY_VALUE_SENTINEL :: string where
  "EMPTY_VALUE_SENTINEL = ''__styled_select_empty__''"

definition toRadixValue :: "string \<Rightarrow> string" where
  "toRadixValue value = (if value = [] then EMPTY_VALUE_SENTINEL else value)"

definition fromRadixValue :: "string \<Rightarrow> string" where
  "fromRadixValue value = (if value = EMPTY_VALUE_SENTINEL then [] else value)"

record select_option =
  so_label :: string
  so_value :: string

definition radixValue :: "bool \<Rightarrow> select_option list \<Rightarrow> string \<Rightarrow> string" where
  "radixValue isLoading options value =
     (if isLoading \<or> \<not> (\<exists>x\<in>set options. so_value x = value) then [] else toRadixValue value)"

text \<open>What the trigger shows: the placeholder for the empty text, else the label of the item of that value.\<close>

definition trigger_text :: "string \<Rightarrow> string \<Rightarrow> bool \<Rightarrow> select_option list \<Rightarrow> string \<Rightarrow> string option" where
  "trigger_text loadingText placeholder isLoading options value =
     (let v = radixValue isLoading options value in
      if v = [] then Some (if isLoading then loadingText else placeholder)
      else map_option so_label (find (\<lambda>x. toRadixValue (so_value x) = v) options))"

definition select_enabled :: "bool \<Rightarrow> bool \<Rightarrow> bool" where
  "select_enabled disabled isLoading \<longleftrightarrow> \<not> (disabled \<or> isLoading)"

text \<open>Choosing the item of an option: the value the caller is told.\<close>

definition choose_item :: "select_option \<Rightarrow> string" where
  "choose_item x = fromRadixValue (toRadixValue (so_value x))"

text \<open>The select is mounted anew when its first options arrive.\<close>

definition select_key :: "select_option list \<Rightarrow> string" where
  "select_key options = (if length options > 0 then ''loaded'' else ''loading'')"

section \<open>SearchInput.tsx, FilterChips.tsx, QuickFilterSegment.tsx\<close>

datatype search_hint = NoHint | Spinner string | ResultCount string

definition search_hint :: "string \<Rightarrow> bool \<Rightarrow> nat option \<Rightarrow> (nat \<Rightarrow> string) \<Rightarrow> string \<Rightarrow> search_hint" where
  "search_hint value isFetching totalResults resultsLabel loadingLabel =
     (if trim value = [] then NoHint
      else if isFetching then Spinner loadingLabel
      else case totalResults of None \<Rightarrow> NoHint | Some n \<Rightarrow> ResultCount (resultsLabel n))"

definition SEARCH_QUERY_MAX_LENGTH :: nat where "SEARCH_QUERY_MAX_LENGTH = 100"

definition search_type :: "nat option \<Rightarrow> string \<Rightarrow> string \<Rightarrow> string" where
  "search_type maxLength old typed = (if length typed \<le> nullish maxLength SEARCH_QUERY_MAX_LENGTH then typed else old)"

text \<open>The labels of the chips and the number on the button that clears them all; nothing without chips.\<close>

definition filter_chips :: "string list \<Rightarrow> (string list \<times> nat) option" where
  "filter_chips labels = (if length labels = 0 then None else Some (labels, length labels))"

record quick_option =
  qo_value :: string
  qo_disabled :: bool

text \<open>The value after a click on an option, and which options read as chosen.\<close>

definition segment_click :: "bool \<Rightarrow> quick_option \<Rightarrow> string \<Rightarrow> string" where
  "segment_click disabled x value = (if disabled \<or> qo_disabled x then value else qo_value x)"

definition segment_on :: "quick_option list \<Rightarrow> string \<Rightarrow> quick_option list" where
  "segment_on options value = filter (\<lambda>x. value = qo_value x) options"

section \<open>Tiles\<close>

datatype tile_number = TileSkeleton | TileDash | TileNumber ustring

text \<open>The tile of the management pages: a dash (code unit 0x2013) for a failed read or an unknown number.\<close>

definition card_tile :: "language \<Rightarrow> nat option \<Rightarrow> bool \<Rightarrow> bool \<Rightarrow> tile_number" where
  "card_tile lang value isLoading isError =
     (if isLoading then TileSkeleton
      else if isError \<or> value = None then TileDash
      else TileNumber (formatNumber (map_option (\<lambda>n. Number (int n)) value) lang))"

text \<open>The plain tile has no error state: an unknown number is formatted, as a hyphen.\<close>

definition display_tile :: "language \<Rightarrow> nat option \<Rightarrow> bool \<Rightarrow> tile_number" where
  "display_tile lang value isLoading =
     (if isLoading then TileSkeleton else TileNumber (formatNumber (map_option (\<lambda>n. Number (int n)) value) lang))"

section \<open>CollapsibleSection.tsx, PasswordInput.tsx\<close>

text \<open>A section is controlled if its owner gives it the open state, and then only the owner changes it.\<close>

record section_state =
  cs_own :: bool
  cs_controlled :: "bool option"
  cs_owner_toggles :: bool

definition section_mount :: "bool option \<Rightarrow> bool \<Rightarrow> section_state" where
  "section_mount controlled owner = \<lparr>cs_own = True, cs_controlled = controlled, cs_owner_toggles = owner\<rparr>"

definition section_open :: "bool \<Rightarrow> section_state \<Rightarrow> bool" where
  "section_open staticOpen s \<longleftrightarrow> staticOpen \<or> nullish (cs_controlled s) (cs_own s)"

text \<open>The header's click; the second component says that the owner is told.\<close>

definition section_toggle :: "section_state \<Rightarrow> section_state \<times> bool" where
  "section_toggle s = (if cs_owner_toggles s then (s, True) else (s\<lparr>cs_own := \<not> cs_own s\<rparr>, False))"

definition password_type :: "bool \<Rightarrow> string" where
  "password_type visible = (if visible then ''text'' else ''password'')"

definition password_label :: "(string \<Rightarrow> string) \<Rightarrow> bool \<Rightarrow> string" where
  "password_label t visible = (if visible then t ''hidePassword'' else t ''showPassword'')"

section \<open>The controls of the frame\<close>

definition theme_label :: "(string \<Rightarrow> string) \<Rightarrow> prefs \<Rightarrow> string" where
  "theme_label t p = (if p_colorMode p = Dark then t ''switchToLightMode'' else t ''switchToDarkMode'')"

definition language_options :: "(language_mode \<Rightarrow> string) \<Rightarrow> (string \<times> string) list" where
  "language_options label = map (\<lambda>m. (language_mode_name m, label m)) LANGUAGE_MODES"

definition font_options :: "(string \<Rightarrow> string) \<Rightarrow> (string \<times> string) list" where
  "font_options t = map (\<lambda>s. (size_name s, t (''fontSize.'' @ size_name s))) FONT_SIZES"

text \<open>Choosing by name: \<open>setMode\<close> and \<open>setFontSize\<close> with the option of that name.\<close>

definition choose_language :: "string \<Rightarrow> prefs \<Rightarrow> prefs" where
  "choose_language v p = (case find (\<lambda>m. language_mode_name m = v) LANGUAGE_MODES of None \<Rightarrow> p | Some m \<Rightarrow> setMode m p)"

definition choose_font_size :: "string \<Rightarrow> prefs \<Rightarrow> prefs" where
  "choose_font_size v p = (case find (\<lambda>s. size_name s = v) FONT_SIZES of None \<Rightarrow> p | Some s \<Rightarrow> setFontSize s p)"

section \<open>Properties\<close>

lemma radix_roundtrip: "v \<noteq> EMPTY_VALUE_SENTINEL \<Longrightarrow> fromRadixValue (toRadixValue v) = v"
  by (simp add: fromRadixValue_def toRadixValue_def)

lemma toRadixValue_inj:
  "v \<noteq> EMPTY_VALUE_SENTINEL \<Longrightarrow> w \<noteq> EMPTY_VALUE_SENTINEL \<Longrightarrow> toRadixValue v = toRadixValue w \<longleftrightarrow> v = w"
  by (auto simp: toRadixValue_def)

lemma toRadixValue_nonempty [simp]: "toRadixValue v \<noteq> []"
  by (simp add: toRadixValue_def EMPTY_VALUE_SENTINEL_def)

lemma find_cong_set: "(\<And>x. x \<in> set xs \<Longrightarrow> P x = Q x) \<Longrightarrow> find P xs = find Q xs"
  by (induction xs) auto

text \<open>The select tells the truth about its value. Whatever the options, as long as none uses the stand-in,
  choosing one tells the caller exactly its value, the empty one too; the trigger shows the label of
  the first option with the current value, and the placeholder exactly when there is none or the
  options are still loading.\<close>

theorem select_faithful:
  assumes "EMPTY_VALUE_SENTINEL \<notin> so_value ` set options" "x \<in> set options" "value \<noteq> EMPTY_VALUE_SENTINEL"
  shows "choose_item x = so_value x
    \<and> trigger_text loadingText placeholder False options (choose_item x) = map_option so_label (find (\<lambda>y. so_value y = so_value x) options)
    \<and> trigger_text loadingText placeholder True options value = Some loadingText
    \<and> trigger_text loadingText placeholder False options value =
        (case find (\<lambda>y. so_value y = value) options of None \<Rightarrow> Some placeholder | Some y \<Rightarrow> Some (so_label y))"
proof -
  have opt: "y \<in> set options \<Longrightarrow> so_value y \<noteq> EMPTY_VALUE_SENTINEL" for y using assms(1) by (metis imageI)
  then have chosen: "choose_item x = so_value x" using assms(2) by (simp add: choose_item_def radix_roundtrip)
  have found: "trigger_text loadingText placeholder False options v = (case find (\<lambda>y. so_value y = v) options of None \<Rightarrow> Some placeholder | Some y \<Rightarrow> Some (so_label y))"
    if v: "v \<noteq> EMPTY_VALUE_SENTINEL" for v
  proof (cases "\<exists>y\<in>set options. so_value y = v")
    case True
    have "find (\<lambda>y. toRadixValue (so_value y) = toRadixValue v) options = find (\<lambda>y. so_value y = v) options"
      by (rule find_cong_set) (use opt v in \<open>simp add: toRadixValue_inj\<close>)
    moreover have "find (\<lambda>y. so_value y = v) options \<noteq> None" using True by (auto simp: find_None_iff)
    ultimately show ?thesis using True by (auto simp: trigger_text_def radixValue_def Let_def)
  next
    case False
    then have "find (\<lambda>y. so_value y = v) options = None" by (auto simp: find_None_iff)
    with False show ?thesis by (auto simp: trigger_text_def radixValue_def Let_def)
  qed
  have "find (\<lambda>y. so_value y = so_value x) options \<noteq> None" using assms(2) by (auto simp: find_None_iff)
  then show ?thesis
    using chosen found [OF assms(3)] found [OF opt [OF assms(2)]] by (auto simp: trigger_text_def radixValue_def)
qed

lemma select_faithful_witness:
  "trigger_text ''Loading'' ''Pick one'' False [\<lparr>so_label = ''All'', so_value = []\<rparr>, \<lparr>so_label = ''Active'', so_value = ''active''\<rparr>]
     (choose_item \<lparr>so_label = ''All'', so_value = []\<rparr>) = Some ''All''"
proof -
  let ?os = "[\<lparr>so_label = ''All'', so_value = []\<rparr>, \<lparr>so_label = ''Active'', so_value = ''active''\<rparr>]" and ?x = "\<lparr>so_label = ''All'', so_value = []\<rparr>"
  have "EMPTY_VALUE_SENTINEL \<notin> so_value ` set ?os" "?x \<in> set ?os" "''active'' \<noteq> EMPTY_VALUE_SENTINEL"
    by (simp_all add: EMPTY_VALUE_SENTINEL_def)
  from select_faithful [OF this, of "''Loading''" "''Pick one''", THEN conjunct2, THEN conjunct1]
  have "trigger_text ''Loading'' ''Pick one'' False ?os (choose_item ?x) = map_option so_label (find (\<lambda>y. so_value y = so_value ?x) ?os)" .
  also have "\<dots> = Some ''All''" by simp
  finally show ?thesis .
qed

text \<open>A failed count is a dash on a management tile and never a number.\<close>

lemma card_tile_error: "card_tile lang value isLoading True \<noteq> TileNumber n"
  by (simp add: card_tile_def)

text \<open>The plain tile shows a hyphen for an unknown number.\<close>

lemma display_tile_unknown: "display_tile lang None False = TileNumber (codes ''-'')"
  by (simp add: display_tile_def formatNumber_def)

text \<open>A controlled section opens and closes with its owner alone.\<close>

lemma controlled_section: "cs_controlled s = Some v \<Longrightarrow> section_open False (fst (section_toggle s)) = v"
  by (simp add: section_toggle_def section_open_def nullish_def)

text \<open>Every language and every size offered can be chosen, by the name it is offered under.\<close>

lemma choose_language_offered: "m \<in> set LANGUAGE_MODES \<Longrightarrow> choose_language (language_mode_name m) p = setMode m p"
  using stored_mode_name [of m] by (simp add: choose_language_def stored_mode_def)

lemma choose_font_size_offered: "choose_font_size (size_name s) p = setFontSize s p"
  by (cases s) (simp_all add: choose_font_size_def FONT_SIZES_def size_name_def)

text \<open>No hint is shown for a blank search, and none is shown twice.\<close>

lemma search_hint_blank: "trim value = [] \<longleftrightarrow> search_hint value True totalResults rl ll = NoHint"
  by (simp add: search_hint_def)

end
