(* ===== verification/Spec2Isabelle.thy ===== *)
theory Spec2Isabelle
  imports SessionEvents CrossTab AuthFlows AuthForms Toaster UsersPage PoliciesPage UserAccess Preferences CommandPalette
    PageTabs Formatting AuditLog ActiveSessions RateLimits Permissions BulkAccess AccessTabs PolicyDialogs
    Dashboard LogDetails Appearance PasskeysTab Shell Controls
begin

text \<open>
  A verification development for the browser front end of the \<open>mystic-auth\<close> starter
  (\<open>src/frontend/src\<close>): authentication and authorization in the browser, and the administration pages
  built on them. Paths below are relative to \<open>src/frontend/src/mystic_auth\<close>.

  \<^bold>\<open>The program and its parts.\<close> A React application talks to a JSON API through one HTTP client. Its
  session lives in HTTP-only cookies; what the browser knows of it is the auth store: whether the caller is signed
  in, who it is, and which actions it holds. Every page asks that store what to fetch and what to offer. A
  response interceptor renews an expired session behind the caller's back, across tabs, and ends it when
  that fails. Reads go through a query cache, writes through mutations that invalidate parts of it and tell the
  user through toasts. The server decides every request again; what is proved here is what the browser asks for
  and shows, not what the server grants.

  \<^bold>\<open>The theories, in dependency order.\<close>

  \<^item> \<open>Prelude\<close>, \<open>Collections\<close>: the part of JavaScript and of its library the code uses; insertion-ordered maps,
    grouping, stable sorting. Their interfaces are the locales \<open>membership_toggle\<close>, \<open>ordered_map\<close>, \<open>js_comparator\<close> and
    \<open>page_counter\<close>, each interpreted where its provider is defined.
  \<^item> \<open>ApiTypes\<close>, \<open>Api\<close> (\<open>api/*_api.ts\<close>): payloads, and one definition per client function giving its request.
  \<^item> \<open>AuthStore\<close> (\<open>store/authStore.ts\<close>, \<open>authorization/\<close>): the store, permission checks, the gates and the
    protected routes, which fail closed; the locale \<open>auth_gate\<close>.
  \<^item> \<open>Grants\<close> (\<open>policies/logic/effectiveGrants.ts\<close>): what policies and direct grants amount to.
  \<^item> \<open>AppState\<close>, \<open>Session\<close>, \<open>SessionEvents\<close>, \<open>CrossTab\<close> (\<open>auth/session_lifecycle/\<close>): the interceptor, the single
    flight of refreshes, permission pushes and idle expiry, and the rotation of one cookie by several tabs, with web
    locks or with a lease in local storage, as step relations over interleavings.
  \<^item> \<open>Mutations\<close>, \<open>Queries\<close> (\<open>*/queries/\<close>): requests, error messages, invalidations, chunked bulk requests (locale
    \<open>grant_mutation\<close>); cache keys, conditions, the collection of every matching user.
  \<^item> \<open>AuthFlows\<close>, \<open>AuthForms\<close>: signing in and out, the account mutations, passkeys; the forms and the pages reached
    from an email, each as a state machine whose answers are steps.
  \<^item> \<open>Toaster\<close>, \<open>Selection\<close>, \<open>Widgets\<close> (\<open>ui/\<close>): the toast queue with its timers, selection, sorting, paging, tables,
    pickers, confirmations and the smaller controls.
  \<^item> \<open>Preferences\<close> (\<open>store/\<close>, \<open>theme/\<close>): what the browser keeps, with the locale \<open>persisted_pref\<close>; the loading of a
    language as a step relation.
  \<^item> \<open>Navigation\<close>, \<open>TextSearch\<close>, \<open>CommandPalette\<close>, \<open>PageTabs\<close>, \<open>Urls\<close>: routes and links, search, the
    command palette, pages whose tabs are in the URL, the query strings pages exchange, and the frame around them.
  \<^item> \<open>UsersPage\<close>, \<open>UsersTable\<close>, \<open>UserAccess\<close>, \<open>AccessTabs\<close>, \<open>BulkAccess\<close> (\<open>users/\<close>): the list of users with its filters,
    selection and row actions, the access of one user, and of many.
  \<^item> \<open>PolicyText\<close>, \<open>PolicyForm\<close>, \<open>PoliciesPage\<close>, \<open>PoliciesView\<close>, \<open>PolicyDialogs\<close> (\<open>policies/\<close>): labels and lists, the
    form, the page's state and requests, what it shows, and its dialogs as one screen.
  \<^item> \<open>AuditLog\<close>, \<open>LogDetails\<close> (\<open>audit_log/\<close>): the filters, queries and chart of the two logs; their columns, details
    and keyboard.
  \<^item> \<open>Permissions\<close> (\<open>permissions/\<close>), \<open>ActiveSessions\<close>, \<open>RateLimits\<close>, \<open>Dashboard\<close>, \<open>Formatting\<close>: the other pages,
    and numbers, dates and names as the interface shows them.
  \<^item> \<open>Appearance\<close> (\<open>account_settings/AppearanceCard.tsx\<close>), \<open>PasskeysTab\<close> (\<open>passkeys/\<close>): two tabs of the settings, the
    brand colour with its debounced commit and the passkeys whose names are edited in place.
  \<^item> \<open>Controls\<close>, \<open>Shell\<close>: the small controls pages share, and the frame around them, from the boot screen to the
    error screen.

  \<^bold>\<open>How the model corresponds to the code.\<close> A store or component state is a record with the code's field names; an
  operation or handler is a definition with the code's name, its guards taken from the code's conditions. A
  handler that awaits an answer is cut in two, and the answer is an argument or a step, so that other steps come in
  between. A render that adjusts state is a function applied after each step. What a component shows is a
  value: the rows, options or buttons in order, with whether each can be used. Errors are values (\<open>Inl\<close>, or
  \<open>Rejected\<close> for a request).

  \<^bold>\<open>What the lemmas show.\<close> Permission checks fail closed, also while permissions are being re-read; protected
  routes remember that they were open; an expired session is renewed at most once per request and one refresh
  serves every waiting caller and tab; an effective-grant computation agrees with its declarative reading and
  shortening it loses nothing; bulk work covers every target exactly once; selections, dialogs and rollbacks act on
  what was shown; filters, chips and counts agree; links between pages carry what the other page reads;
  preferences and formats survive a round trip; toasts leave; the details of a log follow a cursor on it; a
  colour or a name is sent only when well-formed; the boot screen goes only for a page. Several theorems state defects of the
  code: behaviour that contradicts a comment, another part of the code, or what the screen says.

  \<^bold>\<open>Parameters and bounds.\<close> A JavaScript string is a list of code units below 256, on which every operation is exact;
  texts with larger units (native digits, month names, the ellipsis) are lists of numbers. Translated texts,
  locale-aware comparison, calendar fields of a date, the runtime's number formats, \<open>JSON.parse\<close> and the browser's
  validity check of an email field are parameters. The chart's geometry is over rationals where the code uses doubles.
  Loops are structural or have a measure; there is no fuel. A loop that may not end (the lease of
  \<open>crossTabRefresh.ts\<close>) is a step relation, and that it can starve is a theorem. Where the query library decides whether
  a callback runs, its documented rule is written out where it is used; where a theorem is about what its cache then
  holds or shows, the cache is a parameter and the documented rules are a hypothesis (\<open>query_client_laws\<close>,
  \<open>cached_query_laws\<close>), met by a concrete cache in the witness.

  \<^bold>\<open>Not modelled.\<close> The Python service (\<open>src/backend\<close>), whose answers are arguments (only the event types and
  sortable columns that the audit logs have to agree with are written out, and the permissions of the routes that the
  access dialog reads from, which its queries are checked against); generated code, the component
  library (\<open>ui/shadcn\<close>) and other third-party packages; class names, icons, focus and animation, which the
  state does not depend on; the translation files; the brand colour scale (\<open>theme/generateBrandScale.ts\<close>), arithmetic of
  a colour library over floating point.
\<close>

end
